(* ===== verification/Prelude.thy ===== *)
theory Prelude
  imports Main "HOL-Library.Word" "HOL-Library.Multiset"
begin

text \<open>
  Shared vocabulary of the kernel model: machine types, the result type of fallible
  operations, checked and saturating \<open>usize\<close> arithmetic, slot searches over a
  \<open>Vec<Option<T>>\<close>, little-endian byte codecs, and the generic list lemmas that the
  component theories rely on.  Two collections gather facts across the theories:
  \<open>arith_ops\<close> unfolds the Rust arithmetic helpers and \<open>slot_simps\<close> describes slot
  searches and slot updates.
\<close>

named_theorems arith_ops \<open>unfolding rules for Rust integer helpers\<close>
named_theorems slot_simps \<open>characterisations of slot searches and updates\<close>

subsection \<open>Machine types and results\<close>

type_synonym u8 = "8 word"
type_synonym u16 = "16 word"
type_synonym u32 = "32 word"
type_synonym u64 = "64 word"

text \<open>\<open>usize\<close> values (indices, byte counts, addresses) are natural numbers below \<open>2 ^ 64\<close>;
  every place where the source relies on checked, saturating or wrapping arithmetic says so
  through the helpers below.\<close>

type_synonym usize = nat

abbreviation Ok :: "'a \<Rightarrow> 'e + 'a" where
  "Ok \<equiv> Inr"

abbreviation Err :: "'e \<Rightarrow> 'e + 'a" where
  "Err \<equiv> Inl"

definition is_ok :: "'e + 'a \<Rightarrow> bool" where
  "is_ok r = (case r of Inl _ \<Rightarrow> False | Inr _ \<Rightarrow> True)"

definition ok_or :: "'e \<Rightarrow> 'a option \<Rightarrow> 'e + 'a" where
  "ok_or e x = (case x of None \<Rightarrow> Err e | Some a \<Rightarrow> Ok a)"

definition map_err :: "('e \<Rightarrow> 'f) \<Rightarrow> 'e + 'a \<Rightarrow> 'f + 'a" where
  "map_err f r = (case r of Inl e \<Rightarrow> Err (f e) | Inr a \<Rightarrow> Ok a)"

definition usize_max :: usize where
  "usize_max = 2 ^ 64 - 1"

definition checked_add :: "usize \<Rightarrow> usize \<Rightarrow> usize option" where
  [arith_ops]: "checked_add a b = (if a + b \<le> usize_max then Some (a + b) else None)"

definition checked_mul :: "usize \<Rightarrow> usize \<Rightarrow> usize option" where
  [arith_ops]: "checked_mul a b = (if a * b \<le> usize_max then Some (a * b) else None)"

definition saturating_add :: "usize \<Rightarrow> usize \<Rightarrow> usize" where
  [arith_ops]: "saturating_add a b = min (a + b) usize_max"

definition saturating_mul :: "usize \<Rightarrow> usize \<Rightarrow> usize" where
  [arith_ops]: "saturating_mul a b = min (a * b) usize_max"

definition saturating_sub :: "usize \<Rightarrow> usize \<Rightarrow> usize" where
  [arith_ops]: "saturating_sub a b = a - b"

text \<open>\<open>set.contains(want)\<close> of a \<open>bitflags\<close> type: every wanted bit is present.\<close>

definition flags_contain :: "'a::len word \<Rightarrow> 'a word \<Rightarrow> bool" where
  "flags_contain have want \<longleftrightarrow> and have want = want"

subsection \<open>Searching and updating slots\<close>

text \<open>Position of the first element satisfying a predicate, as an
  \<open>iter().enumerate()\<close> loop with an early return finds it.\<close>

primrec find_index :: "('a \<Rightarrow> bool) \<Rightarrow> 'a list \<Rightarrow> nat option" where
  "find_index P [] = None"
| "find_index P (x # xs) = (if P x then Some 0 else map_option Suc (find_index P xs))"

text \<open>The same loop over \<open>iter().enumerate().rev()\<close>: the last matching position.\<close>

definition find_last_index :: "('a \<Rightarrow> bool) \<Rightarrow> 'a list \<Rightarrow> nat option" where
  "find_last_index P xs =
     map_option (\<lambda>i. length xs - 1 - i) (find_index P (rev xs))"

text \<open>\<open>vec.get(i)\<close>.\<close>

definition vec_get :: "'a list \<Rightarrow> nat \<Rightarrow> 'a option" where
  "vec_get xs i = (if i < length xs then Some (xs ! i) else None)"

text \<open>\<open>Vec::dedup\<close>: drop consecutive repetitions.\<close>

fun dedup :: "'a list \<Rightarrow> 'a list" where
  "dedup (x # y # zs) = (if x = y then dedup (y # zs) else x # dedup (y # zs))"
| "dedup xs = xs"

subsection \<open>Little-endian codecs\<close>

text \<open>\<open>to_le_bytes\<close> and \<open>from_le_bytes\<close> of the unsigned integer types.\<close>

definition to_le :: "nat \<Rightarrow> 'a::len word \<Rightarrow> u8 list" where
  "to_le n w = map (\<lambda>i. ucast (drop_bit (8 * i) w)) [0..<n]"

primrec from_le :: "u8 list \<Rightarrow> 'a::len word" where
  "from_le [] = 0"
| "from_le (b # bs) = or (ucast b) (push_bit 8 (from_le bs))"

text \<open>\<open>bytes[a..b]\<close>.\<close>

definition slice :: "nat \<Rightarrow> nat \<Rightarrow> 'a list \<Rightarrow> 'a list" where
  "slice a b xs = take (b - a) (drop a xs)"

text \<open>A string literal \<open>b"..."\<close>.\<close>

definition ascii :: "string \<Rightarrow> u8 list" where
  "ascii s = map of_char s"

subsection \<open>Generic lemmas\<close>

lemma is_ok_simps [simp]: "is_ok (Inr a)" "\<not> is_ok (Inl e)"
  by (simp_all add: is_ok_def)

lemma ok_or_simps [simp]: "ok_or e None = Inl e" "ok_or e (Some a) = Inr a"
  by (simp_all add: ok_or_def)

lemma map_err_simps [simp]: "map_err f (Inl e) = Inl (f e)" "map_err f (Inr a) = Inr a"
  by (simp_all add: map_err_def)

lemma map_err_eq_Inr [simp]: "map_err f r = Inr a \<longleftrightarrow> r = Inr a"
  by (cases r) simp_all

lemma map_err_eq_Inl: "map_err f r = Inl x \<longleftrightarrow> (\<exists>e. r = Inl e \<and> x = f e)"
  by (cases r) auto

lemma ok_or_eq_Inr [simp]: "ok_or e x = Inr a \<longleftrightarrow> x = Some a"
  by (cases x) simp_all

lemma ok_or_eq_Inl [simp]: "ok_or e x = Inl f \<longleftrightarrow> x = None \<and> f = e"
  by (cases x) auto

lemma flags_contain_bits: "flags_contain h w \<longleftrightarrow> (\<forall>n. bit w n \<longrightarrow> bit h n)"
  unfolding flags_contain_def
  by (auto simp: bit_eq_iff bit_and_iff dest: bit_imp_le_length)

lemma flags_contain_refl [simp]: "flags_contain r r"
  by (simp add: flags_contain_bits)

lemma flags_contain_trans:
  "flags_contain a b \<Longrightarrow> flags_contain b c \<Longrightarrow> flags_contain a c"
  by (simp add: flags_contain_bits)

lemma find_index_Some [slot_simps]:
  "find_index P xs = Some i \<longleftrightarrow> i < length xs \<and> P (xs ! i) \<and> (\<forall>j<i. \<not> P (xs ! j))"
proof (induction xs arbitrary: i)
  case (Cons x xs)
  show ?case by (cases i) (auto simp: Cons.IH less_Suc_eq_0_disj)
qed simp

lemma find_index_None [slot_simps]: "find_index P xs = None \<longleftrightarrow> (\<forall>x \<in> set xs. \<not> P x)"
  by (induction xs) auto

lemma find_last_index_Some [slot_simps]:
  "find_last_index P xs = Some i \<longleftrightarrow>
     i < length xs \<and> P (xs ! i) \<and> (\<forall>j. i < j \<and> j < length xs \<longrightarrow> \<not> P (xs ! j))"
  (is "?L \<longleftrightarrow> ?R")
proof
  assume ?L
  then obtain k where k: "find_index P (rev xs) = Some k" and i: "i = length xs - 1 - k"
    by (auto simp: find_last_index_def)
  have kl: "k < length xs" and Pk: "P (rev xs ! k)"
    and mn: "\<And>j. j < k \<Longrightarrow> \<not> P (rev xs ! j)"
    using k by (auto simp: find_index_Some)
  have "\<not> P (xs ! j)" if "i < j" "j < length xs" for j
    using mn[of "length xs - 1 - j"] that i kl by (simp add: rev_nth)
  then show ?R using kl Pk i by (simp add: rev_nth)
next
  assume R: ?R
  have "find_index P (rev xs) = Some (length xs - 1 - i)"
    unfolding find_index_Some
  proof (intro conjI allI impI)
    fix j assume j: "j < length xs - 1 - i"
    then have "i < length xs - Suc j" "length xs - Suc j < length xs" by auto
    then show "\<not> P (rev xs ! j)" using R j by (simp add: rev_nth)
  qed (use R in \<open>auto simp: rev_nth\<close>)
  then show ?L using R by (simp add: find_last_index_def)
qed

lemma find_last_index_None [slot_simps]:
  "find_last_index P xs = None \<longleftrightarrow> (\<forall>x \<in> set xs. \<not> P x)"
  by (simp add: find_last_index_def find_index_None)

lemma vec_get_Some [simp]: "vec_get xs i = Some x \<longleftrightarrow> i < length xs \<and> xs ! i = x"
  by (auto simp: vec_get_def)

lemma vec_get_None [simp]: "vec_get xs i = None \<longleftrightarrow> length xs \<le> i"
  by (simp add: vec_get_def not_less)

lemma vec_get_update [slot_simps]:
  "vec_get (xs[i := v]) j = (if i = j \<and> i < length xs then Some v else vec_get xs j)"
  by (auto simp: vec_get_def)

lemma sum_list_map_upd:
  fixes f :: "'a \<Rightarrow> 'b::comm_monoid_add"
  assumes "i < length xs"
  shows "sum_list (map f (xs[i := y])) + f (xs ! i) = sum_list (map f xs) + f y"
  using assms by (induction xs arbitrary: i) (auto simp: nth_Cons' ac_simps split: nat.splits)

lemma set_dedup [simp]: "set (dedup xs) = set xs"
  by (induction xs rule: dedup.induct) auto

lemma sorted_dedup:
  "sorted xs \<Longrightarrow> sorted (dedup xs) \<and> distinct (dedup (xs :: 'a::linorder list))"
proof (induction xs rule: dedup.induct)
  case (1 x y zs)
  then show ?case
    by (cases "x = y") (force simp: less_le)+
qed simp_all

lemma length_to_le [simp]: "length (to_le n w) = n"
  by (simp add: to_le_def)

lemma to_le_Suc: "to_le (Suc n) w = ucast w # to_le n (drop_bit 8 w)"
  by (simp add: to_le_def upt_rec[of 0] map_Suc_upt[symmetric] o_def drop_bit_drop_bit
      add.commute del: upt_Suc)

lemma from_le_to_le_bit:
  "bit (from_le (to_le n w) :: 'a::len word) k \<longleftrightarrow> bit (w :: 'a word) k \<and> k < 8 * n"
proof (induction n arbitrary: w k)
  case 0
  then show ?case by (simp add: to_le_def)
next
  case (Suc n)
  have "bit (from_le (to_le (Suc n) w) :: 'a word) k \<longleftrightarrow>
      bit (ucast (ucast w :: u8) :: 'a word) k \<or>
      8 \<le> k \<and> k < LENGTH('a) \<and> bit (from_le (to_le n (drop_bit 8 w)) :: 'a word) (k - 8)"
    by (auto simp: to_le_Suc bit_or_iff bit_push_bit_iff)
  also have "\<dots> \<longleftrightarrow> bit w k \<and> k < 8 * Suc n"
    unfolding Suc.IH
    by (auto simp: bit_drop_bit_eq bit_ucast_iff dest: bit_imp_le_length)
  finally show ?case .
qed

lemma from_le_to_le [simp]:
  "LENGTH('a) \<le> 8 * n \<Longrightarrow> from_le (to_le n w) = (w :: 'a::len word)"
  by (rule bit_word_eqI) (simp add: from_le_to_le_bit)

lemma slice_append [simp]:
  "length xs = a \<Longrightarrow> slice a b (xs @ ys) = take (b - a) ys"
  "b \<le> length xs \<Longrightarrow> slice a b (xs @ ys) = slice a b xs"
  by (simp_all add: slice_def)

lemma slice_append_right:
  "length xs \<le> a \<Longrightarrow> slice a b (xs @ ys) = slice (a - length xs) (b - length xs) ys"
  by (simp add: slice_def)

lemma slice_all: "length xs = b \<Longrightarrow> slice 0 b xs = xs"
  by (simp add: slice_def)

lemma slice_concat:
  "a \<le> b \<Longrightarrow> b \<le> c \<Longrightarrow> slice a b xs @ slice b c xs = slice a c xs"
  using take_add[of "b - a" "c - b" "drop a xs"] by (simp add: slice_def)

lemmas slice_simps = slice_append_right slice_all

lemma from_le_to_le_list:
  "LENGTH('a) = 8 * length bs \<Longrightarrow> to_le (length bs) (from_le bs :: 'a::len word) = bs"
proof -
  have ext: "bit (from_le bs :: 'a word) k \<longleftrightarrow> k < LENGTH('a) \<and> k < 8 * length bs \<and> bit (bs ! (k div 8)) (k mod 8)" for k
  proof (induction bs arbitrary: k)
    case (Cons b bs)
    have "bit (from_le (b # bs) :: 'a word) k \<longleftrightarrow>
        k < LENGTH('a) \<and> (k < 8 \<and> bit b k \<or> 8 \<le> k \<and> bit (from_le bs :: 'a word) (k - 8))"
      by (auto simp: bit_or_iff bit_push_bit_iff bit_ucast_iff dest: bit_imp_le_length)
    then show ?case
      by (cases "k < 8") (auto simp: Cons.IH nth_Cons' le_div_geq le_mod_geq)
  qed simp
  assume len: "LENGTH('a) = 8 * length bs"
  show ?thesis
  proof (rule nth_equalityI)
    fix i assume "i < length (to_le (length bs) (from_le bs :: 'a word))"
    then have i: "i < length bs" by simp
    show "to_le (length bs) (from_le bs :: 'a word) ! i = bs ! i"
    proof (rule bit_word_eqI)
      fix n assume "n < LENGTH(8)"
      then show "bit (to_le (length bs) (from_le bs :: 'a word) ! i) n = bit (bs ! i) n"
        using i len by (auto simp: to_le_def bit_ucast_iff bit_drop_bit_eq ext)
    qed
  qed simp
qed

lemma from_le_inj:
  assumes "LENGTH('a) = 8 * length bs"
  shows "from_le bs = (w :: 'a::len word) \<longleftrightarrow> bs = to_le (length bs) w"
proof
  show "bs = to_le (length bs) w" if "from_le bs = w" using from_le_to_le_list[OF assms] that by simp
  show "from_le bs = w" if "bs = to_le (length bs) w"
    by (subst that) (use assms in simp)
qed

end
