(* ===== verification/Ipc_Header.thy ===== *)
theory Ipc_Header
  imports Prelude
begin

text \<open>
  The 16-byte IPC message header of \<open>source/kernel/neuron/src/ipc/header.rs\<close> and its
  little-endian wire form.
\<close>

record message_header =
  src :: u32
  dst :: u32
  ty :: u16
  hflags :: u16
  hlen :: u32

definition header_new :: "u32 \<Rightarrow> u32 \<Rightarrow> u16 \<Rightarrow> u16 \<Rightarrow> u32 \<Rightarrow> message_header" where
  "header_new s d t f l = \<lparr>src = s, dst = d, ty = t, hflags = f, hlen = l\<rparr>"

definition header_to_le_bytes :: "message_header \<Rightarrow> u8 list" where
  "header_to_le_bytes h =
     to_le 4 (src h) @ to_le 4 (dst h) @ to_le 2 (ty h) @ to_le 2 (hflags h) @ to_le 4 (hlen h)"

definition header_from_le_bytes :: "u8 list \<Rightarrow> message_header" where
  "header_from_le_bytes bytes =
     \<lparr>src = from_le (slice 0 4 bytes),
      dst = from_le (slice 4 8 bytes),
      ty = from_le (slice 8 10 bytes),
      hflags = from_le (slice 10 12 bytes),
      hlen = from_le (slice 12 16 bytes)\<rparr>"

subsection \<open>Properties\<close>

text \<open>The wire form of a header is exactly 16 bytes and decoding it gives the header back;
  conversely every 16-byte array is the wire form of the header it decodes to, so the codec is a
  bijection between headers and 16-byte arrays.\<close>

theorem header_codec:
  "length (header_to_le_bytes h) = 16 \<and> header_from_le_bytes (header_to_le_bytes h) = h \<and>
   (length bs = 16 \<longrightarrow> header_to_le_bytes (header_from_le_bytes bs) = bs)"
proof (intro conjI impI)
  show "header_from_le_bytes (header_to_le_bytes h) = h"
    by (simp add: header_from_le_bytes_def header_to_le_bytes_def slice_simps)
next
  assume len: "length bs = 16"
  have conv: "to_le n (from_le (slice a b bs) :: 'a::len word) = slice a b bs"
    if "LENGTH('a) = 8 * n" "b - a = n" "b \<le> 16" for a b n
    using from_le_to_le_list[of "slice a b bs", where 'a = 'a] that len by (simp add: slice_def)
  have "header_to_le_bytes (header_from_le_bytes bs) =
      slice 0 4 bs @ slice 4 8 bs @ slice 8 10 bs @ slice 10 12 bs @ slice 12 16 bs"
    by (simp add: header_to_le_bytes_def header_from_le_bytes_def conv)
  also have "\<dots> = bs"
    using len by (simp add: slice_concat slice_all)
  finally show "header_to_le_bytes (header_from_le_bytes bs) = bs" .
qed (simp add: header_to_le_bytes_def)

theorem header_codec_witness:
  "header_to_le_bytes (header_from_le_bytes [1, 2, 3, 4, 5, 6, 7, 8, 9, 10, 11, 12, 13, 14, 15, 16]) =
     [1, 2, 3, 4, 5, 6, 7, 8, 9, 10, 11, 12, 13, 14, 15, 16]"
  using header_codec[of undefined "[1, 2, 3, 4, 5, 6, 7, 8, 9, 10, 11, 12, 13, 14, 15, 16]"] by simp

end
