(* ===== verification/Handles.thy ===== *)
theory Handles
  imports Prelude
begin

text \<open>
  Ordered maps and handle tables.  A \<open>BTreeMap\<close> is a list of key-value pairs in strictly
  ascending key order, so that iteration order is the list order.  \<open>probe\<close> is the
  identifier search shared by the timer, waitset and fence tables.  The interface
  \<open>handle_store\<close> is the contract of every table that hands out handles: fresh handles,
  no interference between handles, a hard capacity, and no use after release.
\<close>

subsection \<open>Ordered maps\<close>

type_synonym ('k, 'v) btree = "('k \<times> 'v) list"

definition bt_get :: "('k, 'v) btree \<Rightarrow> 'k \<rightharpoonup> 'v" where
  "bt_get m = map_of m"

fun bt_insert :: "'k::linorder \<Rightarrow> 'v \<Rightarrow> ('k, 'v) btree \<Rightarrow> ('k, 'v) btree" where
  "bt_insert k v [] = [(k, v)]"
| "bt_insert k v ((k', v') # m) =
     (if k < k' then (k, v) # (k', v') # m
      else if k = k' then (k, v) # m
      else (k', v') # bt_insert k v m)"

definition bt_remove :: "'k \<Rightarrow> ('k, 'v) btree \<Rightarrow> ('k, 'v) btree" where
  "bt_remove k m = filter (\<lambda>p. fst p \<noteq> k) m"

definition bt_keys :: "('k, 'v) btree \<Rightarrow> 'k list" where
  "bt_keys m = map fst m"

definition bt_contains :: "('k, 'v) btree \<Rightarrow> 'k \<Rightarrow> bool" where
  "bt_contains m k \<longleftrightarrow> bt_get m k \<noteq> None"

definition bt_wf :: "('k::linorder, 'v) btree \<Rightarrow> bool" where
  "bt_wf m \<longleftrightarrow> sorted_wrt (<) (bt_keys m)"

lemma bt_get_Nil [simp]: "bt_get [] = Map.empty"
  by (simp add: bt_get_def)

lemma bt_get_Cons: "bt_get ((k, v) # m) = (bt_get m)(k \<mapsto> v)"
  by (simp add: bt_get_def)

lemma bt_get_insert [simp]: "bt_get (bt_insert k v m) = (bt_get m)(k \<mapsto> v)"
  by (induction m) (auto simp: bt_get_Cons fun_eq_iff)

lemma bt_get_remove [simp]: "bt_get (bt_remove k m) = (bt_get m)(k := None)"
  by (induction m) (auto simp: bt_remove_def bt_get_def fun_eq_iff)

lemma bt_wf_Nil [simp]: "bt_wf []"
  by (simp add: bt_wf_def bt_keys_def)

lemma bt_wf_Cons: "bt_wf (p # m) \<longleftrightarrow> (\<forall>k \<in> set (bt_keys m). fst p < k) \<and> bt_wf m"
  by (simp add: bt_wf_def bt_keys_def)

lemma bt_dom: "dom (bt_get m) = set (bt_keys m)"
  by (simp add: bt_get_def bt_keys_def dom_map_of_conv_image_fst)

lemma set_keys_insert: "set (bt_keys (bt_insert k v m)) = insert k (set (bt_keys m))"
  by (simp flip: bt_dom)

lemma bt_wf_insert [simp]: "bt_wf m \<Longrightarrow> bt_wf (bt_insert k v m)"
proof (induction m)
  case (Cons p m)
  obtain k' v' where p: "p = (k', v')" by (cases p)
  have keys: "\<forall>x \<in> set (bt_keys m). k' < x" and wf: "bt_wf m"
    using Cons.prems by (auto simp: bt_wf_Cons p)
  show ?case
  proof (cases "k' < k")
    case True
    then show ?thesis
      using Cons.IH[OF wf] keys by (auto simp: p bt_wf_Cons set_keys_insert)
  next
    case False
    then show ?thesis
      using keys wf by (auto simp: p bt_wf_Cons bt_keys_def)
  qed
qed (simp add: bt_wf_def bt_keys_def)

lemma bt_wf_remove [simp]: "bt_wf m \<Longrightarrow> bt_wf (bt_remove k m)"
  by (induction m) (auto simp: bt_remove_def bt_wf_Cons bt_keys_def)

lemma bt_get_None: "bt_get m k = None \<longleftrightarrow> k \<notin> set (bt_keys m)"
  using bt_dom[of m] by (auto simp: domIff)

lemma bt_wf_distinct: "bt_wf m \<Longrightarrow> distinct (bt_keys m)"
  by (simp add: bt_wf_def strict_sorted_iff)

lemma bt_card: "bt_wf m \<Longrightarrow> card (dom (bt_get m)) = length m"
  using distinct_card[OF bt_wf_distinct, of m] by (simp add: bt_dom) (simp add: bt_keys_def)

lemma finite_bt_dom [simp]: "finite (dom (bt_get m))"
  by (simp add: bt_dom)

lemma bt_mem: "bt_wf m \<Longrightarrow> (k, v) \<in> set m \<longleftrightarrow> bt_get m k = Some v"
  using bt_wf_distinct[of m] by (simp add: bt_get_def bt_keys_def map_of_eq_Some_iff)

subsection \<open>Probing for a free identifier\<close>

text \<open>The allocation loop of the handle tables:
  \<open>let mut id = next; loop { next = step(next); if !table.contains_key(&id) { break; } id = next; }\<close>.
  The loop itself is \<open>probe_loop\<close>, where not returning is \<open>None\<close>; \<open>probe\<close> is the same search
  cut off after a number of iterations, which the tables use with their capacity plus one.\<close>

partial_function (option) probe_loop :: "('h \<Rightarrow> 'h) \<Rightarrow> ('h \<Rightarrow> bool) \<Rightarrow> 'h \<Rightarrow> ('h \<times> 'h) option" where
  "probe_loop step used i =
     (if \<not> used i then Some (i, step i) else probe_loop step used (step i))"

primrec probe :: "nat \<Rightarrow> ('h \<Rightarrow> 'h) \<Rightarrow> ('h \<Rightarrow> bool) \<Rightarrow> 'h \<Rightarrow> ('h \<times> 'h) option" where
  "probe 0 step used i = None"
| "probe (Suc n) step used i =
     (if \<not> used i then Some (i, step i) else probe n step used (step i))"

text \<open>\<open>next_id.wrapping_add(1)\<close>, and the variant that skips the identifier 0.\<close>

definition wrap_next :: "u32 \<Rightarrow> u32" where
  "wrap_next n = n + 1"

definition wrap_next_nonzero :: "u32 \<Rightarrow> u32" where
  "wrap_next_nonzero n = (if n + 1 = 0 then 1 else n + 1)"

lemma probe_loop_agrees: "probe n step used i = Some r \<Longrightarrow> probe_loop step used i = Some r"
proof (induction n arbitrary: i)
  case (Suc n)
  then show ?case by (subst probe_loop.simps) (auto split: if_splits)
qed simp

lemma probe_Some_fresh: "probe n step used i = Some (h, h') \<Longrightarrow> \<not> used h \<and> h' = step h"
  by (induction n arbitrary: i) (auto split: if_splits)

lemma probe_numeral [simp]:
  "probe (numeral k) step used i =
     (if \<not> used i then Some (i, step i) else probe (pred_numeral k) step used (step i))"
  by (simp add: numeral_eq_Suc)

lemma probe_None: "probe n step used i = None \<longleftrightarrow> (\<forall>k<n. used ((step ^^ k) i))"
proof (induction n arbitrary: i)
  case (Suc n)
  have "(\<forall>k<Suc n. used ((step ^^ k) i)) \<longleftrightarrow> used i \<and> (\<forall>k<n. used ((step ^^ k) (step i)))"
    by (auto simp: less_Suc_eq_0_disj funpow_swap1)
  then show ?case by (simp add: Suc.IH)
qed simp

lemma probe_succeeds:
  assumes fin: "finite {h. used h}" and card: "card {h. used h} < n"
    and inj: "inj_on (\<lambda>k. (step ^^ k) i) {..<n}"
  shows "\<exists>h. probe n step used i = Some (h, step h)"
proof (rule ccontr)
  assume "\<nexists>h. probe n step used i = Some (h, step h)"
  then have "probe n step used i = None"
    using probe_Some_fresh[of n step used i] by (cases "probe n step used i") fastforce+
  then have "(\<lambda>k. (step ^^ k) i) ` {..<n} \<subseteq> {h. used h}"
    by (auto simp: probe_None)
  from card_mono[OF fin this] card inj show False
    by (simp add: card_image)
qed

lemma wrap_next_iter: "(wrap_next ^^ k) i = i + of_nat k"
  by (induction k) (simp_all add: wrap_next_def)

lemma unat_of_nat_u32: "x < 2 ^ 32 \<Longrightarrow> unat (of_nat x :: u32) = x"
  by (simp add: unat_of_nat)

lemma of_nat_u32_inject: "x < 2 ^ 32 \<Longrightarrow> y < 2 ^ 32 \<Longrightarrow> (of_nat x :: u32) = of_nat y \<Longrightarrow> x = y"
  by (metis unat_of_nat_u32)

lemma wrap_next_inj: "n \<le> 2 ^ 32 \<Longrightarrow> inj_on (\<lambda>k. (wrap_next ^^ k) i) {..<n}"
  by (rule inj_onI, rule of_nat_u32_inject) (auto simp: wrap_next_iter)

lemma wrap_next_nonzero_unat:
  assumes "i \<noteq> 0"
  shows "unat (wrap_next_nonzero i) = unat i mod (2 ^ 32 - 1) + 1" "wrap_next_nonzero i \<noteq> 0"
proof -
  have b: "unat i < 2 ^ 32" using unsigned_less[of i, where 'a = nat] by simp
  have pos: "0 < unat i" using assms by (simp add: unat_gt_0)
  show "unat (wrap_next_nonzero i) = unat i mod (2 ^ 32 - 1) + 1"
  proof (cases "i + 1 = 0")
    case True
    then have "i = - 1" by (simp only: eq_neg_iff_add_eq_0)
    then show ?thesis
      by (simp add: wrap_next_nonzero_def unsigned_minus_1_eq_mask mask_eq_exp_minus_1)
  next
    case False
    then have "unat (i + 1) = Suc (unat i)" using unatSuc[of i] by (simp add: add.commute)
    moreover have "unat i < 2 ^ 32 - 1"
      using calculation unsigned_less[of "i + 1", where 'a = nat] by simp
    ultimately show ?thesis using pos False by (simp add: wrap_next_nonzero_def)
  qed
  show "wrap_next_nonzero i \<noteq> 0" by (simp add: wrap_next_nonzero_def)
qed

lemma wrap_next_nonzero_iter:
  assumes "i \<noteq> 0"
  shows "unat ((wrap_next_nonzero ^^ k) i) = (unat i - 1 + k) mod (2 ^ 32 - 1) + 1 \<and>
    (wrap_next_nonzero ^^ k) i \<noteq> 0"
proof (induction k)
  case 0
  have "unat i < 2 ^ 32" using unsigned_less[of i, where 'a = nat] by simp
  then show ?case using assms by (simp add: unat_gt_0)
next
  case (Suc k)
  let ?j = "(wrap_next_nonzero ^^ k) i"
  have "unat (wrap_next_nonzero ?j) = unat ?j mod (2 ^ 32 - 1) + 1"
    using wrap_next_nonzero_unat(1)[of ?j] Suc by simp
  also have "\<dots> = ((unat i - 1 + k) mod (2 ^ 32 - 1) + 1) mod (2 ^ 32 - 1) + 1"
    using Suc by simp
  also have "\<dots> = (unat i - 1 + Suc k) mod (2 ^ 32 - 1) + 1"
    by (simp only: mod_add_left_eq add_Suc_right Suc_eq_plus1 add.assoc)
  finally show ?case using wrap_next_nonzero_unat(2) Suc by simp
qed

lemma add_mod_inject_le:
  fixes a x y :: nat
  assumes "(a + x) mod m = (a + y) mod m" "x \<le> y" "y < m"
  shows "x = y"
proof -
  have "m dvd y - x"
    using assms mod_eq_dvd_iff_nat[of "a + x" "a + y" m] by auto
  moreover have "y - x < m" using assms(3) by simp
  ultimately have "y - x = 0" using nat_dvd_not_less by blast
  with assms(2) show ?thesis by simp
qed

lemma add_mod_inject:
  fixes a x y :: nat
  assumes "(a + x) mod m = (a + y) mod m" "x < m" "y < m"
  shows "x = y"
  using add_mod_inject_le[OF assms(1) _ assms(3)] add_mod_inject_le[OF assms(1)[symmetric] _ assms(2)]
  by linarith

lemma wrap_next_nonzero_inj:
  assumes "i \<noteq> 0" "n \<le> 2 ^ 32 - 1"
  shows "inj_on (\<lambda>k. (wrap_next_nonzero ^^ k) i) {..<n}"
proof (rule inj_onI)
  fix x y
  assume xy: "x \<in> {..<n}" "y \<in> {..<n}" and eq: "(wrap_next_nonzero ^^ x) i = (wrap_next_nonzero ^^ y) i"
  have "(unat i - 1 + x) mod (2 ^ 32 - 1) = (unat i - 1 + y) mod (2 ^ 32 - 1)"
    using wrap_next_nonzero_iter[OF assms(1), of x] wrap_next_nonzero_iter[OF assms(1), of y] eq
    by simp
  then show "x = y"
    by (rule add_mod_inject) (use xy assms(2) in auto)
qed

lemma probe_nonzero_succeeds:
  assumes "bt_wf m" "length m < n" "i \<noteq> 0" "n \<le> 2 ^ 32 - 1"
  shows "\<exists>h. probe n wrap_next_nonzero (bt_contains m) i = Some (h, wrap_next_nonzero h)"
proof (rule probe_succeeds)
  have eq: "{h. bt_contains m h} = dom (bt_get m)" by (auto simp: bt_contains_def)
  show "finite {h. bt_contains m h}" unfolding eq by simp
  show "card {h. bt_contains m h} < n" unfolding eq using bt_card[OF assms(1)] assms(2) by simp
qed (use assms wrap_next_nonzero_inj in auto)

lemma length_bt_insert_fresh: "bt_get m k = None \<Longrightarrow> length (bt_insert k v m) = Suc (length m)"
  by (induction m) (auto simp: bt_get_def split: if_splits)

lemma length_bt_insert_live:
  "bt_wf m \<Longrightarrow> bt_get m k \<noteq> None \<Longrightarrow> length (bt_insert k v m) = length m"
  using bt_card[of m] bt_card[of "bt_insert k v m"] by (simp add: insert_absorb domIff)

lemma length_bt_remove_le: "length (bt_remove k m) \<le> length m"
  by (simp add: bt_remove_def)

lemma probe_wrap_succeeds:
  assumes "bt_wf m" "length m < n" "n \<le> 2 ^ 32"
  shows "\<exists>h. probe n wrap_next (bt_contains m) i = Some (h, wrap_next h)"
proof (rule probe_succeeds)
  have eq: "{h. bt_contains m h} = dom (bt_get m)" by (auto simp: bt_contains_def)
  show "finite {h. bt_contains m h}" unfolding eq by simp
  show "card {h. bt_contains m h} < n" unfolding eq using bt_card[OF assms(1)] assms(2) by simp
qed (use assms wrap_next_inj in auto)

subsection \<open>The handle-table interface\<close>

locale handle_store =
  fixes wf :: "'t \<Rightarrow> bool"
    and lookup :: "'t \<Rightarrow> 'h \<rightharpoonup> 'c"
    and capacity :: "'t \<Rightarrow> nat"
    and obj :: "'a \<Rightarrow> 'c"
    and alloc :: "'a \<Rightarrow> 't \<Rightarrow> ('e + 'h) \<times> 't"
    and release :: "'h \<Rightarrow> 't \<Rightarrow> ('f + 'r) \<times> 't"
  assumes dom_finite: "wf t \<Longrightarrow> finite (dom (lookup t))"
    and dom_capacity: "wf t \<Longrightarrow> card (dom (lookup t)) \<le> capacity t"
    and alloc_some: "wf t \<Longrightarrow> alloc a t = (Inr h, t') \<Longrightarrow>
          wf t' \<and> lookup t h = None \<and> lookup t' = (lookup t)(h \<mapsto> obj a) \<and> capacity t' = capacity t"
    and alloc_none: "wf t \<Longrightarrow> alloc a t = (Inl e, t') \<Longrightarrow>
          t' = t \<and> capacity t \<le> card (dom (lookup t))"
    and release_some: "wf t \<Longrightarrow> release h t = (Inr r, t') \<Longrightarrow>
          wf t' \<and> lookup t h \<noteq> None \<and> lookup t' = (lookup t)(h := None) \<and> capacity t' = capacity t"
    and release_none: "wf t \<Longrightarrow> release h t = (Inl f, t') \<Longrightarrow>
          wf t' \<and> lookup t h = None \<and> lookup t' = lookup t \<and> capacity t' = capacity t"
begin

lemma alloc_grows:
  assumes "wf t" "alloc a t = (Inr h, t')"
  shows "card (dom (lookup t')) = Suc (card (dom (lookup t)))"
  using alloc_some[OF assms] dom_finite[OF assms(1)] by (simp add: domIff)

lemma alloc_iff_room:
  assumes "wf t"
  shows "(\<exists>h t'. alloc a t = (Inr h, t')) \<longleftrightarrow> card (dom (lookup t)) < capacity t"
proof
  assume "\<exists>h t'. alloc a t = (Inr h, t')"
  then obtain h t' where al: "alloc a t = (Inr h, t')" by blast
  from dom_capacity[of t'] alloc_some[OF assms al] alloc_grows[OF assms al]
  show "card (dom (lookup t)) < capacity t" by simp
next
  assume room: "card (dom (lookup t)) < capacity t"
  obtain res t' where al: "alloc a t = (res, t')" by (cases "alloc a t")
  with room alloc_none[OF assms, of a] show "\<exists>h t'. alloc a t = (Inr h, t')"
    by (cases res) auto
qed

lemma release_iff_live:
  assumes "wf t"
  shows "is_ok (fst (release h t)) \<longleftrightarrow> lookup t h \<noteq> None"
  using release_some[OF assms, of h] release_none[OF assms, of h]
  by (cases "release h t"; cases "fst (release h t)") auto

lemma no_use_after_release:
  assumes "wf t" "release h t = (Inr r, t1)"
  shows "lookup t1 h = None \<and> \<not> is_ok (fst (release h t1))"
  using release_some[OF assms] release_iff_live[of t1 h] by simp

lemma alloc_then_release:
  assumes "wf t" "alloc a t = (Inr h, t1)"
  shows "\<exists>r t2. release h t1 = (Inr r, t2) \<and> lookup t2 = lookup t"
proof -
  note a = alloc_some[OF assms]
  then obtain r t2 where r: "release h t1 = (Inr r, t2)"
    using release_iff_live[of t1 h] by (cases "release h t1"; cases "fst (release h t1)") auto
  with release_some[of t1 h r t2] a show ?thesis by (auto simp: fun_upd_idem)
qed

end

end
