(* ===== verification/Cap.thy ===== *)
theory Cap
  imports Handles
begin

text \<open>
  The per-task capability table of \<open>source/kernel/neuron/src/cap/mod.rs\<close>: rights, capability
  kinds, the fixed-size slot vector and its operations.  The interface \<open>slot_table\<close> states
  what the system calls rely on (allocation hands out an empty slot and touches no other,
  taking empties exactly one slot), refines the general \<open>handle_store\<close> contract and is
  interpreted for both allocation directions.
\<close>

subsection \<open>Data\<close>

type_synonym endpoint_id = u32

type_synonym rights = u32

definition SEND :: rights where "SEND = 1"
definition RECV :: rights where "RECV = 2"
definition MAP :: rights where "MAP = 4"
definition MANAGE :: rights where "MANAGE = 8"

datatype capability_kind =
    Endpoint endpoint_id
  | EndpointFactory
  | Vmo usize usize
  | DeviceMmio usize usize
  | Irq u32
  | Timer u32
  | Waitset u32
  | Fence u32
  | SchedSetAffinity

record capability =
  kind :: capability_kind
  rights :: rights

datatype cap_error = InvalidSlot | PermissionDenied | NoSpace

record endpoint_cap_ref =
  ref_slot :: usize
  ref_endpoint :: endpoint_id

record cap_table =
  slots :: "capability option list"

subsection \<open>Operations\<close>

definition cap_with_capacity :: "usize \<Rightarrow> cap_table" where
  "cap_with_capacity n = \<lparr>slots = replicate n None\<rparr>"

definition DEFAULT_CAP_SLOTS :: usize where
  "DEFAULT_CAP_SLOTS = 256"

definition cap_new :: cap_table where
  "cap_new = cap_with_capacity DEFAULT_CAP_SLOTS"

definition cap_set :: "usize \<Rightarrow> capability \<Rightarrow> cap_table \<Rightarrow> (cap_error + unit) \<times> cap_table" where
  "cap_set slot c t =
     (if length (slots t) \<le> slot then (Err InvalidSlot, t)
      else (Ok (), t\<lparr>slots := (slots t)[slot := Some c]\<rparr>))"

definition cap_set_if_empty ::
  "usize \<Rightarrow> capability \<Rightarrow> cap_table \<Rightarrow> (cap_error + unit) \<times> cap_table" where
  "cap_set_if_empty slot c t =
     (if length (slots t) \<le> slot then (Err InvalidSlot, t)
      else if slots t ! slot \<noteq> None then (Err PermissionDenied, t)
      else (Ok (), t\<lparr>slots := (slots t)[slot := Some c]\<rparr>))"

definition cap_allocate :: "capability \<Rightarrow> cap_table \<Rightarrow> (cap_error + usize) \<times> cap_table" where
  "cap_allocate c t =
     (case find_index (\<lambda>e. e = None) (slots t) of
        None \<Rightarrow> (Err NoSpace, t)
      | Some i \<Rightarrow> (Ok i, t\<lparr>slots := (slots t)[i := Some c]\<rparr>))"

definition cap_allocate_high :: "capability \<Rightarrow> cap_table \<Rightarrow> (cap_error + usize) \<times> cap_table" where
  "cap_allocate_high c t =
     (case find_last_index (\<lambda>e. e = None) (slots t) of
        None \<Rightarrow> (Err NoSpace, t)
      | Some i \<Rightarrow> (Ok i, t\<lparr>slots := (slots t)[i := Some c]\<rparr>))"

text \<open>The filter closure of \<open>vmo_overlap_count\<close>.\<close>

definition vmo_overlaps :: "usize \<Rightarrow> usize \<Rightarrow> capability \<Rightarrow> bool" where
  "vmo_overlaps base len c =
     (case kind c of
        Vmo b l \<Rightarrow> b < saturating_add base len \<and> base < saturating_add b l
      | _ \<Rightarrow> False)"

definition vmo_overlap_count :: "usize \<Rightarrow> usize \<Rightarrow> cap_table \<Rightarrow> nat" where
  "vmo_overlap_count base len t =
     length (filter (vmo_overlaps base len) (List.map_filter id (slots t)))"

definition cap_get :: "cap_table \<Rightarrow> usize \<Rightarrow> cap_error + capability" where
  "cap_get t slot =
     ok_or InvalidSlot (case vec_get (slots t) slot of None \<Rightarrow> None | Some e \<Rightarrow> e)"

definition cap_take :: "usize \<Rightarrow> cap_table \<Rightarrow> (cap_error + capability) \<times> cap_table" where
  "cap_take slot t =
     (case vec_get (slots t) slot of
        None \<Rightarrow> (Err InvalidSlot, t)
      | Some e \<Rightarrow> (ok_or InvalidSlot e, t\<lparr>slots := (slots t)[slot := None]\<rparr>))"

definition cap_derive :: "cap_table \<Rightarrow> usize \<Rightarrow> rights \<Rightarrow> cap_error + capability" where
  "cap_derive t slot r =
     (case cap_get t slot of
        Inl e \<Rightarrow> Err e
      | Inr base \<Rightarrow>
          if \<not> flags_contain (rights base) r then Err PermissionDenied
          else Ok \<lparr>kind = kind base, rights = r\<rparr>)"

definition derive_endpoint_ref ::
  "cap_table \<Rightarrow> usize \<Rightarrow> rights \<Rightarrow> cap_error + endpoint_cap_ref" where
  "derive_endpoint_ref t slot r =
     (case cap_derive t slot r of
        Inl e \<Rightarrow> Err e
      | Inr c \<Rightarrow>
          (case kind c of
             Endpoint ep \<Rightarrow> Ok \<lparr>ref_slot = slot, ref_endpoint = ep\<rparr>
           | _ \<Rightarrow> Err PermissionDenied))"

subsection \<open>What clients see of a table\<close>

text \<open>The abstraction: a table is a finite partial map from slots to capabilities.\<close>

definition cap_lookup :: "cap_table \<Rightarrow> usize \<rightharpoonup> capability" where
  "cap_lookup t slot = (case vec_get (slots t) slot of None \<Rightarrow> None | Some e \<Rightarrow> e)"

definition cap_capacity :: "cap_table \<Rightarrow> usize" where
  "cap_capacity t = length (slots t)"

subsection \<open>The slot-table interface\<close>

locale slot_table =
  fixes lookup :: "'t \<Rightarrow> usize \<rightharpoonup> 'c"
    and capacity :: "'t \<Rightarrow> usize"
    and alloc :: "'c \<Rightarrow> 't \<Rightarrow> ('e + usize) \<times> 't"
    and release :: "usize \<Rightarrow> 't \<Rightarrow> ('e + 'c) \<times> 't"
  assumes lookup_bound: "lookup t s = Some c \<Longrightarrow> s < capacity t"
    and alloc_ok: "alloc c t = (Inr s, t') \<Longrightarrow>
          s < capacity t \<and> lookup t s = None \<and> lookup t' = (lookup t)(s \<mapsto> c) \<and>
          capacity t' = capacity t"
    and alloc_err: "alloc c t = (Inl e, t') \<Longrightarrow>
          t' = t \<and> (\<forall>s < capacity t. lookup t s \<noteq> None)"
    and release_ok: "release s t = (Inr c, t') \<Longrightarrow>
          lookup t s = Some c \<and> lookup t' = (lookup t)(s := None) \<and> capacity t' = capacity t"
    and release_err: "release s t = (Inl e, t') \<Longrightarrow>
          lookup t s = None \<and> lookup t' = lookup t \<and> capacity t' = capacity t"
begin

lemma dom_bound: "dom (lookup t) \<subseteq> {..<capacity t}"
  using lookup_bound by auto

lemma finite_dom [simp]: "finite (dom (lookup t))"
  using dom_bound finite_subset by blast

lemma card_dom_le: "card (dom (lookup t)) \<le> capacity t"
  using card_mono[OF _ dom_bound] by simp

lemma full_card:
  assumes "\<forall>s < capacity t. lookup t s \<noteq> None"
  shows "capacity t \<le> card (dom (lookup t))"
proof -
  have "{..<capacity t} \<subseteq> dom (lookup t)" using assms by auto
  from card_mono[OF finite_dom this] show ?thesis by simp
qed

end

sublocale slot_table \<subseteq> handle_store "\<lambda>_. True" lookup capacity id alloc release
proof unfold_locales
  fix t h r t'
  assume "release h t = (Inr r, t')"
  then show "True \<and> lookup t h \<noteq> None \<and> lookup t' = (lookup t)(h := None) \<and> capacity t' = capacity t"
    by (auto dest: release_ok)
next
  fix t h f t'
  assume "release h t = (Inl f, t')"
  then show "True \<and> lookup t h = None \<and> lookup t' = lookup t \<and> capacity t' = capacity t"
    by (auto dest: release_err)
next
  fix a t e t'
  assume "alloc a t = (Inl e, t')"
  then show "t' = t \<and> capacity t \<le> card (dom (lookup t))"
    using alloc_err[of a t e t'] full_card by auto
qed (use alloc_ok card_dom_le in auto)

subsection \<open>The table implements the interface\<close>

lemma cap_lookup_get: "cap_get t s = ok_or InvalidSlot (cap_lookup t s)"
  by (simp add: cap_get_def cap_lookup_def)

lemma cap_lookup_update:
  "s < length (slots t) \<Longrightarrow> cap_lookup (t\<lparr>slots := (slots t)[s := v]\<rparr>) = (cap_lookup t)(s := v)"
  by (auto simp: cap_lookup_def fun_eq_iff vec_get_update vec_get_def)

lemma cap_lookup_None_nth:
  "s < length (slots t) \<Longrightarrow> cap_lookup t s = slots t ! s"
  by (simp add: cap_lookup_def vec_get_def)

lemma cap_lookup_Some_bound: "cap_lookup t s = Some c \<Longrightarrow> s < cap_capacity t"
  by (auto simp: cap_lookup_def cap_capacity_def vec_get_def split: if_splits)

lemma cap_take_laws:
  "cap_take s t = (Inr c, t') \<Longrightarrow>
     cap_lookup t s = Some c \<and> cap_lookup t' = (cap_lookup t)(s := None) \<and>
     cap_capacity t' = cap_capacity t"
  "cap_take s t = (Inl e, t') \<Longrightarrow>
     cap_lookup t s = None \<and> cap_lookup t' = cap_lookup t \<and> cap_capacity t' = cap_capacity t"
  by (auto simp: cap_take_def cap_capacity_def cap_lookup_update cap_lookup_None_nth
      split: option.splits)
    (auto simp: cap_lookup_def vec_get_def)

interpretation low: slot_table cap_lookup cap_capacity cap_allocate cap_take
proof unfold_locales
  fix t s t' and c :: capability
  assume "cap_allocate c t = (Inr s, t')"
  then show "s < cap_capacity t \<and> cap_lookup t s = None \<and> cap_lookup t' = (cap_lookup t)(s \<mapsto> c) \<and>
      cap_capacity t' = cap_capacity t"
    by (auto simp: cap_allocate_def cap_capacity_def slot_simps cap_lookup_update
        cap_lookup_None_nth split: option.splits)
next
  fix t t' e and c :: capability
  assume "cap_allocate c t = (Inl e, t')"
  then show "t' = t \<and> (\<forall>s<cap_capacity t. cap_lookup t s \<noteq> None)"
    by (auto simp: cap_allocate_def cap_capacity_def slot_simps cap_lookup_None_nth
        split: option.splits)
qed (use cap_lookup_Some_bound cap_take_laws in blast)+

interpretation high: slot_table cap_lookup cap_capacity cap_allocate_high cap_take
proof unfold_locales
  fix t s t' and c :: capability
  assume "cap_allocate_high c t = (Inr s, t')"
  then show "s < cap_capacity t \<and> cap_lookup t s = None \<and> cap_lookup t' = (cap_lookup t)(s \<mapsto> c) \<and>
      cap_capacity t' = cap_capacity t"
    by (auto simp: cap_allocate_high_def cap_capacity_def slot_simps cap_lookup_update
        cap_lookup_None_nth split: option.splits)
next
  fix t t' e and c :: capability
  assume "cap_allocate_high c t = (Inl e, t')"
  then show "t' = t \<and> (\<forall>s<cap_capacity t. cap_lookup t s \<noteq> None)"
    by (auto simp: cap_allocate_high_def cap_capacity_def slot_simps cap_lookup_None_nth
        split: option.splits)
qed (use cap_lookup_Some_bound cap_take_laws in blast)+

subsection \<open>Derivation and placement\<close>

lemma cap_derive_Inr:
  "cap_derive t s r = Inr c \<longleftrightarrow>
     (\<exists>b. cap_lookup t s = Some b \<and> flags_contain (rights b) r \<and>
          c = \<lparr>kind = kind b, rights = r\<rparr>)"
  by (auto simp: cap_derive_def cap_lookup_get split: sum.splits)

lemma cap_derive_errors:
  "cap_derive t s r = Inl e \<longleftrightarrow>
     (cap_lookup t s = None \<and> e = InvalidSlot) \<or>
     (\<exists>b. cap_lookup t s = Some b \<and> \<not> flags_contain (rights b) r \<and> e = PermissionDenied)"
  by (auto simp: cap_derive_def cap_lookup_get split: sum.splits)

lemma derive_endpoint_ref_Inr:
  "derive_endpoint_ref t s r = Inr x \<longleftrightarrow>
     (\<exists>b ep. cap_lookup t s = Some b \<and> flags_contain (rights b) r \<and> kind b = Endpoint ep \<and>
          x = \<lparr>ref_slot = s, ref_endpoint = ep\<rparr>)"
proof -
  have "derive_endpoint_ref t s r = Inr x \<longleftrightarrow>
      (\<exists>c ep. cap_derive t s r = Inr c \<and> kind c = Endpoint ep \<and>
          x = \<lparr>ref_slot = s, ref_endpoint = ep\<rparr>)"
    by (auto simp: derive_endpoint_ref_def split: sum.splits capability_kind.splits)
  then show ?thesis by (auto simp: cap_derive_Inr)
qed

lemma cap_set_if_empty_Inr:
  "cap_set_if_empty s c t = (Inr u, t') \<Longrightarrow>
     cap_lookup t s = None \<and> cap_lookup t' = (cap_lookup t)(s \<mapsto> c) \<and> cap_capacity t' = cap_capacity t"
  by (auto simp: cap_set_if_empty_def cap_lookup_update cap_lookup_None_nth cap_capacity_def
      split: if_splits)

lemma cap_set_if_empty_Inl:
  "cap_set_if_empty s c t = (Inl e, t') \<Longrightarrow>
     t' = t \<and> (cap_capacity t \<le> s \<and> e = InvalidSlot \<or> cap_lookup t s \<noteq> None \<and> e = PermissionDenied)"
  by (auto simp: cap_set_if_empty_def cap_lookup_None_nth cap_capacity_def split: if_splits)

lemma cap_set_laws:
  "cap_set s c t = (Inr u, t') \<Longrightarrow> cap_lookup t' = (cap_lookup t)(s \<mapsto> c) \<and> cap_capacity t' = cap_capacity t"
  "cap_set s c t = (Inl e, t') \<Longrightarrow> t' = t \<and> e = InvalidSlot \<and> cap_capacity t \<le> s"
  by (auto simp: cap_set_def cap_lookup_update cap_capacity_def split: if_splits)

lemma cap_allocate_Some_iff:
  "cap_allocate c t = (Inr i, t') \<longleftrightarrow>
     i < cap_capacity t \<and> cap_lookup t i = None \<and> (\<forall>j<i. cap_lookup t j \<noteq> None) \<and>
     t' = t\<lparr>slots := (slots t)[i := Some c]\<rparr>"
proof -
  have "cap_allocate c t = (Inr i, t') \<longleftrightarrow>
      find_index (\<lambda>e. e = None) (slots t) = Some i \<and> t' = t\<lparr>slots := (slots t)[i := Some c]\<rparr>"
    by (auto simp: cap_allocate_def split: option.splits)
  then show ?thesis
    by (auto simp: find_index_Some cap_capacity_def cap_lookup_None_nth)
qed

lemma cap_allocate_high_Some_iff:
  "cap_allocate_high c t = (Inr i, t') \<longleftrightarrow>
     i < cap_capacity t \<and> cap_lookup t i = None \<and>
     (\<forall>j. i < j \<and> j < cap_capacity t \<longrightarrow> cap_lookup t j \<noteq> None) \<and>
     t' = t\<lparr>slots := (slots t)[i := Some c]\<rparr>"
proof -
  have "cap_allocate_high c t = (Inr i, t') \<longleftrightarrow>
      find_last_index (\<lambda>e. e = None) (slots t) = Some i \<and> t' = t\<lparr>slots := (slots t)[i := Some c]\<rparr>"
    by (auto simp: cap_allocate_high_def split: option.splits)
  then show ?thesis
    by (auto simp: find_last_index_Some cap_capacity_def cap_lookup_None_nth)
qed

lemma length_map_filter_conv_card:
  "length (filter P (List.map_filter id xs)) =
     card {i. i < length xs \<and> (\<exists>c. xs ! i = Some c \<and> P c)}"
proof -
  have "length (filter P (List.map_filter id xs)) =
      length (filter (\<lambda>e. \<exists>c. e = Some c \<and> P c) xs)"
    by (induction xs) (auto simp: List.map_filter_simps split: option.splits)
  then show ?thesis
    by (simp add: length_filter_conv_card)
qed

lemma vmo_overlaps_ranges:
  assumes "kind c = Vmo b l" "b + l \<le> usize_max" "base + len \<le> usize_max"
  shows "vmo_overlaps base len c \<longleftrightarrow> {b..<b + l} \<inter> {base..<base + len} \<noteq> {} \<or>
     (l = 0 \<and> base < b \<and> b < base + len) \<or> (len = 0 \<and> b < base \<and> base < b + l)"
proof -
  have "vmo_overlaps base len c \<longleftrightarrow> b < base + len \<and> base < b + l"
    using assms by (auto simp: vmo_overlaps_def saturating_add_def)
  also have "\<dots> \<longleftrightarrow> {b..<b + l} \<inter> {base..<base + len} \<noteq> {} \<or>
     (l = 0 \<and> base < b \<and> b < base + len) \<or> (len = 0 \<and> b < base \<and> base < b + l)"
  proof -
    have "max b base \<in> {b..<b + l} \<inter> {base..<base + len}"
      if "b < base + len" "base < b + l" "0 < l" "0 < len"
      using that by auto
    then show ?thesis by (cases "l = 0"; cases "len = 0"; auto)
  qed
  finally show ?thesis .
qed

subsection \<open>Properties\<close>

text \<open>C37: Slot discipline of the two allocation directions: when a task's own object is placed with
  \<open>allocate_high\<close> and an installed capability with \<open>allocate\<close>, in either order, the two land in
  different slots and the installed capability lies strictly below the task's own one; both
  capabilities are found afterwards and every other slot is unchanged.\<close>

theorem allocate_discipline:
  assumes "cap_allocate c t = (Inr i, t1)" "cap_allocate_high d t1 = (Inr j, t2)"
    and "cap_allocate_high d t = (Inr j', t1')" "cap_allocate c t1' = (Inr i', t2')"
  shows "i < j \<and> i' = i \<and> j' = j \<and> cap_lookup t2 = (cap_lookup t)(i \<mapsto> c, j \<mapsto> d) \<and>
    cap_lookup t2' = cap_lookup t2"
proof -
  note low = assms(1)[unfolded cap_allocate_Some_iff] assms(4)[unfolded cap_allocate_Some_iff]
  note high = assms(2)[unfolded cap_allocate_high_Some_iff] assms(3)[unfolded cap_allocate_high_Some_iff]
  have t1: "cap_lookup t1 = (cap_lookup t)(i \<mapsto> c)" "cap_capacity t1 = cap_capacity t"
    and t2: "cap_lookup t2 = (cap_lookup t1)(j \<mapsto> d)"
    and t1': "cap_lookup t1' = (cap_lookup t)(j' \<mapsto> d)" "cap_capacity t1' = cap_capacity t"
    and t2': "cap_lookup t2' = (cap_lookup t1')(i' \<mapsto> c)"
    using low.alloc_ok[OF assms(1)] high.alloc_ok[OF assms(2)] high.alloc_ok[OF assms(3)]
      low.alloc_ok[OF assms(4)] by auto
  have j: "j < cap_capacity t" "cap_lookup t j = None" "j \<noteq> i"
    and jmax: "\<And>k. j < k \<Longrightarrow> k < cap_capacity t \<Longrightarrow> k \<noteq> i \<Longrightarrow> cap_lookup t k \<noteq> None"
    using high(1) t1 by (auto split: if_splits)
  have imin: "\<And>k. k < i \<Longrightarrow> cap_lookup t k \<noteq> None" and i: "i < cap_capacity t" "cap_lookup t i = None"
    using low(1) by auto
  have ij: "i < j" using imin[of j] j by (meson linorder_neqE_nat)
  have j'j: "j' = j"
    using high(2) j jmax[of j'] ij i by (metis linorder_neqE_nat not_less_iff_gr_or_eq)
  have "i' = i"
    using low(2) t1' i imin[of i'] ij j'j by (auto simp: t1' split: if_splits)
      (metis linorder_neqE_nat option.distinct(1) order_less_imp_not_eq)
  then show ?thesis
    using ij j'j t1 t2 t1' t2' by (auto simp: fun_upd_twist)
qed

definition ex_cap :: "u32 \<Rightarrow> capability" where
  "ex_cap n = \<lparr>kind = Endpoint n, rights = SEND\<rparr>"

theorem allocate_discipline_witness:
  "0 < (2 :: nat) \<and>
   cap_lookup (snd (cap_allocate_high (ex_cap 2) (snd (cap_allocate (ex_cap 1) (cap_with_capacity 3))))) =
     (cap_lookup (cap_with_capacity 3))(0 \<mapsto> ex_cap 1, 2 \<mapsto> ex_cap 2)"
  using allocate_discipline[of "ex_cap 1" "cap_with_capacity 3" 0
      "snd (cap_allocate (ex_cap 1) (cap_with_capacity 3))" "ex_cap 2" 2
      "snd (cap_allocate_high (ex_cap 2) (snd (cap_allocate (ex_cap 1) (cap_with_capacity 3))))" 2
      "snd (cap_allocate_high (ex_cap 2) (cap_with_capacity 3))" 0
      "snd (cap_allocate (ex_cap 1) (snd (cap_allocate_high (ex_cap 2) (cap_with_capacity 3))))"]
  by (simp add: cap_with_capacity_def cap_allocate_def cap_allocate_high_def find_last_index_def
      numeral_eq_Suc)

end
