(* ===== verification/Fifo.thy ===== *)
theory Fifo
  imports Prelude
begin

text \<open>
  The contract of a bounded first-in first-out queue: what the IPC router promises of an
  endpoint and the scheduler of a run queue.  \<open>run_fifo\<close> executes an interleaving of pushes
  and pops and records the accepted and the delivered elements; the client lemmas are proved
  once, from the laws alone.
\<close>

datatype 'a fifo_op = Push 'a | Pop

primrec run_fifo ::
  "('a \<Rightarrow> 'q \<Rightarrow> ('e + unit) \<times> 'q) \<Rightarrow> ('q \<Rightarrow> ('f + 'a) \<times> 'q) \<Rightarrow> 'a fifo_op list \<Rightarrow> 'q \<Rightarrow>
     'a list \<times> 'a list \<times> 'q" where
  "run_fifo push pop [] q = ([], [], q)"
| "run_fifo push pop (op # ops) q =
     (case op of
        Push x \<Rightarrow>
          (case push x q of
             (Inl _, q1) \<Rightarrow> run_fifo push pop ops q1
           | (Inr _, q1) \<Rightarrow>
               (case run_fifo push pop ops q1 of (acc, del, q2) \<Rightarrow> (x # acc, del, q2)))
      | Pop \<Rightarrow>
          (case pop q of
             (Inl _, q1) \<Rightarrow> run_fifo push pop ops q1
           | (Inr x, q1) \<Rightarrow>
               (case run_fifo push pop ops q1 of (acc, del, q2) \<Rightarrow> (acc, x # del, q2))))"

locale bounded_fifo =
  fixes inv :: "'q \<Rightarrow> bool"
    and items :: "'q \<Rightarrow> 'a list"
    and bound :: "'q \<Rightarrow> nat"
    and push :: "'a \<Rightarrow> 'q \<Rightarrow> ('e + unit) \<times> 'q"
    and pop :: "'q \<Rightarrow> ('f + 'a) \<times> 'q"
  assumes push_ok: "inv q \<Longrightarrow> push x q = (Inr u, q') \<Longrightarrow>
          inv q' \<and> items q' = items q @ [x] \<and> bound q' = bound q"
    and push_err: "inv q \<Longrightarrow> push x q = (Inl e, q') \<Longrightarrow> q' = q"
    and pop_ok: "inv q \<Longrightarrow> pop q = (Inr x, q') \<Longrightarrow>
          inv q' \<and> items q = x # items q' \<and> bound q' = bound q"
    and pop_err: "inv q \<Longrightarrow> pop q = (Inl f, q') \<Longrightarrow> q' = q \<and> items q = []"
    and items_bounded: "inv q \<Longrightarrow> length (items q) \<le> bound q"
begin

lemma run_conserves:
  assumes "inv q" "run_fifo push pop ops q = (acc, del, q')"
  shows "inv q' \<and> items q @ acc = del @ items q' \<and> bound q' = bound q"
  using assms
proof (induction ops arbitrary: q acc del q')
  case (Cons op ops)
  show ?case
  proof (cases op)
    case (Push x)
    obtain r q1 where r: "push x q = (r, q1)" by (cases "push x q")
    obtain a d q2 where rest: "run_fifo push pop ops q1 = (a, d, q2)" by (cases "run_fifo push pop ops q1")
    show ?thesis
    proof (cases r)
      case (Inl e)
      then show ?thesis
        using Cons.IH[OF _ rest] Cons.prems Push r rest push_err[of q x e q1] by simp
    next
      case (Inr u)
      then show ?thesis
        using Cons.IH[OF _ rest] Cons.prems Push r rest push_ok[of q x u q1] by auto
    qed
  next
    case Pop
    obtain r q1 where r: "pop q = (r, q1)" by (cases "pop q")
    obtain a d q2 where rest: "run_fifo push pop ops q1 = (a, d, q2)" by (cases "run_fifo push pop ops q1")
    show ?thesis
    proof (cases r)
      case (Inl e)
      then show ?thesis
        using Cons.IH[OF _ rest] Cons.prems Pop r rest pop_err[of q e q1] by simp
    next
      case (Inr x)
      then show ?thesis
        using Cons.IH[OF _ rest] Cons.prems Pop r rest pop_ok[of q x q1] by auto
    qed
  qed
qed simp

lemma run_prefix:
  assumes "inv q" "run_fifo push pop ops q = (acc, del, q')"
  shows "del = take (length del) (items q @ acc) \<and> length del \<le> length (items q) + length acc \<and>
    length (items q') \<le> bound q"
proof -
  from run_conserves[OF assms] have c: "inv q'" "items q @ acc = del @ items q'" "bound q' = bound q"
    by auto
  then have "length (items q) + length acc = length del + length (items q')"
    by (metis length_append)
  then show ?thesis using c items_bounded[of q'] by simp
qed

lemma drain_all:
  assumes "inv q"
  shows "\<exists>q'. run_fifo push pop (replicate (length (items q)) Pop) q = ([], items q, q') \<and> items q' = []"
  using assms
proof (induction "length (items q)" arbitrary: q)
  case 0
  then show ?case by simp
next
  case (Suc n)
  obtain r q1 where r: "pop q = (r, q1)" by (cases "pop q")
  from Suc obtain x where x: "r = Inr x" "inv q1" "items q = x # items q1"
    using pop_err[of q _ q1] pop_ok[of q _ q1] r by (cases r) auto
  with Suc.hyps(1)[of q1] Suc.hyps(2) r show ?case by auto
qed

end

end
