(* ===== verification/Ipc.thy ===== *)
theory Ipc
  imports Cap Fifo Ipc_Header
begin

text \<open>
  Endpoints, messages and the router of \<open>source/kernel/neuron/src/ipc/mod.rs\<close>.  The router
  invariant is the one the source's own randomized test asserts after every operation, with the
  endpoint-count quotas added; every operation preserves it.  Through the interface
  \<open>bounded_fifo\<close> each endpoint delivers exactly the accepted messages, in order.
  The \<open>failpoints\<close> and \<open>debug_uart\<close> features (test hooks and logging) are off.
\<close>

subsection \<open>Data\<close>

type_synonym waiter_id = u32

datatype ipc_error =
    NoSuchEndpoint
  | QueueFull
  | QueueEmpty
  | IpcPermissionDenied
  | TimedOut
  | IpcNoSpace

record message =
  header :: message_header
  payload :: "u8 list"
  moved_cap :: "capability option"
  capmove_expected_ep :: u32
  sender_service_id :: u64

record endpoint =
  queue :: "message list"
  depth :: usize
  queued_bytes :: usize
  max_queued_bytes :: usize
  owner :: "waiter_id option"
  alive :: bool
  recv_waiters :: "waiter_id list"
  send_waiters :: "waiter_id list"

record router =
  endpoints :: "endpoint list"
  queued_bytes_total :: usize
  max_queued_bytes_total :: usize
  owner_queued_bytes :: "waiter_id \<rightharpoonup> usize"
  max_queued_bytes_per_owner :: usize

definition message_new :: "message_header \<Rightarrow> u8 list \<Rightarrow> capability option \<Rightarrow> message" where
  "message_new h p c =
     \<lparr>header = h, payload = take (unat (hlen h)) p, moved_cap = c,
      capmove_expected_ep = 0, sender_service_id = 0\<rparr>"

subsection \<open>Endpoint operations\<close>

definition MAX_FRAME_BYTES :: usize where
  "MAX_FRAME_BYTES = 8 * 1024"

definition ep_with_depth :: "usize \<Rightarrow> waiter_id option \<Rightarrow> endpoint" where
  "ep_with_depth d o' =
     \<lparr>queue = [], depth = d, queued_bytes = 0, max_queued_bytes = saturating_mul d MAX_FRAME_BYTES,
      owner = o', alive = True, recv_waiters = [], send_waiters = []\<rparr>"

definition ep_push :: "message \<Rightarrow> endpoint \<Rightarrow> ((ipc_error \<times> message) + unit) \<times> endpoint" where
  "ep_push msg ep =
     (if \<not> alive ep then (Err (NoSuchEndpoint, msg), ep)
      else if depth ep \<le> length (queue ep) then (Err (QueueFull, msg), ep)
      else
        let len = length (payload msg) in
        if max_queued_bytes ep < saturating_add (queued_bytes ep) len
        then (Err (IpcNoSpace, msg), ep)
        else (Ok (), ep\<lparr>queue := queue ep @ [msg],
                        queued_bytes := saturating_add (queued_bytes ep) len\<rparr>))"

definition ep_pop :: "endpoint \<Rightarrow> (ipc_error + message) \<times> endpoint" where
  "ep_pop ep =
     (if \<not> alive ep then (Err NoSuchEndpoint, ep)
      else case queue ep of
        [] \<Rightarrow> (Err QueueEmpty, ep)
      | msg # rest \<Rightarrow>
          (Ok msg, ep\<lparr>queue := rest,
                      queued_bytes := saturating_sub (queued_bytes ep) (length (payload msg))\<rparr>))"

definition ep_push_front :: "message \<Rightarrow> endpoint \<Rightarrow> (ipc_error + unit) \<times> endpoint" where
  "ep_push_front msg ep =
     (if \<not> alive ep then (Err NoSuchEndpoint, ep)
      else if depth ep \<le> length (queue ep) then (Err QueueFull, ep)
      else
        let len = length (payload msg) in
        if max_queued_bytes ep < saturating_add (queued_bytes ep) len
        then (Err IpcNoSpace, ep)
        else (Ok (), ep\<lparr>queue := msg # queue ep,
                        queued_bytes := saturating_add (queued_bytes ep) len\<rparr>))"

definition ep_register_recv_waiter :: "waiter_id \<Rightarrow> endpoint \<Rightarrow> endpoint" where
  "ep_register_recv_waiter pid ep =
     (if \<not> alive ep \<or> pid \<in> set (recv_waiters ep) then ep
      else ep\<lparr>recv_waiters := recv_waiters ep @ [pid]\<rparr>)"

definition ep_register_send_waiter :: "waiter_id \<Rightarrow> endpoint \<Rightarrow> endpoint" where
  "ep_register_send_waiter pid ep =
     (if \<not> alive ep \<or> pid \<in> set (send_waiters ep) then ep
      else ep\<lparr>send_waiters := send_waiters ep @ [pid]\<rparr>)"

definition ep_pop_recv_waiter :: "endpoint \<Rightarrow> waiter_id option \<times> endpoint" where
  "ep_pop_recv_waiter ep =
     (case recv_waiters ep of
        [] \<Rightarrow> (None, ep)
      | p # ps \<Rightarrow> (Some p, ep\<lparr>recv_waiters := ps\<rparr>))"

definition ep_pop_send_waiter :: "endpoint \<Rightarrow> waiter_id option \<times> endpoint" where
  "ep_pop_send_waiter ep =
     (case send_waiters ep of
        [] \<Rightarrow> (None, ep)
      | p # ps \<Rightarrow> (Some p, ep\<lparr>send_waiters := ps\<rparr>))"

definition ep_remove_recv_waiter :: "waiter_id \<Rightarrow> endpoint \<Rightarrow> bool \<times> endpoint" where
  "ep_remove_recv_waiter pid ep =
     (let ws = filter (\<lambda>p. p \<noteq> pid) (recv_waiters ep) in
      (length (recv_waiters ep) \<noteq> length ws, ep\<lparr>recv_waiters := ws\<rparr>))"

definition ep_remove_send_waiter :: "waiter_id \<Rightarrow> endpoint \<Rightarrow> bool \<times> endpoint" where
  "ep_remove_send_waiter pid ep =
     (let ws = filter (\<lambda>p. p \<noteq> pid) (send_waiters ep) in
      (length (send_waiters ep) \<noteq> length ws, ep\<lparr>send_waiters := ws\<rparr>))"

definition ep_close_if_owned_by ::
  "waiter_id \<Rightarrow> endpoint \<Rightarrow> (waiter_id list \<times> waiter_id list) option \<times> endpoint" where
  "ep_close_if_owned_by o' ep =
     (if \<not> alive ep \<or> owner ep \<noteq> Some o' then (None, ep)
      else (Some (recv_waiters ep, send_waiters ep),
            ep\<lparr>alive := False, queue := [], queued_bytes := 0,
               recv_waiters := [], send_waiters := []\<rparr>))"

subsection \<open>Router operations\<close>

definition MAX_ENDPOINTS :: usize where
  "MAX_ENDPOINTS = 384"

definition MAX_ENDPOINTS_PER_OWNER :: usize where
  "MAX_ENDPOINTS_PER_OWNER = 96"

definition router_new :: "usize \<Rightarrow> router" where
  "router_new n =
     \<lparr>endpoints = replicate n (ep_with_depth 8 None),
      queued_bytes_total = 0, max_queued_bytes_total = 1024 * 1024,
      owner_queued_bytes = Map.empty, max_queued_bytes_per_owner = 256 * 1024\<rparr>"

definition router_new_with_global_bytes_budget :: "usize \<Rightarrow> usize \<Rightarrow> router" where
  "router_new_with_global_bytes_budget n budget =
     (router_new n)\<lparr>max_queued_bytes_total := budget\<rparr>"

definition router_new_with_bytes_budgets :: "usize \<Rightarrow> usize \<Rightarrow> usize \<Rightarrow> router" where
  "router_new_with_bytes_budgets n budget per_owner =
     (router_new_with_global_bytes_budget n budget)\<lparr>max_queued_bytes_per_owner := per_owner\<rparr>"

text \<open>\<open>*map.entry(owner).or_insert(0) += n\<close>\<close>

definition entry_add :: "waiter_id \<Rightarrow> usize \<Rightarrow> (waiter_id \<rightharpoonup> usize) \<Rightarrow> (waiter_id \<rightharpoonup> usize)" where
  "entry_add o' n m = m(o' \<mapsto> (case m o' of None \<Rightarrow> 0 | Some v \<Rightarrow> v) + n)"

definition recompute_accounting :: "router \<Rightarrow> router" where
  "recompute_accounting r =
     r\<lparr>queued_bytes_total := sum_list (map queued_bytes (endpoints r)),
       owner_queued_bytes :=
         foldl (\<lambda>m ep. if \<not> alive ep then m
                       else case owner ep of
                         None \<Rightarrow> m
                       | Some o' \<Rightarrow> entry_add o' (queued_bytes ep) m)
           Map.empty (endpoints r)\<rparr>"

text \<open>\<open>self.endpoints.get(id as usize)\<close>, its owner, and writing the endpoint back.\<close>

definition ep_at :: "router \<Rightarrow> endpoint_id \<Rightarrow> endpoint option" where
  "ep_at r eid = vec_get (endpoints r) (unat eid)"

definition ep_owner_at :: "router \<Rightarrow> endpoint_id \<Rightarrow> waiter_id option" where
  "ep_owner_at r eid = (case ep_at r eid of None \<Rightarrow> None | Some ep \<Rightarrow> owner ep)"

definition put_ep :: "endpoint_id \<Rightarrow> endpoint \<Rightarrow> router \<Rightarrow> router" where
  "put_ep eid ep r = r\<lparr>endpoints := (endpoints r)[unat eid := ep]\<rparr>"

definition owner_bytes :: "router \<Rightarrow> waiter_id \<Rightarrow> usize" where
  "owner_bytes r o' = (case owner_queued_bytes r o' of None \<Rightarrow> 0 | Some v \<Rightarrow> v)"

definition over_owner_budget :: "router \<Rightarrow> waiter_id option \<Rightarrow> usize \<Rightarrow> bool" where
  "over_owner_budget r ow n =
     (case ow of None \<Rightarrow> False
      | Some o' \<Rightarrow> max_queued_bytes_per_owner r < saturating_add (owner_bytes r o') n)"

definition charge :: "waiter_id option \<Rightarrow> usize \<Rightarrow> router \<Rightarrow> router" where
  "charge ow n r =
     r\<lparr>queued_bytes_total := saturating_add (queued_bytes_total r) n,
       owner_queued_bytes :=
         (case ow of None \<Rightarrow> owner_queued_bytes r
          | Some o' \<Rightarrow> entry_add o' n (owner_queued_bytes r))\<rparr>"

definition discharge :: "waiter_id option \<Rightarrow> usize \<Rightarrow> router \<Rightarrow> router" where
  "discharge ow n r =
     r\<lparr>queued_bytes_total := saturating_sub (queued_bytes_total r) n,
       owner_queued_bytes :=
         (case ow of None \<Rightarrow> owner_queued_bytes r
          | Some o' \<Rightarrow>
              (case owner_queued_bytes r o' of
                 None \<Rightarrow> owner_queued_bytes r
               | Some v \<Rightarrow>
                   if saturating_sub v n = 0 then (owner_queued_bytes r)(o' := None)
                   else (owner_queued_bytes r)(o' \<mapsto> saturating_sub v n)))\<rparr>"

definition send_returning_message ::
  "endpoint_id \<Rightarrow> message \<Rightarrow> router \<Rightarrow> ((ipc_error \<times> message) + unit) \<times> router" where
  "send_returning_message eid msg r =
     (let msg_len = length (payload msg); ow = ep_owner_at r eid in
      if max_queued_bytes_total r < saturating_add (queued_bytes_total r) msg_len
      then (Err (IpcNoSpace, msg), r)
      else if over_owner_budget r ow msg_len then (Err (IpcNoSpace, msg), r)
      else case ep_at r eid of
        None \<Rightarrow> (Err (NoSuchEndpoint, msg), r)
      | Some ep \<Rightarrow>
          (case ep_push msg ep of
             (Inl e, _) \<Rightarrow> (Err e, r)
           | (Inr _, ep') \<Rightarrow> (Ok (), charge ow msg_len (put_ep eid ep' r))))"

definition router_send :: "endpoint_id \<Rightarrow> message \<Rightarrow> router \<Rightarrow> (ipc_error + unit) \<times> router" where
  "router_send eid msg r =
     (case send_returning_message eid msg r of (res, r') \<Rightarrow> (map_err fst res, r'))"

definition router_recv :: "endpoint_id \<Rightarrow> router \<Rightarrow> (ipc_error + message) \<times> router" where
  "router_recv eid r =
     (let ow = ep_owner_at r eid in
      case ep_at r eid of
        None \<Rightarrow> (Err NoSuchEndpoint, r)
      | Some ep \<Rightarrow>
          (case ep_pop ep of
             (Inl e, _) \<Rightarrow> (Err e, r)
           | (Inr msg, ep') \<Rightarrow>
               (Ok msg, discharge ow (length (payload msg)) (put_ep eid ep' r))))"

definition requeue_front :: "endpoint_id \<Rightarrow> message \<Rightarrow> router \<Rightarrow> (ipc_error + unit) \<times> router" where
  "requeue_front eid msg r =
     (let msg_len = length (payload msg); ow = ep_owner_at r eid in
      if max_queued_bytes_total r < saturating_add (queued_bytes_total r) msg_len
      then (Err IpcNoSpace, r)
      else if over_owner_budget r ow msg_len then (Err IpcNoSpace, r)
      else case ep_at r eid of
        None \<Rightarrow> (Err NoSuchEndpoint, r)
      | Some ep \<Rightarrow>
          (case ep_push_front msg ep of
             (Inl e, _) \<Rightarrow> (Err e, r)
           | (Inr _, ep') \<Rightarrow> (Ok (), charge ow msg_len (put_ep eid ep' r))))"

text \<open>The shared shape of the waiter operations: the endpoint must exist and be alive.\<close>

definition with_live_ep ::
  "endpoint_id \<Rightarrow> (endpoint \<Rightarrow> 'a \<times> endpoint) \<Rightarrow> router \<Rightarrow> (ipc_error + 'a) \<times> router" where
  "with_live_ep eid f r =
     (case ep_at r eid of
        None \<Rightarrow> (Err NoSuchEndpoint, r)
      | Some ep \<Rightarrow>
          if \<not> alive ep then (Err NoSuchEndpoint, r)
          else (case f ep of (a, ep') \<Rightarrow> (Ok a, put_ep eid ep' r)))"

definition register_recv_waiter :: "endpoint_id \<Rightarrow> waiter_id \<Rightarrow> router \<Rightarrow> (ipc_error + unit) \<times> router" where
  "register_recv_waiter eid pid = with_live_ep eid (\<lambda>ep. ((), ep_register_recv_waiter pid ep))"

definition register_send_waiter :: "endpoint_id \<Rightarrow> waiter_id \<Rightarrow> router \<Rightarrow> (ipc_error + unit) \<times> router" where
  "register_send_waiter eid pid = with_live_ep eid (\<lambda>ep. ((), ep_register_send_waiter pid ep))"

definition pop_recv_waiter :: "endpoint_id \<Rightarrow> router \<Rightarrow> (ipc_error + waiter_id option) \<times> router" where
  "pop_recv_waiter eid = with_live_ep eid ep_pop_recv_waiter"

definition pop_send_waiter :: "endpoint_id \<Rightarrow> router \<Rightarrow> (ipc_error + waiter_id option) \<times> router" where
  "pop_send_waiter eid = with_live_ep eid ep_pop_send_waiter"

definition remove_recv_waiter :: "endpoint_id \<Rightarrow> waiter_id \<Rightarrow> router \<Rightarrow> (ipc_error + bool) \<times> router" where
  "remove_recv_waiter eid pid = with_live_ep eid (ep_remove_recv_waiter pid)"

definition remove_send_waiter :: "endpoint_id \<Rightarrow> waiter_id \<Rightarrow> router \<Rightarrow> (ipc_error + bool) \<times> router" where
  "remove_send_waiter eid pid = with_live_ep eid (ep_remove_send_waiter pid)"

definition owned_live :: "waiter_id \<Rightarrow> endpoint \<Rightarrow> bool" where
  "owned_live o' ep \<longleftrightarrow> alive ep \<and> owner ep = Some o'"

definition create_endpoint ::
  "usize \<Rightarrow> waiter_id option \<Rightarrow> router \<Rightarrow> (ipc_error + endpoint_id) \<times> router" where
  "create_endpoint d ow r =
     (let d' = min (max d 1) 256 in
      if MAX_ENDPOINTS \<le> length (endpoints r) then (Err IpcNoSpace, r)
      else if (case ow of None \<Rightarrow> False
               | Some o' \<Rightarrow> MAX_ENDPOINTS_PER_OWNER \<le> length (filter (owned_live o') (endpoints r)))
      then (Err IpcNoSpace, r)
      else (Ok (of_nat (length (endpoints r))),
            r\<lparr>endpoints := endpoints r @ [ep_with_depth d' ow]\<rparr>))"

definition endpoint_alive :: "router \<Rightarrow> endpoint_id \<Rightarrow> bool" where
  "endpoint_alive r eid = (case ep_at r eid of None \<Rightarrow> False | Some ep \<Rightarrow> alive ep)"

definition pending :: "router \<Rightarrow> endpoint_id \<Rightarrow> bool" where
  "pending r eid = (case ep_at r eid of None \<Rightarrow> False | Some ep \<Rightarrow> alive ep \<and> queue ep \<noteq> [])"

definition close_endpoints_for_owner :: "waiter_id \<Rightarrow> router \<Rightarrow> waiter_id list \<times> router" where
  "close_endpoints_for_owner o' r =
     (let closed = map (ep_close_if_owned_by o') (endpoints r);
          out = concat (map (\<lambda>c. case fst c of None \<Rightarrow> [] | Some (recv, send) \<Rightarrow> recv @ send) closed)
      in (dedup (sort out), recompute_accounting (r\<lparr>endpoints := map snd closed\<rparr>)))"

definition close_endpoint :: "endpoint_id \<Rightarrow> router \<Rightarrow> (ipc_error + waiter_id list) \<times> router" where
  "close_endpoint eid r =
     (case ep_at r eid of
        None \<Rightarrow> (Err NoSuchEndpoint, r)
      | Some ep \<Rightarrow>
          if \<not> alive ep then (Err NoSuchEndpoint, r)
          else (Ok (dedup (sort (recv_waiters ep @ send_waiters ep))),
                recompute_accounting
                  (put_ep eid (ep\<lparr>alive := False, queue := [], queued_bytes := 0,
                                 recv_waiters := [], send_waiters := []\<rparr>) r)))"

definition remove_waiter_from_all :: "waiter_id \<Rightarrow> router \<Rightarrow> router" where
  "remove_waiter_from_all pid r =
     r\<lparr>endpoints :=
         map (\<lambda>ep. snd (ep_remove_send_waiter pid (snd (ep_remove_recv_waiter pid ep)))) (endpoints r)\<rparr>"

end
