(* ===== verification/Ipc_Correct.thy ===== *)
theory Ipc_Correct
  imports Ipc
begin

text \<open>
  Correctness of the IPC router: the accounting invariant of endpoints and router and its
  preservation by every operation, delivery in order through the \<open>bounded_fifo\<close> interface,
  the lossless return of a received message to the front of its queue, and closing.
\<close>

named_theorems ep_defs \<open>endpoint operations\<close>

lemmas [ep_defs] = ep_push_def ep_pop_def ep_push_front_def ep_register_recv_waiter_def
  ep_register_send_waiter_def ep_pop_recv_waiter_def ep_pop_send_waiter_def
  ep_remove_recv_waiter_def ep_remove_send_waiter_def ep_close_if_owned_by_def

subsection \<open>The invariant\<close>

definition queue_bytes :: "message list \<Rightarrow> usize" where
  "queue_bytes q = sum_list (map (\<lambda>m. length (payload m)) q)"

definition ep_wf :: "endpoint \<Rightarrow> bool" where
  "ep_wf ep \<longleftrightarrow>
     length (queue ep) \<le> depth ep \<and> queued_bytes ep = queue_bytes (queue ep) \<and>
     queued_bytes ep \<le> max_queued_bytes ep \<and> max_queued_bytes ep < usize_max \<and>
     distinct (recv_waiters ep) \<and> distinct (send_waiters ep) \<and>
     (\<not> alive ep \<longrightarrow> queue ep = [] \<and> recv_waiters ep = [] \<and> send_waiters ep = [])"

definition bytes_for :: "waiter_id \<Rightarrow> endpoint \<Rightarrow> usize" where
  "bytes_for o' ep = (if owned_live o' ep then queued_bytes ep else 0)"

definition router_wf :: "router \<Rightarrow> bool" where
  "router_wf r \<longleftrightarrow>
     (\<forall>ep \<in> set (endpoints r). ep_wf ep) \<and>
     queued_bytes_total r = sum_list (map queued_bytes (endpoints r)) \<and>
     queued_bytes_total r \<le> max_queued_bytes_total r \<and> max_queued_bytes_total r < usize_max \<and>
     (\<forall>o'. owner_bytes r o' = sum_list (map (bytes_for o') (endpoints r))) \<and>
     (\<forall>o'. owner_bytes r o' \<le> max_queued_bytes_per_owner r) \<and>
     max_queued_bytes_per_owner r < usize_max \<and>
     length (endpoints r) \<le> MAX_ENDPOINTS \<and>
     (\<forall>o'. length (filter (owned_live o') (endpoints r)) \<le> MAX_ENDPOINTS_PER_OWNER)"

lemma router_wfI:
  assumes "\<And>ep. ep \<in> set (endpoints r) \<Longrightarrow> ep_wf ep"
    and "queued_bytes_total r = sum_list (map queued_bytes (endpoints r))"
    and "queued_bytes_total r \<le> max_queued_bytes_total r" "max_queued_bytes_total r < usize_max"
    and "\<And>o'. owner_bytes r o' = sum_list (map (bytes_for o') (endpoints r))"
    and "\<And>o'. owner_bytes r o' \<le> max_queued_bytes_per_owner r"
    and "max_queued_bytes_per_owner r < usize_max"
    and "length (endpoints r) \<le> MAX_ENDPOINTS"
    and "\<And>o'. length (filter (owned_live o') (endpoints r)) \<le> MAX_ENDPOINTS_PER_OWNER"
  shows "router_wf r"
  using assms unfolding router_wf_def by blast

lemma router_wfD:
  assumes "router_wf r"
  shows "\<And>ep. ep \<in> set (endpoints r) \<Longrightarrow> ep_wf ep"
    and "queued_bytes_total r = sum_list (map queued_bytes (endpoints r))"
    and "queued_bytes_total r \<le> max_queued_bytes_total r" "max_queued_bytes_total r < usize_max"
    and "\<And>o'. owner_bytes r o' = sum_list (map (bytes_for o') (endpoints r))"
    and "\<And>o'. owner_bytes r o' \<le> max_queued_bytes_per_owner r"
    and "max_queued_bytes_per_owner r < usize_max"
    and "length (endpoints r) \<le> MAX_ENDPOINTS"
    and "\<And>o'. length (filter (owned_live o') (endpoints r)) \<le> MAX_ENDPOINTS_PER_OWNER"
  using assms unfolding router_wf_def by blast+

subsection \<open>Sums over an updated endpoint vector\<close>

lemma ep_at_Some: "ep_at r i = Some ep \<longleftrightarrow> unat i < length (endpoints r) \<and> endpoints r ! unat i = ep"
  by (simp add: ep_at_def)

lemma ep_at_wf: "router_wf r \<Longrightarrow> ep_at r i = Some ep \<Longrightarrow> ep_wf ep"
  by (auto simp: ep_at_Some router_wf_def)

lemma put_ep_simps [simp]:
  "queued_bytes_total (put_ep i ep r) = queued_bytes_total r"
  "max_queued_bytes_total (put_ep i ep r) = max_queued_bytes_total r"
  "owner_queued_bytes (put_ep i ep r) = owner_queued_bytes r"
  "max_queued_bytes_per_owner (put_ep i ep r) = max_queued_bytes_per_owner r"
  "owner_bytes (put_ep i ep r) = owner_bytes r"
  "endpoints (put_ep i ep r) = (endpoints r)[unat i := ep]"
  by (simp_all add: put_ep_def owner_bytes_def fun_eq_iff)

lemma put_ep_sum:
  fixes f :: "endpoint \<Rightarrow> nat"
  assumes "ep_at r i = Some ep"
  shows "sum_list (map f ((endpoints r)[unat i := ep'])) + f ep = sum_list (map f (endpoints r)) + f ep'"
  using assms sum_list_map_upd[of "unat i" "endpoints r" f ep'] by (simp add: ep_at_Some)

lemma length_filter_sum: "length (filter P xs) = sum_list (map (\<lambda>x. if P x then 1 else 0) xs)"
  by (induction xs) auto

lemma put_ep_count:
  assumes "ep_at r i = Some ep" "\<And>o'. owned_live o' ep' \<Longrightarrow> owned_live o' ep"
  shows "length (filter (owned_live o') ((endpoints r)[unat i := ep'])) \<le>
    length (filter (owned_live o') (endpoints r))"
  using put_ep_sum[OF assms(1), of "\<lambda>x. if owned_live o' x then 1 else 0" ep'] assms(2)[of o']
  by (auto simp: length_filter_sum split: if_splits)

lemma bytes_for_cases:
  "bytes_for o' ep = (if alive ep \<and> owner ep = Some o' then queued_bytes ep else 0)"
  by (simp add: bytes_for_def owned_live_def)

lemma saturating_le_iff: "m < usize_max \<Longrightarrow> saturating_add a b \<le> m \<longleftrightarrow> a + b \<le> m"
  by (simp add: saturating_add_def min_def)

lemma saturating_exact: "saturating_add a b \<le> m \<Longrightarrow> m < usize_max \<Longrightarrow> saturating_add a b = a + b"
  by (simp add: saturating_add_def min_def split: if_splits)

subsection \<open>Preservation\<close>

lemma put_ep_wf:
  assumes wf: "router_wf r" and at: "ep_at r i = Some ep" and "ep_wf ep'"
    and same: "alive ep' = alive ep" "owner ep' = owner ep" "queued_bytes ep' = queued_bytes ep"
  shows "router_wf (put_ep i ep' r)"
proof (rule router_wfI)
  note D = router_wfD[OF wf]
  fix x assume "x \<in> set (endpoints (put_ep i ep' r))"
  then show "ep_wf x" using D(1) assms(3) set_update_subset_insert by fastforce
next
  note D = router_wfD[OF wf]
  show "queued_bytes_total (put_ep i ep' r) = sum_list (map queued_bytes (endpoints (put_ep i ep' r)))"
    using D(2) put_ep_sum[OF at, of queued_bytes ep'] same by simp
next
  note D = router_wfD[OF wf]
  fix o'
  show "owner_bytes (put_ep i ep' r) o' = sum_list (map (bytes_for o') (endpoints (put_ep i ep' r)))"
    using D(5)[of o'] put_ep_sum[OF at, of "bytes_for o'" ep'] same
    by (auto simp: bytes_for_cases split: if_splits)
next
  note D = router_wfD[OF wf]
  fix o'
  show "length (filter (owned_live o') (endpoints (put_ep i ep' r))) \<le> MAX_ENDPOINTS_PER_OWNER"
    using D(9)[of o'] put_ep_count[OF at, of ep' o'] same by (simp add: owned_live_def)
qed (use router_wfD[OF wf] in simp_all)

lemma charge_wf:
  assumes wf: "router_wf r" and at: "ep_at r i = Some ep" and ep': "ep_wf ep'"
    and same: "alive ep" "alive ep'" "owner ep' = owner ep" "queued_bytes ep' = queued_bytes ep + n"
    and total: "queued_bytes_total r + n \<le> max_queued_bytes_total r"
    and own: "\<And>o'. owner ep = Some o' \<Longrightarrow> owner_bytes r o' + n \<le> max_queued_bytes_per_owner r"
  shows "router_wf (charge (owner ep) n (put_ep i ep' r))"
proof (rule router_wfI)
  let ?r = "charge (owner ep) n (put_ep i ep' r)"
  note D = router_wfD[OF wf]
  have eps: "endpoints ?r = (endpoints r)[unat i := ep']" by (simp add: charge_def)
  have tot: "queued_bytes_total ?r = queued_bytes_total r + n"
    using total D(4) by (simp add: charge_def saturating_add_def)
  have ob: "owner_bytes ?r o' = owner_bytes r o' + (if owner ep = Some o' then n else 0)" for o'
    by (auto simp: charge_def owner_bytes_def entry_add_def split: option.splits)
  fix o' x
  show "x \<in> set (endpoints ?r) \<Longrightarrow> ep_wf x"
    using D(1) ep' set_update_subset_insert unfolding eps by fastforce
  show "queued_bytes_total ?r = sum_list (map queued_bytes (endpoints ?r))"
    using D(2) put_ep_sum[OF at, of queued_bytes ep'] same unfolding eps tot by simp
  show "owner_bytes ?r o' = sum_list (map (bytes_for o') (endpoints ?r))"
    using D(5)[of o'] put_ep_sum[OF at, of "bytes_for o'" ep'] same unfolding eps ob
    by (auto simp: bytes_for_cases)
  show "owner_bytes ?r o' \<le> max_queued_bytes_per_owner ?r"
    using D(6)[of o'] own[of o'] unfolding ob by (auto simp: charge_def)
  show "length (filter (owned_live o') (endpoints ?r)) \<le> MAX_ENDPOINTS_PER_OWNER"
    using D(9)[of o'] put_ep_count[OF at, of ep' o'] same unfolding eps by (simp add: owned_live_def)
  show "queued_bytes_total ?r \<le> max_queued_bytes_total ?r"
    using total unfolding tot by (simp add: charge_def)
qed (use router_wfD[OF wf] in \<open>simp_all add: charge_def\<close>)

lemma discharge_wf:
  assumes wf: "router_wf r" and at: "ep_at r i = Some ep" and ep': "ep_wf ep'"
    and same: "alive ep" "alive ep'" "owner ep' = owner ep" "queued_bytes ep = queued_bytes ep' + n"
  shows "router_wf (discharge (owner ep) n (put_ep i ep' r))"
proof (rule router_wfI)
  let ?r = "discharge (owner ep) n (put_ep i ep' r)"
  note D = router_wfD[OF wf]
  have eps: "endpoints ?r = (endpoints r)[unat i := ep']" by (simp add: discharge_def)
  have tot: "queued_bytes_total ?r = queued_bytes_total r - n"
    by (simp add: discharge_def saturating_sub_def)
  have ob: "owner_bytes ?r o' = owner_bytes r o' - (if owner ep = Some o' then n else 0)" for o'
    by (auto simp: discharge_def owner_bytes_def saturating_sub_def split: option.splits)
  fix o' x
  show "x \<in> set (endpoints ?r) \<Longrightarrow> ep_wf x"
    using D(1) ep' set_update_subset_insert unfolding eps by fastforce
  show "queued_bytes_total ?r = sum_list (map queued_bytes (endpoints ?r))"
    using D(2) put_ep_sum[OF at, of queued_bytes ep'] same unfolding eps tot by simp
  show "owner_bytes ?r o' = sum_list (map (bytes_for o') (endpoints ?r))"
    using D(5)[of o'] put_ep_sum[OF at, of "bytes_for o'" ep'] same unfolding eps ob
    by (auto simp: bytes_for_cases)
  show "owner_bytes ?r o' \<le> max_queued_bytes_per_owner ?r"
    using D(6)[of o'] unfolding ob by (auto simp: discharge_def)
  show "length (filter (owned_live o') (endpoints ?r)) \<le> MAX_ENDPOINTS_PER_OWNER"
    using D(9)[of o'] put_ep_count[OF at, of ep' o'] same unfolding eps by (simp add: owned_live_def)
  show "queued_bytes_total ?r \<le> max_queued_bytes_total ?r"
    using D(3) unfolding tot by (simp add: discharge_def)
qed (use router_wfD[OF wf] in \<open>simp_all add: discharge_def\<close>)

lemma recompute_simps [simp]:
  "endpoints (recompute_accounting r) = endpoints r"
  "queued_bytes_total (recompute_accounting r) = sum_list (map queued_bytes (endpoints r))"
  "max_queued_bytes_total (recompute_accounting r) = max_queued_bytes_total r"
  "max_queued_bytes_per_owner (recompute_accounting r) = max_queued_bytes_per_owner r"
  by (simp_all add: recompute_accounting_def)

lemma recompute_fold:
  "(case foldl (\<lambda>m ep. if \<not> alive ep then m
                else case owner ep of None \<Rightarrow> m | Some o' \<Rightarrow> entry_add o' (queued_bytes ep) m)
      m eps o' of None \<Rightarrow> 0 | Some v \<Rightarrow> v) =
   (case m o' of None \<Rightarrow> 0 | Some v \<Rightarrow> v) + sum_list (map (bytes_for o') eps)"
proof (induction eps arbitrary: m)
  case (Cons ep eps)
  show ?case
    by (auto simp: Cons.IH entry_add_def bytes_for_cases split: option.splits)
qed simp

lemma owner_bytes_recompute:
  "owner_bytes (recompute_accounting r) o' = sum_list (map (bytes_for o') (endpoints r))"
  using recompute_fold[of Map.empty "endpoints r" o']
  by (simp add: owner_bytes_def recompute_accounting_def)

text \<open>An endpoint after a shrinking step: it may have been closed or drained.\<close>

definition ep_shrunk :: "endpoint \<Rightarrow> endpoint \<Rightarrow> bool" where
  "ep_shrunk ep' ep \<longleftrightarrow> ep_wf ep' \<and> queued_bytes ep' \<le> queued_bytes ep \<and>
     (alive ep' \<longrightarrow> alive ep) \<and> owner ep' = owner ep"

lemma sum_list_mono_all2:
  fixes f :: "'a \<Rightarrow> nat"
  assumes "list_all2 R xs ys" "\<And>x y. R x y \<Longrightarrow> f x \<le> f y"
  shows "sum_list (map f xs) \<le> sum_list (map f ys)"
  using assms(1) by (induction rule: list_all2_induct) (auto simp: assms(2) add_mono)

lemma shrunk_owned:
  "ep_shrunk x y \<Longrightarrow> (if owned_live o' x then 1 else 0) \<le> (if owned_live o' y then 1 else (0 :: nat))"
  by (simp add: ep_shrunk_def owned_live_def)

lemma recompute_shrunk_wf:
  assumes wf: "router_wf r" and sh: "list_all2 ep_shrunk eps (endpoints r)"
  shows "router_wf (recompute_accounting (r\<lparr>endpoints := eps\<rparr>))"
proof (rule router_wfI)
  let ?r = "recompute_accounting (r\<lparr>endpoints := eps\<rparr>)"
  note D = router_wfD[OF wf]
  have le: "sum_list (map f eps) \<le> sum_list (map f (endpoints r))"
    if "\<And>x y. ep_shrunk x y \<Longrightarrow> f x \<le> f y" for f :: "endpoint \<Rightarrow> nat"
    by (rule sum_list_mono_all2[OF sh]) (rule that)
  have b: "sum_list (map (bytes_for o') eps) \<le> sum_list (map (bytes_for o') (endpoints r))" for o'
    by (rule le) (auto simp: ep_shrunk_def bytes_for_cases)
  fix o' x
  show "x \<in> set (endpoints ?r) \<Longrightarrow> ep_wf x"
    using sh by (auto simp: list_all2_conv_all_nth in_set_conv_nth ep_shrunk_def)
  show "queued_bytes_total ?r \<le> max_queued_bytes_total ?r"
    using D(2,3) le[of queued_bytes] by (simp add: ep_shrunk_def)
  show "owner_bytes ?r o' = sum_list (map (bytes_for o') (endpoints ?r))"
    by (simp add: owner_bytes_recompute)
  show "owner_bytes ?r o' \<le> max_queued_bytes_per_owner ?r"
    using b[of o'] D(5,6)[of o'] by (simp add: owner_bytes_recompute)
  show "length (filter (owned_live o') (endpoints ?r)) \<le> MAX_ENDPOINTS_PER_OWNER"
    using le[of "\<lambda>x. if owned_live o' x then 1 else 0", OF shrunk_owned] D(9)[of o']
    by (simp add: length_filter_sum)
  show "length (endpoints ?r) \<le> MAX_ENDPOINTS"
    using D(8) list_all2_lengthD[OF sh] by simp
qed (use router_wfD[OF wf] in simp_all)

lemma queue_bytes_simps [simp]:
  "queue_bytes [] = 0"
  "queue_bytes (m # q) = length (payload m) + queue_bytes q"
  "queue_bytes (q @ q') = queue_bytes q + queue_bytes q'"
  by (simp_all add: queue_bytes_def)

lemma ep_push_wf:
  assumes "ep_wf ep" "ep_push msg ep = (Inr u, ep')"
  shows "ep_wf ep'" "alive ep" "alive ep'" "owner ep' = owner ep" "depth ep' = depth ep"
    "queue ep' = queue ep @ [msg]" "queued_bytes ep' = queued_bytes ep + length (payload msg)"
  using assms saturating_exact[of "queued_bytes ep" "length (payload msg)" "max_queued_bytes ep"]
  by (auto simp: ep_push_def ep_wf_def Let_def not_le not_less split: if_splits)

lemma ep_push_front_wf:
  assumes "ep_wf ep" "ep_push_front msg ep = (Inr u, ep')"
  shows "ep_wf ep'" "alive ep" "alive ep'" "owner ep' = owner ep"
    "queue ep' = msg # queue ep" "queued_bytes ep' = queued_bytes ep + length (payload msg)"
  using assms saturating_exact[of "queued_bytes ep" "length (payload msg)" "max_queued_bytes ep"]
  by (auto simp: ep_push_front_def ep_wf_def Let_def not_le not_less split: if_splits)

lemma ep_pop_wf:
  assumes "ep_wf ep" "ep_pop ep = (Inr msg, ep')"
  shows "ep_wf ep'" "alive ep" "alive ep'" "owner ep' = owner ep" "depth ep' = depth ep"
    "queue ep = msg # queue ep'" "queued_bytes ep = queued_bytes ep' + length (payload msg)"
  using assms
  by (auto simp: ep_pop_def ep_wf_def saturating_sub_def split: if_splits list.splits)

lemma over_owner_budget_iff:
  "router_wf r \<Longrightarrow> over_owner_budget r ow n \<longleftrightarrow>
     (\<exists>o'. ow = Some o' \<and> max_queued_bytes_per_owner r < owner_bytes r o' + n)"
  using router_wfD(7)[of r]
  by (auto simp: over_owner_budget_def saturating_add_def split: option.splits)

lemma over_total_iff:
  "router_wf r \<Longrightarrow> max_queued_bytes_total r < saturating_add (queued_bytes_total r) n \<longleftrightarrow>
     max_queued_bytes_total r < queued_bytes_total r + n"
  using router_wfD(4)[of r] by (auto simp: saturating_add_def)

lemma send_returning_message_wf:
  assumes wf: "router_wf r" and send: "send_returning_message i msg r = (res, r')"
  shows "router_wf r'"
proof (cases res)
  case (Inl e)
  with send have "r' = r"
    by (auto simp: send_returning_message_def Let_def split: if_splits option.splits sum.splits prod.splits)
  with wf show ?thesis by simp
next
  case (Inr u)
  with send obtain ep ep' where at: "ep_at r i = Some ep" and push: "ep_push msg ep = (Inr u, ep')"
    and tot: "queued_bytes_total r + length (payload msg) \<le> max_queued_bytes_total r"
    and own: "\<And>o'. owner ep = Some o' \<Longrightarrow> owner_bytes r o' + length (payload msg) \<le> max_queued_bytes_per_owner r"
    and r': "r' = charge (owner ep) (length (payload msg)) (put_ep i ep' r)"
    by (auto simp: send_returning_message_def Let_def ep_owner_at_def over_owner_budget_iff[OF wf]
        over_total_iff[OF wf] not_less split: if_splits option.splits sum.splits prod.splits)
  from ep_push_wf[OF ep_at_wf[OF wf at] push] show ?thesis
    unfolding r' by (intro charge_wf[OF wf at _ _ _ _ _ tot own]) auto
qed

lemma requeue_front_wf:
  assumes wf: "router_wf r" and rq: "requeue_front i msg r = (res, r')"
  shows "router_wf r'"
proof (cases res)
  case (Inl e)
  with rq have "r' = r"
    by (auto simp: requeue_front_def Let_def split: if_splits option.splits sum.splits prod.splits)
  with wf show ?thesis by simp
next
  case (Inr u)
  with rq obtain ep ep' where at: "ep_at r i = Some ep" and push: "ep_push_front msg ep = (Inr u, ep')"
    and tot: "queued_bytes_total r + length (payload msg) \<le> max_queued_bytes_total r"
    and own: "\<And>o'. owner ep = Some o' \<Longrightarrow> owner_bytes r o' + length (payload msg) \<le> max_queued_bytes_per_owner r"
    and r': "r' = charge (owner ep) (length (payload msg)) (put_ep i ep' r)"
    by (auto simp: requeue_front_def Let_def ep_owner_at_def over_owner_budget_iff[OF wf]
        over_total_iff[OF wf] not_less split: if_splits option.splits sum.splits prod.splits)
  from ep_push_front_wf[OF ep_at_wf[OF wf at] push] show ?thesis
    unfolding r' by (intro charge_wf[OF wf at _ _ _ _ _ tot own]) auto
qed

lemma router_recv_Inr:
  assumes "router_recv i r = (Inr msg, r')"
  obtains ep ep' where "ep_at r i = Some ep" "ep_pop ep = (Inr msg, ep')"
    "r' = discharge (owner ep) (length (payload msg)) (put_ep i ep' r)"
  using assms by (auto simp: router_recv_def ep_owner_at_def Let_def
      split: option.splits sum.splits prod.splits)

lemma router_recv_Inl: "router_recv i r = (Inl e, r') \<Longrightarrow> r' = r"
  by (auto simp: router_recv_def Let_def split: option.splits sum.splits prod.splits)

lemma router_recv_wf:
  assumes wf: "router_wf r" and recv: "router_recv i r = (res, r')"
  shows "router_wf r'"
proof (cases res)
  case (Inl e)
  with recv wf router_recv_Inl show ?thesis by blast
next
  case (Inr msg)
  with recv obtain ep ep' where at: "ep_at r i = Some ep" and pop: "ep_pop ep = (Inr msg, ep')"
    and r': "r' = discharge (owner ep) (length (payload msg)) (put_ep i ep' r)"
    using router_recv_Inr by blast
  from ep_pop_wf[OF ep_at_wf[OF wf at] pop] show ?thesis
    unfolding r' by (intro discharge_wf[OF wf at]) auto
qed

lemma with_live_ep_wf:
  assumes wf: "router_wf r" and op: "with_live_ep i f r = (res, r')"
    and f: "\<And>ep a ep'. ep_wf ep \<Longrightarrow> alive ep \<Longrightarrow> f ep = (a, ep') \<Longrightarrow>
       ep_wf ep' \<and> alive ep' = alive ep \<and> owner ep' = owner ep \<and> queued_bytes ep' = queued_bytes ep"
  shows "router_wf r'"
proof (cases res)
  case (Inl e)
  with op wf show ?thesis
    by (auto simp: with_live_ep_def split: option.splits if_splits prod.splits)
next
  case (Inr a)
  with op obtain ep ep' where at: "ep_at r i = Some ep" "alive ep" and fe: "f ep = (a, ep')"
    and r': "r' = put_ep i ep' r"
    by (auto simp: with_live_ep_def split: option.splits if_splits prod.splits)
  from f[OF ep_at_wf[OF wf at(1)] at(2) fe] show ?thesis
    unfolding r' by (intro put_ep_wf[OF wf at(1)]) auto
qed

lemma waiter_ops_wf:
  assumes "router_wf r"
  shows "register_recv_waiter i p r = (a, r') \<Longrightarrow> router_wf r'"
    "register_send_waiter i p r = (a, r') \<Longrightarrow> router_wf r'"
    "pop_recv_waiter i r = (b, r') \<Longrightarrow> router_wf r'"
    "pop_send_waiter i r = (b, r') \<Longrightarrow> router_wf r'"
    "remove_recv_waiter i p r = (c, r') \<Longrightarrow> router_wf r'"
    "remove_send_waiter i p r = (c, r') \<Longrightarrow> router_wf r'"
  unfolding register_recv_waiter_def register_send_waiter_def pop_recv_waiter_def
    pop_send_waiter_def remove_recv_waiter_def remove_send_waiter_def
  by (erule with_live_ep_wf[OF assms],
      auto simp: ep_defs ep_wf_def Let_def split: if_splits list.splits)+

lemma close_owned_shrunk: "ep_wf ep \<Longrightarrow> ep_shrunk (snd (ep_close_if_owned_by o' ep)) ep"
  by (auto simp: ep_close_if_owned_by_def ep_shrunk_def ep_wf_def)

lemma close_endpoints_for_owner_wf:
  assumes "router_wf r" "close_endpoints_for_owner o' r = (ws, r')"
  shows "router_wf r'"
proof -
  have "list_all2 ep_shrunk (map snd (map (ep_close_if_owned_by o') (endpoints r))) (endpoints r)"
    using router_wfD(1)[OF assms(1)] close_owned_shrunk
    by (auto simp: list_all2_conv_all_nth)
  from recompute_shrunk_wf[OF assms(1) this] assms(2) show ?thesis
    by (auto simp: close_endpoints_for_owner_def Let_def)
qed

lemma close_endpoint_wf:
  assumes wf: "router_wf r" and cl: "close_endpoint i r = (res, r')"
  shows "router_wf r'"
proof (cases "\<exists>ep. ep_at r i = Some ep \<and> alive ep")
  case False
  with cl wf show ?thesis by (auto simp: close_endpoint_def split: option.splits if_splits)
next
  case True
  then obtain ep where at: "ep_at r i = Some ep" "alive ep" by blast
  define ep' where "ep' = ep\<lparr>alive := False, queue := [], queued_bytes := 0, recv_waiters := [], send_waiters := []\<rparr>"
  have "ep_shrunk ep' ep" using ep_at_wf[OF wf at(1)]
    by (simp add: ep_shrunk_def ep'_def ep_wf_def)
  moreover have "list_all2 ep_shrunk (endpoints r) (endpoints r)"
    using router_wfD(1)[OF wf] by (auto intro!: list_all2_refl simp: list_all2_conv_all_nth ep_shrunk_def)
  ultimately have "list_all2 ep_shrunk ((endpoints r)[unat i := ep']) ((endpoints r)[unat i := ep])"
    by (intro list_all2_update_cong)
  then have "list_all2 ep_shrunk ((endpoints r)[unat i := ep']) (endpoints r)"
    using at by (auto simp: ep_at_Some)
  from recompute_shrunk_wf[OF wf this] show ?thesis
    using cl at by (auto simp: close_endpoint_def put_ep_def ep'_def)
qed

lemma create_endpoint_wf:
  assumes wf: "router_wf r" and cr: "create_endpoint d ow r = (res, r')"
  shows "router_wf r'"
proof (cases res)
  case (Inl e)
  with cr wf show ?thesis by (auto simp: create_endpoint_def Let_def split: if_splits option.splits)
next
  case (Inr j)
  note D = router_wfD[OF wf]
  let ?ep = "ep_with_depth (min (max d 1) 256) ow"
  from Inr cr have r': "r' = r\<lparr>endpoints := endpoints r @ [?ep]\<rparr>"
    and room: "length (endpoints r) < MAX_ENDPOINTS"
    and quota: "\<And>o'. ow = Some o' \<Longrightarrow> length (filter (owned_live o') (endpoints r)) < MAX_ENDPOINTS_PER_OWNER"
    by (auto simp: create_endpoint_def Let_def not_le split: if_splits option.splits)
  have "saturating_mul (min (max d 1) 256) MAX_FRAME_BYTES < usize_max"
    by (simp add: saturating_mul_def MAX_FRAME_BYTES_def usize_max_def min_def max_def)
  then have ep: "ep_wf ?ep" "queued_bytes ?ep = 0" "owner ?ep = ow" "bytes_for o' ?ep = 0" for o'
    by (simp_all add: ep_with_depth_def ep_wf_def bytes_for_def)
  show ?thesis
  proof (rule router_wfI)
    fix o'
    show "length (filter (owned_live o') (endpoints r')) \<le> MAX_ENDPOINTS_PER_OWNER"
      using D(9)[of o'] quota[of o'] ep(3) by (auto simp: r' owned_live_def)
    show "owner_bytes r' o' = sum_list (map (bytes_for o') (endpoints r'))"
      using D(5)[of o'] ep by (simp add: r' owner_bytes_def)
    show "owner_bytes r' o' \<le> max_queued_bytes_per_owner r'"
      using D(6)[of o'] by (simp add: r' owner_bytes_def)
  qed (use D ep room in \<open>auto simp: r'\<close>)
qed

lemma remove_waiter_from_all_wf:
  assumes wf: "router_wf r"
  shows "router_wf (remove_waiter_from_all pid r)"
proof -
  let ?f = "\<lambda>ep. snd (ep_remove_send_waiter pid (snd (ep_remove_recv_waiter pid ep)))"
  have f: "alive (?f ep) = alive ep" "owner (?f ep) = owner ep" "queued_bytes (?f ep) = queued_bytes ep"
    "ep_wf ep \<Longrightarrow> ep_wf (?f ep)" for ep
    by (auto simp: ep_defs Let_def ep_wf_def)
  then have "owned_live o' \<circ> ?f = owned_live o'" "bytes_for o' \<circ> ?f = bytes_for o'"
    "queued_bytes \<circ> ?f = queued_bytes" for o'
    by (auto simp: fun_eq_iff owned_live_def bytes_for_def)
  then show ?thesis
    using router_wfD[OF wf] f(4)
    by (intro router_wfI)
      (auto simp: remove_waiter_from_all_def owner_bytes_def filter_map)
qed

lemma router_new_wf: "n \<le> MAX_ENDPOINTS \<Longrightarrow> router_wf (router_new n)"
  by (rule router_wfI)
    (auto simp: router_new_def ep_with_depth_def ep_wf_def bytes_for_cases owner_bytes_def owned_live_def
      saturating_mul_def MAX_FRAME_BYTES_def usize_max_def sum_list_replicate)

subsection \<open>Interleavings of router operations\<close>

datatype router_op =
    OpSend endpoint_id message
  | OpRecv endpoint_id
  | OpRequeue endpoint_id message
  | OpRegisterRecv endpoint_id waiter_id
  | OpRegisterSend endpoint_id waiter_id
  | OpPopRecv endpoint_id
  | OpPopSend endpoint_id
  | OpRemoveRecv endpoint_id waiter_id
  | OpRemoveSend endpoint_id waiter_id
  | OpCreate usize "waiter_id option"
  | OpCloseOwner waiter_id
  | OpClose endpoint_id
  | OpRemoveFromAll waiter_id

fun router_exec :: "router_op \<Rightarrow> router \<Rightarrow> router" where
  "router_exec (OpSend i m) r = snd (router_send i m r)"
| "router_exec (OpRecv i) r = snd (router_recv i r)"
| "router_exec (OpRequeue i m) r = snd (requeue_front i m r)"
| "router_exec (OpRegisterRecv i p) r = snd (register_recv_waiter i p r)"
| "router_exec (OpRegisterSend i p) r = snd (register_send_waiter i p r)"
| "router_exec (OpPopRecv i) r = snd (pop_recv_waiter i r)"
| "router_exec (OpPopSend i) r = snd (pop_send_waiter i r)"
| "router_exec (OpRemoveRecv i p) r = snd (remove_recv_waiter i p r)"
| "router_exec (OpRemoveSend i p) r = snd (remove_send_waiter i p r)"
| "router_exec (OpCreate d ow) r = snd (create_endpoint d ow r)"
| "router_exec (OpCloseOwner p) r = snd (close_endpoints_for_owner p r)"
| "router_exec (OpClose i) r = snd (close_endpoint i r)"
| "router_exec (OpRemoveFromAll p) r = remove_waiter_from_all p r"

lemma router_send_wf: "router_wf r \<Longrightarrow> router_send i msg r = (res, r') \<Longrightarrow> router_wf r'"
  by (auto simp: router_send_def split: prod.splits intro: send_returning_message_wf)

lemma router_exec_wf: "router_wf r \<Longrightarrow> router_wf (router_exec op r)"
  by (cases op)
    (auto simp: remove_waiter_from_all_wf
      intro: router_send_wf[OF _ surjective_pairing] router_recv_wf[OF _ surjective_pairing]
        requeue_front_wf[OF _ surjective_pairing] waiter_ops_wf[OF _ surjective_pairing]
        create_endpoint_wf[OF _ surjective_pairing] close_endpoint_wf[OF _ surjective_pairing]
        close_endpoints_for_owner_wf[OF _ surjective_pairing])

subsection \<open>Endpoints as bounded queues\<close>

definition router_queue :: "endpoint_id \<Rightarrow> router \<Rightarrow> message list" where
  "router_queue i r = (case ep_at r i of None \<Rightarrow> [] | Some ep \<Rightarrow> queue ep)"

definition router_depth :: "endpoint_id \<Rightarrow> router \<Rightarrow> nat" where
  "router_depth i r = (case ep_at r i of None \<Rightarrow> 0 | Some ep \<Rightarrow> depth ep)"

definition live_wf :: "endpoint_id \<Rightarrow> router \<Rightarrow> bool" where
  "live_wf i r \<longleftrightarrow> router_wf r \<and> endpoint_alive r i"

lemma endpoints_charge [simp]:
  "endpoints (charge ow n r) = endpoints r" "endpoints (discharge ow n r) = endpoints r"
  by (simp_all add: charge_def discharge_def)

lemma ep_at_put [simp]:
  "ep_at r i = Some ep \<Longrightarrow> ep_at (charge ow n (put_ep i ep' r)) j = (if i = j then Some ep' else ep_at r j)"
  "ep_at r i = Some ep \<Longrightarrow> ep_at (discharge ow n (put_ep i ep' r)) j = (if i = j then Some ep' else ep_at r j)"
  by (auto simp: ep_at_def vec_get_def nth_list_update word_unat_eq_iff split: if_splits)

lemma send_returning_Inr:
  assumes "send_returning_message i msg r = (Inr u, r')"
  obtains ep ep' where "ep_at r i = Some ep" "ep_push msg ep = (Inr u, ep')"
    "r' = charge (owner ep) (length (payload msg)) (put_ep i ep' r)"
  using assms by (auto simp: send_returning_message_def ep_owner_at_def Let_def
      split: if_splits option.splits sum.splits prod.splits)

lemma send_returning_Inl: "send_returning_message i msg r = (Inl (e, m), r') \<Longrightarrow> r' = r \<and> m = msg"
  by (auto simp: send_returning_message_def ep_push_def Let_def
      split: if_splits option.splits sum.splits prod.splits)

lemma router_send_Inr:
  "router_send i msg r = (Inr u, r') \<longleftrightarrow> send_returning_message i msg r = (Inr u, r')"
  by (auto simp: router_send_def split: prod.splits)

lemma router_send_Inl: "router_send i msg r = (Inl e, r') \<Longrightarrow> r' = r"
  by (auto simp: router_send_def map_err_eq_Inl split: prod.splits dest: send_returning_Inl)

interpretation chan: bounded_fifo "live_wf i" "router_queue i" "router_depth i"
    "router_send i" "router_recv i" for i
proof unfold_locales
  fix q q' u and x :: message
  assume inv: "live_wf i q" and send: "router_send i x q = (Inr u, q')"
  then obtain ep ep' where at: "ep_at q i = Some ep" and push: "ep_push x ep = (Inr u, ep')"
    and q': "q' = charge (owner ep) (length (payload x)) (put_ep i ep' q)"
    using send_returning_Inr unfolding router_send_Inr by blast
  from inv have wf: "router_wf q" by (simp add: live_wf_def)
  from ep_push_wf[OF ep_at_wf[OF wf at] push] router_send_wf[OF wf send] at
  show "live_wf i q' \<and> router_queue i q' = router_queue i q @ [x] \<and> router_depth i q' = router_depth i q"
    by (simp add: live_wf_def router_queue_def router_depth_def endpoint_alive_def q')
next
  fix q q' and x :: message
  assume inv: "live_wf i q" and recv: "router_recv i q = (Inr x, q')"
  then obtain ep ep' where at: "ep_at q i = Some ep" and pop: "ep_pop ep = (Inr x, ep')"
    and q': "q' = discharge (owner ep) (length (payload x)) (put_ep i ep' q)"
    using router_recv_Inr by blast
  from inv have wf: "router_wf q" by (simp add: live_wf_def)
  from ep_pop_wf[OF ep_at_wf[OF wf at] pop] router_recv_wf[OF wf recv] at
  show "live_wf i q' \<and> router_queue i q = x # router_queue i q' \<and> router_depth i q' = router_depth i q"
    by (simp add: live_wf_def router_queue_def router_depth_def endpoint_alive_def q')
next
  fix q q' f
  assume "live_wf i q" "router_recv i q = (Inl f, q')"
  then show "q' = q \<and> router_queue i q = []"
    by (auto simp: live_wf_def endpoint_alive_def router_recv_def router_queue_def ep_pop_def Let_def
        split: option.splits if_splits list.splits)
next
  fix q assume "live_wf i q"
  then show "length (router_queue i q) \<le> router_depth i q"
    by (auto simp: live_wf_def router_queue_def router_depth_def endpoint_alive_def ep_wf_def
        dest: ep_at_wf split: option.splits)
qed (auto dest: router_send_Inl)

subsection \<open>Properties\<close>

text \<open>C6: Every interleaving of router operations keeps the accounting invariant, starting from a
  fresh router with at most 384 endpoints: queues stay within their depth, byte counters equal the
  bytes actually queued per endpoint, per owner and in total, all three byte budgets hold, waiter
  lists have no duplicates, dead endpoints hold nothing, and the endpoint quotas hold.\<close>

theorem router_invariant:
  assumes "n \<le> MAX_ENDPOINTS"
  shows "router_wf (fold router_exec ops (router_new n))"
proof -
  have "router_wf (fold router_exec ops r)" if "router_wf r" for r
    using that by (induction ops arbitrary: r) (auto intro: router_exec_wf)
  from this[OF router_new_wf[OF assms]] show ?thesis .
qed

definition ex_msg :: "u8 list \<Rightarrow> message" where
  "ex_msg p = message_new (header_new 1 2 3 0 64) p None"

theorem router_invariant_witness:
  "(2 :: nat) \<le> MAX_ENDPOINTS \<and>
   router_wf (fold router_exec [OpCreate 4 (Some 7), OpSend 2 (ex_msg [1, 2]), OpRecv 2, OpCloseOwner 7]
     (router_new 2))"
  by (intro conjI router_invariant) (simp_all add: MAX_ENDPOINTS_def)

text \<open>C10: First-in first-out delivery: whatever sends and receives are interleaved on a live endpoint,
  the messages it held followed by the accepted ones are exactly the delivered messages followed by
  those still queued, so nothing is lost, duplicated or reordered, and the queue never exceeds the
  endpoint's depth.\<close>

theorem endpoint_fifo:
  assumes "live_wf i r" "run_fifo (router_send i) (router_recv i) ops r = (acc, del, r')"
  shows "router_queue i r @ acc = del @ router_queue i r' \<and> live_wf i r' \<and>
    length (router_queue i r') \<le> router_depth i r"
  using chan.run_conserves[OF assms] chan.items_bounded[of i r'] by auto

theorem endpoint_fifo_witness:
  "router_queue 0 (router_new 1) @ [ex_msg [1], ex_msg [2]] =
     [ex_msg [1]] @ router_queue 0 (snd (snd (run_fifo (router_send 0) (router_recv 0)
       [Push (ex_msg [1]), Push (ex_msg [2]), Pop] (router_new 1))))"
proof -
  have live: "live_wf 0 (router_new 1)"
    using router_new_wf[of 1]
    by (simp add: live_wf_def endpoint_alive_def ep_at_def vec_get_def router_new_def
        ep_with_depth_def MAX_ENDPOINTS_def)
  have run: "run_fifo (router_send 0) (router_recv 0) [Push (ex_msg [1]), Push (ex_msg [2]), Pop] (router_new 1) =
     ([ex_msg [1], ex_msg [2]], [ex_msg [1]],
      snd (snd (run_fifo (router_send 0) (router_recv 0)
        [Push (ex_msg [1]), Push (ex_msg [2]), Pop] (router_new 1))))"
    by (simp add: router_send_def send_returning_message_def router_recv_def router_new_def ex_msg_def
        message_new_def header_new_def ep_at_def ep_owner_at_def vec_get_def ep_push_def ep_pop_def
        ep_with_depth_def over_owner_budget_def charge_def discharge_def put_ep_def Let_def
        arith_ops usize_max_def MAX_FRAME_BYTES_def)
  from endpoint_fifo[OF live run] show ?thesis by simp
qed

text \<open>C16: A send is accepted exactly when the endpoint exists, is alive, has queue room, and the
  payload fits the endpoint, owner and global byte budgets; an accepted message is appended and no
  other endpoint changes; a refused message is handed back unchanged and the router is untouched.\<close>

theorem send_outcome:
  assumes "router_wf r" "send_returning_message i msg r = (res, r')"
  shows "(res = Inr () \<longleftrightarrow>
      (\<exists>ep. ep_at r i = Some ep \<and> alive ep \<and> length (queue ep) < depth ep \<and>
        queued_bytes ep + length (payload msg) \<le> max_queued_bytes ep \<and>
        queued_bytes_total r + length (payload msg) \<le> max_queued_bytes_total r \<and>
        (\<forall>o'. owner ep = Some o' \<longrightarrow>
           owner_bytes r o' + length (payload msg) \<le> max_queued_bytes_per_owner r))) \<and>
    (res = Inr () \<longrightarrow> router_queue i r' = router_queue i r @ [msg] \<and> (\<forall>j. j \<noteq> i \<longrightarrow> ep_at r' j = ep_at r j)) \<and>
    (\<forall>e m. res = Inl (e, m) \<longrightarrow> m = msg \<and> r' = r)"
proof (intro conjI impI allI)
  note wf = assms(1) and send = assms(2)
  have sat: "max_queued_bytes ep < saturating_add (queued_bytes ep) n \<longleftrightarrow> max_queued_bytes ep < queued_bytes ep + n"
    if "ep_at r i = Some ep" for ep n
    using ep_at_wf[OF wf that] saturating_le_iff[of "max_queued_bytes ep" "queued_bytes ep" n]
    by (auto simp: ep_wf_def)
  show "res = Inr () \<longleftrightarrow>
      (\<exists>ep. ep_at r i = Some ep \<and> alive ep \<and> length (queue ep) < depth ep \<and>
        queued_bytes ep + length (payload msg) \<le> max_queued_bytes ep \<and>
        queued_bytes_total r + length (payload msg) \<le> max_queued_bytes_total r \<and>
        (\<forall>o'. owner ep = Some o' \<longrightarrow>
           owner_bytes r o' + length (payload msg) \<le> max_queued_bytes_per_owner r))"
    using send sat
    by (auto simp: send_returning_message_def ep_push_def Let_def ep_owner_at_def not_less not_le
        over_owner_budget_iff[OF wf] over_total_iff[OF wf] split: if_splits option.splits)
  fix e m
  show "res = Inl (e, m) \<Longrightarrow> m = msg" "res = Inl (e, m) \<Longrightarrow> r' = r"
    using send send_returning_Inl by blast+
next
  fix j
  assume "res = Inr ()"
  with assms obtain ep ep' where at: "ep_at r i = Some ep" and push: "ep_push msg ep = (Inr (), ep')"
    and r': "r' = charge (owner ep) (length (payload msg)) (put_ep i ep' r)"
    using send_returning_Inr by blast
  from at ep_push_wf(6)[OF ep_at_wf[OF assms(1) at] push]
  show "router_queue i r' = router_queue i r @ [msg]" "j \<noteq> i \<Longrightarrow> ep_at r' j = ep_at r j"
    by (auto simp: r' router_queue_def)
qed

theorem send_outcome_witness:
  "router_queue 0 (snd (send_returning_message 0 (ex_msg [9]) (router_new 1))) = [ex_msg [9]]"
proof -
  have ok: "fst (send_returning_message 0 (ex_msg [9]) (router_new 1)) = Inr ()"
    and empty: "router_queue 0 (router_new 1) = []"
    by (simp_all add: send_returning_message_def router_new_def ex_msg_def router_queue_def
        message_new_def header_new_def ep_at_def ep_owner_at_def vec_get_def ep_push_def
        ep_with_depth_def over_owner_budget_def Let_def arith_ops usize_max_def MAX_FRAME_BYTES_def)
  have "(1 :: nat) \<le> MAX_ENDPOINTS" by (simp add: MAX_ENDPOINTS_def)
  from send_outcome[OF router_new_wf[OF this] surjective_pairing, of 0 "ex_msg [9]"] ok empty
  show ?thesis by simp
qed

text \<open>Returning a just-received message is always possible and undoes the receive: after a successful
  \<open>recv\<close>, \<open>requeue_front\<close> of that message succeeds and restores every endpoint, the global byte
  count and every owner's byte count.\<close>

theorem requeue_undoes_recv:
  assumes wf: "router_wf r" and recv: "router_recv i r = (Inr msg, r1)"
  shows "\<exists>r2. requeue_front i msg r1 = (Inr (), r2) \<and> endpoints r2 = endpoints r \<and>
    queued_bytes_total r2 = queued_bytes_total r \<and> owner_bytes r2 = owner_bytes r"
proof -
  let ?n = "length (payload msg)"
  obtain ep ep' where at: "ep_at r i = Some ep" and pop: "ep_pop ep = (Inr msg, ep')"
    and r1: "r1 = discharge (owner ep) ?n (put_ep i ep' r)"
    using router_recv_Inr[OF recv] by blast
  note D = router_wfD[OF wf] and epwf = ep_at_wf[OF wf at] and pw = ep_pop_wf[OF ep_at_wf[OF wf at] pop]
  have at1: "ep_at r1 i = Some ep'" using at by (simp add: r1)
  have le: "queued_bytes ep \<le> queued_bytes_total r"
    using D(2) at member_le_sum_list[of "queued_bytes ep" "map queued_bytes (endpoints r)"]
    by (auto simp: ep_at_Some)
  have leo: "queued_bytes ep \<le> owner_bytes r o'" if "owner ep = Some o'" for o'
    using D(5)[of o'] at pw(2) that member_le_sum_list[of "bytes_for o' ep" "map (bytes_for o') (endpoints r)"]
    by (auto simp: ep_at_Some bytes_for_cases)
  have tot1: "queued_bytes_total r1 + ?n = queued_bytes_total r"
    using le pw(7) by (simp add: r1 discharge_def saturating_sub_def)
  have ob1: "owner_bytes r1 o' = owner_bytes r o' - (if owner ep = Some o' then ?n else 0)" for o'
    by (auto simp: r1 discharge_def owner_bytes_def saturating_sub_def split: option.splits)
  have push: "ep_push_front msg ep' = (Inr (), ep)"
    using pop epwf by (auto simp: ep_pop_def ep_push_front_def ep_wf_def Let_def saturating_sub_def
        saturating_add_def split: if_splits list.splits)
  have wf1: "router_wf r1" by (rule router_recv_wf[OF wf recv])
  have maxs: "max_queued_bytes_total r1 = max_queued_bytes_total r"
    "max_queued_bytes_per_owner r1 = max_queued_bytes_per_owner r"
    by (simp_all add: r1 discharge_def)
  have own: "\<not> over_owner_budget r1 (owner ep') ?n"
    using leo pw(4,7) D(6) by (auto simp: over_owner_budget_iff[OF wf1] maxs ob1 not_less)
  have room: "\<not> max_queued_bytes_total r1 < saturating_add (queued_bytes_total r1) ?n"
    using tot1 D(3) unfolding over_total_iff[OF wf1] by (simp add: maxs)
  have "requeue_front i msg r1 = (Inr (), charge (owner ep') ?n (put_ep i ep r1))"
    using at1 push own room by (simp add: requeue_front_def Let_def ep_owner_at_def)
  moreover have "endpoints (charge (owner ep') ?n (put_ep i ep r1)) = endpoints r"
    using at by (auto simp: r1 ep_at_Some)
  moreover have "queued_bytes_total (charge (owner ep') ?n (put_ep i ep r1)) = queued_bytes_total r"
    using tot1 D(3,4) by (simp add: charge_def saturating_add_def)
  moreover have "owner_bytes (charge (owner ep') ?n (put_ep i ep r1)) o' = owner_bytes r o'" for o'
    using ob1[of o'] leo[of o'] pw(4,7)
    by (auto simp: charge_def owner_bytes_def entry_add_def split: option.splits)
  ultimately show ?thesis by (auto simp: fun_eq_iff)
qed

theorem requeue_undoes_recv_witness:
  "endpoints (snd (requeue_front 0 (ex_msg [5])
     (snd (router_recv 0 (snd (router_send 0 (ex_msg [5]) (router_new 1))))))) =
   endpoints (snd (router_send 0 (ex_msg [5]) (router_new 1)))"
proof -
  let ?r = "snd (router_send 0 (ex_msg [5]) (router_new 1))"
  have "router_wf ?r"
    by (rule router_send_wf[OF router_new_wf surjective_pairing]) (simp add: MAX_ENDPOINTS_def)
  moreover have "router_recv 0 ?r = (Inr (ex_msg [5]), snd (router_recv 0 ?r))"
    by (simp add: router_send_def send_returning_message_def router_recv_def router_new_def ex_msg_def
        message_new_def header_new_def ep_at_def ep_owner_at_def vec_get_def ep_push_def ep_pop_def
        ep_with_depth_def over_owner_budget_def charge_def discharge_def put_ep_def Let_def
        arith_ops usize_max_def MAX_FRAME_BYTES_def)
  ultimately show ?thesis using requeue_undoes_recv[of ?r 0 "ex_msg [5]" "snd (router_recv 0 ?r)"] by auto
qed

text \<open>C17: Closing everything a task owns (task exit): afterwards every endpoint of the owner
  accepts no send and answers receive with \<open>NoSuchEndpoint\<close>, every other endpoint is unchanged; the
  returned wake list names exactly the tasks that were waiting on those endpoints, each once, in
  ascending order.\<close>

theorem close_owner_disconnects:
  assumes wf: "router_wf r" and close: "close_endpoints_for_owner o' r = (ws, r')"
  shows "(\<forall>i ep. ep_at r i = Some ep \<longrightarrow>
      (if owned_live o' ep
       then fst (router_recv i r') = Inl NoSuchEndpoint \<and> (\<forall>m. \<not> is_ok (fst (router_send i m r')))
       else ep_at r' i = Some ep)) \<and>
    set ws = (\<Union>ep \<in> {ep \<in> set (endpoints r). owned_live o' ep}. set (recv_waiters ep) \<union> set (send_waiters ep)) \<and>
    sorted ws \<and> distinct ws"
proof -
  have eps: "endpoints r' = map (\<lambda>ep. snd (ep_close_if_owned_by o' ep)) (endpoints r)"
    and ws: "ws = dedup (sort (concat (map ((\<lambda>c. case fst c of None \<Rightarrow> [] | Some (recv, send) \<Rightarrow> recv @ send)
      \<circ> ep_close_if_owned_by o') (endpoints r))))"
    using close by (auto simp: close_endpoints_for_owner_def Let_def)
  have "if owned_live o' ep
       then fst (router_recv i r') = Inl NoSuchEndpoint \<and> (\<forall>m. \<not> is_ok (fst (router_send i m r')))
       else ep_at r' i = Some ep" if at: "ep_at r i = Some ep" for i ep
  proof -
    from at have "ep_at r' i = Some (snd (ep_close_if_owned_by o' ep))"
      by (auto simp: ep_at_Some eps)
    then show ?thesis
      by (auto simp: owned_live_def ep_close_if_owned_by_def router_recv_def ep_pop_def
          router_send_def send_returning_message_def ep_push_def Let_def)
  qed
  moreover have "set ws = (\<Union>ep \<in> {ep \<in> set (endpoints r). owned_live o' ep}.
      set (recv_waiters ep) \<union> set (send_waiters ep))"
    by (auto simp: ws ep_close_if_owned_by_def owned_live_def split: if_splits)
  moreover have "sorted ws \<and> distinct ws"
    unfolding ws by (rule sorted_dedup) simp
  ultimately show ?thesis by blast
qed

theorem close_owner_disconnects_witness:
  "set (fst (close_endpoints_for_owner 7
     (snd (register_recv_waiter 0 9 (snd (create_endpoint 4 (Some 7) (router_new 0))))))) = {9}"
proof -
  let ?r1 = "snd (create_endpoint 4 (Some 7) (router_new 0))"
  let ?r = "snd (register_recv_waiter 0 9 ?r1)"
  have "router_wf ?r1"
    by (rule create_endpoint_wf[OF router_new_wf surjective_pairing]) (simp add: MAX_ENDPOINTS_def)
  then have wf: "router_wf ?r" by (rule waiter_ops_wf(1)[OF _ surjective_pairing])
  have "{ep \<in> set (endpoints ?r). owned_live 7 ep} = {(ep_with_depth 4 (Some 7))\<lparr>recv_waiters := [9]\<rparr>}"
    by (auto simp: register_recv_waiter_def with_live_ep_def create_endpoint_def router_new_def
        ep_with_depth_def ep_at_def vec_get_def ep_register_recv_waiter_def put_ep_def owned_live_def
        MAX_ENDPOINTS_def MAX_ENDPOINTS_PER_OWNER_def)
  with close_owner_disconnects[OF wf surjective_pairing, of 7] show ?thesis
    by (simp add: ep_with_depth_def)
qed

end
