(* ===== verification/Waitset.thy ===== *)
theory Waitset
  imports Handles
begin

text \<open>
  The waitset table of \<open>source/kernel/neuron/src/waitset.rs\<close>: bounded, deduplicated sets of
  endpoints a task can block on.  The table is a \<open>handle_store\<close>.
\<close>

subsection \<open>Data and operations\<close>

definition MAX_WAITSETS :: usize where "MAX_WAITSETS = 64"
definition MAX_WAITSET_MEMBERS :: usize where "MAX_WAITSET_MEMBERS = 32"

datatype waitset_error = WsResourceExhausted | WsInvalidHandle

record waitset_entry =
  ws_owner_pid :: u32
  ws_members :: "u32 list"

record waitset_table =
  ws_table :: "(u32, waitset_entry) btree"
  ws_next_id :: u32

definition ws_new :: waitset_table where
  "ws_new = \<lparr>ws_table = [], ws_next_id = 1\<rparr>"

text \<open>The probing loop finds a free identifier within \<open>MAX_WAITSETS + 1\<close> iterations whenever the
  capacity check passes (\<open>ws_alloc_iff\<close>), so the cut-off branch is never taken.\<close>

definition ws_alloc :: "u32 \<Rightarrow> waitset_table \<Rightarrow> (waitset_error + u32) \<times> waitset_table" where
  "ws_alloc owner t =
     (if MAX_WAITSETS \<le> length (ws_table t) then (Err WsResourceExhausted, t)
      else case probe (Suc MAX_WAITSETS) wrap_next_nonzero (bt_contains (ws_table t)) (ws_next_id t) of
        None \<Rightarrow> (Err WsResourceExhausted, t)
      | Some (i, next) \<Rightarrow>
          (Ok i, t\<lparr>ws_table := bt_insert i \<lparr>ws_owner_pid = owner, ws_members = []\<rparr> (ws_table t),
                   ws_next_id := next\<rparr>))"

definition ws_add_member :: "u32 \<Rightarrow> u32 \<Rightarrow> waitset_table \<Rightarrow> (waitset_error + unit) \<times> waitset_table" where
  "ws_add_member i ep t =
     (case bt_get (ws_table t) i of
        None \<Rightarrow> (Err WsInvalidHandle, t)
      | Some e \<Rightarrow>
          if ep \<in> set (ws_members e) then (Ok (), t)
          else if MAX_WAITSET_MEMBERS \<le> length (ws_members e) then (Err WsResourceExhausted, t)
          else (Ok (), t\<lparr>ws_table := bt_insert i (e\<lparr>ws_members := ws_members e @ [ep]\<rparr>) (ws_table t)\<rparr>))"

definition ws_members_of :: "waitset_table \<Rightarrow> u32 \<Rightarrow> u32 list option" where
  "ws_members_of t i = map_option ws_members (bt_get (ws_table t) i)"

definition ws_owned_by :: "waitset_table \<Rightarrow> u32 \<Rightarrow> u32 \<Rightarrow> bool" where
  "ws_owned_by t i pid = (case bt_get (ws_table t) i of None \<Rightarrow> False | Some e \<Rightarrow> ws_owner_pid e = pid)"

definition ws_free :: "u32 \<Rightarrow> waitset_table \<Rightarrow> (waitset_error + unit) \<times> waitset_table" where
  "ws_free i t =
     (if bt_contains (ws_table t) i then (Ok (), t\<lparr>ws_table := bt_remove i (ws_table t)\<rparr>)
      else (Err WsInvalidHandle, t))"

definition first_ready :: "u32 list \<Rightarrow> (u32 \<Rightarrow> bool) \<Rightarrow> usize option" where
  "first_ready members is_ready = find_index is_ready members"

subsection \<open>Invariant and interface\<close>

definition ws_wf :: "waitset_table \<Rightarrow> bool" where
  "ws_wf t \<longleftrightarrow> bt_wf (ws_table t) \<and> length (ws_table t) \<le> MAX_WAITSETS \<and> ws_next_id t \<noteq> 0 \<and>
     (\<forall>i e. bt_get (ws_table t) i = Some e \<longrightarrow>
        distinct (ws_members e) \<and> length (ws_members e) \<le> MAX_WAITSET_MEMBERS)"

lemma ws_new_wf [simp]: "ws_wf ws_new"
  by (simp add: ws_wf_def ws_new_def)

lemma ws_alloc_Inr:
  assumes "ws_alloc owner t = (Inr i, t')"
  shows "bt_get (ws_table t) i = None" "length (ws_table t) < MAX_WAITSETS"
    "t' = t\<lparr>ws_table := bt_insert i \<lparr>ws_owner_pid = owner, ws_members = []\<rparr> (ws_table t),
             ws_next_id := wrap_next_nonzero i\<rparr>"
  using assms
  by (auto simp: ws_alloc_def not_le bt_contains_def split: if_splits option.splits
      dest: probe_Some_fresh)

lemma ws_alloc_wf: "ws_wf t \<Longrightarrow> ws_alloc owner t = (Inr i, t') \<Longrightarrow> ws_wf t'"
  using ws_alloc_Inr[of owner t i t']
  by (auto simp: ws_wf_def length_bt_insert_fresh wrap_next_nonzero_def split: if_splits)

lemma ws_alloc_Inl:
  assumes "ws_wf t" "ws_alloc owner t = (Inl e, t')"
  shows "t' = t \<and> MAX_WAITSETS \<le> length (ws_table t) \<and> e = WsResourceExhausted"
proof (rule ccontr)
  assume contra: "\<not> ?thesis"
  then have len: "length (ws_table t) < MAX_WAITSETS"
    using assms(2) by (auto simp: ws_alloc_def split: if_splits option.splits)
  have "\<exists>h. probe (Suc MAX_WAITSETS) wrap_next_nonzero (bt_contains (ws_table t)) (ws_next_id t) =
      Some (h, wrap_next_nonzero h)"
    using assms(1) len by (intro probe_nonzero_succeeds) (auto simp: ws_wf_def MAX_WAITSETS_def)
  with assms(2) len show False by (auto simp: ws_alloc_def)
qed

lemma ws_free_laws:
  "ws_free i t = (Inr r, t') \<Longrightarrow> bt_get (ws_table t) i \<noteq> None \<and> t' = t\<lparr>ws_table := bt_remove i (ws_table t)\<rparr>"
  "ws_free i t = (Inl e, t') \<Longrightarrow> bt_get (ws_table t) i = None \<and> t' = t \<and> e = WsInvalidHandle"
  by (auto simp: ws_free_def bt_contains_def split: if_splits)

lemma ws_remove_wf: "ws_wf t \<Longrightarrow> ws_wf (t\<lparr>ws_table := bt_remove i (ws_table t)\<rparr>)"
  using length_bt_remove_le[of i "ws_table t"] by (auto simp: ws_wf_def)

interpretation ws: handle_store ws_wf "\<lambda>t. bt_get (ws_table t)" "\<lambda>_. MAX_WAITSETS"
    "\<lambda>owner. \<lparr>ws_owner_pid = owner, ws_members = []\<rparr>" ws_alloc ws_free
proof (unfold_locales, goal_cases)
  case (2 t)
  then show ?case by (simp add: ws_wf_def bt_card)
next
  case (3 t a h t')
  then show ?case using ws_alloc_wf[of t a h t'] ws_alloc_Inr[of a t h t'] by simp
next
  case (4 t a e t')
  then show ?case using ws_alloc_Inl[of t a e t'] by (simp add: ws_wf_def bt_card)
next
  case (5 t h r t')
  then show ?case using ws_free_laws(1)[of h t r t'] ws_remove_wf[of t h] by simp
next
  case (6 t h e t')
  then show ?case using ws_free_laws(2)[of h t e t'] by simp
qed simp

lemma ws_add_member_wf:
  assumes "ws_wf t" "ws_add_member i ep t = (res, t')"
  shows "ws_wf t'"
proof (cases "t' = t")
  case False
  with assms(2) obtain e where e: "bt_get (ws_table t) i = Some e" "ep \<notin> set (ws_members e)"
      "length (ws_members e) < MAX_WAITSET_MEMBERS"
    and t': "t' = t\<lparr>ws_table := bt_insert i (e\<lparr>ws_members := ws_members e @ [ep]\<rparr>) (ws_table t)\<rparr>"
    by (auto simp: ws_add_member_def split: option.splits if_splits)
  then show ?thesis
    using assms(1) by (auto simp: ws_wf_def length_bt_insert_live)
qed (use assms in simp)

subsection \<open>Properties\<close>

text \<open>Allocating a waitset in a table with room terminates: the identifier search loop (which has no
  bound of its own) returns an identifier that is not in use, \<open>alloc\<close> stores an empty set owned by
  the caller under it, every other waitset is untouched, and the identifier after it becomes the
  next search start.\<close>

theorem waitset_alloc_terminates:
  assumes wf: "ws_wf t" and room: "length (ws_table t) < MAX_WAITSETS"
  shows "\<exists>i t'. probe_loop wrap_next_nonzero (bt_contains (ws_table t)) (ws_next_id t) =
      Some (i, wrap_next_nonzero i) \<and> ws_alloc pid t = (Inr i, t') \<and> ws_wf t' \<and>
      bt_get (ws_table t) i = None \<and>
      bt_get (ws_table t') = (bt_get (ws_table t))(i \<mapsto> \<lparr>ws_owner_pid = pid, ws_members = []\<rparr>) \<and>
      ws_next_id t' = wrap_next_nonzero i"
proof -
  obtain i t' where al: "ws_alloc pid t = (Inr i, t')"
    using ws.alloc_iff_room[OF wf, of pid] room wf by (auto simp: ws_wf_def bt_card)
  then have "probe (Suc MAX_WAITSETS) wrap_next_nonzero (bt_contains (ws_table t)) (ws_next_id t) =
      Some (i, wrap_next_nonzero i)"
    by (auto simp: ws_alloc_def split: if_splits option.splits dest: probe_Some_fresh)
  from probe_loop_agrees[OF this] al ws.alloc_some[OF wf al] ws_alloc_Inr[OF al] show ?thesis
    by auto
qed

theorem waitset_alloc_terminates_witness:
  "\<exists>i t'. ws_alloc 7 (snd (ws_alloc 7 ws_new)) = (Inr i, t') \<and> ws_wf t'"
proof -
  have wf: "ws_wf (snd (ws_alloc 7 ws_new))"
    by (rule ws_alloc_wf[OF ws_new_wf, of 7 1])
      (simp add: ws_alloc_def ws_new_def MAX_WAITSETS_def bt_contains_def prod_eq_iff)
  have "length (ws_table (snd (ws_alloc 7 ws_new))) < MAX_WAITSETS"
    by (simp add: ws_alloc_def ws_new_def MAX_WAITSETS_def bt_contains_def)
  from waitset_alloc_terminates[OF wf this, of 7] show ?thesis by blast
qed

end
