(* ===== verification/Fence.thy ===== *)
theory Fence
  imports Handles
begin

text \<open>
  The timeline-fence table of \<open>source/kernel/neuron/src/fence.rs\<close>: monotone 64-bit values with a
  bounded list of waiters per fence.  The table is a \<open>handle_store\<close>; draining the satisfied
  waiters is proved equal to a filter, so a signal loses no wakeup.
\<close>

subsection \<open>Data and operations\<close>

definition MAX_FENCES :: usize where "MAX_FENCES = 64"
definition MAX_FENCE_WAITERS :: usize where "MAX_FENCE_WAITERS = 64"

datatype fence_error = FnResourceExhausted | FnInvalidHandle

record fence_waiter =
  fw_pid :: u32
  fw_target :: u64

record fence_entry =
  fn_owner_pid :: u32
  fn_value :: u64
  fn_waiters :: "fence_waiter list"

record fence_table =
  fn_table :: "(u32, fence_entry) btree"
  fn_next_id :: u32

definition fence_new :: fence_table where
  "fence_new = \<lparr>fn_table = [], fn_next_id = 1\<rparr>"

definition fence_fresh :: "u32 \<Rightarrow> fence_entry" where
  "fence_fresh owner = \<lparr>fn_owner_pid = owner, fn_value = 0, fn_waiters = []\<rparr>"

definition fence_alloc :: "u32 \<Rightarrow> fence_table \<Rightarrow> (fence_error + u32) \<times> fence_table" where
  "fence_alloc owner t =
     (if MAX_FENCES \<le> length (fn_table t) then (Err FnResourceExhausted, t)
      else case probe (Suc MAX_FENCES) wrap_next_nonzero (bt_contains (fn_table t)) (fn_next_id t) of
        None \<Rightarrow> (Err FnResourceExhausted, t)
      | Some (i, next) \<Rightarrow>
          (Ok i, t\<lparr>fn_table := bt_insert i (fence_fresh owner) (fn_table t), fn_next_id := next\<rparr>))"

definition fence_exists :: "fence_table \<Rightarrow> u32 \<Rightarrow> bool" where
  "fence_exists t i = bt_contains (fn_table t) i"

definition fence_owned_by :: "fence_table \<Rightarrow> u32 \<Rightarrow> u32 \<Rightarrow> bool" where
  "fence_owned_by t i pid = (case bt_get (fn_table t) i of None \<Rightarrow> False | Some e \<Rightarrow> fn_owner_pid e = pid)"

definition fence_signal :: "u32 \<Rightarrow> u64 \<Rightarrow> fence_table \<Rightarrow> (fence_error + u64) \<times> fence_table" where
  "fence_signal i v t =
     (case bt_get (fn_table t) i of
        None \<Rightarrow> (Err FnInvalidHandle, t)
      | Some e \<Rightarrow>
          (let e' = (if fn_value e < v then e\<lparr>fn_value := v\<rparr> else e) in
           (Ok (fn_value e'), t\<lparr>fn_table := bt_insert i e' (fn_table t)\<rparr>)))"

definition fence_is_satisfied :: "fence_table \<Rightarrow> u32 \<Rightarrow> u64 \<Rightarrow> bool option" where
  "fence_is_satisfied t i target = map_option (\<lambda>e. target \<le> fn_value e) (bt_get (fn_table t) i)"

text \<open>\<open>iter_mut().find(|w| w.pid == pid)\<close> followed by an assignment to the found waiter.\<close>

fun set_first_target :: "u32 \<Rightarrow> u64 \<Rightarrow> fence_waiter list \<Rightarrow> fence_waiter list" where
  "set_first_target pid target [] = []"
| "set_first_target pid target (w # ws) =
     (if fw_pid w = pid then w\<lparr>fw_target := target\<rparr> # ws else w # set_first_target pid target ws)"

definition fence_register_waiter ::
  "u32 \<Rightarrow> u32 \<Rightarrow> u64 \<Rightarrow> fence_table \<Rightarrow> (fence_error + unit) \<times> fence_table" where
  "fence_register_waiter i pid target t =
     (case bt_get (fn_table t) i of
        None \<Rightarrow> (Err FnInvalidHandle, t)
      | Some e \<Rightarrow>
          if pid \<in> fw_pid ` set (fn_waiters e) then
            (Ok (), t\<lparr>fn_table :=
               bt_insert i (e\<lparr>fn_waiters := set_first_target pid target (fn_waiters e)\<rparr>) (fn_table t)\<rparr>)
          else if MAX_FENCE_WAITERS \<le> length (fn_waiters e) then (Err FnResourceExhausted, t)
          else
            (Ok (), t\<lparr>fn_table :=
               bt_insert i (e\<lparr>fn_waiters := fn_waiters e @ [\<lparr>fw_pid = pid, fw_target = target\<rparr>]\<rparr>)
                 (fn_table t)\<rparr>))"

definition fence_remove_waiter :: "u32 \<Rightarrow> u32 \<Rightarrow> fence_table \<Rightarrow> fence_table" where
  "fence_remove_waiter i pid t =
     (case bt_get (fn_table t) i of
        None \<Rightarrow> t
      | Some e \<Rightarrow>
          t\<lparr>fn_table :=
            bt_insert i (e\<lparr>fn_waiters := filter (\<lambda>w. fw_pid w \<noteq> pid) (fn_waiters e)\<rparr>) (fn_table t)\<rparr>)"

text \<open>The drain loop over the index \<open>i\<close>: \<open>cap\<close> is \<open>out.len()\<close> and \<open>out\<close> the pids written so far.\<close>

function take_loop ::
  "u64 \<Rightarrow> nat \<Rightarrow> nat \<Rightarrow> u32 list \<Rightarrow> fence_waiter list \<Rightarrow> u32 list \<times> fence_waiter list" where
  "take_loop val cap i out ws =
     (if i < length ws then
        if fw_target (ws ! i) \<le> val \<and> length out < cap
        then take_loop val cap i (out @ [fw_pid (ws ! i)]) (take i ws @ drop (Suc i) ws)
        else take_loop val cap (Suc i) out ws
      else (out, ws))"
  by pat_completeness auto
termination
  by (relation "measure (\<lambda>(val, cap, i, out, ws). length ws - i)") auto

declare take_loop.simps [simp del]

definition fence_take_satisfied :: "u32 \<Rightarrow> nat \<Rightarrow> fence_table \<Rightarrow> u32 list \<times> fence_table" where
  "fence_take_satisfied i cap t =
     (case bt_get (fn_table t) i of
        None \<Rightarrow> ([], t)
      | Some e \<Rightarrow>
          (case take_loop (fn_value e) cap 0 [] (fn_waiters e) of
             (pids, ws) \<Rightarrow> (pids, t\<lparr>fn_table := bt_insert i (e\<lparr>fn_waiters := ws\<rparr>) (fn_table t)\<rparr>)))"

definition fence_free :: "u32 \<Rightarrow> fence_table \<Rightarrow> (fence_error + unit) \<times> fence_table" where
  "fence_free i t =
     (if bt_contains (fn_table t) i then (Ok (), t\<lparr>fn_table := bt_remove i (fn_table t)\<rparr>)
      else (Err FnInvalidHandle, t))"

subsection \<open>Invariant and interface\<close>

definition fence_wf :: "fence_table \<Rightarrow> bool" where
  "fence_wf t \<longleftrightarrow> bt_wf (fn_table t) \<and> length (fn_table t) \<le> MAX_FENCES \<and> fn_next_id t \<noteq> 0 \<and>
     (\<forall>i e. bt_get (fn_table t) i = Some e \<longrightarrow>
        distinct (map fw_pid (fn_waiters e)) \<and> length (fn_waiters e) \<le> MAX_FENCE_WAITERS)"

lemma fence_new_wf [simp]: "fence_wf fence_new"
  by (simp add: fence_wf_def fence_new_def)

lemma fence_upd_wf:
  assumes "fence_wf t" "bt_get (fn_table t) i = Some e"
    and "distinct (map fw_pid (fn_waiters e'))" "length (fn_waiters e') \<le> MAX_FENCE_WAITERS"
  shows "fence_wf (t\<lparr>fn_table := bt_insert i e' (fn_table t)\<rparr>)"
  using assms by (auto simp: fence_wf_def length_bt_insert_live)

lemma fence_wf_entry:
  "fence_wf t \<Longrightarrow> bt_get (fn_table t) i = Some e \<Longrightarrow>
     distinct (map fw_pid (fn_waiters e)) \<and> length (fn_waiters e) \<le> MAX_FENCE_WAITERS"
  by (auto simp: fence_wf_def)

lemma fence_alloc_Inr:
  assumes "fence_alloc owner t = (Inr i, t')"
  shows "bt_get (fn_table t) i = None" "length (fn_table t) < MAX_FENCES"
    "t' = t\<lparr>fn_table := bt_insert i (fence_fresh owner) (fn_table t), fn_next_id := wrap_next_nonzero i\<rparr>"
  using assms
  by (auto simp: fence_alloc_def not_le bt_contains_def split: if_splits option.splits
      dest: probe_Some_fresh)

lemma fence_alloc_wf: "fence_wf t \<Longrightarrow> fence_alloc owner t = (Inr i, t') \<Longrightarrow> fence_wf t'"
  using fence_alloc_Inr[of owner t i t']
  by (auto simp: fence_wf_def length_bt_insert_fresh wrap_next_nonzero_def fence_fresh_def split: if_splits)

lemma fence_alloc_Inl:
  assumes "fence_wf t" "fence_alloc owner t = (Inl e, t')"
  shows "t' = t \<and> MAX_FENCES \<le> length (fn_table t) \<and> e = FnResourceExhausted"
proof (rule ccontr)
  assume contra: "\<not> ?thesis"
  then have len: "length (fn_table t) < MAX_FENCES"
    using assms(2) by (auto simp: fence_alloc_def split: if_splits option.splits)
  have "\<exists>h. probe (Suc MAX_FENCES) wrap_next_nonzero (bt_contains (fn_table t)) (fn_next_id t) =
      Some (h, wrap_next_nonzero h)"
    using assms(1) len by (intro probe_nonzero_succeeds) (auto simp: fence_wf_def MAX_FENCES_def)
  with assms(2) len show False by (auto simp: fence_alloc_def)
qed

lemma fence_free_laws:
  "fence_free i t = (Inr r, t') \<Longrightarrow> bt_get (fn_table t) i \<noteq> None \<and> t' = t\<lparr>fn_table := bt_remove i (fn_table t)\<rparr>"
  "fence_free i t = (Inl e, t') \<Longrightarrow> bt_get (fn_table t) i = None \<and> t' = t \<and> e = FnInvalidHandle"
  by (auto simp: fence_free_def bt_contains_def split: if_splits)

lemma fence_remove_wf: "fence_wf t \<Longrightarrow> fence_wf (t\<lparr>fn_table := bt_remove i (fn_table t)\<rparr>)"
  using length_bt_remove_le[of i "fn_table t"] by (auto simp: fence_wf_def)

interpretation fn: handle_store fence_wf "\<lambda>t. bt_get (fn_table t)" "\<lambda>_. MAX_FENCES"
    fence_fresh fence_alloc fence_free
proof (unfold_locales, goal_cases)
  case (2 t)
  then show ?case by (simp add: fence_wf_def bt_card)
next
  case (3 t a h t')
  then show ?case using fence_alloc_wf[of t a h t'] fence_alloc_Inr[of a t h t'] by simp
next
  case (4 t a e t')
  then show ?case using fence_alloc_Inl[of t a e t'] by (simp add: fence_wf_def bt_card)
next
  case (5 t h r t')
  then show ?case using fence_free_laws(1)[of h t r t'] fence_remove_wf[of t h] by simp
next
  case (6 t h e t')
  then show ?case using fence_free_laws(2)[of h t e t'] by simp
qed simp

subsection \<open>Draining satisfied waiters\<close>

text \<open>Reference: remove the first \<open>n\<close> satisfied waiters, keeping the order of both parts.\<close>

primrec drain :: "u64 \<Rightarrow> nat \<Rightarrow> fence_waiter list \<Rightarrow> fence_waiter list \<times> fence_waiter list" where
  "drain val n [] = ([], [])"
| "drain val n (w # ws) =
     (if fw_target w \<le> val \<and> 0 < n
      then (case drain val (n - 1) ws of (d, k) \<Rightarrow> (w # d, k))
      else (case drain val n ws of (d, k) \<Rightarrow> (d, w # k)))"

lemma take_loop_drain:
  "take_loop val cap i out ws =
     (case drain val (cap - length out) (drop i ws) of (d, k) \<Rightarrow> (out @ map fw_pid d, take i ws @ k))"
proof (induction val cap i out ws rule: take_loop.induct)
  case (1 val cap i out ws)
  show ?case
  proof (cases "i < length ws")
    case True
    then have dr: "drop i ws = ws ! i # drop (Suc i) ws" by (simp add: Cons_nth_drop_Suc)
    show ?thesis
    proof (cases "fw_target (ws ! i) \<le> val \<and> length out < cap")
      case sat: True
      have len: "length (take i ws) = i" using True by simp
      show ?thesis
        using 1(1)[OF True sat] True sat dr
        by (subst take_loop.simps) (auto simp: min_def split: prod.splits)
    next
      case False
      have tk: "take (Suc i) ws = take i ws @ [ws ! i]" using True by (simp add: take_Suc_conv_app_nth)
      show ?thesis
        using 1(2)[OF True False] True False dr tk
        by (subst take_loop.simps) (auto split: prod.splits)
    qed
  next
    case False
    then show ?thesis by (subst take_loop.simps) simp
  qed
qed

lemma fence_drain_all:
  "length ws \<le> n \<Longrightarrow>
     drain val n ws = (filter (\<lambda>w. fw_target w \<le> val) ws, filter (\<lambda>w. \<not> fw_target w \<le> val) ws)"
  by (induction ws arbitrary: n) (auto split: prod.splits)

lemma drain_kept: "drain val n ws = (d, k) \<Longrightarrow> set k \<subseteq> set ws \<and> length k \<le> length ws"
  by (induction ws arbitrary: n d k) (fastforce split: prod.splits if_splits)+

lemma drain_distinct:
  "drain val n ws = (d, k) \<Longrightarrow> distinct (map fw_pid ws) \<Longrightarrow> distinct (map fw_pid k)"
proof (induction ws arbitrary: n d k)
  case (Cons w ws)
  obtain d1 k1 d2 k2 where dk: "drain val (n - 1) ws = (d1, k1)" "drain val n ws = (d2, k2)"
    by fastforce
  have "fw_pid w \<notin> fw_pid ` set k2" "distinct (map fw_pid k1)" "distinct (map fw_pid k2)"
    using Cons.IH[OF dk(1)] Cons.IH[OF dk(2)] drain_kept[OF dk(2)] Cons.prems(2) by auto
  then show ?case using Cons.prems(1) dk by (auto split: if_splits)
qed simp

lemma fence_take_satisfied_wf:
  assumes "fence_wf t" "fence_take_satisfied i cap t = (pids, t')"
  shows "fence_wf t'"
proof (cases "bt_get (fn_table t) i")
  case (Some e)
  obtain d k where dk: "drain (fn_value e) cap (fn_waiters e) = (d, k)" by fastforce
  then have "t' = t\<lparr>fn_table := bt_insert i (e\<lparr>fn_waiters := k\<rparr>) (fn_table t)\<rparr>"
    using assms(2) Some by (auto simp: fence_take_satisfied_def take_loop_drain)
  then show ?thesis
    using fence_upd_wf[OF assms(1) Some] fence_wf_entry[OF assms(1) Some]
      drain_distinct[OF dk] drain_kept[OF dk] by simp
qed (use assms in \<open>auto simp: fence_take_satisfied_def\<close>)

lemma set_first_target_pids [simp]:
  "map fw_pid (set_first_target p tg ws) = map fw_pid ws"
  "length (set_first_target p tg ws) = length ws"
  by (induction ws) auto

lemma fence_signal_wf: "fence_wf t \<Longrightarrow> fence_signal i v t = (res, t') \<Longrightarrow> fence_wf t'"
  by (auto simp: fence_signal_def Let_def split: option.splits if_splits
      intro!: fence_upd_wf dest: fence_wf_entry)

lemma fence_register_waiter_wf:
  "fence_wf t \<Longrightarrow> fence_register_waiter i p tg t = (res, t') \<Longrightarrow> fence_wf t'"
  by (auto simp: fence_register_waiter_def image_iff split: option.splits if_splits
      intro!: fence_upd_wf dest: fence_wf_entry)

lemma fence_remove_waiter_wf: "fence_wf t \<Longrightarrow> fence_wf (fence_remove_waiter i p t)"
  by (auto simp: fence_remove_waiter_def split: option.splits
      intro!: fence_upd_wf distinct_map_filter le_trans[OF length_filter_le] dest: fence_wf_entry)

subsection \<open>Properties\<close>

text \<open>C35: Signalling a fence and draining it with the kernel's 64-entry buffer loses no wakeup: the
  value becomes the larger of the old and the signalled one, the drained pids are exactly the
  waiters whose target is reached, in registration order and each once, the others stay registered,
  and no other fence changes.\<close>

theorem fence_signal_wakes:
  assumes wf: "fence_wf t" and e: "bt_get (fn_table t) i = Some e"
    and sig: "fence_signal i v t = (res, t1)"
    and take: "fence_take_satisfied i MAX_FENCE_WAITERS t1 = (pids, t2)"
  shows "res = Inr (max (fn_value e) v) \<and>
    pids = map fw_pid (filter (\<lambda>w. fw_target w \<le> max (fn_value e) v) (fn_waiters e)) \<and> distinct pids \<and>
    bt_get (fn_table t2) =
      (bt_get (fn_table t))(i \<mapsto>
         e\<lparr>fn_value := max (fn_value e) v,
           fn_waiters := filter (\<lambda>w. max (fn_value e) v < fw_target w) (fn_waiters e)\<rparr>) \<and>
    fence_wf t2"
proof -
  have len: "length (fn_waiters e) \<le> MAX_FENCE_WAITERS" and dist: "distinct (map fw_pid (fn_waiters e))"
    using fence_wf_entry[OF wf e] by auto
  have t1: "t1 = t\<lparr>fn_table := bt_insert i (e\<lparr>fn_value := max (fn_value e) v\<rparr>) (fn_table t)\<rparr>"
    and res: "res = Inr (max (fn_value e) v)"
    using sig e by (auto simp: fence_signal_def Let_def max_def split: if_splits)
  have "pids = map fw_pid (filter (\<lambda>w. fw_target w \<le> max (fn_value e) v) (fn_waiters e))"
    and "bt_get (fn_table t2) =
      (bt_get (fn_table t))(i \<mapsto>
         e\<lparr>fn_value := max (fn_value e) v,
           fn_waiters := filter (\<lambda>w. max (fn_value e) v < fw_target w) (fn_waiters e)\<rparr>)"
    using take len by (auto simp: fence_take_satisfied_def t1 take_loop_drain fence_drain_all not_le)
  moreover have "fence_wf t2"
    using fence_take_satisfied_wf[OF fence_signal_wf[OF wf sig] take] .
  ultimately show ?thesis
    using res dist by (auto intro: distinct_map_filter)
qed

theorem fence_signal_wakes_witness:
  "let t = snd (fence_alloc 1 fence_new);
       t' = snd (fence_register_waiter 1 9 20 (snd (fence_register_waiter 1 8 10 t)))
   in fst (fence_take_satisfied 1 MAX_FENCE_WAITERS (snd (fence_signal 1 15 t'))) = [8]"
proof -
  let ?t = "snd (fence_register_waiter 1 9 20 (snd (fence_register_waiter 1 8 10 (snd (fence_alloc 1 fence_new)))))"
  have t: "fn_table ?t = [(1, \<lparr>fn_owner_pid = 1, fn_value = 0,
      fn_waiters = [\<lparr>fw_pid = 8, fw_target = 10\<rparr>, \<lparr>fw_pid = 9, fw_target = 20\<rparr>]\<rparr>)]"
    and n: "fn_next_id ?t = 2"
    by (simp_all add: fence_alloc_def fence_register_waiter_def fence_new_def fence_fresh_def
        MAX_FENCES_def MAX_FENCE_WAITERS_def bt_contains_def bt_get_def wrap_next_nonzero_def)
  have wf: "fence_wf ?t"
    using t n by (simp add: fence_wf_def bt_wf_def bt_keys_def bt_get_def MAX_FENCES_def MAX_FENCE_WAITERS_def)
  obtain e where e: "bt_get (fn_table ?t) 1 = Some e" "fn_value e = 0"
      "fn_waiters e = [\<lparr>fw_pid = 8, fw_target = 10\<rparr>, \<lparr>fw_pid = 9, fw_target = 20\<rparr>]"
    by (simp add: t bt_get_def)
  from fence_signal_wakes[OF wf e(1) surjective_pairing surjective_pairing, of 15] e(2,3)
  show ?thesis by (simp add: Let_def)
qed

end
