(* ===== verification/Ktimer.thy ===== *)
theory Ktimer
  imports Handles
begin

text \<open>
  The per-hart timer table of \<open>source/kernel/neuron/src/timer.rs\<close>: a handle table of timers and a
  deadline-ordered queue.  The invariant says that the queue indexes exactly the armed timers; the
  expiry pass is shown sound, complete and drift-free.
\<close>

subsection \<open>Data and operations\<close>

definition MAX_TIMERS :: usize where "MAX_TIMERS = 64"

datatype timer_error = TmResourceExhausted | TmInvalidHandle | TmAlreadyArmed

record timer_state =
  tm_owner_pid :: u32
  tm_notify_ep :: u32
  tm_deadline_ns :: u64
  tm_interval_ns :: u64
  tm_seq :: u32
  tm_missed :: u32
  tm_armed :: bool

record hart_timers =
  tm_table :: "(u32, timer_state) btree"
  tm_queue :: "(u64, u32 list) btree"
  tm_next_id :: u32

definition timers_new :: hart_timers where
  "timers_new = \<lparr>tm_table = [], tm_queue = [], tm_next_id = 1\<rparr>"

definition timer_fresh :: "u32 \<Rightarrow> u32 \<Rightarrow> u64 \<Rightarrow> timer_state" where
  "timer_fresh owner ep interval =
     \<lparr>tm_owner_pid = owner, tm_notify_ep = ep, tm_deadline_ns = 0, tm_interval_ns = interval,
      tm_seq = 0, tm_missed = 0, tm_armed = False\<rparr>"

definition timer_alloc ::
  "u32 \<Rightarrow> u32 \<Rightarrow> u64 \<Rightarrow> hart_timers \<Rightarrow> (timer_error + u32) \<times> hart_timers" where
  "timer_alloc owner ep interval h =
     (if MAX_TIMERS \<le> length (tm_table h) then (Err TmResourceExhausted, h)
      else case probe (Suc MAX_TIMERS) wrap_next (bt_contains (tm_table h)) (tm_next_id h) of
        None \<Rightarrow> (Err TmResourceExhausted, h)
      | Some (i, next) \<Rightarrow>
          (Ok i, h\<lparr>tm_table := bt_insert i (timer_fresh owner ep interval) (tm_table h),
                   tm_next_id := next\<rparr>))"

text \<open>\<open>queue.entry(deadline).or_default().push(id)\<close>\<close>

definition queue_push :: "u64 \<Rightarrow> u32 \<Rightarrow> (u64, u32 list) btree \<Rightarrow> (u64, u32 list) btree" where
  "queue_push d i q = bt_insert d ((case bt_get q d of None \<Rightarrow> [] | Some l \<Rightarrow> l) @ [i]) q"

definition timer_arm :: "u32 \<Rightarrow> u64 \<Rightarrow> hart_timers \<Rightarrow> (timer_error + unit) \<times> hart_timers" where
  "timer_arm i deadline h =
     (case bt_get (tm_table h) i of
        None \<Rightarrow> (Err TmInvalidHandle, h)
      | Some t \<Rightarrow>
          if tm_armed t then (Err TmAlreadyArmed, h)
          else (Ok (), h\<lparr>tm_table := bt_insert i (t\<lparr>tm_deadline_ns := deadline, tm_armed := True\<rparr>) (tm_table h),
                         tm_queue := queue_push deadline i (tm_queue h)\<rparr>))"

definition timer_disarm :: "u32 \<Rightarrow> hart_timers \<Rightarrow> (timer_error + unit) \<times> hart_timers" where
  "timer_disarm i h =
     (case bt_get (tm_table h) i of
        None \<Rightarrow> (Err TmInvalidHandle, h)
      | Some t \<Rightarrow>
          if \<not> tm_armed t then (Ok (), h)
          else
            (let deadline = tm_deadline_ns t in
             (Ok (), h\<lparr>tm_table := bt_insert i (t\<lparr>tm_armed := False\<rparr>) (tm_table h),
                       tm_queue :=
                         (case bt_get (tm_queue h) deadline of
                            None \<Rightarrow> tm_queue h
                          | Some l \<Rightarrow>
                              (let l' = filter (\<lambda>j. j \<noteq> i) l in
                               if l' = [] then bt_remove deadline (tm_queue h)
                               else bt_insert deadline l' (tm_queue h)))\<rparr>)))"

definition timer_free :: "u32 \<Rightarrow> hart_timers \<Rightarrow> (timer_error + unit) \<times> hart_timers" where
  "timer_free i h =
     (let h1 = snd (timer_disarm i h) in
      if bt_contains (tm_table h1) i then (Ok (), h1\<lparr>tm_table := bt_remove i (tm_table h1)\<rparr>)
      else (Err TmInvalidHandle, h1))"

text \<open>One timer of an expired queue entry: the body of the inner loop of \<open>pop_expired\<close>.\<close>

definition fire ::
  "u64 \<Rightarrow> u32 \<Rightarrow> (u32 \<times> timer_state) list \<times> hart_timers \<Rightarrow> (u32 \<times> timer_state) list \<times> hart_timers" where
  "fire now i s =
     (case s of (expired, h) \<Rightarrow>
       (case bt_get (tm_table h) i of
          None \<Rightarrow> (expired, h)
        | Some t \<Rightarrow>
            if tm_armed t \<and> tm_deadline_ns t \<le> now then
              if 0 < tm_interval_ns t then
                (let t' = t\<lparr>tm_deadline_ns := tm_deadline_ns t + tm_interval_ns t,
                            tm_seq := tm_seq t + 1 + tm_missed t\<rparr> in
                 (expired @ [(i, t)],
                  h\<lparr>tm_table := bt_insert i t' (tm_table h),
                    tm_queue := queue_push (tm_deadline_ns t') i (tm_queue h)\<rparr>))
              else
                (expired @ [(i, t)],
                 h\<lparr>tm_table := bt_insert i (t\<lparr>tm_armed := False, tm_seq := tm_seq t + 1\<rparr>) (tm_table h)\<rparr>)
            else (expired, h)))"

text \<open>One expired deadline: \<open>queue.remove(&deadline)\<close> and the loop over its entries.\<close>

definition expire_deadline ::
  "u64 \<Rightarrow> u64 \<Rightarrow> (u32 \<times> timer_state) list \<times> hart_timers \<Rightarrow> (u32 \<times> timer_state) list \<times> hart_timers" where
  "expire_deadline now deadline s =
     (case s of (expired, h) \<Rightarrow>
       (case bt_get (tm_queue h) deadline of
          None \<Rightarrow> (expired, h)
        | Some entries \<Rightarrow>
            fold (fire now) entries (expired, h\<lparr>tm_queue := bt_remove deadline (tm_queue h)\<rparr>)))"

definition timer_pop_expired :: "u64 \<Rightarrow> hart_timers \<Rightarrow> (u32 \<times> timer_state) list \<times> hart_timers" where
  "timer_pop_expired now h =
     (let keys = filter (\<lambda>d. d \<le> now) (bt_keys (tm_queue h)) in
      fold (expire_deadline now) keys ([], h))"

definition timer_earliest_deadline :: "hart_timers \<Rightarrow> u64 option" where
  "timer_earliest_deadline h = (case bt_keys (tm_queue h) of [] \<Rightarrow> None | d # _ \<Rightarrow> Some d)"

definition timer_owned_by :: "hart_timers \<Rightarrow> u32 \<Rightarrow> u32 \<Rightarrow> bool" where
  "timer_owned_by h i pid =
     (case bt_get (tm_table h) i of None \<Rightarrow> False | Some t \<Rightarrow> tm_owner_pid t = pid)"

subsection \<open>Invariant\<close>

definition queued :: "hart_timers \<Rightarrow> u32 \<Rightarrow> u64 \<Rightarrow> bool" where
  "queued h i d \<longleftrightarrow> (\<exists>l. bt_get (tm_queue h) d = Some l \<and> i \<in> set l)"

definition armed_at :: "hart_timers \<Rightarrow> u32 \<Rightarrow> u64 \<Rightarrow> bool" where
  "armed_at h i d \<longleftrightarrow> (\<exists>t. bt_get (tm_table h) i = Some t \<and> tm_armed t \<and> tm_deadline_ns t = d)"

definition shape_ok :: "hart_timers \<Rightarrow> bool" where
  "shape_ok h \<longleftrightarrow> bt_wf (tm_table h) \<and> bt_wf (tm_queue h) \<and> length (tm_table h) \<le> MAX_TIMERS \<and>
     (\<forall>d l. bt_get (tm_queue h) d = Some l \<longrightarrow> l \<noteq> [] \<and> distinct l)"

text \<open>The queue indexes the armed timers, except those of deadline \<open>d\<close> that are in hand.\<close>

definition indexed :: "u32 set \<Rightarrow> u64 \<Rightarrow> hart_timers \<Rightarrow> bool" where
  "indexed H d h \<longleftrightarrow> shape_ok h \<and> (\<forall>i \<in> H. armed_at h i d) \<and>
     (\<forall>i d'. queued h i d' \<longleftrightarrow> armed_at h i d' \<and> \<not> (i \<in> H \<and> d' = d))"

definition timers_wf :: "hart_timers \<Rightarrow> bool" where
  "timers_wf h \<longleftrightarrow> shape_ok h \<and> (\<forall>i d. queued h i d \<longleftrightarrow> armed_at h i d)"

lemma indexed_empty: "indexed {} d h \<longleftrightarrow> timers_wf h"
  by (simp add: indexed_def timers_wf_def)

lemma armed_at_unique: "armed_at h i d \<Longrightarrow> armed_at h i d' \<Longrightarrow> d = d'"
  by (auto simp: armed_at_def)

lemma bt_get_queue_push: "bt_get (queue_push d i q) = (bt_get q)(d \<mapsto> (case bt_get q d of None \<Rightarrow> [] | Some l \<Rightarrow> l) @ [i])"
  by (simp add: queue_push_def)

lemma queued_push:
  "queued (h\<lparr>tm_table := T, tm_queue := queue_push d i (tm_queue h)\<rparr>) j d' \<longleftrightarrow> queued h j d' \<or> (j = i \<and> d' = d)"
  by (cases "bt_get (tm_queue h) d") (auto simp: queued_def bt_get_queue_push)

lemma armed_at_upd:
  "armed_at (h\<lparr>tm_table := bt_insert i t (tm_table h), tm_queue := Q\<rparr>) j d \<longleftrightarrow>
     (if j = i then tm_armed t \<and> tm_deadline_ns t = d else armed_at h j d)"
  by (auto simp: armed_at_def)

lemma shape_push:
  assumes "shape_ok h" "\<not> queued h i d" "bt_get (tm_table h) i \<noteq> None"
  shows "shape_ok (h\<lparr>tm_table := bt_insert i t (tm_table h), tm_queue := queue_push d i (tm_queue h)\<rparr>)"
  using assms
  by (auto simp: shape_ok_def queued_def bt_get_queue_push length_bt_insert_live queue_push_def
      split: option.splits)

lemma timers_new_wf [simp]: "timers_wf timers_new"
  by (simp add: timers_wf_def shape_ok_def timers_new_def queued_def armed_at_def)

lemma timer_alloc_Inr:
  assumes "timer_alloc owner ep interval h = (Inr i, h')"
  shows "bt_get (tm_table h) i = None" "length (tm_table h) < MAX_TIMERS"
    "h' = h\<lparr>tm_table := bt_insert i (timer_fresh owner ep interval) (tm_table h), tm_next_id := wrap_next i\<rparr>"
  using assms
  by (auto simp: timer_alloc_def not_le bt_contains_def split: if_splits option.splits
      dest: probe_Some_fresh)

lemma timer_alloc_wf: "timers_wf h \<Longrightarrow> timer_alloc owner ep interval h = (Inr i, h') \<Longrightarrow> timers_wf h'"
  using timer_alloc_Inr[of owner ep interval h i h']
  by (auto simp: timers_wf_def shape_ok_def queued_def armed_at_def length_bt_insert_fresh timer_fresh_def)

lemma timer_alloc_Inl:
  assumes "timers_wf h" "timer_alloc owner ep interval h = (Inl e, h')"
  shows "h' = h \<and> MAX_TIMERS \<le> length (tm_table h) \<and> e = TmResourceExhausted"
proof (rule ccontr)
  assume "\<not> ?thesis"
  then have len: "length (tm_table h) < MAX_TIMERS"
    using assms(2) by (auto simp: timer_alloc_def split: if_splits option.splits)
  have "\<exists>x. probe (Suc MAX_TIMERS) wrap_next (bt_contains (tm_table h)) (tm_next_id h) = Some (x, wrap_next x)"
    using assms(1) len
    by (intro probe_wrap_succeeds) (auto simp: timers_wf_def shape_ok_def MAX_TIMERS_def)
  with assms(2) len show False by (auto simp: timer_alloc_def)
qed

lemma timer_arm_wf:
  assumes "timers_wf h" "timer_arm i d h = (res, h')"
  shows "timers_wf h'"
proof (cases "h' = h")
  case False
  with assms(2) obtain t where t: "bt_get (tm_table h) i = Some t" "\<not> tm_armed t"
    and h': "h' = h\<lparr>tm_table := bt_insert i (t\<lparr>tm_deadline_ns := d, tm_armed := True\<rparr>) (tm_table h),
                   tm_queue := queue_push d i (tm_queue h)\<rparr>"
    by (auto simp: timer_arm_def split: option.splits if_splits)
  have nq: "\<not> armed_at h i d'" for d' using t by (simp add: armed_at_def)
  then show ?thesis
    using assms(1) t unfolding h' timers_wf_def
    by (auto simp: armed_at_upd queued_push intro!: shape_push)
qed (use assms in simp)

lemma timer_disarm_cases:
  assumes wf: "timers_wf h" and op: "timer_disarm i h = (res, h')"
  shows "timers_wf h' \<and> bt_get (tm_table h') = (case bt_get (tm_table h) i of
     None \<Rightarrow> bt_get (tm_table h) | Some t \<Rightarrow> (bt_get (tm_table h))(i \<mapsto> t\<lparr>tm_armed := False\<rparr>)) \<and>
     length (tm_table h') = length (tm_table h)"
proof (cases "\<exists>t. bt_get (tm_table h) i = Some t \<and> tm_armed t")
  case False
  then have "h' = h" using op by (auto simp: timer_disarm_def split: option.splits)
  with False wf show ?thesis by (auto simp: fun_upd_idem split: option.splits)
next
  case True
  then obtain t where t: "bt_get (tm_table h) i = Some t" "tm_armed t" by blast
  define d where "d = tm_deadline_ns t"
  have at: "armed_at h i d'' \<longleftrightarrow> d'' = d" for d'' using t by (auto simp: armed_at_def d_def)
  then obtain l where l: "bt_get (tm_queue h) d = Some l" "i \<in> set l"
    using wf unfolding timers_wf_def queued_def by blast
  define Q where "Q = (if filter (\<lambda>j. j \<noteq> i) l = [] then bt_remove d (tm_queue h)
                     else bt_insert d (filter (\<lambda>j. j \<noteq> i) l) (tm_queue h))"
  have h': "h' = h\<lparr>tm_table := bt_insert i (t\<lparr>tm_armed := False\<rparr>) (tm_table h), tm_queue := Q\<rparr>"
    using op t l by (auto simp: timer_disarm_def Let_def d_def Q_def)
  have Q: "bt_get Q d' = (if d' \<noteq> d then bt_get (tm_queue h) d'
      else if filter (\<lambda>j. j \<noteq> i) l = [] then None else Some (filter (\<lambda>j. j \<noteq> i) l))" for d'
    by (simp add: Q_def)
  have q: "queued h' j d' \<longleftrightarrow> queued h j d' \<and> \<not> (j = i \<and> d' = d)" for j d'
    using l(1) by (cases "d' = d") (auto simp: queued_def h' Q filter_empty_conv)
  have "queued h j d' \<longleftrightarrow> armed_at h j d'" for j d' using wf by (simp add: timers_wf_def)
  then have "queued h' j d' \<longleftrightarrow> armed_at h' j d'" for j d'
    unfolding q using at by (auto simp: h' armed_at_upd)
  moreover have "shape_ok h'"
    using wf l t by (auto simp: timers_wf_def shape_ok_def h' Q length_bt_insert_live) (simp add: Q_def)
  ultimately show ?thesis
    using t wf by (simp add: timers_wf_def h' shape_ok_def length_bt_insert_live)
qed

lemma timer_free_wf:
  assumes "timers_wf h" "timer_free i h = (res, h')"
  shows "timers_wf h' \<and> bt_get (tm_table h') = (bt_get (tm_table h))(i := None) \<and>
    (is_ok res \<longleftrightarrow> bt_get (tm_table h) i \<noteq> None)"
proof -
  obtain r h1 where dis: "timer_disarm i h = (r, h1)" by (cases "timer_disarm i h")
  note d = timer_disarm_cases[OF assms(1) dis]
  have "\<not> armed_at h1 i d'" for d' using d by (auto simp: armed_at_def split: option.splits)
  then have "armed_at (h1\<lparr>tm_table := bt_remove i (tm_table h1)\<rparr>) = armed_at h1"
    "queued (h1\<lparr>tm_table := bt_remove i (tm_table h1)\<rparr>) = queued h1"
    by (auto simp: fun_eq_iff armed_at_def queued_def)
  then have "timers_wf (h1\<lparr>tm_table := bt_remove i (tm_table h1)\<rparr>)"
    using d length_bt_remove_le[of i "tm_table h1"] by (auto simp: timers_wf_def shape_ok_def)
  then show ?thesis
    using assms(2) dis d
    by (auto simp: timer_free_def Let_def bt_contains_def split: if_splits option.splits)
qed

interpretation tm: handle_store timers_wf "\<lambda>h. bt_get (tm_table h)" "\<lambda>_. MAX_TIMERS"
    "\<lambda>(owner, ep, interval). timer_fresh owner ep interval"
    "\<lambda>(owner, ep, interval). timer_alloc owner ep interval" timer_free
proof (unfold_locales, goal_cases)
  case (2 h)
  then show ?case by (simp add: timers_wf_def shape_ok_def bt_card)
next
  case (3 h a i h')
  then show ?case
    using timer_alloc_wf[of h "fst a" "fst (snd a)" "snd (snd a)" i h']
      timer_alloc_Inr[of "fst a" "fst (snd a)" "snd (snd a)" h i h']
    by (cases a) simp
next
  case (4 h a e h')
  then show ?case
    using timer_alloc_Inl[of h "fst a" "fst (snd a)" "snd (snd a)" e h']
    by (cases a) (simp add: timers_wf_def shape_ok_def bt_card)
next
  case (5 h i r h')
  then show ?case using timer_free_wf[of h i "Inr r" h'] by simp
next
  case (6 h i f h')
  then show ?case using timer_free_wf[of h i "Inl f" h'] by (auto simp: fun_upd_idem)
qed simp

subsection \<open>The expiry pass\<close>

text \<open>What one firing does to a timer, and how often a timer is reported.\<close>

definition fired :: "timer_state \<Rightarrow> timer_state" where
  "fired t =
     (if 0 < tm_interval_ns t
      then t\<lparr>tm_deadline_ns := tm_deadline_ns t + tm_interval_ns t, tm_seq := tm_seq t + 1 + tm_missed t\<rparr>
      else t\<lparr>tm_armed := False, tm_seq := tm_seq t + 1\<rparr>)"

definition reports :: "u32 \<Rightarrow> (u32 \<times> timer_state) list \<Rightarrow> timer_state list" where
  "reports i ex = map snd (filter (\<lambda>p. fst p = i) ex)"

lemma reports_append [simp]: "reports i (xs @ ys) = reports i xs @ reports i ys"
  by (simp add: reports_def)

lemma reports_Nil [simp]: "reports i [] = []"
  by (simp add: reports_def)

lemma reports_Cons [simp]: "reports i ((j, t) # ys) = (if j = i then t # reports i ys else reports i ys)"
  by (simp add: reports_def)

definition track :: "u64 \<Rightarrow> hart_timers \<Rightarrow> (u32 \<times> timer_state) list \<times> hart_timers \<Rightarrow> bool" where
  "track now h0 s \<longleftrightarrow> (\<forall>i. bt_get (tm_table (snd s)) i =
       map_option (fired ^^ length (reports i (fst s))) (bt_get (tm_table h0) i)) \<and>
     (\<forall>i t. bt_get (tm_table h0) i = Some t \<longrightarrow>
        reports i (fst s) = map (\<lambda>j. (fired ^^ j) t) [0..<length (reports i (fst s))]) \<and>
     (\<forall>(i, t) \<in> set (fst s). tm_armed t \<and> tm_deadline_ns t \<le> now \<and> bt_get (tm_table h0) i \<noteq> None)"

lemma fire_cases:
  "fire now i (ex, h) =
     (case bt_get (tm_table h) i of
        None \<Rightarrow> (ex, h)
      | Some t \<Rightarrow>
          if tm_armed t \<and> tm_deadline_ns t \<le> now then
            (ex @ [(i, t)],
             h\<lparr>tm_table := bt_insert i (fired t) (tm_table h),
               tm_queue := (if 0 < tm_interval_ns t
                            then queue_push (tm_deadline_ns t + tm_interval_ns t) i (tm_queue h)
                            else tm_queue h)\<rparr>)
          else (ex, h))"
  by (auto simp: fire_def fired_def Let_def split: option.splits)

lemma fire_track: "track now h0 s \<Longrightarrow> track now h0 (fire now i s)"
proof -
  obtain ex h where s: "s = (ex, h)" by (cases s)
  assume tr: "track now h0 s"
  show ?thesis
  proof (cases "\<exists>t. bt_get (tm_table h) i = Some t \<and> tm_armed t \<and> tm_deadline_ns t \<le> now")
    case False
    then have "fire now i s = s" by (auto simp: s fire_cases split: option.splits)
    with tr show ?thesis by simp
  next
    case True
    then obtain t where t: "bt_get (tm_table h) i = Some t" "tm_armed t" "tm_deadline_ns t \<le> now"
      by blast
    then obtain t0 where t0: "bt_get (tm_table h0) i = Some t0" "t = (fired ^^ length (reports i ex)) t0"
      using tr by (auto simp: track_def s)
    show ?thesis
      using tr t t0 unfolding track_def s by (auto simp: fire_cases)
  qed
qed

lemma fold_fire_track: "track now h0 s \<Longrightarrow> track now h0 (fold (fire now) is s)"
proof (induction "is" arbitrary: s)
  case (Cons a "is")
  from Cons.IH[OF fire_track[OF Cons.prems]] show ?case by simp
qed simp

lemma expire_track: "track now h0 s \<Longrightarrow> track now h0 (expire_deadline now d s)"
proof -
  obtain ex h where s: "s = (ex, h)" by (cases s)
  assume "track now h0 s"
  moreover from this have "track now h0 (ex, h\<lparr>tm_queue := bt_remove d (tm_queue h)\<rparr>)"
    by (simp add: s track_def)
  ultimately show ?thesis
    by (auto simp: s expire_deadline_def intro: fold_fire_track split: option.splits)
qed

lemma fire_grows: "\<exists>ys. fst (fire now i s) = fst s @ ys"
  by (cases s) (auto simp: fire_cases split: option.splits)

lemma fold_fire_grows: "\<exists>ys. fst (fold (fire now) is s) = fst s @ ys"
proof (induction "is" arbitrary: s)
  case (Cons a "is")
  obtain ys where "fst (fire now a s) = fst s @ ys" using fire_grows by blast
  with Cons.IH[of "fire now a s"] show ?case by auto
qed simp

lemma fire_in_hand:
  assumes ix: "indexed (insert i H) d h" and "i \<notin> H" and due: "d \<le> now"
  shows "\<exists>h' t. fire now i (ex, h) = (ex @ [(i, t)], h') \<and> indexed H d h'"
proof -
  obtain t where t: "bt_get (tm_table h) i = Some t" "tm_armed t" "tm_deadline_ns t = d"
    using ix by (auto simp: indexed_def armed_at_def)
  have sh: "shape_ok h" using ix by (simp add: indexed_def)
  have nq: "\<not> queued h i d'" for d'
    using ix t by (auto simp: indexed_def armed_at_def)
  define h' where "h' = snd (fire now i (ex, h))"
  have fr: "fire now i (ex, h) = (ex @ [(i, t)], h')"
    using t due by (simp add: h'_def fire_cases)
  show ?thesis
  proof (cases "0 < tm_interval_ns t")
    case True
    then have h'_eq: "h' = h\<lparr>tm_table := bt_insert i (fired t) (tm_table h),
        tm_queue := queue_push (d + tm_interval_ns t) i (tm_queue h)\<rparr>"
      using t due by (simp add: h'_def fire_cases)
    have "indexed H d h'"
      unfolding indexed_def
    proof (intro conjI ballI allI)
      show "shape_ok h'" unfolding h'_eq using t by (intro shape_push[OF sh nq]) simp
    next
      fix j assume "j \<in> H"
      then show "armed_at h' j d" using ix assms(2) by (auto simp: h'_eq armed_at_upd indexed_def)
    next
      fix j d'
      show "queued h' j d' \<longleftrightarrow> armed_at h' j d' \<and> \<not> (j \<in> H \<and> d' = d)"
        using ix assms(2) nq True t
        by (auto simp: h'_eq armed_at_upd queued_push indexed_def fired_def)
    qed
    with fr show ?thesis by blast
  next
    case False
    then have h'_eq: "h' = h\<lparr>tm_table := bt_insert i (fired t) (tm_table h), tm_queue := tm_queue h\<rparr>"
      using t due by (simp add: h'_def fire_cases)
    have q: "queued h' = queued h" by (auto simp: h'_eq queued_def fun_eq_iff)
    have a: "armed_at h' j d' \<longleftrightarrow> j \<noteq> i \<and> armed_at h j d'" for j d'
      using False by (auto simp: h'_eq armed_at_def fired_def)
    have "shape_ok h'"
      using sh t(1) by (simp add: shape_ok_def h'_eq length_bt_insert_live)
    moreover have "queued h j d' \<longleftrightarrow> armed_at h j d' \<and> \<not> (j \<in> insert i H \<and> d' = d)"
      "j \<in> insert i H \<Longrightarrow> armed_at h j d" for j d'
      using ix unfolding indexed_def by blast+
    ultimately have "indexed H d h'"
      unfolding indexed_def q a using assms(2) nq by (metis insert_iff)
    with fr show ?thesis by blast
  qed
qed

lemma fold_fire_in_hand:
  assumes "indexed (set is) d h" "distinct is" "d \<le> now"
  shows "timers_wf (snd (fold (fire now) is (ex, h))) \<and>
    (\<forall>i \<in> set is. length (reports i ex) < length (reports i (fst (fold (fire now) is (ex, h)))))"
  using assms
proof (induction "is" arbitrary: ex h)
  case (Cons a "is")
  obtain h' t where f: "fire now a (ex, h) = (ex @ [(a, t)], h')" and ix: "indexed (set is) d h'"
    using fire_in_hand[of a "set is" d h now ex] Cons.prems by auto
  note IH = Cons.IH[OF ix _ Cons.prems(3), of "ex @ [(a, t)]"]
  obtain ys where ys: "fst (fold (fire now) is (ex @ [(a, t)], h')) = (ex @ [(a, t)]) @ ys"
    using fold_fire_grows[of now "is" "(ex @ [(a, t)], h')"] by auto
  show ?case
  proof (intro conjI ballI)
    show "timers_wf (snd (fold (fire now) (a # is) (ex, h)))" using IH Cons.prems f by simp
  next
    fix i assume i: "i \<in> set (a # is)"
    show "length (reports i ex) < length (reports i (fst (fold (fire now) (a # is) (ex, h))))"
    proof (cases "i = a")
      case True
      then show ?thesis using ys f by simp
    next
      case False
      then show ?thesis using IH Cons.prems f i by auto
    qed
  qed
qed (simp add: indexed_empty)

lemma expire_deadline_wf:
  assumes wf: "timers_wf h" and due: "d \<le> now"
  shows "timers_wf (snd (expire_deadline now d (ex, h))) \<and>
    (\<forall>i. armed_at h i d \<longrightarrow>
       length (reports i ex) < length (reports i (fst (expire_deadline now d (ex, h)))))"
proof (cases "bt_get (tm_queue h) d")
  case None
  then have "\<not> armed_at h i d" for i
    using wf by (metis option.distinct(1) queued_def timers_wf_def)
  with None wf show ?thesis by (simp add: expire_deadline_def)
next
  case (Some l)
  define h1 where "h1 = h\<lparr>tm_queue := bt_remove d (tm_queue h)\<rparr>"
  have arm: "armed_at h1 = armed_at h" by (simp add: h1_def armed_at_def fun_eq_iff)
  have q: "queued h1 i d' \<longleftrightarrow> queued h i d' \<and> d' \<noteq> d" for i d'
    by (auto simp: queued_def h1_def)
  have l: "i \<in> set l \<longleftrightarrow> armed_at h i d" for i
    using wf Some by (metis option.inject queued_def timers_wf_def)
  have sh: "shape_ok h1" "distinct l"
    using wf Some by (auto simp: timers_wf_def shape_ok_def h1_def)
  have "indexed (set l) d h1"
    unfolding indexed_def q arm using wf sh l by (metis timers_wf_def)
  from fold_fire_in_hand[OF this sh(2) due, of ex] show ?thesis
    using Some l by (simp add: expire_deadline_def h1_def)
qed

lemma expire_grows: "\<exists>ys. fst (expire_deadline now d s) = fst s @ ys"
  using fold_fire_grows by (cases s) (auto simp: expire_deadline_def split: option.splits)

lemma track_unreported:
  "track now h0 (ex, h) \<Longrightarrow> reports i ex = [] \<Longrightarrow> armed_at h0 i d \<Longrightarrow> armed_at h i d"
  by (auto simp: track_def armed_at_def)

lemma fold_expire:
  assumes "timers_wf h" "track now h0 (ex, h)" "\<forall>d \<in> set ds. d \<le> now"
  shows "timers_wf (snd (fold (expire_deadline now) ds (ex, h))) \<and>
    track now h0 (fold (expire_deadline now) ds (ex, h)) \<and>
    (\<forall>i d. armed_at h0 i d \<and> (reports i ex \<noteq> [] \<or> d \<in> set ds) \<longrightarrow>
       reports i (fst (fold (expire_deadline now) ds (ex, h))) \<noteq> [])"
  using assms
proof (induction ds arbitrary: ex h)
  case (Cons d ds)
  obtain ex1 h1 where e: "expire_deadline now d (ex, h) = (ex1, h1)" by fastforce
  have wf1: "timers_wf h1" and rep: "\<And>i. armed_at h i d \<Longrightarrow> length (reports i ex) < length (reports i ex1)"
    using expire_deadline_wf[OF Cons.prems(1), of d now ex] Cons.prems(3) e by auto
  have tr1: "track now h0 (ex1, h1)" using expire_track[OF Cons.prems(2), of d] e by simp
  obtain ys where ys: "ex1 = ex @ ys" using expire_grows[of now d "(ex, h)"] e by auto
  have IH: "timers_wf (snd (fold (expire_deadline now) ds (ex1, h1)))"
    "track now h0 (fold (expire_deadline now) ds (ex1, h1))"
    "\<And>i d'. armed_at h0 i d' \<Longrightarrow> reports i ex1 \<noteq> [] \<or> d' \<in> set ds \<Longrightarrow>
       reports i (fst (fold (expire_deadline now) ds (ex1, h1))) \<noteq> []"
    using Cons.IH[OF wf1 tr1] Cons.prems(3) by auto
  have new: "reports i ex1 \<noteq> []" if "armed_at h0 i d" for i
    using track_unreported[OF Cons.prems(2) _ that] rep[of i] ys by (cases "reports i ex = []") auto
  have "reports i (fst (fold (expire_deadline now) ds (ex1, h1))) \<noteq> []"
    if "armed_at h0 i d'" "reports i ex \<noteq> [] \<or> d' \<in> set (d # ds)" for i d'
    using IH(3)[OF that(1)] new[of i] that ys by auto
  with IH(1,2) e show ?case by auto
qed simp

lemma fired_simps [simp]:
  "tm_interval_ns (fired t) = tm_interval_ns t"
  "tm_owner_pid (fired t) = tm_owner_pid t"
  "tm_notify_ep (fired t) = tm_notify_ep t"
  "tm_deadline_ns (fired t) = tm_deadline_ns t + tm_interval_ns t"
  "tm_armed (fired t) \<longleftrightarrow> tm_armed t \<and> 0 < tm_interval_ns t"
  by (auto simp: fired_def word_gt_0)

lemma fired_iterate:
  "tm_interval_ns ((fired ^^ k) t) = tm_interval_ns t"
  "tm_deadline_ns ((fired ^^ k) t) = tm_deadline_ns t + of_nat k * tm_interval_ns t"
  "0 < tm_interval_ns t \<Longrightarrow> tm_armed ((fired ^^ k) t) = tm_armed t"
  "tm_interval_ns t = 0 \<Longrightarrow> 0 < k \<Longrightarrow> \<not> tm_armed ((fired ^^ k) t)"
  by (induction k) (auto simp: algebra_simps)

lemma pop_expired_track:
  assumes "timers_wf h" "timer_pop_expired now h = (ex, h')"
  shows "timers_wf h' \<and> track now h (ex, h') \<and>
    (\<forall>i t. bt_get (tm_table h) i = Some t \<longrightarrow>
       (reports i ex \<noteq> [] \<longleftrightarrow> tm_armed t \<and> tm_deadline_ns t \<le> now))"
proof -
  define ks where "ks = filter (\<lambda>d. d \<le> now) (bt_keys (tm_queue h))"
  have tr0: "track now h ([], h)" by (simp add: track_def option.map_id)
  have f: "timers_wf h'" "track now h (ex, h')"
    "\<And>i d. armed_at h i d \<Longrightarrow> d \<in> set ks \<Longrightarrow> reports i ex \<noteq> []"
    using fold_expire[OF assms(1) tr0, of ks] assms(2)
    by (auto simp: timer_pop_expired_def Let_def ks_def)
  have key: "armed_at h i d \<Longrightarrow> d \<in> set (bt_keys (tm_queue h))" for i d
    using assms(1) by (auto simp: timers_wf_def queued_def simp flip: bt_dom)
  have "reports i ex \<noteq> [] \<longleftrightarrow> tm_armed t \<and> tm_deadline_ns t \<le> now"
    if t: "bt_get (tm_table h) i = Some t" for i t
  proof
    assume ne: "reports i ex \<noteq> []"
    have eq: "reports i ex = map (\<lambda>j. (fired ^^ j) t) [0..<length (reports i ex)]"
      using f(2) t by (simp add: track_def)
    have "hd (reports i ex) = t"
      using arg_cong[OF eq, of "\<lambda>l. l ! 0"] ne by (simp add: hd_conv_nth)
    moreover have "(i, hd (reports i ex)) \<in> set ex"
      using hd_in_set[OF ne] by (auto simp: reports_def)
    ultimately show "tm_armed t \<and> tm_deadline_ns t \<le> now"
      using f(2) by (auto simp: track_def)
  next
    assume "tm_armed t \<and> tm_deadline_ns t \<le> now"
    then have "armed_at h i (tm_deadline_ns t)" "tm_deadline_ns t \<in> set ks"
      using t key[of i "tm_deadline_ns t"] by (auto simp: armed_at_def ks_def)
    then show "reports i ex \<noteq> []" by (rule f(3))
  qed
  with f(1,2) show ?thesis by blast
qed

subsection \<open>Properties\<close>

datatype timer_op =
    OpAlloc u32 u32 u64
  | OpArm u32 u64
  | OpDisarm u32
  | OpFree u32
  | OpExpire u64

fun timer_exec :: "timer_op \<Rightarrow> hart_timers \<Rightarrow> hart_timers" where
  "timer_exec (OpAlloc p ep iv) h = snd (timer_alloc p ep iv h)"
| "timer_exec (OpArm i d) h = snd (timer_arm i d h)"
| "timer_exec (OpDisarm i) h = snd (timer_disarm i h)"
| "timer_exec (OpFree i) h = snd (timer_free i h)"
| "timer_exec (OpExpire now) h = snd (timer_pop_expired now h)"

lemma timer_exec_wf: "timers_wf h \<Longrightarrow> timers_wf (timer_exec op h)"
proof (cases op)
  case (OpAlloc p ep iv)
  assume "timers_wf h"
  then show ?thesis
    using timer_alloc_wf[of h p ep iv] timer_alloc_Inl[of h p ep iv] OpAlloc
    by (cases "timer_alloc p ep iv h"; cases "fst (timer_alloc p ep iv h)") auto
next
  case (OpArm i d)
  assume "timers_wf h"
  then show ?thesis using OpArm timer_arm_wf[OF _ surjective_pairing] by simp
next
  case (OpDisarm i)
  assume "timers_wf h"
  then show ?thesis using OpDisarm timer_disarm_cases[OF _ surjective_pairing] by simp
next
  case (OpFree i)
  assume "timers_wf h"
  then show ?thesis using OpFree timer_free_wf[OF _ surjective_pairing] by simp
next
  case (OpExpire now)
  assume "timers_wf h"
  then show ?thesis using OpExpire pop_expired_track[OF _ surjective_pairing] by simp
qed

definition timers_reached :: "timer_op list \<Rightarrow> hart_timers" where
  "timers_reached ops = fold timer_exec ops timers_new"

text \<open>C29: After any sequence of timer operations the deadline queue holds exactly the armed timers,
  each once and under its own deadline, at most 64 timers exist, and the earliest deadline the
  kernel programs is the smallest deadline of an armed timer (none if no timer is armed).\<close>

theorem timer_queue_exact:
  "timers_wf (timers_reached ops) \<and>
    (case timer_earliest_deadline (timers_reached ops) of
       None \<Rightarrow> \<nexists>i d. armed_at (timers_reached ops) i d
     | Some d \<Rightarrow> (\<exists>i. armed_at (timers_reached ops) i d) \<and> (\<forall>i d'. armed_at (timers_reached ops) i d' \<longrightarrow> d \<le> d'))"
proof -
  have "timers_wf (fold timer_exec ops h)" if "timers_wf h" for h
    using that by (induction ops arbitrary: h) (auto intro: timer_exec_wf)
  from this[OF timers_new_wf] have wf: "timers_wf (timers_reached ops)" by (simp add: timers_reached_def)
  let ?h = "timers_reached ops"
  have keys: "d \<in> set (bt_keys (tm_queue ?h)) \<longleftrightarrow> (\<exists>i. armed_at ?h i d)" for d
  proof -
    have "\<forall>l. bt_get (tm_queue ?h) d = Some l \<longrightarrow> l \<noteq> []"
      using wf by (simp add: timers_wf_def shape_ok_def)
    then have "d \<in> set (bt_keys (tm_queue ?h)) \<longleftrightarrow> (\<exists>i. queued ?h i d)"
      unfolding queued_def bt_dom[symmetric] by (auto simp: domIff) (metis hd_in_set)
    with wf show ?thesis by (simp add: timers_wf_def)
  qed
  have srt: "sorted (bt_keys (tm_queue ?h))"
    using wf by (auto simp: timers_wf_def shape_ok_def bt_wf_def strict_sorted_iff)
  show ?thesis
  proof (cases "bt_keys (tm_queue ?h)")
    case Nil
    then have "\<nexists>i d. armed_at ?h i d" using keys by auto
    with Nil wf show ?thesis by (simp add: timer_earliest_deadline_def)
  next
    case (Cons d ds)
    have "\<exists>i. armed_at ?h i d" using keys[of d] Cons by simp
    moreover have "d \<le> d'" if "armed_at ?h i d'" for i d'
      using keys[of d'] that srt Cons by auto
    ultimately show ?thesis using Cons wf by (simp add: timer_earliest_deadline_def)
  qed
qed

theorem timer_queue_exact_witness:
  "timer_earliest_deadline (timers_reached [OpAlloc 1 2 5, OpArm 1 10, OpExpire 12]) = Some 15 \<and>
   timers_wf (timers_reached [OpAlloc 1 2 5, OpArm 1 10, OpExpire 12])"
proof
  show "timer_earliest_deadline (timers_reached [OpAlloc 1 2 5, OpArm 1 10, OpExpire 12]) = Some 15"
    by (simp add: timers_reached_def timer_alloc_def timers_new_def MAX_TIMERS_def bt_contains_def wrap_next_def
        timer_arm_def queue_push_def bt_get_def timer_fresh_def timer_pop_expired_def bt_keys_def
        expire_deadline_def fire_def bt_remove_def Let_def timer_earliest_deadline_def)
qed (use timer_queue_exact in blast)

text \<open>C30: The expiry pass at time \<open>now\<close> reports a timer exactly when it was armed with a deadline not
  after \<open>now\<close>; a periodic timer reported \<open>k\<close> times has its deadline advanced by exactly \<open>k\<close>
  intervals from the old deadline (modulo \<open>2 ^ 64\<close>) and stays armed, a one-shot timer is disarmed,
  a timer that was not due is unchanged, and the queue invariant holds afterwards.\<close>

theorem pop_expired_drift_free:
  assumes "timers_wf h" "timer_pop_expired now h = (ex, h')" "bt_get (tm_table h) i = Some t"
  shows "\<exists>t' k. bt_get (tm_table h') i = Some t' \<and> k = length (filter (\<lambda>p. fst p = i) ex) \<and>
    (0 < k \<longleftrightarrow> tm_armed t \<and> tm_deadline_ns t \<le> now) \<and>
    (k = 0 \<longrightarrow> t' = t) \<and>
    (0 < tm_interval_ns t \<longrightarrow>
       tm_deadline_ns t' = tm_deadline_ns t + of_nat k * tm_interval_ns t \<and> tm_armed t' = tm_armed t) \<and>
    (tm_interval_ns t = 0 \<and> 0 < k \<longrightarrow> \<not> tm_armed t') \<and>
    timers_wf h'"
proof -
  note p = pop_expired_track[OF assms(1,2)]
  define k where "k = length (reports i ex)"
  have t': "bt_get (tm_table h') i = Some ((fired ^^ k) t)"
    using p assms(3) by (simp add: track_def k_def)
  have "0 < k \<longleftrightarrow> tm_armed t \<and> tm_deadline_ns t \<le> now"
    using p assms(3) by (simp add: k_def)
  then show ?thesis
    using t' p fired_iterate(2)[of k t] fired_iterate(3,4)[of t k]
    by (auto simp: k_def reports_def)
qed

theorem pop_expired_drift_free_witness:
  "let h = fold timer_exec [OpAlloc 1 2 5, OpArm 1 10] timers_new in
   \<exists>t'. bt_get (tm_table (snd (timer_pop_expired 12 h))) 1 = Some t' \<and> tm_deadline_ns t' = 15"
proof -
  let ?h = "fold timer_exec [OpAlloc 1 2 5, OpArm 1 10] timers_new"
  let ?t = "(timer_fresh 1 2 5)\<lparr>tm_deadline_ns := 10, tm_armed := True\<rparr>"
  have h: "?h = \<lparr>tm_table = [(1, ?t)], tm_queue = [(10, [1])], tm_next_id = 2\<rparr>"
    by (simp add: timer_alloc_def timers_new_def MAX_TIMERS_def bt_contains_def wrap_next_def
        timer_arm_def queue_push_def bt_get_def timer_fresh_def)
  have wf: "timers_wf ?h"
    using timer_exec_wf[OF timer_exec_wf[OF timers_new_wf], of "OpArm 1 10" "OpAlloc 1 2 5"] by simp
  have g: "bt_get (tm_table ?h) 1 = Some ?t" unfolding h by (simp add: bt_get_def)
  have "length (filter (\<lambda>p. fst p = 1) (fst (timer_pop_expired 12 ?h))) = 1"
    unfolding h
    by (simp add: timer_pop_expired_def bt_keys_def expire_deadline_def fire_def bt_get_def timer_fresh_def
        queue_push_def bt_remove_def Let_def)
  with pop_expired_drift_free[OF wf surjective_pairing g, of 12] show ?thesis
    by (auto simp: timer_fresh_def Let_def)
qed

end
