(* ===== verification/Sched.thy ===== *)
theory Sched
  imports Fifo
begin

text \<open>
  The per-CPU scheduler of \<open>source/kernel/neuron/src/sched/mod.rs\<close>: four service-class queues per
  CPU, bounded enqueue, strict class priority with first-in first-out order inside a class, yield,
  purge, class changes and work stealing.  The executing CPU (read from \<open>tp\<close>), the mask of online
  CPUs and the affinity closures of stealing are parameters.
\<close>

subsection \<open>Data\<close>

type_synonym pid = u32

datatype qos_class = Idle | Normal | Interactive | PerfBurst

definition qos_index :: "qos_class \<Rightarrow> nat" where
  "qos_index q = (case q of Idle \<Rightarrow> 0 | Normal \<Rightarrow> 1 | Interactive \<Rightarrow> 2 | PerfBurst \<Rightarrow> 3)"

definition qos_from_u8 :: "u8 \<Rightarrow> qos_class option" where
  "qos_from_u8 raw =
     (if raw = 0 then Some Idle else if raw = 1 then Some Normal
      else if raw = 2 then Some Interactive else if raw = 3 then Some PerfBurst else None)"

record sched_task =
  st_id :: pid
  st_qos :: qos_class

definition RUNTIME_QOS_QUEUE_CAPACITY :: usize where "RUNTIME_QOS_QUEUE_CAPACITY = 64"
definition SELFTEST_QOS_QUEUE_CAPACITY :: usize where "SELFTEST_QOS_QUEUE_CAPACITY = 64"

datatype enqueue_reject_reason =
    EnqQueueFull qos_class usize
  | EnqInvalidCpu usize

datatype enqueue_outcome = Enqueued | Rejected enqueue_reject_reason

datatype set_qos_outcome = QosUpdated | QosNotFound | QosQueueFull

record cpu_run_queues =
  queues :: "sched_task list list"
  current :: "sched_task option"

definition MAX_CPUS :: usize where "MAX_CPUS = 4"

record scheduler =
  cpus :: "cpu_run_queues list"
  timeslice_ns :: u64

definition run_queues_new :: cpu_run_queues where
  "run_queues_new = \<lparr>queues = [[], [], [], []], current = None\<rparr>"

definition queue_mut :: "cpu_run_queues \<Rightarrow> qos_class \<Rightarrow> sched_task list" where
  "queue_mut rq q = queues rq ! qos_index q"

definition put_queue :: "qos_class \<Rightarrow> sched_task list \<Rightarrow> cpu_run_queues \<Rightarrow> cpu_run_queues" where
  "put_queue q l rq = rq\<lparr>queues := (queues rq)[qos_index q := l]\<rparr>"

subsection \<open>Operations\<close>

text \<open>\<open>raw\<close> is the identity of the executing CPU.\<close>

definition current_cpu_index :: "usize \<Rightarrow> usize" where
  "current_cpu_index raw = (if raw < MAX_CPUS then raw else 0)"

definition runtime_queue_capacity_for :: "qos_class \<Rightarrow> usize" where
  "runtime_queue_capacity_for q = RUNTIME_QOS_QUEUE_CAPACITY"

definition selftest_queue_capacity_for :: "qos_class \<Rightarrow> usize" where
  "selftest_queue_capacity_for q = SELFTEST_QOS_QUEUE_CAPACITY"

definition bounded_push ::
  "sched_task list \<Rightarrow> sched_task \<Rightarrow> qos_class \<Rightarrow> usize \<Rightarrow> enqueue_outcome \<times> sched_task list" where
  "bounded_push q task qos capacity =
     (if capacity \<le> length q then (Rejected (EnqQueueFull qos capacity), q)
      else (Enqueued, q @ [task]))"

definition sched_new :: "u64 \<Rightarrow> scheduler" where
  "sched_new ts = \<lparr>cpus = replicate MAX_CPUS run_queues_new, timeslice_ns = ts\<rparr>"

definition upd_cpu :: "usize \<Rightarrow> (cpu_run_queues \<Rightarrow> cpu_run_queues) \<Rightarrow> scheduler \<Rightarrow> scheduler" where
  "upd_cpu c f s = s\<lparr>cpus := (cpus s)[c := f (cpus s ! c)]\<rparr>"

definition cpu_queue :: "scheduler \<Rightarrow> usize \<Rightarrow> qos_class \<Rightarrow> sched_task list" where
  "cpu_queue s c q = queue_mut (cpus s ! c) q"

text \<open>Push onto class \<open>q\<close> of CPU \<open>c\<close>; shared by the enqueue operations.\<close>

definition push_on :: "usize \<Rightarrow> pid \<Rightarrow> qos_class \<Rightarrow> usize \<Rightarrow> scheduler \<Rightarrow> enqueue_outcome \<times> scheduler" where
  "push_on c i q capacity s =
     (case bounded_push (cpu_queue s c q) \<lparr>st_id = i, st_qos = q\<rparr> q capacity of
        (res, l) \<Rightarrow> (res, upd_cpu c (put_queue q l) s))"

definition try_enqueue :: "usize \<Rightarrow> pid \<Rightarrow> qos_class \<Rightarrow> scheduler \<Rightarrow> enqueue_outcome \<times> scheduler" where
  "try_enqueue raw i q s = push_on (current_cpu_index raw) i q (runtime_queue_capacity_for q) s"

definition enqueue :: "usize \<Rightarrow> pid \<Rightarrow> qos_class \<Rightarrow> scheduler \<Rightarrow> enqueue_outcome \<times> scheduler" where
  "enqueue raw i q s = try_enqueue raw i q s"

definition current_task_id :: "usize \<Rightarrow> scheduler \<Rightarrow> pid option" where
  "current_task_id raw s = map_option st_id (current (cpus s ! current_cpu_index raw))"

definition set_current_qos :: "usize \<Rightarrow> qos_class \<Rightarrow> scheduler \<Rightarrow> bool \<times> scheduler" where
  "set_current_qos raw q s =
     (let c = current_cpu_index raw in
      case current (cpus s ! c) of
        None \<Rightarrow> (False, s)
      | Some t \<Rightarrow> (True, upd_cpu c (\<lambda>rq. rq\<lparr>current := Some (t\<lparr>st_qos := q\<rparr>)\<rparr>) s))"

text \<open>The search of \<open>set_task_qos\<close>: first CPU, first class, first position holding the task.\<close>

definition find_queued :: "pid \<Rightarrow> scheduler \<Rightarrow> (usize \<times> usize \<times> usize) option" where
  "find_queued i s =
     List.find (\<lambda>(c, q, p). st_id (queues (cpus s ! c) ! q ! p) = i)
       [(c, q, p). c \<leftarrow> [0..<length (cpus s)], q \<leftarrow> [0..<length (queues (cpus s ! c))],
                   p \<leftarrow> [0..<length (queues (cpus s ! c) ! q)]]"

definition remove_at :: "nat \<Rightarrow> 'a list \<Rightarrow> 'a list" where
  "remove_at p xs = take p xs @ drop (Suc p) xs"

definition insert_at :: "nat \<Rightarrow> 'a \<Rightarrow> 'a list \<Rightarrow> 'a list" where
  "insert_at p x xs = take p xs @ [x] @ drop p xs"

definition set_task_qos :: "pid \<Rightarrow> qos_class \<Rightarrow> scheduler \<Rightarrow> set_qos_outcome \<times> scheduler" where
  "set_task_qos i q s =
     (case find_index (\<lambda>rq. case current rq of None \<Rightarrow> False | Some t \<Rightarrow> st_id t = i) (cpus s) of
        Some c \<Rightarrow>
          (QosUpdated,
           upd_cpu c (\<lambda>rq. rq\<lparr>current := map_option (\<lambda>t. t\<lparr>st_qos := q\<rparr>) (current rq)\<rparr>) s)
      | None \<Rightarrow>
          (case find_queued i s of
             None \<Rightarrow> (QosNotFound, s)
           | Some (c, source, p) \<Rightarrow>
               (let task = queues (cpus s ! c) ! source ! p;
                    s1 = upd_cpu c (\<lambda>rq. rq\<lparr>queues := (queues rq)[source := remove_at p (queues rq ! source)]\<rparr>) s
                in if runtime_queue_capacity_for q \<le> length (cpu_queue s1 c q) then
                     (QosQueueFull,
                      upd_cpu c (\<lambda>rq. rq\<lparr>queues := (queues rq)[source := insert_at p task (queues rq ! source)]\<rparr>) s1)
                   else
                     (QosUpdated,
                      upd_cpu c (\<lambda>rq. put_queue q (queue_mut rq q @ [task\<lparr>st_qos := q\<rparr>]) rq) s1))))"

text \<open>Pop the first task of the highest non-empty class.\<close>

definition class_order :: "qos_class list" where
  "class_order = [PerfBurst, Interactive, Normal, Idle]"

definition schedule_next :: "usize \<Rightarrow> scheduler \<Rightarrow> pid option \<times> scheduler" where
  "schedule_next raw s =
     (let c = current_cpu_index raw in
      case List.find (\<lambda>q. cpu_queue s c q \<noteq> []) class_order of
        None \<Rightarrow> (None, upd_cpu c (\<lambda>rq. rq\<lparr>current := None\<rparr>) s)
      | Some q \<Rightarrow>
          (let task = hd (cpu_queue s c q) in
           (Some (st_id task),
            upd_cpu c (\<lambda>rq. put_queue q (tl (queue_mut rq q)) rq\<lparr>current := Some task\<rparr>) s)))"

definition yield_current :: "usize \<Rightarrow> scheduler \<Rightarrow> scheduler" where
  "yield_current raw s =
     (let c = current_cpu_index raw in
      case current (cpus s ! c) of
        None \<Rightarrow> s
      | Some task \<Rightarrow>
          (case try_enqueue raw (st_id task) (st_qos task) (upd_cpu c (\<lambda>rq. rq\<lparr>current := None\<rparr>) s) of
             (Rejected _, s1) \<Rightarrow> upd_cpu c (\<lambda>rq. rq\<lparr>current := Some task\<rparr>) s1
           | (Enqueued, s1) \<Rightarrow> s1))"

definition finish_current :: "usize \<Rightarrow> scheduler \<Rightarrow> scheduler" where
  "finish_current raw s = upd_cpu (current_cpu_index raw) (\<lambda>rq. rq\<lparr>current := None\<rparr>) s"

definition purge :: "pid \<Rightarrow> scheduler \<Rightarrow> scheduler" where
  "purge i s =
     s\<lparr>cpus := map (\<lambda>rq. rq\<lparr>queues := map (filter (\<lambda>t. st_id t \<noteq> i)) (queues rq),
                            current := (case current rq of
                                          Some t \<Rightarrow> if st_id t = i then None else Some t
                                        | None \<Rightarrow> None)\<rparr>) (cpus s)\<rparr>"

subsection \<open>Work stealing\<close>

definition steal_classes :: "qos_class \<Rightarrow> qos_class list" where
  "steal_classes max_qos =
     (case max_qos of
        PerfBurst \<Rightarrow> [PerfBurst, Interactive, Normal, Idle]
      | Interactive \<Rightarrow> [Interactive, Normal, Idle]
      | Normal \<Rightarrow> [Normal, Idle]
      | Idle \<Rightarrow> [Idle])"

definition steal_candidates :: "u64 \<Rightarrow> usize \<Rightarrow> qos_class \<Rightarrow> (qos_class \<times> usize) list" where
  "steal_candidates online_mask local max_qos =
     [(q, v). q \<leftarrow> steal_classes max_qos, v \<leftarrow> [0..<MAX_CPUS],
              v \<noteq> local \<and> \<not> (online_mask \<noteq> 0 \<and> \<not> bit online_mask v)]"

definition selftest_try_steal ::
  "u64 \<Rightarrow> usize \<Rightarrow> qos_class \<Rightarrow> scheduler \<Rightarrow> sched_task option \<times> scheduler" where
  "selftest_try_steal online_mask local max_qos s =
     (case List.find (\<lambda>(q, v). cpu_queue s v q \<noteq> []) (steal_candidates online_mask local max_qos) of
        None \<Rightarrow> (None, s)
      | Some (q, v) \<Rightarrow>
          (Some (hd (cpu_queue s v q)), upd_cpu v (\<lambda>rq. put_queue q (tl (queue_mut rq q)) rq) s))"

definition selftest_reset_cpu :: "usize \<Rightarrow> scheduler \<Rightarrow> scheduler" where
  "selftest_reset_cpu c s =
     (if MAX_CPUS \<le> c then s
      else upd_cpu c (\<lambda>rq. rq\<lparr>queues := map (\<lambda>_. []) (queues rq), current := None\<rparr>) s)"

definition enqueue_on_cpu ::
  "usize \<Rightarrow> pid \<Rightarrow> qos_class \<Rightarrow> scheduler \<Rightarrow> enqueue_outcome \<times> scheduler" where
  "enqueue_on_cpu c i q s =
     (if MAX_CPUS \<le> c then (Rejected (EnqInvalidCpu c), s)
      else push_on c i q (runtime_queue_capacity_for q) s)"

definition steal_into_current ::
  "usize \<Rightarrow> u64 \<Rightarrow> qos_class \<Rightarrow> (pid \<Rightarrow> bool) \<Rightarrow> (pid \<Rightarrow> usize) \<Rightarrow> scheduler \<Rightarrow> pid option \<times> scheduler" where
  "steal_into_current raw online_mask max_qos allow home_of s =
     (let cur = current_cpu_index raw in
      case selftest_try_steal online_mask cur max_qos s of
        (None, s1) \<Rightarrow> (None, s1)
      | (Some task, s1) \<Rightarrow>
          if \<not> allow (st_id task) then
            (let home = min (home_of (st_id task)) (MAX_CPUS - 1) in
             (None, upd_cpu home (\<lambda>rq. put_queue (st_qos task) (task # queue_mut rq (st_qos task)) rq) s1))
          else
            (Some (st_id task), upd_cpu cur (\<lambda>rq. rq\<lparr>current := Some task\<rparr>) s1))"

definition selftest_try_enqueue_on_cpu ::
  "usize \<Rightarrow> pid \<Rightarrow> qos_class \<Rightarrow> scheduler \<Rightarrow> enqueue_outcome \<times> scheduler" where
  "selftest_try_enqueue_on_cpu c i q s =
     (if MAX_CPUS \<le> c then (Rejected (EnqInvalidCpu c), s)
      else push_on c i q (selftest_queue_capacity_for q) s)"

text \<open>\<open>SELFTEST_STEAL_MAX_PER_TICK\<close> is 1, so each class steals at most once.\<close>

primrec schedule_or_steal :: "u64 \<Rightarrow> usize \<Rightarrow> qos_class list \<Rightarrow> scheduler \<Rightarrow> pid option \<times> scheduler" where
  "schedule_or_steal online_mask c [] s = (None, upd_cpu c (\<lambda>rq. rq\<lparr>current := None\<rparr>) s)"
| "schedule_or_steal online_mask c (q # qs) s =
     (case cpu_queue s c q of
        task # rest \<Rightarrow>
          (Some (st_id task), upd_cpu c (\<lambda>rq. put_queue q rest rq\<lparr>current := Some task\<rparr>) s)
      | [] \<Rightarrow>
          (case selftest_try_steal online_mask c q s of
             (Some task, s1) \<Rightarrow>
               (Some (st_id task), upd_cpu c (\<lambda>rq. rq\<lparr>current := Some task\<rparr>) s1)
           | (None, s1) \<Rightarrow> schedule_or_steal online_mask c qs s1))"

definition selftest_schedule_on_cpu :: "u64 \<Rightarrow> usize \<Rightarrow> scheduler \<Rightarrow> pid option \<times> scheduler" where
  "selftest_schedule_on_cpu online_mask c s =
     (if MAX_CPUS \<le> c then (None, s) else schedule_or_steal online_mask c class_order s)"

definition selftest_try_steal_for_class ::
  "u64 \<Rightarrow> usize \<Rightarrow> qos_class \<Rightarrow> scheduler \<Rightarrow> pid option \<times> scheduler" where
  "selftest_try_steal_for_class online_mask c max_qos s =
     (if MAX_CPUS \<le> c then (None, s)
      else case selftest_try_steal online_mask c max_qos s of (t, s1) \<Rightarrow> (map_option st_id t, s1))"

definition selftest_queue_len :: "scheduler \<Rightarrow> usize \<Rightarrow> qos_class \<Rightarrow> usize" where
  "selftest_queue_len s c q = (if MAX_CPUS \<le> c then 0 else length (queues (cpus s ! c) ! qos_index q))"

end
