(* ===== verification/Sched_Correct.thy ===== *)
theory Sched_Correct
  imports Sched
begin

text \<open>
  Correctness of the scheduler: class priority, first-in first-out run queues (an instance of
  \<open>bounded_fifo\<close>), round-robin progress, conservation of tasks by yield, class changes and
  stealing, and the capacity bound.
\<close>

subsection \<open>Service classes are linearly ordered\<close>

instantiation qos_class :: linorder
begin

definition less_eq_qos_class :: "qos_class \<Rightarrow> qos_class \<Rightarrow> bool" where
  "less_eq_qos_class a b \<longleftrightarrow> qos_index a \<le> qos_index b"

definition less_qos_class :: "qos_class \<Rightarrow> qos_class \<Rightarrow> bool" where
  "less_qos_class a b \<longleftrightarrow> qos_index a < qos_index b"

instance
proof
  fix a b :: qos_class
  show "a \<le> b \<Longrightarrow> b \<le> a \<Longrightarrow> a = b"
    by (cases a; cases b) (simp_all add: less_eq_qos_class_def qos_index_def)
qed (auto simp: less_eq_qos_class_def less_qos_class_def)

end

lemma qos_index_less [simp]: "qos_index q < 4"
  by (cases q) (simp_all add: qos_index_def)

lemma qos_index_inj [simp]: "qos_index q = qos_index q' \<longleftrightarrow> q = q'"
  by (cases q; cases q') (simp_all add: qos_index_def)

lemma ex_qos_index: "i < 4 \<Longrightarrow> \<exists>q. qos_index q = i"
  by (cases "i = 0"; cases "i = 1"; cases "i = 2")
    (auto simp: qos_index_def intro: exI[of _ Idle] exI[of _ Normal] exI[of _ Interactive] exI[of _ PerfBurst])

lemma qos_less_iff: "a < b \<longleftrightarrow> qos_index a < qos_index b" "a \<le> b \<longleftrightarrow> qos_index a \<le> qos_index b"
  by (simp_all add: less_qos_class_def less_eq_qos_class_def)

lemma find_highest:
  "List.find P class_order = Some q \<longleftrightarrow> P q \<and> (\<forall>q'. q < q' \<longrightarrow> \<not> P q')"
  "List.find P class_order = None \<longleftrightarrow> (\<forall>q. \<not> P q)"
proof -
  have all: "(\<forall>q. R q) \<longleftrightarrow> R PerfBurst \<and> R Interactive \<and> R Normal \<and> R Idle" for R
    by (metis qos_class.exhaust)
  show "List.find P class_order = Some q \<longleftrightarrow> P q \<and> (\<forall>q'. q < q' \<longrightarrow> \<not> P q')"
    unfolding all by (cases q) (auto simp: class_order_def qos_index_def qos_less_iff)
  show "List.find P class_order = None \<longleftrightarrow> (\<forall>q. \<not> P q)"
    unfolding all by (auto simp: class_order_def)
qed

subsection \<open>Well-formed schedulers\<close>

definition rq_wf :: "cpu_run_queues \<Rightarrow> bool" where
  "rq_wf rq \<longleftrightarrow> length (queues rq) = 4 \<and> (\<forall>q. \<forall>t \<in> set (queue_mut rq q). st_qos t = q)"

definition sched_wf :: "scheduler \<Rightarrow> bool" where
  "sched_wf s \<longleftrightarrow> length (cpus s) = MAX_CPUS \<and> (\<forall>rq \<in> set (cpus s). rq_wf rq)"

definition within_capacity :: "scheduler \<Rightarrow> bool" where
  "within_capacity s \<longleftrightarrow>
     (\<forall>rq \<in> set (cpus s). \<forall>q. length (queue_mut rq q) \<le> RUNTIME_QOS_QUEUE_CAPACITY)"

lemma current_cpu_index_less [simp]: "current_cpu_index raw < MAX_CPUS"
  by (simp add: current_cpu_index_def MAX_CPUS_def)

lemma queue_put [simp]:
  "length (queues rq) = 4 \<Longrightarrow> queue_mut (put_queue q l rq) q' = (if q' = q then l else queue_mut rq q')"
  by (auto simp: queue_mut_def put_queue_def nth_list_update)

lemma put_queue_simps [simp]:
  "length (queues (put_queue q l rq)) = length (queues rq)" "current (put_queue q l rq) = current rq"
  "queue_mut (rq\<lparr>current := c\<rparr>) q = queue_mut rq q"
  "put_queue q (queue_mut rq q) rq = rq"
  by (simp_all add: put_queue_def queue_mut_def)

lemma rq_wf_put: "rq_wf rq \<Longrightarrow> (\<forall>t \<in> set l. st_qos t = q) \<Longrightarrow> rq_wf (put_queue q l rq)"
  by (auto simp: rq_wf_def)

lemma rq_wf_current [simp]: "rq_wf (rq\<lparr>current := c\<rparr>) = rq_wf rq"
  by (simp add: rq_wf_def)

lemma upd_cpu_nth [simp]:
  "c < length (cpus s) \<Longrightarrow> cpus (upd_cpu c f s) ! d = (if d = c then f (cpus s ! c) else cpus s ! d)"
  "length (cpus (upd_cpu c f s)) = length (cpus s)"
  by (auto simp: upd_cpu_def)

lemma sched_wf_nth: "sched_wf s \<Longrightarrow> c < MAX_CPUS \<Longrightarrow> rq_wf (cpus s ! c)"
  by (simp add: sched_wf_def)

lemma sched_wf_upd:
  assumes "sched_wf s" "c < MAX_CPUS" "rq_wf (f (cpus s ! c))"
  shows "sched_wf (upd_cpu c f s)"
  using assms set_update_subset_insert[of "cpus s" c] by (fastforce simp: sched_wf_def upd_cpu_def)

lemma within_upd:
  assumes "within_capacity s" "\<And>q. length (queue_mut (f (cpus s ! c)) q) \<le> RUNTIME_QOS_QUEUE_CAPACITY"
  shows "within_capacity (upd_cpu c f s)"
  using assms set_update_subset_insert[of "cpus s" c] by (fastforce simp: within_capacity_def upd_cpu_def)

lemma cpu_queue_upd [simp]:
  "c < length (cpus s) \<Longrightarrow> cpu_queue (upd_cpu c f s) d q =
     (if d = c then queue_mut (f (cpus s ! c)) q else cpu_queue s d q)"
  by (simp add: cpu_queue_def)

lemma cpu_queue_class: "sched_wf s \<Longrightarrow> c < MAX_CPUS \<Longrightarrow> t \<in> set (cpu_queue s c q) \<Longrightarrow> st_qos t = q"
  using sched_wf_nth[of s c] by (auto simp: rq_wf_def cpu_queue_def)

lemma sched_new_wf: "sched_wf (sched_new ts)" "within_capacity (sched_new ts)"
proof -
  have "queue_mut run_queues_new q = []" for q
    by (cases q) (simp_all add: run_queues_new_def queue_mut_def qos_index_def)
  then show "sched_wf (sched_new ts)" "within_capacity (sched_new ts)"
    by (auto simp: sched_wf_def sched_new_def MAX_CPUS_def rq_wf_def within_capacity_def)
      (simp add: run_queues_new_def)
qed

subsection \<open>Enqueue, dispatch, yield\<close>

lemma push_on_cases:
  assumes wf: "sched_wf s" and c: "c < MAX_CPUS" and push: "push_on c i q cap s = (res, s')"
  shows "(if cap \<le> length (cpu_queue s c q) then res = Rejected (EnqQueueFull q cap) \<and> s' = s
          else res = Enqueued \<and>
            s' = upd_cpu c (\<lambda>rq. put_queue q (queue_mut rq q @ [\<lparr>st_id = i, st_qos = q\<rparr>]) rq) s) \<and>
     sched_wf s'"
proof -
  have same: "upd_cpu c (put_queue q (cpu_queue s c q)) s = s"
    by (simp add: upd_cpu_def cpu_queue_def)
  have "upd_cpu c (put_queue q (cpu_queue s c q @ [x])) s =
      upd_cpu c (\<lambda>rq. put_queue q (queue_mut rq q @ [x]) rq) s" for x
    by (simp add: upd_cpu_def cpu_queue_def)
  moreover have "sched_wf (upd_cpu c (\<lambda>rq. put_queue q (queue_mut rq q @ [\<lparr>st_id = i, st_qos = q\<rparr>]) rq) s)"
    using sched_wf_nth[OF wf c]
    by (intro sched_wf_upd[OF wf c] rq_wf_put) (auto simp: rq_wf_def)
  ultimately show ?thesis
    using push wf same by (auto simp: push_on_def bounded_push_def split: if_splits)
qed

lemma push_on_within:
  assumes "sched_wf s" "c < MAX_CPUS" "within_capacity s" "push_on c i q cap s = (res, s')"
    and "cap \<le> RUNTIME_QOS_QUEUE_CAPACITY"
  shows "within_capacity s'"
proof -
  have "length (queue_mut (cpus s ! c) q') \<le> RUNTIME_QOS_QUEUE_CAPACITY" for q'
    using assms(1-3) by (auto simp: within_capacity_def sched_wf_def)
  then show ?thesis
    using push_on_cases[OF assms(1,2,4)] assms sched_wf_nth[OF assms(1,2)]
    by (auto simp: cpu_queue_def rq_wf_def not_le split: if_splits intro!: within_upd)
qed

lemma within_nth:
  "sched_wf s \<Longrightarrow> within_capacity s \<Longrightarrow> c < MAX_CPUS \<Longrightarrow>
     length (queue_mut (cpus s ! c) q) \<le> RUNTIME_QOS_QUEUE_CAPACITY"
  by (auto simp: within_capacity_def sched_wf_def)

lemma pop_queue_wf:
  assumes wf: "sched_wf s" and c: "c < MAX_CPUS" and q: "cpu_queue s c q = t # ts"
    and f: "\<And>rq. queues (f rq) = queues (put_queue q ts rq)"
  shows "sched_wf (upd_cpu c f s)"
    and "within_capacity s \<Longrightarrow> within_capacity (upd_cpu c f s)"
    and "cpu_queue (upd_cpu c f s) d q' = (if d = c \<and> q' = q then ts else cpu_queue s d q')"
proof -
  have mut: "queue_mut (f rq) = queue_mut (put_queue q ts rq)" for rq
    using f[of rq] by (simp add: queue_mut_def fun_eq_iff)
  have rq: "rq_wf (cpus s ! c)" "length (queues (cpus s ! c)) = 4"
    using sched_wf_nth[OF wf c] by (simp_all add: rq_wf_def)
  have cl: "\<forall>x \<in> set ts. st_qos x = q"
    using cpu_queue_class[OF wf c, of _ q] q by auto
  have "rq_wf (put_queue q ts (cpus s ! c))" by (rule rq_wf_put[OF rq(1) cl])
  then have "rq_wf (f (cpus s ! c))"
    using f[of "cpus s ! c"] mut by (simp add: rq_wf_def)
  then show "sched_wf (upd_cpu c f s)" by (rule sched_wf_upd[OF wf c])
  show "cpu_queue (upd_cpu c f s) d q' = (if d = c \<and> q' = q then ts else cpu_queue s d q')"
    using wf c rq(2) by (auto simp: sched_wf_def mut) (auto simp: cpu_queue_def)
  assume w: "within_capacity s"
  have "length ts \<le> RUNTIME_QOS_QUEUE_CAPACITY"
    using within_nth[OF wf w c, of q] q by (simp add: cpu_queue_def)
  then show "within_capacity (upd_cpu c f s)"
    using within_nth[OF wf w c] rq(2) by (intro within_upd[OF w]) (simp add: mut)
qed

interpretation rq: bounded_fifo
    "\<lambda>s. sched_wf s \<and> within_capacity s \<and> c < MAX_CPUS"
    "\<lambda>s. map st_id (cpu_queue s c q)"
    "\<lambda>s. RUNTIME_QOS_QUEUE_CAPACITY"
    "\<lambda>i s. case enqueue_on_cpu c i q s of (Rejected e, s') \<Rightarrow> (Inl e, s') | (Enqueued, s') \<Rightarrow> (Inr (), s')"
    "\<lambda>s. case cpu_queue s c q of [] \<Rightarrow> (Inl (), s)
         | t # ts \<Rightarrow> (Inr (st_id t), upd_cpu c (put_queue q ts) s)" for c q
proof (unfold_locales, goal_cases)
  case (1 s i u s')
  then show ?case
    using push_on_cases[of s c i q RUNTIME_QOS_QUEUE_CAPACITY Enqueued s']
      push_on_within[of s c i q RUNTIME_QOS_QUEUE_CAPACITY Enqueued s'] sched_wf_nth[of s c]
    by (auto simp: enqueue_on_cpu_def runtime_queue_capacity_for_def cpu_queue_def sched_wf_def rq_wf_def
        split: prod.splits enqueue_outcome.splits if_splits)
next
  case (2 s i e s')
  then show ?case
    using push_on_cases[of s c i q RUNTIME_QOS_QUEUE_CAPACITY "Rejected e" s']
    by (auto simp: enqueue_on_cpu_def runtime_queue_capacity_for_def
        split: prod.splits enqueue_outcome.splits if_splits)
next
  case (3 s i s')
  then obtain t ts where q: "cpu_queue s c q = t # ts" "i = st_id t" "s' = upd_cpu c (put_queue q ts) s"
    by (auto split: list.splits)
  have pre: "sched_wf s" "c < MAX_CPUS" "within_capacity s" using 3 by auto
  note p = pop_queue_wf[OF pre(1,2) q(1), of "put_queue q ts", OF refl]
  show ?case using p(1) p(2)[OF pre(3)] p(3)[of c q] pre q by simp
next
  case (5 s)
  then show ?case by (auto simp: within_capacity_def sched_wf_def cpu_queue_def)
qed (auto split: list.splits)

lemma schedule_next_wf:
  assumes "sched_wf s"
  shows "sched_wf (snd (schedule_next raw s))"
    and "within_capacity s \<Longrightarrow> within_capacity (snd (schedule_next raw s))"
proof -
  let ?c = "current_cpu_index raw"
  have "sched_wf (snd (schedule_next raw s)) \<and>
      (within_capacity s \<longrightarrow> within_capacity (snd (schedule_next raw s)))"
  proof (cases "List.find (\<lambda>q. cpu_queue s ?c q \<noteq> []) class_order")
    case None
    then show ?thesis
      using assms sched_wf_nth[OF assms, of ?c] within_nth[OF assms, of ?c]
      by (auto simp: schedule_next_def Let_def intro!: sched_wf_upd within_upd)
  next
    case (Some q)
    then obtain t ts where q: "cpu_queue s ?c q = t # ts"
      by (auto simp: find_highest neq_Nil_conv)
    then have eq: "snd (schedule_next raw s) =
        upd_cpu ?c (\<lambda>rq. put_queue q (tl (queue_mut rq q)) rq\<lparr>current := Some t\<rparr>) s"
      using Some by (simp add: schedule_next_def Let_def)
    have eq': "snd (schedule_next raw s) = upd_cpu ?c (\<lambda>rq. put_queue q ts rq\<lparr>current := Some t\<rparr>) s"
      unfolding eq using q by (simp add: upd_cpu_def cpu_queue_def)
    show ?thesis
      unfolding eq' using pop_queue_wf[OF assms current_cpu_index_less q] by simp
  qed
  then show "sched_wf (snd (schedule_next raw s))"
    and "within_capacity s \<Longrightarrow> within_capacity (snd (schedule_next raw s))" by auto
qed

lemma yield_current_wf:
  assumes "sched_wf s"
  shows "sched_wf (yield_current raw s)"
    and "within_capacity s \<Longrightarrow> within_capacity (yield_current raw s)"
proof -
  let ?c = "current_cpu_index raw"
  let ?s0 = "upd_cpu ?c (\<lambda>rq. rq\<lparr>current := None\<rparr>) s"
  have s0: "sched_wf ?s0" "within_capacity s \<Longrightarrow> within_capacity ?s0"
    using assms sched_wf_nth[OF assms, of ?c] within_nth[OF assms, of ?c]
    by (auto intro!: sched_wf_upd within_upd)
  have "sched_wf (yield_current raw s) \<and> (within_capacity s \<longrightarrow> within_capacity (yield_current raw s))"
  proof (cases "current (cpus s ! ?c)")
    case (Some t)
    obtain res s1 where p: "try_enqueue raw (st_id t) (st_qos t) ?s0 = (res, s1)" by fastforce
    then have p': "push_on ?c (st_id t) (st_qos t) RUNTIME_QOS_QUEUE_CAPACITY ?s0 = (res, s1)"
      by (simp add: try_enqueue_def runtime_queue_capacity_for_def)
    have "sched_wf s1" "within_capacity s \<Longrightarrow> within_capacity s1"
      using push_on_cases[OF s0(1) current_cpu_index_less p'] push_on_within[OF s0(1) current_cpu_index_less s0(2) p']
      by auto
    then show ?thesis
      using Some p sched_wf_nth[of s1 ?c] within_nth[of s1 ?c]
      by (auto simp: yield_current_def Let_def split: enqueue_outcome.splits intro!: sched_wf_upd within_upd)
  qed (use assms in \<open>simp add: yield_current_def\<close>)
  then show "sched_wf (yield_current raw s)"
    and "within_capacity s \<Longrightarrow> within_capacity (yield_current raw s)" by auto
qed

lemma schedule_next_spec:
  assumes wf: "sched_wf s" and run: "schedule_next raw s = (res, s')" and c_def: "c = current_cpu_index raw"
  shows "(case res of
       None \<Rightarrow> (\<forall>q. cpu_queue s c q = []) \<and> current (cpus s' ! c) = None
     | Some i \<Rightarrow> (\<exists>q t. current (cpus s' ! c) = Some t \<and> st_id t = i \<and> st_qos t = q \<and>
         cpu_queue s c q = t # cpu_queue s' c q \<and>
         (\<forall>q'. q < q' \<longrightarrow> cpu_queue s c q' = []) \<and>
         (\<forall>d q'. (d, q') \<noteq> (c, q) \<longrightarrow> cpu_queue s' d q' = cpu_queue s d q'))) \<and>
     sched_wf s'"
proof -
  have c: "c < MAX_CPUS" "c < length (cpus s)" using wf by (simp_all add: c_def sched_wf_def)
  have wf': "sched_wf s'" using schedule_next_wf(1)[OF wf, of raw] run by simp
  show ?thesis
  proof (cases "List.find (\<lambda>q. cpu_queue s c q \<noteq> []) class_order")
    case None
    then have "res = None" "s' = upd_cpu c (\<lambda>rq. rq\<lparr>current := None\<rparr>) s"
      using run by (auto simp: schedule_next_def Let_def c_def)
    moreover have "\<forall>q. cpu_queue s c q = []" using None by (simp add: find_highest)
    ultimately show ?thesis using wf' c by simp
  next
    case (Some q)
    then have ne: "cpu_queue s c q \<noteq> []" and hi: "\<And>q'. q < q' \<Longrightarrow> cpu_queue s c q' = []"
      by (auto simp: find_highest)
    obtain t ts where q: "cpu_queue s c q = t # ts" using ne by (cases "cpu_queue s c q") auto
    have s': "s' = upd_cpu c (\<lambda>rq. put_queue q ts rq\<lparr>current := Some t\<rparr>) s" and res: "res = Some (st_id t)"
      using run Some q by (auto simp: schedule_next_def Let_def c_def[symmetric] upd_cpu_def cpu_queue_def)
    have qs: "cpu_queue s' d q' = (if d = c \<and> q' = q then ts else cpu_queue s d q')" for d q'
      unfolding s' using pop_queue_wf(3)[OF wf c(1) q] by simp
    have "st_qos t = q" using cpu_queue_class[OF wf c(1), of t q] q by simp
    moreover have "current (cpus s' ! c) = Some t" using c by (simp add: s')
    ultimately show ?thesis using res qs q hi wf' by auto
  qed
qed

subsection \<open>Properties\<close>


definition ex_sched :: scheduler where
  "ex_sched = snd (enqueue 0 8 Interactive (snd (enqueue 0 7 Normal (sched_new 1000))))"

lemma ex_sched_eq:
  "ex_sched = \<lparr>cpus = \<lparr>queues = [[], [\<lparr>st_id = 7, st_qos = Normal\<rparr>], [\<lparr>st_id = 8, st_qos = Interactive\<rparr>], []],
      current = None\<rparr> # replicate 3 run_queues_new, timeslice_ns = 1000\<rparr>"
  by (simp add: ex_sched_def enqueue_def try_enqueue_def push_on_def bounded_push_def sched_new_def
      current_cpu_index_def MAX_CPUS_def cpu_queue_def queue_mut_def qos_index_def run_queues_new_def
      runtime_queue_capacity_for_def RUNTIME_QOS_QUEUE_CAPACITY_def upd_cpu_def put_queue_def numeral_eq_Suc)

lemma ex_sched_wf: "sched_wf ex_sched" "within_capacity ex_sched"
proof -
  have mut: "queue_mut run_queues_new q = []" for q
    by (cases q) (simp_all add: run_queues_new_def queue_mut_def qos_index_def)
  have l4: "length (queues run_queues_new) = 4" by (simp add: run_queues_new_def)
  have q0: "queue_mut \<lparr>queues = [[], [a], [b], []], current = x\<rparr> q =
      (case q of Idle \<Rightarrow> [] | Normal \<Rightarrow> [a] | Interactive \<Rightarrow> [b] | PerfBurst \<Rightarrow> [])" for a b x q
    by (cases q) (simp_all add: queue_mut_def qos_index_def)
  show "sched_wf ex_sched"
    by (auto simp: ex_sched_eq sched_wf_def MAX_CPUS_def rq_wf_def mut l4 q0 split: qos_class.splits)
  show "within_capacity ex_sched"
    by (auto simp: ex_sched_eq within_capacity_def mut q0 RUNTIME_QOS_QUEUE_CAPACITY_def split: qos_class.splits)
qed


subsubsection \<open>Conservation of tasks\<close>

definition rq_tasks :: "cpu_run_queues \<Rightarrow> sched_task multiset" where
  "rq_tasks rq = sum_list (map mset (queues rq)) + (case current rq of None \<Rightarrow> {#} | Some t \<Rightarrow> {#t#})"

definition all_tasks :: "scheduler \<Rightarrow> sched_task multiset" where
  "all_tasks s = sum_list (map rq_tasks (cpus s))"

lemma all_tasks_upd:
  assumes "c < length (cpus s)"
  shows "all_tasks (upd_cpu c f s) + rq_tasks (cpus s ! c) = all_tasks s + rq_tasks (f (cpus s ! c))"
  using sum_list_map_upd[OF assms, of rq_tasks] by (simp add: all_tasks_def upd_cpu_def)

lemma rq_tasks_put:
  assumes "length (queues rq) = 4"
  shows "rq_tasks (put_queue q l rq) + mset (queue_mut rq q) = rq_tasks rq + mset l"
  using sum_list_map_upd[of "qos_index q" "queues rq" mset l] assms
  by (simp add: rq_tasks_def put_queue_def queue_mut_def ac_simps)

lemma rq_tasks_current:
  "rq_tasks (rq\<lparr>current := x\<rparr>) + (case current rq of None \<Rightarrow> {#} | Some t \<Rightarrow> {#t#}) =
     rq_tasks rq + (case x of None \<Rightarrow> {#} | Some t \<Rightarrow> {#t#})"
  by (simp add: rq_tasks_def ac_simps)

definition cur_tasks :: "scheduler \<Rightarrow> usize \<Rightarrow> sched_task multiset" where
  "cur_tasks s c = (case current (cpus s ! c) of None \<Rightarrow> {#} | Some t \<Rightarrow> {#t#})"

lemma tasks_swap:
  fixes A A' R R' C :: "'a multiset"
  assumes "A' + R = A + R'" "R' + C = R"
  shows "A' + C = A"
proof -
  have "(A' + C) + R' = A + R'" using assms by (auto simp: ac_simps)
  then show ?thesis by simp
qed

lemma schedule_next_tasks:
  assumes wf: "sched_wf s"
  shows "all_tasks (snd (schedule_next raw s)) + cur_tasks s (current_cpu_index raw) = all_tasks s"
proof -
  let ?c = "current_cpu_index raw"
  have c: "?c < length (cpus s)" using wf by (simp add: sched_wf_def)
  have l4: "length (queues (cpus s ! ?c)) = 4"
    using sched_wf_nth[OF wf, of ?c] by (simp add: rq_wf_def)
  show ?thesis
  proof (cases "List.find (\<lambda>q. cpu_queue s ?c q \<noteq> []) class_order")
    case None
    then have "snd (schedule_next raw s) = upd_cpu ?c (\<lambda>rq. rq\<lparr>current := None\<rparr>) s"
      by (simp add: schedule_next_def Let_def)
    moreover have "rq_tasks ((cpus s ! ?c)\<lparr>current := None\<rparr>) + cur_tasks s ?c = rq_tasks (cpus s ! ?c)"
      using rq_tasks_current[of None "cpus s ! ?c"] by (simp add: cur_tasks_def)
    ultimately show ?thesis
      using tasks_swap[OF all_tasks_upd[OF c, of "\<lambda>rq. rq\<lparr>current := None\<rparr>"]] by simp
  next
    case (Some q)
    then obtain t ts where q: "cpu_queue s ?c q = t # ts"
      by (auto simp: find_highest neq_Nil_conv)
    let ?f = "\<lambda>rq. put_queue q (tl (queue_mut rq q)) rq\<lparr>current := Some t\<rparr>"
    have eq: "snd (schedule_next raw s) = upd_cpu ?c ?f s"
      using Some q by (simp add: schedule_next_def Let_def)
    let ?rq = "cpus s ! ?c"
    have "rq_tasks (put_queue q ts ?rq) + mset (t # ts) = rq_tasks ?rq + mset ts"
      using rq_tasks_put[OF l4, of q ts] q by (simp add: cpu_queue_def)
    then have put: "rq_tasks (put_queue q ts ?rq) + {#t#} = rq_tasks ?rq" by simp
    have "rq_tasks (?f ?rq) + cur_tasks s ?c = rq_tasks (put_queue q ts ?rq) + {#t#}"
      using rq_tasks_current[of "Some t" "put_queue q ts ?rq"] q by (simp add: cpu_queue_def cur_tasks_def)
    with put have "rq_tasks (?f ?rq) + cur_tasks s ?c = rq_tasks ?rq" by simp
    from tasks_swap[OF all_tasks_upd[OF c, of ?f] this] show ?thesis by (simp add: eq)
  qed
qed

lemma yield_current_cases:
  assumes wf: "sched_wf s" and t: "current (cpus s ! current_cpu_index raw) = Some t"
  shows "yield_current raw s =
    (if length (cpu_queue s (current_cpu_index raw) (st_qos t)) < RUNTIME_QOS_QUEUE_CAPACITY
     then upd_cpu (current_cpu_index raw)
       (\<lambda>rq. put_queue (st_qos t) (queue_mut rq (st_qos t) @ [t]) rq\<lparr>current := None\<rparr>) s
     else s)"
proof -
  let ?c = "current_cpu_index raw"
  have c: "?c < length (cpus s)" using wf by (simp add: sched_wf_def)
  have t_eq: "\<lparr>st_id = st_id t, st_qos = st_qos t\<rparr> = t" by simp
  have pc: "put_queue q l (rq\<lparr>current := x\<rparr>) = put_queue q l rq\<lparr>current := x\<rparr>" for q l x rq
    by (simp add: put_queue_def)
  have comm: "rq\<lparr>current := x, queues := y\<rparr> = rq\<lparr>queues := y, current := x\<rparr>" for rq :: cpu_run_queues and x y
    by (cases rq) simp
  have same: "(cpus s)[?c := (cpus s ! ?c)\<lparr>current := Some t\<rparr>] = cpus s"
    using t by (metis (no_types, lifting) cpu_run_queues.surjective cpu_run_queues.update_convs(2) list_update_id)
  show ?thesis
    using t c same
    by (auto simp: yield_current_def Let_def try_enqueue_def push_on_def bounded_push_def
        runtime_queue_capacity_for_def not_le t_eq pc comm upd_cpu_def cpu_queue_def put_queue_def queue_mut_def)
qed

lemma yield_current_tasks:
  assumes wf: "sched_wf s"
  shows "all_tasks (yield_current raw s) = all_tasks s"
proof (cases "current (cpus s ! current_cpu_index raw)")
  case (Some t)
  let ?c = "current_cpu_index raw" and ?q = "st_qos t"
  let ?f = "\<lambda>rq. put_queue ?q (queue_mut rq ?q @ [t]) rq\<lparr>current := None\<rparr>"
  let ?rq = "cpus s ! ?c"
  have c: "?c < length (cpus s)" using wf by (simp add: sched_wf_def)
  have l4: "length (queues ?rq) = 4"
    using sched_wf_nth[OF wf, of ?c] by (simp add: rq_wf_def)
  have "rq_tasks (put_queue ?q (queue_mut ?rq ?q @ [t]) ?rq) = rq_tasks ?rq + {#t#}"
    using rq_tasks_put[OF l4, of ?q "queue_mut ?rq ?q @ [t]"] by simp
  then have "rq_tasks (?f ?rq) = rq_tasks ?rq"
    using rq_tasks_current[of None "put_queue ?q (queue_mut ?rq ?q @ [t]) ?rq"] Some by simp
  with all_tasks_upd[OF c, of ?f] show ?thesis
    by (simp add: yield_current_cases[OF wf Some])
qed (simp add: yield_current_def)

text \<open>C39: A yield followed by a dispatch conserves the runnable tasks of the whole machine as long as the
  yielding task's queue has room; if that queue is full, the task that yielded is put back as
  current and then overwritten by the dispatch, so exactly that task disappears from the
  scheduler.\<close>

theorem yield_dispatch_conserves:
  assumes wf: "sched_wf s" and t: "current (cpus s ! current_cpu_index raw) = Some t"
  shows "all_tasks (snd (schedule_next raw (yield_current raw s))) =
    (if length (cpu_queue s (current_cpu_index raw) (st_qos t)) < RUNTIME_QOS_QUEUE_CAPACITY
     then all_tasks s else all_tasks s - {#t#})"
proof -
  let ?c = "current_cpu_index raw" and ?s1 = "yield_current raw s"
  have c: "?c < length (cpus s)" using wf by (simp add: sched_wf_def)
  have sum: "all_tasks (snd (schedule_next raw ?s1)) + cur_tasks ?s1 ?c = all_tasks s"
    using schedule_next_tasks[OF yield_current_wf(1)[OF wf], of raw] yield_current_tasks[OF wf] by simp
  show ?thesis
  proof (cases "length (cpu_queue s ?c (st_qos t)) < RUNTIME_QOS_QUEUE_CAPACITY")
    case True
    then have "cur_tasks ?s1 ?c = {#}"
      using c by (simp add: yield_current_cases[OF wf t] cur_tasks_def)
    with sum True show ?thesis by simp
  next
    case False
    then have "cur_tasks ?s1 ?c = {#t#}"
      using t by (simp add: yield_current_cases[OF wf t] cur_tasks_def)
    with sum False show ?thesis by (metis add_diff_cancel_right')
  qed
qed

theorem yield_dispatch_conserves_witness:
  "all_tasks (snd (schedule_next 0 (yield_current 0 (snd (schedule_next 0 ex_sched))))) =
     all_tasks (snd (schedule_next 0 ex_sched))"
proof -
  let ?s = "snd (schedule_next 0 ex_sched)"
  have s: "current (cpus ?s ! current_cpu_index 0) = Some \<lparr>st_id = 8, st_qos = Interactive\<rparr>"
    "cpu_queue ?s (current_cpu_index 0) Interactive = []"
    by (simp_all add: ex_sched_eq schedule_next_def class_order_def current_cpu_index_def MAX_CPUS_def
        cpu_queue_def queue_mut_def qos_index_def Let_def upd_cpu_def put_queue_def)
  show ?thesis
    using yield_dispatch_conserves[OF schedule_next_wf(1)[OF ex_sched_wf(1)] s(1)] s(2)
    by (simp add: RUNTIME_QOS_QUEUE_CAPACITY_def)
qed

subsubsection \<open>Round robin\<close>

definition dispatch :: "usize \<Rightarrow> scheduler \<Rightarrow> scheduler" where
  "dispatch raw s = snd (schedule_next raw (yield_current raw s))"

lemma dispatch_rotates:
  assumes wf: "sched_wf s" and c: "c = current_cpu_index raw"
    and t: "current (cpus s ! c) = Some t" "cpu_queue s c (st_qos t) = ts"
    and room: "length ts < RUNTIME_QOS_QUEUE_CAPACITY"
    and top: "\<And>q'. st_qos t < q' \<Longrightarrow> cpu_queue s c q' = []"
  shows "current (cpus (dispatch raw s) ! c) = Some (hd (ts @ [t]))"
    "cpu_queue (dispatch raw s) c (st_qos t) = tl (ts @ [t])"
    "st_qos t < q' \<Longrightarrow> cpu_queue (dispatch raw s) c q' = []"
    "sched_wf (dispatch raw s)" "st_qos (hd (ts @ [t])) = st_qos t"
proof -
  let ?s1 = "yield_current raw s"
  have wf1: "sched_wf ?s1" by (rule yield_current_wf(1)[OF wf])
  have cl: "c < length (cpus s)" "c < MAX_CPUS" "length (queues (cpus s ! c)) = 4"
    using wf sched_wf_nth[OF wf, of c] c by (auto simp: sched_wf_def rq_wf_def)
  have q1: "cpu_queue ?s1 c q' = (if q' = st_qos t then ts @ [t] else cpu_queue s c q')" for q'
    using room t cl c by (simp add: yield_current_cases[OF wf] cpu_queue_def)
  obtain res s' where run: "schedule_next raw ?s1 = (res, s')" by fastforce
  then have d: "dispatch raw s = s'" by (simp add: dispatch_def)
  have "res \<noteq> None"
    using schedule_next_spec[OF wf1 run c] q1[of "st_qos t"] by (cases res) auto
  then obtain u where u: "current (cpus s' ! c) = Some u"
    "cpu_queue ?s1 c (st_qos u) = u # cpu_queue s' c (st_qos u)"
    "\<And>q'. st_qos u < q' \<Longrightarrow> cpu_queue ?s1 c q' = []"
    "\<And>q'. q' \<noteq> st_qos u \<Longrightarrow> cpu_queue s' c q' = cpu_queue ?s1 c q'" "sched_wf s'"
    using schedule_next_spec[OF wf1 run c] by (cases res) auto
  have uq: "st_qos u = st_qos t"
  proof (rule ccontr)
    assume ne: "st_qos u \<noteq> st_qos t"
    then have "\<not> st_qos u < st_qos t" using u(3)[of "st_qos t"] q1[of "st_qos t"] by auto
    with ne have "st_qos t < st_qos u" by simp
    with top[of "st_qos u"] u(2) q1[of "st_qos u"] ne show False by simp
  qed
  then have cons: "ts @ [t] = u # cpu_queue s' c (st_qos t)" using u(2) q1[of "st_qos t"] by simp
  then show "current (cpus (dispatch raw s) ! c) = Some (hd (ts @ [t]))"
    "cpu_queue (dispatch raw s) c (st_qos t) = tl (ts @ [t])" "sched_wf (dispatch raw s)"
    "st_qos (hd (ts @ [t])) = st_qos t"
    using u uq d by simp_all
  show "st_qos t < q' \<Longrightarrow> cpu_queue (dispatch raw s) c q' = []"
    using u(4)[of q'] q1[of q'] top[of q'] uq d by (auto simp: less_le)
qed

text \<open>C21: Round robin: while only one class of a CPU is populated above the lower ones and its queue has
  room, repeated yield-and-dispatch runs the current task and the queued tasks cyclically in queue
  order, so a task waiting at position \<open>k\<close> runs after exactly \<open>k + 1\<close> dispatches.\<close>

theorem round_robin:
  assumes wf: "sched_wf s" and c: "c = current_cpu_index raw"
    and t: "current (cpus s ! c) = Some t" "cpu_queue s c (st_qos t) = ts"
    and room: "length ts < RUNTIME_QOS_QUEUE_CAPACITY"
    and top: "\<And>q'. st_qos t < q' \<Longrightarrow> cpu_queue s c q' = []"
  shows "current (cpus ((dispatch raw ^^ k) s) ! c) = Some ((t # ts) ! (k mod Suc (length ts)))"
proof -
  define I where "I l r \<longleftrightarrow> sched_wf r \<and> l \<noteq> [] \<and> current (cpus r ! c) = Some (hd l) \<and>
      cpu_queue r c (st_qos t) = tl l \<and> st_qos (hd l) = st_qos t \<and> length l = Suc (length ts) \<and>
      (\<forall>q'. st_qos t < q' \<longrightarrow> cpu_queue r c q' = [])" for l r
  have step: "I (rotate1 l) (dispatch raw r)" if "I l r" for l r
    using that dispatch_rotates[of r c raw "hd l" "tl l"] c room
    by (cases l) (auto simp: I_def)
  have "I (rotate k (t # ts)) ((dispatch raw ^^ k) s)" for k
  proof (induction k)
    case 0
    then show ?case using assms by (simp add: I_def)
  next
    case (Suc k)
    from step[OF this] show ?case by simp
  qed
  then have "current (cpus ((dispatch raw ^^ k) s) ! c) = Some (hd (rotate k (t # ts)))"
    by (simp add: I_def)
  then show ?thesis by (simp add: hd_rotate_conv_nth)
qed

theorem round_robin_witness:
  "let s = snd (schedule_next 0 (snd (enqueue 0 9 Interactive ex_sched)))
   in current (cpus ((dispatch 0 ^^ 3) s) ! 0) = Some \<lparr>st_id = 9, st_qos = Interactive\<rparr>"
proof -
  let ?s = "snd (schedule_next 0 (snd (enqueue 0 9 Interactive ex_sched)))"
  have s: "?s = \<lparr>cpus = \<lparr>queues = [[], [\<lparr>st_id = 7, st_qos = Normal\<rparr>], [\<lparr>st_id = 9, st_qos = Interactive\<rparr>], []],
      current = Some \<lparr>st_id = 8, st_qos = Interactive\<rparr>\<rparr> # replicate 3 run_queues_new, timeslice_ns = 1000\<rparr>"
    by (simp add: ex_sched_eq enqueue_def try_enqueue_def push_on_def bounded_push_def schedule_next_def
        current_cpu_index_def MAX_CPUS_def cpu_queue_def queue_mut_def qos_index_def class_order_def
        runtime_queue_capacity_for_def RUNTIME_QOS_QUEUE_CAPACITY_def upd_cpu_def put_queue_def Let_def)
  obtain res s1 where p: "enqueue 0 9 Interactive ex_sched = (res, s1)" by fastforce
  then have "sched_wf s1"
    using push_on_cases[OF ex_sched_wf(1), of "current_cpu_index 0" 9 Interactive] 
    by (simp add: enqueue_def try_enqueue_def)
  then have wf: "sched_wf ?s" using schedule_next_wf(1)[of s1 0] p by simp
  have "current (cpus ((dispatch 0 ^^ 3) ?s) ! 0) =
      Some ((\<lparr>st_id = 8, st_qos = Interactive\<rparr> # [\<lparr>st_id = 9, st_qos = Interactive\<rparr>]) !
        (3 mod Suc (length [\<lparr>st_id = 9, st_qos = Interactive\<rparr>])))"
  proof (rule round_robin[OF wf])
    fix q' assume "st_qos \<lparr>st_id = 8, st_qos = Interactive\<rparr> < q'"
    then show "cpu_queue ?s 0 q' = []"
      unfolding s by (cases q') (simp_all add: cpu_queue_def queue_mut_def qos_index_def qos_less_iff)
  qed (simp_all add: s cpu_queue_def queue_mut_def qos_index_def current_cpu_index_def MAX_CPUS_def
      RUNTIME_QOS_QUEUE_CAPACITY_def)
  moreover have "(3 :: nat) mod Suc (Suc 0) = 1" by (simp add: numeral_3_eq_3 mod_Suc)
  ultimately show ?thesis by (simp add: Let_def)
qed

subsubsection \<open>Changing the class of a task\<close>

lemma find_SomeD: "List.find P xs = Some x \<Longrightarrow> x \<in> set xs \<and> P x"
  by (auto simp: find_Some_iff)

lemma find_queued_Some:
  assumes "sched_wf s" "find_queued i s = Some (c, j, p)"
  shows "c < MAX_CPUS" "j < 4" "p < length (queues (cpus s ! c) ! j)" "st_id (queues (cpus s ! c) ! j ! p) = i"
  using find_SomeD[OF assms(2)[unfolded find_queued_def]] assms(1) sched_wf_nth[OF assms(1), of c]
  by (auto simp: sched_wf_def rq_wf_def)

lemma find_queued_None:
  "sched_wf s \<Longrightarrow> find_queued i s = None \<Longrightarrow> c < MAX_CPUS \<Longrightarrow> t \<in> set (cpu_queue s c q) \<Longrightarrow> st_id t \<noteq> i"
  using sched_wf_nth[of s c] qos_index_less[of q]
  by (fastforce simp: find_queued_def find_None_iff sched_wf_def rq_wf_def cpu_queue_def queue_mut_def in_set_conv_nth)

lemma insert_remove_at: "p < length xs \<Longrightarrow> insert_at p (xs ! p) (remove_at p xs) = xs"
  by (simp add: insert_at_def remove_at_def min_def id_take_nth_drop[symmetric])

lemma mset_remove_at: "p < length xs \<Longrightarrow> mset (remove_at p xs) + {#xs ! p#} = mset xs"
  by (subst (3) id_take_nth_drop[of p xs]) (simp_all add: remove_at_def)

lemma length_remove_at: "p < length xs \<Longrightarrow> length (remove_at p xs) = length xs - 1"
  by (simp add: remove_at_def)

lemma set_remove_at: "set (remove_at p xs) \<subseteq> set xs"
  by (auto simp: remove_at_def dest: in_set_takeD in_set_dropD)

lemma ids_upd:
  assumes "c < length (cpus s)" "image_mset st_id (rq_tasks (f (cpus s ! c))) = image_mset st_id (rq_tasks (cpus s ! c))"
  shows "image_mset st_id (all_tasks (upd_cpu c f s)) = image_mset st_id (all_tasks s)"
  using arg_cong[OF all_tasks_upd[OF assms(1), of f], of "image_mset st_id"] assms(2) by simp

text \<open>Moving the task at position \<open>p\<close> of class \<open>q0\<close> to the back of class \<open>q\<close>.\<close>

definition move_task :: "qos_class \<Rightarrow> nat \<Rightarrow> qos_class \<Rightarrow> cpu_run_queues \<Rightarrow> cpu_run_queues" where
  "move_task q0 p q rq =
     (let rq1 = put_queue q0 (remove_at p (queue_mut rq q0)) rq in
      put_queue q (queue_mut rq1 q @ [(queue_mut rq q0 ! p)\<lparr>st_qos := q\<rparr>]) rq1)"

lemma move_task_facts:
  assumes wf: "rq_wf rq" and p: "p < length (queue_mut rq q0)"
  shows "rq_wf (move_task q0 p q rq)"
    "image_mset st_id (rq_tasks (move_task q0 p q rq)) = image_mset st_id (rq_tasks rq)"
    "(queue_mut rq q0 ! p)\<lparr>st_qos := q\<rparr> \<in> set (queue_mut (move_task q0 p q rq) q)"
proof -
  let ?rq1 = "put_queue q0 (remove_at p (queue_mut rq q0)) rq" and ?t = "queue_mut rq q0 ! p"
  have l4: "length (queues rq) = 4" "length (queues ?rq1) = 4" using wf by (simp_all add: rq_wf_def)
  have wf1: "rq_wf ?rq1"
    using wf set_remove_at[of p "queue_mut rq q0"] by (intro rq_wf_put) (auto simp: rq_wf_def)
  show "rq_wf (move_task q0 p q rq)"
    unfolding move_task_def Let_def by (rule rq_wf_put[OF wf1]) (use wf1 in \<open>auto simp: rq_wf_def\<close>)
  show "?t\<lparr>st_qos := q\<rparr> \<in> set (queue_mut (move_task q0 p q rq) q)"
    using l4 by (simp add: move_task_def Let_def)
  have a: "rq_tasks ?rq1 + {#?t#} = rq_tasks rq"
    by (rule tasks_swap[OF rq_tasks_put[OF l4(1)] mset_remove_at[OF p]])
  have b: "rq_tasks (move_task q0 p q rq) = rq_tasks ?rq1 + {#?t\<lparr>st_qos := q\<rparr>#}"
    using rq_tasks_put[OF l4(2), of q "queue_mut ?rq1 q @ [?t\<lparr>st_qos := q\<rparr>]"]
    by (simp add: move_task_def Let_def)
  show "image_mset st_id (rq_tasks (move_task q0 p q rq)) = image_mset st_id (rq_tasks rq)"
    unfolding b a[symmetric] by simp
qed

lemma set_task_qos_queued:
  assumes wf: "sched_wf s"
    and nocur: "find_index (\<lambda>rq. case current rq of None \<Rightarrow> False | Some t \<Rightarrow> st_id t = i) (cpus s) = None"
    and found: "find_queued i s = Some (c, j, p)" and q0: "qos_index q0 = j"
  shows "set_task_qos i q s =
    (if runtime_queue_capacity_for q \<le> length (queue_mut (put_queue q0 (remove_at p (cpu_queue s c q0)) (cpus s ! c)) q)
     then (QosQueueFull, s) else (QosUpdated, upd_cpu c (move_task q0 p q) s))"
proof -
  note f = find_queued_Some[OF wf found]
  have cl: "c < length (cpus s)" using f wf by (simp add: sched_wf_def)
  have p: "p < length (queues (cpus s ! c) ! qos_index q0)" using f q0 by simp
  have l4: "length (queues (cpus s ! c)) = 4" using sched_wf_nth[OF wf f(1)] by (simp add: rq_wf_def)
  have restore: "insert_at p (queues (cpus s ! c) ! qos_index q0 ! p) (remove_at p (queues (cpus s ! c) ! qos_index q0)) =
      queues (cpus s ! c) ! qos_index q0"
    by (rule insert_remove_at[OF p])
  show ?thesis
    using nocur found cl l4
    by (simp add: set_task_qos_def Let_def q0[symmetric] upd_cpu_def cpu_queue_def put_queue_def queue_mut_def
        move_task_def restore)
qed

text \<open>Changing a task's class never loses or duplicates a task: a full target class leaves the
  scheduler exactly as it was, an unknown task changes nothing and is indeed neither running nor
  queued, and an update keeps the multiset of task identities while the task is afterwards present
  with the new class.\<close>

theorem set_task_qos_lossless:
  assumes wf: "sched_wf s" and set: "set_task_qos i q s = (res, s')"
  shows "case res of
      QosNotFound \<Rightarrow> s' = s \<and> (\<forall>c < MAX_CPUS. (\<forall>q'. \<forall>t \<in> set (cpu_queue s c q'). st_id t \<noteq> i) \<and>
        (\<forall>t. current (cpus s ! c) = Some t \<longrightarrow> st_id t \<noteq> i))
    | QosQueueFull \<Rightarrow> s' = s
    | QosUpdated \<Rightarrow> sched_wf s' \<and> image_mset st_id (all_tasks s') = image_mset st_id (all_tasks s) \<and>
        (\<exists>c < MAX_CPUS. current (cpus s' ! c) = Some \<lparr>st_id = i, st_qos = q\<rparr> \<or>
           \<lparr>st_id = i, st_qos = q\<rparr> \<in> set (cpu_queue s' c q))"
proof (cases "find_index (\<lambda>rq. case current rq of None \<Rightarrow> False | Some t \<Rightarrow> st_id t = i) (cpus s)")
  case (Some c)
  then obtain t where c: "c < length (cpus s)" "c < MAX_CPUS" and t: "current (cpus s ! c) = Some t" "st_id t = i"
    using wf by (auto simp: find_index_Some sched_wf_def split: option.splits)
  let ?f = "\<lambda>rq. rq\<lparr>current := map_option (\<lambda>t. t\<lparr>st_qos := q\<rparr>) (current rq)\<rparr>"
  have res: "res = QosUpdated" "s' = upd_cpu c ?f s"
    using set Some by (simp_all add: set_task_qos_def)
  have "image_mset st_id (rq_tasks (?f (cpus s ! c))) = image_mset st_id (rq_tasks (cpus s ! c))"
    using t by (simp add: rq_tasks_def)
  moreover have "sched_wf s'"
    unfolding res using sched_wf_nth[OF wf c(2)] by (intro sched_wf_upd[OF wf c(2)]) simp
  moreover have "current (cpus s' ! c) = Some \<lparr>st_id = i, st_qos = q\<rparr>"
    using t c by (simp add: res)
  ultimately show ?thesis using ids_upd[OF c(1), of ?f] c res by auto
next
  case None
  have nocur: "st_id t \<noteq> i" if "c < MAX_CPUS" "current (cpus s ! c) = Some t" for c t
  proof -
    have "cpus s ! c \<in> set (cpus s)" using wf that by (simp add: sched_wf_def)
    with None that show ?thesis by (fastforce simp: find_index_None split: option.splits)
  qed
  show ?thesis
  proof (cases "find_queued i s")
    case nq: None
    then show ?thesis
      using set None nocur find_queued_None[OF wf nq] by (auto simp: set_task_qos_def)
  next
    case (Some x)
    obtain c j p where x: "x = (c, j, p)" by (cases x)
    note f = find_queued_Some[OF wf Some[unfolded x]]
    obtain q0 where q0: "qos_index q0 = j" using ex_qos_index[OF f(2)] by blast
    have cl: "c < length (cpus s)" using f wf by (simp add: sched_wf_def)
    have p: "p < length (queue_mut (cpus s ! c) q0)" and id: "st_id (queue_mut (cpus s ! c) q0 ! p) = i"
      using f q0 by (simp_all add: queue_mut_def)
    note mv = move_task_facts[OF sched_wf_nth[OF wf f(1)] p, of q]
    have "(queue_mut (cpus s ! c) q0 ! p)\<lparr>st_qos := q\<rparr> = \<lparr>st_id = i, st_qos = q\<rparr>"
      using id by simp
    with mv(3) have "\<lparr>st_id = i, st_qos = q\<rparr> \<in> set (cpu_queue (upd_cpu c (move_task q0 p q) s) c q)"
      using cl by simp
    then show ?thesis
      using set set_task_qos_queued[OF wf None Some[unfolded x] q0, of q] mv f(1) ids_upd[OF cl, of "move_task q0 p q", OF mv(2)]
        sched_wf_upd[OF wf f(1), of "move_task q0 p q", OF mv(1)]
      by (auto split: if_splits)
  qed
qed

theorem set_task_qos_lossless_witness:
  "fst (set_task_qos 7 PerfBurst ex_sched) = QosUpdated \<and> sched_wf (snd (set_task_qos 7 PerfBurst ex_sched))"
proof -
  have "fst (set_task_qos 7 PerfBurst ex_sched) = QosUpdated"
    by (simp add: ex_sched_eq set_task_qos_def find_queued_def run_queues_new_def numeral_eq_Suc upd_cpu_def
        cpu_queue_def queue_mut_def qos_index_def runtime_queue_capacity_for_def RUNTIME_QOS_QUEUE_CAPACITY_def
        remove_at_def Let_def)
  with set_task_qos_lossless[OF ex_sched_wf(1) surjective_pairing, of 7 PerfBurst] show ?thesis by simp
qed

subsubsection \<open>Work stealing\<close>

lemma steal_classes_iff: "q \<in> set (steal_classes max_qos) \<longleftrightarrow> q \<le> max_qos"
  by (cases q; cases max_qos) (auto simp: steal_classes_def qos_less_iff qos_index_def)

lemma try_steal_Some:
  assumes wf: "sched_wf s" and st: "selftest_try_steal online c m s = (Some t, s1)"
  shows "\<exists>v < MAX_CPUS. v \<noteq> c \<and> (online \<noteq> 0 \<longrightarrow> bit online v) \<and> st_qos t \<le> m \<and>
      cpu_queue s v (st_qos t) = t # cpu_queue s1 v (st_qos t) \<and>
      (\<forall>d q. (d, q) \<noteq> (v, st_qos t) \<longrightarrow> cpu_queue s1 d q = cpu_queue s d q)"
    and "sched_wf s1" "all_tasks s1 + {#t#} = all_tasks s" "within_capacity s \<Longrightarrow> within_capacity s1"
    and "\<And>d. current (cpus s1 ! d) = current (cpus s ! d)"
proof -
  obtain q v where f: "List.find (\<lambda>(q, v). cpu_queue s v q \<noteq> []) (steal_candidates online c m) = Some (q, v)"
    and t: "t = hd (cpu_queue s v q)" and s1: "s1 = upd_cpu v (\<lambda>rq. put_queue q (tl (queue_mut rq q)) rq) s"
    using st by (auto simp: selftest_try_steal_def split: option.splits)
  from find_SomeD[OF f] have v: "v < MAX_CPUS" "v \<noteq> c" "online \<noteq> 0 \<longrightarrow> bit online v" "q \<le> m"
    and ne: "cpu_queue s v q \<noteq> []"
    by (auto simp: steal_candidates_def steal_classes_iff)
  obtain ts where q: "cpu_queue s v q = t # ts" using ne t by (cases "cpu_queue s v q") auto
  have tq: "st_qos t = q" using cpu_queue_class[OF wf v(1), of t q] q by simp
  have s1': "s1 = upd_cpu v (put_queue q ts) s" using q by (simp add: s1 upd_cpu_def cpu_queue_def)
  note p = pop_queue_wf[OF wf v(1) q, of "put_queue q ts", OF refl, folded s1']
  have vl: "v < length (cpus s)" using v wf by (simp add: sched_wf_def)
  show "\<exists>v < MAX_CPUS. v \<noteq> c \<and> (online \<noteq> 0 \<longrightarrow> bit online v) \<and> st_qos t \<le> m \<and>
      cpu_queue s v (st_qos t) = t # cpu_queue s1 v (st_qos t) \<and>
      (\<forall>d q. (d, q) \<noteq> (v, st_qos t) \<longrightarrow> cpu_queue s1 d q = cpu_queue s d q)"
    using v q tq p(3) by (intro exI[of _ v]) auto
  show "sched_wf s1" by (rule p(1))
  show "within_capacity s \<Longrightarrow> within_capacity s1" by (rule p(2))
  show "current (cpus s1 ! d) = current (cpus s ! d)" for d
    using vl by (simp add: s1')
  have l4: "length (queues (cpus s ! v)) = 4" using sched_wf_nth[OF wf v(1)] by (simp add: rq_wf_def)
  have "rq_tasks (put_queue q ts (cpus s ! v)) + {#t#} = rq_tasks (cpus s ! v)"
    using rq_tasks_put[OF l4, of q ts] q by (simp add: cpu_queue_def)
  from tasks_swap[OF all_tasks_upd[OF vl, of "put_queue q ts"] this]
  show "all_tasks s1 + {#t#} = all_tasks s" by (simp add: s1')
qed

text \<open>Work stealing takes only the oldest task of a class not above the ceiling from another online
  CPU; an allowed task becomes current on the stealing CPU, a task whose affinity forbids the move
  goes to the front of its home queue; on a stealing CPU that runs nothing, no task is lost or
  duplicated.\<close>

theorem steal_conserves:
  assumes wf: "sched_wf s" and steal: "steal_into_current raw online m allow home_of s = (res, s')"
    and idle: "current (cpus s ! current_cpu_index raw) = None"
  shows "sched_wf s' \<and> all_tasks s' = all_tasks s \<and>
    (\<forall>i. res = Some i \<longrightarrow> allow i \<and>
       (\<exists>t v. st_id t = i \<and> st_qos t \<le> m \<and> v < MAX_CPUS \<and> v \<noteq> current_cpu_index raw \<and>
          (online \<noteq> 0 \<longrightarrow> bit online v) \<and> cpu_queue s v (st_qos t) = t # cpu_queue s' v (st_qos t) \<and>
          current (cpus s' ! current_cpu_index raw) = Some t))"
proof -
  let ?c = "current_cpu_index raw"
  obtain ot s1 where st: "selftest_try_steal online ?c m s = (ot, s1)" by fastforce
  show ?thesis
  proof (cases ot)
    case None
    then have "s1 = s" using st by (auto simp: selftest_try_steal_def split: option.splits)
    then show ?thesis using steal st None wf by (auto simp: steal_into_current_def Let_def)
  next
    case (Some t)
    note T = try_steal_Some[OF wf st[unfolded Some]]
    have c1: "?c < length (cpus s1)" using T(2) by (simp add: sched_wf_def)
    show ?thesis
    proof (cases "allow (st_id t)")
      case True
      let ?f = "\<lambda>rq. rq\<lparr>current := Some t\<rparr>"
      have s': "s' = upd_cpu ?c ?f s1" "res = Some (st_id t)"
        using steal st Some True by (auto simp: steal_into_current_def Let_def)
      have none: "current (cpus s1 ! ?c) = None" using T(5) idle by simp
      have "rq_tasks (?f (cpus s1 ! ?c)) = rq_tasks (cpus s1 ! ?c) + {#t#}"
        using rq_tasks_current[of "Some t" "cpus s1 ! ?c"] none by simp
      with all_tasks_upd[OF c1, of ?f] T(3) have "all_tasks s' = all_tasks s"
        by (simp add: s' union_assoc[symmetric])
      moreover have "sched_wf s'"
        unfolding s' using sched_wf_nth[OF T(2), of ?c] by (intro sched_wf_upd[OF T(2)]) auto
      moreover have "cpu_queue s' v q = cpu_queue s1 v q" "current (cpus s' ! ?c) = Some t" for v q
        using c1 by (auto simp: s' cpu_queue_def)
      ultimately show ?thesis using T(1) True s' by auto
    next
      case False
      define home where "home = min (home_of (st_id t)) (MAX_CPUS - 1)"
      let ?f = "\<lambda>rq. put_queue (st_qos t) (t # queue_mut rq (st_qos t)) rq"
      have s': "s' = upd_cpu home ?f s1" "res = None"
        using steal st Some False by (auto simp: steal_into_current_def Let_def home_def)
      have h: "home < MAX_CPUS" by (simp add: home_def MAX_CPUS_def)
      then have hl: "home < length (cpus s1)" using T(2) by (simp add: sched_wf_def)
      note rq = sched_wf_nth[OF T(2) h]
      have "rq_wf (?f (cpus s1 ! home))" using rq by (intro rq_wf_put) (auto simp: rq_wf_def)
      then have "sched_wf s'" unfolding s' by (rule sched_wf_upd[OF T(2) h])
      moreover have "rq_tasks (?f (cpus s1 ! home)) = rq_tasks (cpus s1 ! home) + {#t#}"
        using rq_tasks_put[of "cpus s1 ! home" "st_qos t" "t # queue_mut (cpus s1 ! home) (st_qos t)"] rq
        by (simp add: rq_wf_def)
      with all_tasks_upd[OF hl, of ?f] T(3) have "all_tasks s' = all_tasks s"
        by (simp add: s' union_assoc[symmetric])
      ultimately show ?thesis using s' by simp
    qed
  qed
qed

theorem steal_conserves_witness:
  "fst (steal_into_current 1 0 PerfBurst (\<lambda>_. True) (\<lambda>_. 0) ex_sched) = Some 8 \<and>
   all_tasks (snd (steal_into_current 1 0 PerfBurst (\<lambda>_. True) (\<lambda>_. 0) ex_sched)) = all_tasks ex_sched"
proof
  show "fst (steal_into_current 1 0 PerfBurst (\<lambda>_. True) (\<lambda>_. 0) ex_sched) = Some 8"
    by (simp add: ex_sched_eq steal_into_current_def selftest_try_steal_def steal_candidates_def
        steal_classes_def MAX_CPUS_def current_cpu_index_def cpu_queue_def queue_mut_def qos_index_def
        run_queues_new_def numeral_eq_Suc Let_def)
  have idle: "current (cpus ex_sched ! current_cpu_index 1) = None"
    by (simp add: ex_sched_eq current_cpu_index_def MAX_CPUS_def run_queues_new_def)
  show "all_tasks (snd (steal_into_current 1 0 PerfBurst (\<lambda>_. True) (\<lambda>_. 0) ex_sched)) = all_tasks ex_sched"
    using steal_conserves[OF ex_sched_wf(1) surjective_pairing idle] by blast
qed

subsubsection \<open>The capacity bound\<close>

datatype sched_op =
    OpEnqueue usize pid qos_class
  | OpEnqueueOn usize pid qos_class
  | OpNext usize
  | OpYield usize
  | OpSetQos pid qos_class
  | OpPurge pid
  | OpFinish usize
  | OpReset usize

fun sched_exec :: "sched_op \<Rightarrow> scheduler \<Rightarrow> scheduler" where
  "sched_exec (OpEnqueue raw i q) s = snd (enqueue raw i q s)"
| "sched_exec (OpEnqueueOn c i q) s = snd (enqueue_on_cpu c i q s)"
| "sched_exec (OpNext raw) s = snd (schedule_next raw s)"
| "sched_exec (OpYield raw) s = yield_current raw s"
| "sched_exec (OpSetQos i q) s = snd (set_task_qos i q s)"
| "sched_exec (OpPurge i) s = purge i s"
| "sched_exec (OpFinish raw) s = finish_current raw s"
| "sched_exec (OpReset c) s = selftest_reset_cpu c s"

lemma move_task_length:
  assumes "length (queues rq) = 4" "\<And>q. length (queue_mut rq q) \<le> cap"
    "length (queue_mut (put_queue q0 (remove_at p (queue_mut rq q0)) rq) q) < cap"
    "p < length (queue_mut rq q0)"
  shows "length (queue_mut (move_task q0 p q rq) q') \<le> cap"
  using assms(1,3,4) assms(2)[of q'] length_remove_at[OF assms(4)]
  by (auto simp: move_task_def Let_def split: if_splits)

lemma set_task_qos_within:
  assumes wf: "sched_wf s" and w: "within_capacity s"
  shows "within_capacity (snd (set_task_qos i q s)) \<and> sched_wf (snd (set_task_qos i q s))"
proof (cases "find_index (\<lambda>rq. case current rq of None \<Rightarrow> False | Some t \<Rightarrow> st_id t = i) (cpus s)")
  case (Some c)
  then have c: "c < MAX_CPUS" using wf by (simp add: find_index_Some sched_wf_def)
  show ?thesis
    using Some within_nth[OF wf w c] sched_wf_nth[OF wf c]
    by (auto simp: set_task_qos_def intro!: within_upd[OF w] sched_wf_upd[OF wf c])
next
  case None
  show ?thesis
  proof (cases "find_queued i s")
    case nq: None
    then show ?thesis using None wf w by (simp add: set_task_qos_def)
  next
    case (Some x)
    obtain c j p where x: "x = (c, j, p)" by (cases x)
    note f = find_queued_Some[OF wf Some[unfolded x]]
    obtain q0 where q0: "qos_index q0 = j" using ex_qos_index[OF f(2)] by blast
    have p: "p < length (queue_mut (cpus s ! c) q0)" using f q0 by (simp add: queue_mut_def)
    have l4: "length (queues (cpus s ! c)) = 4" using sched_wf_nth[OF wf f(1)] by (simp add: rq_wf_def)
    have "sched_wf (upd_cpu c (move_task q0 p q) s)"
      by (rule sched_wf_upd[OF wf f(1)]) (rule move_task_facts(1)[OF sched_wf_nth[OF wf f(1)] p])
    moreover have "within_capacity (upd_cpu c (move_task q0 p q) s)"
      if "length (queue_mut (put_queue q0 (remove_at p (queue_mut (cpus s ! c) q0)) (cpus s ! c)) q)
          < RUNTIME_QOS_QUEUE_CAPACITY"
      by (rule within_upd[OF w], rule move_task_length[OF l4 within_nth[OF wf w f(1)] that p])
    ultimately show ?thesis
      using set_task_qos_queued[OF wf None Some[unfolded x] q0, of q] wf w
      by (simp add: runtime_queue_capacity_for_def cpu_queue_def not_le)
  qed
qed

lemma map_filter_queue:
  "length (queues rq) = 4 \<Longrightarrow> queue_mut (rq\<lparr>queues := map g (queues rq)\<rparr>) q = g (queue_mut rq q)"
  by (simp add: queue_mut_def)

lemma purge_wf:
  assumes "sched_wf s"
  shows "sched_wf (purge i s)" "within_capacity s \<Longrightarrow> within_capacity (purge i s)"
  using assms
  by (auto simp: sched_wf_def purge_def rq_wf_def within_capacity_def map_filter_queue
      intro: le_trans[OF length_filter_le])

lemma reset_wf:
  assumes "sched_wf s"
  shows "sched_wf (selftest_reset_cpu c s)" "within_capacity s \<Longrightarrow> within_capacity (selftest_reset_cpu c s)"
proof -
  have "rq_wf ((cpus s ! c)\<lparr>queues := map (\<lambda>_. []) (queues (cpus s ! c)), current := None\<rparr>) \<and>
     queue_mut ((cpus s ! c)\<lparr>queues := map (\<lambda>_. []) (queues (cpus s ! c)), current := None\<rparr>) q = []"
    if "c < MAX_CPUS" for q
    using sched_wf_nth[OF assms that] by (auto simp: rq_wf_def map_filter_queue)
  then show "sched_wf (selftest_reset_cpu c s)" "within_capacity s \<Longrightarrow> within_capacity (selftest_reset_cpu c s)"
    using assms by (auto simp: selftest_reset_cpu_def not_le intro!: sched_wf_upd within_upd)
qed

lemma sched_exec_ok:
  assumes wf: "sched_wf s" and w: "within_capacity s"
  shows "sched_wf (sched_exec op s) \<and> within_capacity (sched_exec op s)"
proof (cases op)
  case (OpEnqueue raw i q)
  then show ?thesis
    using push_on_cases[OF wf current_cpu_index_less surjective_pairing]
      push_on_within[OF wf current_cpu_index_less w surjective_pairing]
    by (simp add: enqueue_def try_enqueue_def runtime_queue_capacity_for_def)
next
  case (OpEnqueueOn c i q)
  then show ?thesis
    using push_on_cases[OF wf _ surjective_pairing, of c] push_on_within[OF wf _ w surjective_pairing, of c] wf w
    by (simp add: enqueue_on_cpu_def runtime_queue_capacity_for_def)
next
  case (OpFinish raw)
  then show ?thesis
    using wf w sched_wf_nth[OF wf, of "current_cpu_index raw"] within_nth[OF wf w, of "current_cpu_index raw"]
    by (auto simp: finish_current_def intro!: sched_wf_upd within_upd)
qed (use wf w schedule_next_wf yield_current_wf set_task_qos_within purge_wf reset_wf in auto)

text \<open>C38: Every sequence of enqueue, dispatch, yield, class-change, purge, finish and reset operations
  keeps each run queue within its capacity of 64 and every queued task in the queue of its own
  class.\<close>

theorem run_queues_bounded:
  "sched_wf (fold sched_exec ops (sched_new ts)) \<and> within_capacity (fold sched_exec ops (sched_new ts))"
proof -
  have "sched_wf (fold sched_exec ops s) \<and> within_capacity (fold sched_exec ops s)"
    if "sched_wf s" "within_capacity s" for s
    using that sched_exec_ok by (induction ops arbitrary: s) auto
  from this[OF sched_new_wf] show ?thesis .
qed

text \<open>Work stealing breaks the capacity bound: a task whose affinity forbids the move is put at the
  front of its home queue without a capacity check, so a scheduler within its bounds can be left
  with a run queue of 65 tasks.\<close>

theorem steal_exceeds_capacity:
  "\<exists>s s'. sched_wf s \<and> within_capacity s \<and>
     steal_into_current 0 0 PerfBurst (\<lambda>_. False) (\<lambda>_. 2) s = (None, s') \<and>
     length (cpu_queue s' 2 Normal) = Suc RUNTIME_QOS_QUEUE_CAPACITY \<and> \<not> within_capacity s'"
proof -
  let ?t = "\<lparr>st_id = 1, st_qos = Normal\<rparr>"
  define rq where "rq l = \<lparr>queues = [[], l, [], []], current = None\<rparr>" for l
  define s where "s = \<lparr>cpus = [rq [], rq [?t], rq (replicate 64 ?t), rq []], timeslice_ns = 0\<rparr>"
  define s' where "s' = \<lparr>cpus = [rq [], rq [], rq (?t # replicate 64 ?t), rq []], timeslice_ns = 0\<rparr>"
  have q: "queue_mut (rq l) k = (if k = Normal then l else [])" for l k
    by (cases k) (simp_all add: rq_def queue_mut_def qos_index_def)
  have "sched_wf s" "within_capacity s"
    by (auto simp: s_def sched_wf_def within_capacity_def rq_wf_def q MAX_CPUS_def RUNTIME_QOS_QUEUE_CAPACITY_def)
      (simp_all add: rq_def)
  moreover have "steal_into_current 0 0 PerfBurst (\<lambda>_. False) (\<lambda>_. 2) s = (None, s')"
    by (simp add: s_def s'_def steal_into_current_def selftest_try_steal_def steal_candidates_def
        steal_classes_def MAX_CPUS_def current_cpu_index_def cpu_queue_def q upd_cpu_def Let_def upt_conv_Cons)
      (simp add: rq_def put_queue_def qos_index_def)
  moreover have "length (cpu_queue s' 2 Normal) = Suc RUNTIME_QOS_QUEUE_CAPACITY"
    by (simp add: s'_def cpu_queue_def q RUNTIME_QOS_QUEUE_CAPACITY_def)
  moreover have "\<not> within_capacity s'"
    by (auto simp: s'_def within_capacity_def q RUNTIME_QOS_QUEUE_CAPACITY_def intro!: exI[of _ Normal])
  ultimately show ?thesis by blast
qed

end
