(* ===== verification/Page_Table.thy ===== *)
theory Page_Table
  imports Prelude
begin

text \<open>
  The Sv39 page table, \<open>PageTable\<close> of \<open>source/kernel/neuron/src/mm/page_table.rs\<close>.  Entries, virtual
  and physical addresses are 64-bit words.  Table pages live in a store from page addresses to 512
  entries; \<open>Box::new\<close> takes the next page of a heap, which is a list of free page addresses together
  with the counters the source keeps, and aborts when the heap is empty.  This is the configuration
  without the \<open>pt_static_root\<close> and \<open>bringup_identity\<close> features, which are off by default.
\<close>

unbundle bit_operations_syntax

subsection \<open>Data\<close>

definition PAGE_SIZE :: nat where "PAGE_SIZE = 4096"
definition PT_ENTRIES :: nat where "PT_ENTRIES = 512"
definition HUGE_PAGE_SIZE_2M :: nat where "HUGE_PAGE_SIZE_2M = 2 * 1024 * 1024"

definition PF_VALID :: u64 where "PF_VALID = 1"
definition PF_READ :: u64 where "PF_READ = 2"
definition PF_WRITE :: u64 where "PF_WRITE = 4"
definition PF_EXECUTE :: u64 where "PF_EXECUTE = 8"
definition PF_USER :: u64 where "PF_USER = 16"
definition PF_GLOBAL :: u64 where "PF_GLOBAL = 32"
definition PF_ACCESSED :: u64 where "PF_ACCESSED = 64"
definition PF_DIRTY :: u64 where "PF_DIRTY = 128"

definition LEAF_PERMS :: u64 where "LEAF_PERMS = PF_READ OR PF_WRITE OR PF_EXECUTE"

datatype map_error = Unaligned | OutOfRange | MapPermissionDenied | Overlap | InvalidFlags

type_synonym pt_page = "u64 list"

definition page_new :: pt_page where
  "page_new = replicate PT_ENTRIES 0"

record page_table =
  pt_root :: u64
  pt_owned :: "u64 list"
  pt_pages :: "u64 \<Rightarrow> pt_page option"

record pt_heap =
  ph_free :: "u64 list"
  ph_live :: usize
  ph_total :: usize
  ph_peak :: usize

record pt_alloc_stats =
  heap_live :: usize
  heap_total :: usize
  heap_peak :: usize

subsection \<open>Address arithmetic\<close>

definition vpn_indices :: "u64 \<Rightarrow> nat list" where
  "vpn_indices va =
     [unat (drop_bit 30 va AND 0x1ff), unat (drop_bit 21 va AND 0x1ff), unat (drop_bit 12 va AND 0x1ff)]"

definition is_canonical_sv39 :: "u64 \<Rightarrow> bool" where
  "is_canonical_sv39 va =
     (let sign = drop_bit 38 va AND 1;
          upper = drop_bit 39 va
      in if sign = 0 then upper = 0 else upper = drop_bit 39 (NOT 0))"

definition next_table :: "u64 \<Rightarrow> u64" where
  "next_table entry = push_bit 12 (drop_bit 10 entry)"

subsection \<open>Allocation of table pages\<close>

definition record_heap_page_alloc :: "pt_heap \<Rightarrow> pt_heap" where
  "record_heap_page_alloc h =
     (let live = ph_live h + 1 in
      h\<lparr>ph_live := live, ph_total := ph_total h + 1,
        ph_peak := (if ph_peak h < live then live else ph_peak h)\<rparr>)"

definition record_heap_page_free :: "pt_heap \<Rightarrow> pt_heap" where
  "record_heap_page_free h = h\<lparr>ph_live := ph_live h - 1\<rparr>"

definition alloc_page :: "pt_heap \<Rightarrow> (u64 \<times> pt_heap) option" where
  "alloc_page h =
     (case ph_free h of
        [] \<Rightarrow> None
      | a # rest \<Rightarrow> Some (a, record_heap_page_alloc (h\<lparr>ph_free := rest\<rparr>)))"

definition pt_new :: "pt_heap \<Rightarrow> (page_table \<times> pt_heap) option" where
  "pt_new h =
     (case alloc_page h of
        None \<Rightarrow> None
      | Some (root, h') \<Rightarrow>
          Some (\<lparr>pt_root = root, pt_owned = [root], pt_pages = [root \<mapsto> page_new]\<rparr>, h'))"

definition root_ppn :: "page_table \<Rightarrow> u64" where
  "root_ppn pt = drop_bit 12 (pt_root pt)"

definition allocated_pages :: "page_table \<Rightarrow> usize" where
  "allocated_pages pt = length (pt_owned pt)"

definition allocation_stats :: "pt_heap \<Rightarrow> pt_alloc_stats" where
  "allocation_stats h = \<lparr>heap_live = ph_live h, heap_total = ph_total h, heap_peak = ph_peak h\<rparr>"

text \<open>Dropping a table returns its pages one by one.\<close>

definition free_page :: "u64 \<Rightarrow> pt_heap \<Rightarrow> pt_heap" where
  "free_page a h = record_heap_page_free (h\<lparr>ph_free := a # ph_free h\<rparr>)"

definition pt_drop :: "page_table \<Rightarrow> pt_heap \<Rightarrow> pt_heap" where
  "pt_drop pt h = fold free_page (pt_owned pt) h"

subsection \<open>Walks\<close>

definition entry_at :: "page_table \<Rightarrow> u64 \<Rightarrow> nat \<Rightarrow> u64" where
  "entry_at pt t i = (case pt_pages pt t of Some pg \<Rightarrow> pg ! i | None \<Rightarrow> 0)"

definition set_entry :: "u64 \<Rightarrow> nat \<Rightarrow> u64 \<Rightarrow> page_table \<Rightarrow> page_table" where
  "set_entry t i e pt =
     (case pt_pages pt t of
        Some pg \<Rightarrow> pt\<lparr>pt_pages := (pt_pages pt)(t \<mapsto> pg[i := e])\<rparr>
      | None \<Rightarrow> pt)"

definition is_valid :: "u64 \<Rightarrow> bool" where "is_valid e \<longleftrightarrow> e AND PF_VALID \<noteq> 0"
definition is_leaf :: "u64 \<Rightarrow> bool" where "is_leaf e \<longleftrightarrow> e AND LEAF_PERMS \<noteq> 0"

fun lookup_loop :: "page_table \<Rightarrow> u64 \<Rightarrow> nat list \<Rightarrow> u64 option" where
  "lookup_loop pt t [] = None"
| "lookup_loop pt t (i # rest) =
     (let entry = entry_at pt t i in
      if \<not> is_valid entry then None
      else if is_leaf entry then Some entry
      else if rest = [] then None
      else if next_table entry = 0 then None
      else lookup_loop pt (next_table entry) rest)"

definition pt_lookup :: "page_table \<Rightarrow> u64 \<Rightarrow> u64 option" where
  "pt_lookup pt va =
     (if unat va mod PAGE_SIZE \<noteq> 0 \<or> \<not> is_canonical_sv39 va then None
      else lookup_loop pt (pt_root pt) (vpn_indices va))"

text \<open>The physical address of \<open>va\<close> under a leaf found at \<open>level\<close>.\<close>

definition leaf_phys :: "u64 \<Rightarrow> nat \<Rightarrow> u64 \<Rightarrow> u64" where
  "leaf_phys entry level va =
     (let ppn = drop_bit 10 entry;
          page_shift = 12 + (2 - level) * 9;
          page_size = push_bit page_shift 1;
          phys_base = push_bit 12 ppn AND NOT (page_size - 1);
          offset = va AND (page_size - 1)
      in phys_base OR offset)"

fun translate_loop :: "page_table \<Rightarrow> u64 \<Rightarrow> nat \<Rightarrow> nat list \<Rightarrow> u64 \<Rightarrow> u64 option" where
  "translate_loop pt t level [] va = None"
| "translate_loop pt t level (i # rest) va =
     (let entry = entry_at pt t i in
      if \<not> is_valid entry then None
      else if is_leaf entry then Some (leaf_phys entry level va)
      else if next_table entry = 0 then None
      else translate_loop pt (next_table entry) (Suc level) rest va)"

definition pt_translate :: "page_table \<Rightarrow> u64 \<Rightarrow> u64 option" where
  "pt_translate pt va =
     (if \<not> is_canonical_sv39 va then None
      else translate_loop pt (pt_root pt) 0 (vpn_indices va) va)"

text \<open>\<open>from_bits_truncate\<close> keeps the eight named flag bits.\<close>

fun leaf_flags_loop :: "page_table \<Rightarrow> u64 \<Rightarrow> nat list \<Rightarrow> map_error + u64" where
  "leaf_flags_loop pt t [] = Err OutOfRange"
| "leaf_flags_loop pt t (i # rest) =
     (let entry = entry_at pt t i in
      if \<not> is_valid entry then Err OutOfRange
      else if is_leaf entry then Ok (entry AND 0x3FF AND 0xFF)
      else if rest = [] then Err OutOfRange
      else if next_table entry = 0 then Err OutOfRange
      else leaf_flags_loop pt (next_table entry) rest)"

definition pt_leaf_flags :: "page_table \<Rightarrow> u64 \<Rightarrow> map_error + u64" where
  "pt_leaf_flags pt va =
     (if unat va mod PAGE_SIZE \<noteq> 0 \<or> \<not> is_canonical_sv39 va then Err OutOfRange
      else leaf_flags_loop pt (pt_root pt) (vpn_indices va))"

subsection \<open>Installing mappings\<close>

text \<open>The walk of \<open>map\<close> (leaf level 2) and \<open>map_2m\<close> (leaf level 1), which allocates missing tables.
  \<open>None\<close> is the abort of a failed allocation.  The empty index list is never reached.\<close>

fun install_loop ::
  "nat \<Rightarrow> u64 \<Rightarrow> u64 \<Rightarrow> nat \<Rightarrow> nat list \<Rightarrow> page_table \<Rightarrow> pt_heap \<Rightarrow>
     ((map_error + unit) \<times> page_table \<times> pt_heap) option" where
  "install_loop leaf_level pte t level [] pt h = Some (Err OutOfRange, pt, h)"
| "install_loop leaf_level pte t level (i # rest) pt h =
     (let entry = entry_at pt t i in
      if level = leaf_level then
        (if is_valid entry then Some (Err Overlap, pt, h)
         else Some (Ok (), set_entry t i pte pt, h))
      else if is_valid entry then
        (if is_leaf entry then Some (Err Overlap, pt, h)
         else if next_table entry = 0 then Some (Err OutOfRange, pt, h)
         else install_loop leaf_level pte (next_table entry) (Suc level) rest pt h)
      else
        (case alloc_page h of
           None \<Rightarrow> None
         | Some (n, h') \<Rightarrow>
             (let pt1 = pt\<lparr>pt_owned := pt_owned pt @ [n], pt_pages := (pt_pages pt)(n \<mapsto> page_new)\<rparr>;
                  pt2 = set_entry t i (push_bit 10 (drop_bit 12 n) OR PF_VALID) pt1
              in install_loop leaf_level pte n (Suc level) rest pt2 h')))"

definition effective_flags :: "u64 \<Rightarrow> u64" where
  "effective_flags flags =
     (if flags AND PF_WRITE \<noteq> 0 then flags OR PF_ACCESSED OR PF_DIRTY else flags OR PF_ACCESSED)"

text \<open>The argument checks common to \<open>map\<close> and \<open>map_2m\<close>.\<close>

definition map_check :: "nat \<Rightarrow> u64 \<Rightarrow> u64 \<Rightarrow> u64 \<Rightarrow> map_error option" where
  "map_check page_size va pa flags =
     (if unat va mod page_size \<noteq> 0 \<or> unat pa mod page_size \<noteq> 0 then Some Unaligned
      else if \<not> is_canonical_sv39 va then Some OutOfRange
      else if flags AND LEAF_PERMS = 0 \<or> flags AND PF_VALID = 0 then Some InvalidFlags
      else if flags AND PF_WRITE \<noteq> 0 \<and> flags AND PF_EXECUTE \<noteq> 0 then Some MapPermissionDenied
      else None)"

definition leaf_pte :: "u64 \<Rightarrow> u64 \<Rightarrow> u64" where
  "leaf_pte pa flags = push_bit 10 (drop_bit 12 pa) OR effective_flags flags"

definition pt_map ::
  "u64 \<Rightarrow> u64 \<Rightarrow> u64 \<Rightarrow> page_table \<Rightarrow> pt_heap \<Rightarrow> ((map_error + unit) \<times> page_table \<times> pt_heap) option" where
  "pt_map va pa flags pt h =
     (case map_check PAGE_SIZE va pa flags of
        Some err \<Rightarrow> Some (Err err, pt, h)
      | None \<Rightarrow> install_loop 2 (leaf_pte pa flags) (pt_root pt) 0 (vpn_indices va) pt h)"

definition pt_map_2m ::
  "u64 \<Rightarrow> u64 \<Rightarrow> u64 \<Rightarrow> page_table \<Rightarrow> pt_heap \<Rightarrow> ((map_error + unit) \<times> page_table \<times> pt_heap) option" where
  "pt_map_2m va pa flags pt h =
     (case map_check HUGE_PAGE_SIZE_2M va pa flags of
        Some err \<Rightarrow> Some (Err err, pt, h)
      | None \<Rightarrow> install_loop 1 (leaf_pte pa flags) (pt_root pt) 0 (vpn_indices va) pt h)"

subsection \<open>Updating leaf flags\<close>

text \<open>The walk shared by the three flag updates; \<open>wx\<close> says whether W^X is enforced and \<open>upd\<close> maps
  the current flags to the new ones.  Only leaves of the last level are updated.\<close>

fun flags_loop :: "bool \<Rightarrow> (u64 \<Rightarrow> u64) \<Rightarrow> u64 \<Rightarrow> nat list \<Rightarrow> page_table \<Rightarrow> (map_error + unit) \<times> page_table" where
  "flags_loop wx upd t [] pt = (Err OutOfRange, pt)"
| "flags_loop wx upd t (i # rest) pt =
     (let entry = entry_at pt t i in
      if \<not> is_valid entry then (Err OutOfRange, pt)
      else if rest = [] then
        (if \<not> is_leaf entry then (Err OutOfRange, pt)
         else
           (let new_flags = upd (entry AND 0x3FF) in
            if wx \<and> new_flags AND PF_WRITE \<noteq> 0 \<and> new_flags AND PF_EXECUTE \<noteq> 0
            then (Err MapPermissionDenied, pt)
            else (Ok (), set_entry t i ((entry AND NOT 0x3FF) OR new_flags) pt)))
      else if is_leaf entry then (Err OutOfRange, pt)
      else if next_table entry = 0 then (Err OutOfRange, pt)
      else flags_loop wx upd (next_table entry) rest pt)"

definition pt_update_flags :: "bool \<Rightarrow> (u64 \<Rightarrow> u64) \<Rightarrow> u64 \<Rightarrow> page_table \<Rightarrow> (map_error + unit) \<times> page_table" where
  "pt_update_flags wx upd va pt =
     (if unat va mod PAGE_SIZE \<noteq> 0 \<or> \<not> is_canonical_sv39 va then (Err OutOfRange, pt)
      else flags_loop wx upd (pt_root pt) (vpn_indices va) pt)"

definition pt_set_leaf_flags :: "u64 \<Rightarrow> u64 \<Rightarrow> page_table \<Rightarrow> (map_error + unit) \<times> page_table" where
  "pt_set_leaf_flags va fl pt = pt_update_flags True (\<lambda>cur. cur OR fl) va pt"

definition pt_update_leaf_flags :: "u64 \<Rightarrow> u64 \<Rightarrow> u64 \<Rightarrow> page_table \<Rightarrow> (map_error + unit) \<times> page_table" where
  "pt_update_leaf_flags va clear fl pt = pt_update_flags True (\<lambda>cur. (cur AND NOT clear) OR fl) va pt"

definition pt_set_leaf_flags_unchecked :: "u64 \<Rightarrow> u64 \<Rightarrow> page_table \<Rightarrow> (map_error + unit) \<times> page_table" where
  "pt_set_leaf_flags_unchecked va fl pt = pt_update_flags False (\<lambda>cur. cur OR fl) va pt"

subsection \<open>The debug walk\<close>

datatype verify_error = VerifyNotValid | VerifyLeafPerms | VerifyWX | VerifyNonLeafPerms

definition verify_entry :: "(u64 \<Rightarrow> (verify_error + unit) option) \<Rightarrow> u64 \<Rightarrow> (verify_error + unit) option" where
  "verify_entry walk entry =
     (if entry = 0 then Some (Ok ())
      else if \<not> is_valid entry then Some (Err VerifyNotValid)
      else if is_leaf entry then
        (if entry AND LEAF_PERMS = 0 then Some (Err VerifyLeafPerms)
         else if entry AND PF_WRITE \<noteq> 0 \<and> entry AND PF_EXECUTE \<noteq> 0 then Some (Err VerifyWX)
         else Some (Ok ()))
      else if entry AND LEAF_PERMS \<noteq> 0 then Some (Err VerifyNonLeafPerms)
      else walk (next_table entry))"

text \<open>The recursion follows the table pointers; \<open>fuel\<close> bounds its depth.\<close>

fun verify_walk :: "nat \<Rightarrow> page_table \<Rightarrow> u64 \<Rightarrow> (verify_error + unit) option" where
  "verify_walk 0 pt page = None"
| "verify_walk (Suc fuel) pt page =
     foldl (\<lambda>acc i. case acc of
         Some (Inr _) \<Rightarrow> verify_entry (verify_walk fuel pt) (entry_at pt page i)
       | _ \<Rightarrow> acc)
       (Some (Ok ())) [0..<PT_ENTRIES]"

definition pt_verify :: "nat \<Rightarrow> page_table \<Rightarrow> (verify_error + unit) option" where
  "pt_verify fuel pt = verify_walk fuel pt (pt_root pt)"

end
