(* ===== verification/Vmo_Pool.thy ===== *)
theory Vmo_Pool
  imports Cap Page_Table
begin

text \<open>
  The arena allocator behind virtual memory objects, \<open>VmoPool\<close> of
  \<open>source/kernel/neuron/src/syscall/api/vmo.rs\<close>: a bump frontier with a best-fit free list, a list
  of freed ranges still to be zeroed, and a zero frontier advanced by idle CPUs.  Physical memory is
  a function from addresses to bytes; \<open>ptr::write_bytes\<close> updates it.
\<close>

subsection \<open>Data\<close>


definition USER_VMO_ARENA_LEN :: usize where "USER_VMO_ARENA_LEN = 224 * 1024 * 1024"
definition USER_VMO_ARENA_BASE :: usize where "USER_VMO_ARENA_BASE = 0x83800000"
definition VMO_FREE_SLOTS :: usize where "VMO_FREE_SLOTS = 16"

type_synonym memory = "nat \<Rightarrow> u8"
type_synonym range_slots = "(usize \<times> usize) list"

definition write_zero :: "usize \<Rightarrow> usize \<Rightarrow> memory \<Rightarrow> memory" where
  "write_zero a n mem = (\<lambda>x. if a \<le> x \<and> x < a + n then 0 else mem x)"

record vmo_pool =
  vp_base :: usize
  vp_next :: usize
  vp_limit :: usize
  vp_peak_next :: usize
  vp_free_list :: range_slots
  vp_dirty_list :: range_slots
  vp_leaked :: usize
  vp_zeroed_until :: usize

record vmo_pool_stats =
  vs_base :: usize
  vs_used :: usize
  vs_remaining :: usize
  vs_peak_used :: usize

definition vmo_pool_new :: vmo_pool where
  "vmo_pool_new =
     \<lparr>vp_base = 0, vp_next = 0, vp_limit = 0, vp_peak_next = 0,
      vp_free_list = replicate VMO_FREE_SLOTS (0, 0), vp_dirty_list = replicate VMO_FREE_SLOTS (0, 0),
      vp_leaked = 0, vp_zeroed_until = 0\<rparr>"

subsection \<open>Operations\<close>

text \<open>\<open>x & !(PAGE_SIZE - 1)\<close> clears the low twelve bits.\<close>

definition page_floor :: "usize \<Rightarrow> usize" where
  "page_floor x = x div PAGE_SIZE * PAGE_SIZE"

definition align_len :: "usize \<Rightarrow> usize option" where
  "align_len len =
     (if len = 0 then Some 0 else map_option page_floor (checked_add len (PAGE_SIZE - 1)))"

definition align_up_addr :: "usize \<Rightarrow> usize" where
  "align_up_addr addr = page_floor (addr + (PAGE_SIZE - 1))"

definition ensure_initialized :: "vmo_pool \<Rightarrow> vmo_pool" where
  "ensure_initialized p =
     (if vp_base p \<noteq> 0 then p
      else
        let start = align_up_addr USER_VMO_ARENA_BASE;
            limit = saturating_add start USER_VMO_ARENA_LEN
        in p\<lparr>vp_base := start, vp_next := start, vp_zeroed_until := start, vp_limit := limit,
             vp_peak_next := start\<rparr>)"

text \<open>The best-fit scan over the free list.\<close>

definition best_fit :: "usize \<Rightarrow> range_slots \<Rightarrow> nat option" where
  "best_fit aligned fl =
     foldl (\<lambda>best i.
         if aligned \<le> snd (fl ! i) \<and> (case best of None \<Rightarrow> True | Some prev \<Rightarrow> snd (fl ! i) < snd (fl ! prev))
         then Some i else best)
       None [0..<length fl]"

definition take_from_entry :: "usize \<Rightarrow> nat \<Rightarrow> range_slots \<Rightarrow> range_slots" where
  "take_from_entry aligned i fl =
     fl[i := (if aligned < snd (fl ! i) then (fst (fl ! i) + aligned, snd (fl ! i) - aligned) else (0, 0))]"

definition bump :: "usize \<Rightarrow> vmo_pool \<Rightarrow> vmo_pool" where
  "bump next p =
     p\<lparr>vp_next := next, vp_peak_next := (if vp_peak_next p < next then next else vp_peak_next p)\<rparr>"

text \<open>The source also has \<open>if !needs_zero && zeroed_until < base + aligned { .. }\<close>, whose guard is
  contradictory because \<open>needs_zero\<close> is \<open>zeroed_until < base + aligned\<close>.\<close>

definition pool_allocate_nozero ::
  "usize \<Rightarrow> vmo_pool \<Rightarrow> (cap_error + usize \<times> usize \<times> bool) \<times> vmo_pool" where
  "pool_allocate_nozero len p0 =
     (let p = ensure_initialized p0 in
      if len = 0 then (Err PermissionDenied, p)
      else case align_len len of
        None \<Rightarrow> (Err PermissionDenied, p)
      | Some aligned \<Rightarrow>
          (case best_fit aligned (vp_free_list p) of
             Some i \<Rightarrow>
               (Ok (fst (vp_free_list p ! i), aligned, False),
                p\<lparr>vp_free_list := take_from_entry aligned i (vp_free_list p)\<rparr>)
           | None \<Rightarrow>
               (case checked_add (vp_next p) aligned of
                  None \<Rightarrow> (Err PermissionDenied, p)
                | Some next \<Rightarrow>
                    if vp_limit p < next then (Err PermissionDenied, p)
                    else
                      (let base = vp_next p;
                           needs_zero = vp_zeroed_until p < base + aligned
                       in (Ok (base, aligned, needs_zero), bump next p)))))"

definition pool_allocate ::
  "usize \<Rightarrow> vmo_pool \<Rightarrow> memory \<Rightarrow> (cap_error + usize \<times> usize) \<times> vmo_pool \<times> memory" where
  "pool_allocate len p0 mem =
     (let p = ensure_initialized p0 in
      if len = 0 then (Err PermissionDenied, p, mem)
      else case align_len len of
        None \<Rightarrow> (Err PermissionDenied, p, mem)
      | Some aligned \<Rightarrow>
          (case best_fit aligned (vp_free_list p) of
             Some i \<Rightarrow>
               (Ok (fst (vp_free_list p ! i), aligned),
                p\<lparr>vp_free_list := take_from_entry aligned i (vp_free_list p)\<rparr>, mem)
           | None \<Rightarrow>
               (case checked_add (vp_next p) aligned of
                  None \<Rightarrow> (Err PermissionDenied, p, mem)
                | Some next \<Rightarrow>
                    if vp_limit p < next then (Err PermissionDenied, p, mem)
                    else
                      (let base = vp_next p;
                           end' = base + aligned;
                           dirty_from = min (max (vp_zeroed_until p) base) end';
                           mem' = (if dirty_from < end' then write_zero dirty_from (end' - dirty_from) mem else mem);
                           p1 = bump next p
                       in (Ok (base, aligned),
                           p1\<lparr>vp_zeroed_until := (if vp_zeroed_until p < end' then end' else vp_zeroed_until p)\<rparr>,
                           mem')))))"

text \<open>The coalescing loop that promotes a zeroed range into the free list.\<close>

fun coalesce :: "usize \<times> usize \<Rightarrow> range_slots \<Rightarrow> (usize \<times> usize) \<times> range_slots" where
  "coalesce r [] = (r, [])"
| "coalesce (base, len) ((eb, el) # es) =
     (if el = 0 then (case coalesce (base, len) es of (r, es') \<Rightarrow> (r, (eb, el) # es'))
      else if eb + el = base then (case coalesce (eb, len + el) es of (r, es') \<Rightarrow> (r, (0, 0) # es'))
      else if base + len = eb then (case coalesce (base, len + el) es of (r, es') \<Rightarrow> (r, (0, 0) # es'))
      else (case coalesce (base, len) es of (r, es') \<Rightarrow> (r, (eb, el) # es')))"

text \<open>Store into the first empty slot, if there is one.\<close>

definition place :: "usize \<times> usize \<Rightarrow> range_slots \<Rightarrow> range_slots option" where
  "place r fl = map_option (\<lambda>i. fl[i := r]) (find_index (\<lambda>e. snd e = 0) fl)"

definition FRONTIER_AHEAD :: usize where "FRONTIER_AHEAD = 8 * 1024 * 1024"

definition idle_zero_step :: "usize \<Rightarrow> vmo_pool \<Rightarrow> memory \<Rightarrow> usize \<times> vmo_pool \<times> memory" where
  "idle_zero_step budget p0 mem =
     (let p = ensure_initialized p0 in
      case find_index (\<lambda>e. snd e \<noteq> 0) (vp_dirty_list p) of
        Some i \<Rightarrow>
          (let base = fst (vp_dirty_list p ! i);
               len = snd (vp_dirty_list p ! i);
               n = min len budget;
               mem' = write_zero base n mem
           in if n = len then
                (let p1 = p\<lparr>vp_dirty_list := (vp_dirty_list p)[i := (0, 0)]\<rparr>;
                     (r, fl) = coalesce (base, len) (vp_free_list p1)
                 in case place r fl of
                      Some fl' \<Rightarrow> (n, p1\<lparr>vp_free_list := fl'\<rparr>, mem')
                    | None \<Rightarrow>
                        (n, p1\<lparr>vp_free_list := fl, vp_leaked := saturating_add (vp_leaked p) (snd r)\<rparr>, mem'))
              else
                (n, p\<lparr>vp_dirty_list := (vp_dirty_list p)[i := (base + n, len - n)]\<rparr>, mem'))
      | None \<Rightarrow>
          (let zu = (if vp_zeroed_until p < vp_next p then vp_next p else vp_zeroed_until p);
               target = min (vp_limit p) (saturating_add (vp_next p) FRONTIER_AHEAD);
               end' = min target (saturating_add zu budget)
           in if end' \<le> zu then (0, p\<lparr>vp_zeroed_until := zu\<rparr>, mem)
              else (end' - zu, p\<lparr>vp_zeroed_until := end'\<rparr>, write_zero zu (end' - zu) mem)))"

definition overlaps_entry :: "usize \<Rightarrow> usize \<Rightarrow> usize \<times> usize \<Rightarrow> bool" where
  "overlaps_entry base end' e \<longleftrightarrow> snd e \<noteq> 0 \<and> fst e < end' \<and> base < fst e + snd e"

definition pool_free :: "usize \<Rightarrow> usize \<Rightarrow> vmo_pool \<Rightarrow> memory \<Rightarrow> (cap_error + unit) \<times> vmo_pool \<times> memory" where
  "pool_free base len p0 mem =
     (let p = ensure_initialized p0 in
      case align_len len of
        None \<Rightarrow> (Err PermissionDenied, p, mem)
      | Some aligned \<Rightarrow>
          if aligned = 0 \<or> base mod PAGE_SIZE \<noteq> 0 then (Err PermissionDenied, p, mem)
          else case checked_add base aligned of
            None \<Rightarrow> (Err PermissionDenied, p, mem)
          | Some end' \<Rightarrow>
              if base < vp_base p \<or> vp_next p < end' then (Err PermissionDenied, p, mem)
              else if \<exists>e \<in> set (vp_free_list p @ vp_dirty_list p). overlaps_entry base end' e
              then (Err PermissionDenied, p, mem)
              else if base + aligned = vp_next p then
                (Ok (), p\<lparr>vp_next := base,
                          vp_zeroed_until := (if base < vp_zeroed_until p then base else vp_zeroed_until p)\<rparr>, mem)
              else case place (base, aligned) (vp_dirty_list p) of
                Some dl \<Rightarrow> (Ok (), p\<lparr>vp_dirty_list := dl\<rparr>, mem)
              | None \<Rightarrow>
                  (let mem' = write_zero base aligned mem in
                   case place (base, aligned) (vp_free_list p) of
                     Some fl \<Rightarrow> (Ok (), p\<lparr>vp_free_list := fl\<rparr>, mem')
                   | None \<Rightarrow> (Ok (), p\<lparr>vp_leaked := saturating_add (vp_leaked p) aligned\<rparr>, mem')))"

definition pool_stats :: "vmo_pool \<Rightarrow> vmo_pool_stats" where
  "pool_stats p =
     \<lparr>vs_base = vp_base p, vs_used = saturating_sub (vp_next p) (vp_base p),
      vs_remaining = saturating_sub (vp_limit p) (vp_next p),
      vs_peak_used = saturating_sub (vp_peak_next p) (vp_base p)\<rparr>"

definition pool_contains :: "vmo_pool \<Rightarrow> usize \<Rightarrow> usize \<Rightarrow> bool" where
  "pool_contains p addr len =
     (if vp_base p = 0 \<or> len = 0 then False
      else case checked_add addr len of
        None \<Rightarrow> False
      | Some end' \<Rightarrow> vp_base p \<le> addr \<and> end' \<le> vp_limit p)"

text \<open>The idle hook zeroes at most 64 KiB per step.\<close>

definition vmo_idle_zero_step :: "vmo_pool \<Rightarrow> memory \<Rightarrow> usize \<times> vmo_pool \<times> memory" where
  "vmo_idle_zero_step p mem = idle_zero_step (64 * 1024) p mem"

end
