(* ===== verification/Vmo_Pool_Correct.thy ===== *)
theory Vmo_Pool_Correct
  imports Vmo_Pool
begin

text \<open>
  Memory safety of the VMO arena: over every interleaving of allocations, frees, idle zeroing and
  writes by the owners, a handed-out range is page-aligned, inside the arena, disjoint from every
  live range and completely zero.  Free memory is accounted by the multiset of addresses in the slot
  lists, which turns disjointness into "no address twice".
\<close>

subsection \<open>Addresses of a slot list\<close>

definition cells_of :: "usize \<times> usize \<Rightarrow> nat multiset" where
  "cells_of r = mset [fst r..<fst r + snd r]"

definition cells :: "range_slots \<Rightarrow> nat multiset" where
  "cells fl = sum_list (map cells_of fl)"

lemma cells_simps [simp]:
  "cells [] = {#}" "cells (r # fl) = cells_of r + cells fl"
  "cells (replicate n (0, 0)) = {#}"
  by (simp_all add: cells_def cells_of_def sum_list_replicate)
    (induction n; simp add: cells_of_def)

lemma cells_of_zero [simp]: "cells_of (b, 0) = {#}"
  by (simp add: cells_of_def)

lemma cells_upd: "i < length fl \<Longrightarrow> cells (fl[i := r]) + cells_of (fl ! i) = cells fl + cells_of r"
  using sum_list_map_upd[of i fl cells_of r] by (simp add: cells_def)

lemma in_cells_of [simp]: "x \<in># cells_of (b, l) \<longleftrightarrow> b \<le> x \<and> x < b + l"
  by (auto simp: cells_of_def)

lemma count_cells_of: "count (cells_of (b, l)) x = (if b \<le> x \<and> x < b + l then 1 else 0)"
  by (auto simp: cells_of_def)

lemma in_cells: "x \<in># cells fl \<longleftrightarrow> (\<exists>e \<in> set fl. fst e \<le> x \<and> x < fst e + snd e)"
  by (induction fl) auto

lemma cells_split: "a \<le> l \<Longrightarrow> cells_of (b, l) = cells_of (b, a) + cells_of (b + a, l - a)"
  unfolding cells_of_def fst_conv snd_conv
  by (metis le_add_diff_inverse mset_append upt_add_eq_append le_add1 group_cancel.add1)

lemma take_from_entry_cells:
  assumes "i < length fl" "fl ! i = (b, l)" "a \<le> l"
  shows "cells (take_from_entry a i fl) + cells_of (b, a) = cells fl"
proof -
  define r where "r = (if a < l then (b + a, l - a) else (0, 0))"
  have split: "cells_of (b, l) = cells_of (b, a) + cells_of r"
    using cells_split[OF assms(3), of b] assms(3) by (auto simp: r_def)
  have "cells (fl[i := r]) + cells_of (b, l) = cells fl + cells_of r"
    using cells_upd[OF assms(1), of r] assms(2) by simp
  then have "(cells (fl[i := r]) + cells_of (b, a)) + cells_of r = cells fl + cells_of r"
    unfolding split by (simp add: ac_simps)
  then have "cells (fl[i := r]) + cells_of (b, a) = cells fl" by simp
  then show ?thesis using assms(2) by (simp only: take_from_entry_def r_def fst_conv snd_conv)
qed

lemma coalesce_cells: "coalesce r fl = (r', fl') \<Longrightarrow> cells_of r' + cells fl' = cells_of r + cells fl"
proof (induction r fl arbitrary: r' fl' rule: coalesce.induct)
  case (2 base len eb el es)
  have join: "cells_of (eb, len + el) = cells_of (eb, el) + cells_of (base, len)" if "eb + el = base"
    using cells_split[of el "len + el" eb] that by simp
  have join': "cells_of (base, len + el) = cells_of (base, len) + cells_of (eb, el)" if "base + len = eb"
    using cells_split[of len "len + el" base] that by simp
  show ?case
  proof (cases "el = 0")
    case True
    then show ?thesis using 2 by (auto split: prod.splits)
  next
    case el: False
    show ?thesis
    proof (cases "eb + el = base")
      case True
      then obtain es' where c: "coalesce (eb, len + el) es = (r', es')" "fl' = (0, 0) # es'"
        using 2(5) el by (auto split: prod.splits)
      from 2(2)[OF el True c(1)] join[OF True] show ?thesis by (simp add: c(2) ac_simps)
    next
      case nl: False
      show ?thesis
      proof (cases "base + len = eb")
        case True
        then obtain es' where c: "coalesce (base, len + el) es = (r', es')" "fl' = (0, 0) # es'"
          using 2(5) el nl by (auto split: prod.splits)
        from 2(3)[OF el nl True c(1)] join'[OF True] show ?thesis by (simp add: c(2) ac_simps)
      next
        case nr: False
        then obtain es' where c: "coalesce (base, len) es = (r', es')" "fl' = (eb, el) # es'"
          using 2(5) el nl by (auto split: prod.splits)
        from 2(4)[OF el nl nr c(1)] show ?thesis by (simp add: c(2) ac_simps)
      qed
    qed
  qed
qed simp

lemma coalesce_length: "coalesce r fl = (r', fl') \<Longrightarrow> length fl' = length fl"
  by (induction r fl arbitrary: r' fl' rule: coalesce.induct) (auto split: prod.splits if_splits)

lemma place_cells: "place r fl = Some fl' \<Longrightarrow> cells fl' = cells fl + cells_of r \<and> length fl' = length fl"
proof -
  assume "place r fl = Some fl'"
  then obtain i where i: "i < length fl" "snd (fl ! i) = 0" and fl': "fl' = fl[i := r]"
    by (auto simp: place_def find_index_Some)
  have "cells_of (fl ! i) = {#}" using i(2) by (cases "fl ! i") simp
  then show ?thesis using cells_upd[OF i(1), of r] by (simp add: fl')
qed

subsection \<open>Best fit\<close>

definition best_upto :: "usize \<Rightarrow> range_slots \<Rightarrow> nat \<Rightarrow> nat option \<Rightarrow> bool" where
  "best_upto aligned fl n b =
     (case b of
        None \<Rightarrow> \<forall>j < n. snd (fl ! j) < aligned
      | Some i \<Rightarrow> i < n \<and> aligned \<le> snd (fl ! i) \<and>
          (\<forall>j < n. aligned \<le> snd (fl ! j) \<longrightarrow> snd (fl ! i) \<le> snd (fl ! j)))"

lemma best_upto_Suc:
  "best_upto aligned fl n b \<Longrightarrow>
   best_upto aligned fl (Suc n)
     (if aligned \<le> snd (fl ! n) \<and> (case b of None \<Rightarrow> True | Some prev \<Rightarrow> snd (fl ! n) < snd (fl ! prev))
      then Some n else b)"
  by (cases b) (auto simp: best_upto_def less_Suc_eq not_le not_less dest: leD intro: less_imp_le order_trans)

lemma best_fit_upto: "best_upto aligned fl (length fl) (best_fit aligned fl)"
proof -
  have "best_upto aligned fl n (foldl (\<lambda>best i.
         if aligned \<le> snd (fl ! i) \<and> (case best of None \<Rightarrow> True | Some prev \<Rightarrow> snd (fl ! i) < snd (fl ! prev))
         then Some i else best) None [0..<n])" for n
    by (induction n) (simp add: best_upto_def, simp add: best_upto_Suc)
  then show ?thesis by (simp add: best_fit_def)
qed

lemma best_fit_Some:
  "best_fit aligned fl = Some i \<Longrightarrow> i < length fl \<and> aligned \<le> snd (fl ! i) \<and>
     (\<forall>j < length fl. aligned \<le> snd (fl ! j) \<longrightarrow> snd (fl ! i) \<le> snd (fl ! j))"
  using best_fit_upto[of aligned fl] by (simp add: best_upto_def)

lemma best_fit_None: "best_fit aligned fl = None \<Longrightarrow> j < length fl \<Longrightarrow> snd (fl ! j) < aligned"
  using best_fit_upto[of aligned fl] by (simp add: best_upto_def)


subsection \<open>The arena in use\<close>

text \<open>The pool, the memory, and the ranges currently owned by VMO capabilities.  Owners may write into
  their ranges at any time; this includes the zeroing of a reserved range by the trap handler.\<close>

record vmo_world =
  vw_pool :: vmo_pool
  vw_mem :: memory
  vw_live :: range_slots

datatype vmo_op =
    VAlloc usize
  | VReserve usize
  | VFree nat
  | VIdle
  | VWrite nat usize u8

definition vmo_boot :: "memory \<Rightarrow> vmo_world" where
  "vmo_boot mem = \<lparr>vw_pool = vmo_pool_new, vw_mem = mem, vw_live = []\<rparr>"

fun vmo_exec :: "vmo_op \<Rightarrow> vmo_world \<Rightarrow> vmo_world" where
  "vmo_exec (VAlloc len) w =
     (case pool_allocate len (vw_pool w) (vw_mem w) of
        (Inr r, p, mem) \<Rightarrow> \<lparr>vw_pool = p, vw_mem = mem, vw_live = r # vw_live w\<rparr>
      | (Inl e, p, mem) \<Rightarrow> \<lparr>vw_pool = p, vw_mem = mem, vw_live = vw_live w\<rparr>)"
| "vmo_exec (VReserve len) w =
     (case pool_allocate_nozero len (vw_pool w) of
        (Inr (b, l, z), p) \<Rightarrow> w\<lparr>vw_pool := p, vw_live := (b, l) # vw_live w\<rparr>
      | (Inl e, p) \<Rightarrow> w\<lparr>vw_pool := p\<rparr>)"
| "vmo_exec (VFree i) w =
     (if length (vw_live w) \<le> i then w
      else case pool_free (fst (vw_live w ! i)) (snd (vw_live w ! i)) (vw_pool w) (vw_mem w) of
        (Inr _, p, mem) \<Rightarrow>
          \<lparr>vw_pool = p, vw_mem = mem, vw_live = take i (vw_live w) @ drop (Suc i) (vw_live w)\<rparr>
      | (Inl e, p, mem) \<Rightarrow> \<lparr>vw_pool = p, vw_mem = mem, vw_live = vw_live w\<rparr>)"
| "vmo_exec VIdle w =
     (case vmo_idle_zero_step (vw_pool w) (vw_mem w) of (_, p, mem) \<Rightarrow> w\<lparr>vw_pool := p, vw_mem := mem\<rparr>)"
| "vmo_exec (VWrite i off v) w =
     (if i < length (vw_live w) \<and> off < snd (vw_live w ! i)
      then w\<lparr>vw_mem := (vw_mem w)(fst (vw_live w ! i) + off := v)\<rparr> else w)"

definition vmo_run :: "vmo_op list \<Rightarrow> memory \<Rightarrow> vmo_world" where
  "vmo_run ops mem = fold vmo_exec ops (vmo_boot mem)"

definition paged :: "range_slots \<Rightarrow> bool" where
  "paged fl \<longleftrightarrow> (\<forall>e \<in> set fl. PAGE_SIZE dvd fst e \<and> PAGE_SIZE dvd snd e)"

definition pool_ready :: "vmo_pool \<Rightarrow> bool" where
  "pool_ready p \<longleftrightarrow>
     vp_base p = USER_VMO_ARENA_BASE \<and> vp_limit p = USER_VMO_ARENA_BASE + USER_VMO_ARENA_LEN \<and>
     vp_base p \<le> vp_next p \<and> vp_next p \<le> vp_limit p \<and> vp_next p \<le> vp_peak_next p \<and>
     vp_peak_next p \<le> vp_limit p \<and>
     PAGE_SIZE dvd vp_next p \<and> paged (vp_free_list p) \<and> paged (vp_dirty_list p) \<and>
     length (vp_free_list p) = VMO_FREE_SLOTS \<and> length (vp_dirty_list p) = VMO_FREE_SLOTS"

definition owned_once :: "range_slots \<Rightarrow> vmo_pool \<Rightarrow> bool" where
  "owned_once lv p \<longleftrightarrow>
     cells lv + cells (vp_free_list p) + cells (vp_dirty_list p) \<subseteq># mset [vp_base p..<vp_next p]"

definition free_zero :: "vmo_pool \<Rightarrow> memory \<Rightarrow> bool" where
  "free_zero p mem \<longleftrightarrow>
     (\<forall>x \<in># cells (vp_free_list p). mem x = 0) \<and> (\<forall>x. vp_next p \<le> x \<and> x < vp_zeroed_until p \<longrightarrow> mem x = 0)"

definition live_ok :: "range_slots \<Rightarrow> bool" where
  "live_ok lv \<longleftrightarrow> paged lv \<and> (\<forall>e \<in> set lv. snd e \<noteq> 0)"

definition vmo_inv :: "vmo_world \<Rightarrow> bool" where
  "vmo_inv w \<longleftrightarrow> (let p = ensure_initialized (vw_pool w) in
     pool_ready p \<and> owned_once (vw_live w) p \<and> free_zero p (vw_mem w) \<and> live_ok (vw_live w))"

lemmas arena_consts = PAGE_SIZE_def USER_VMO_ARENA_BASE_def USER_VMO_ARENA_LEN_def VMO_FREE_SLOTS_def

lemma vmo_boot_inv: "vmo_inv (vmo_boot mem)"
  by (auto simp: vmo_inv_def vmo_boot_def ensure_initialized_def vmo_pool_new_def pool_ready_def
      owned_once_def free_zero_def live_ok_def paged_def align_up_addr_def page_floor_def
      saturating_add_def usize_max_def arena_consts)

lemma ready_base: "pool_ready p \<Longrightarrow> vp_base p \<noteq> 0"
  by (simp add: pool_ready_def USER_VMO_ARENA_BASE_def)

lemma ensure_ready: "pool_ready p \<Longrightarrow> ensure_initialized p = p"
  using ready_base by (simp add: ensure_initialized_def)

lemma ensure_idem [simp]: "ensure_initialized (ensure_initialized p) = ensure_initialized p"
  by (simp add: ensure_initialized_def align_up_addr_def page_floor_def arena_consts Let_def)

text \<open>Every operation starts with \<open>ensure_initialized\<close>, so it may be assumed done.\<close>

lemma ensure_absorb:
  "pool_allocate len (ensure_initialized p) mem = pool_allocate len p mem"
  "pool_allocate_nozero len (ensure_initialized p) = pool_allocate_nozero len p"
  "pool_free b l (ensure_initialized p) mem = pool_free b l p mem"
  "idle_zero_step n (ensure_initialized p) mem = idle_zero_step n p mem"
  by (simp_all add: pool_allocate_def pool_allocate_nozero_def pool_free_def idle_zero_step_def)


subsection \<open>Allocation keeps the invariant\<close>

lemma page_dvd_floor [simp]: "PAGE_SIZE dvd page_floor x"
  by (simp add: page_floor_def)

lemma align_len_Some:
  assumes "align_len len = Some a" "len \<noteq> 0"
  shows "PAGE_SIZE dvd a" "len \<le> a" "a < len + PAGE_SIZE" "a \<noteq> 0"
proof -
  have a: "a = page_floor (len + (PAGE_SIZE - 1))"
    using assms by (auto simp: align_len_def checked_add_def split: if_splits)
  show "PAGE_SIZE dvd a" by (simp add: a)
  show le: "len \<le> a"
    unfolding a page_floor_def PAGE_SIZE_def by (simp add: le_div_geq)
  show "a < len + PAGE_SIZE" 
    unfolding a page_floor_def PAGE_SIZE_def using div_times_less_eq_dividend[of "len + 4095" 4096] by simp
  show "a \<noteq> 0" using le assms(2) by simp
qed

lemma align_len_paged [simp]: "PAGE_SIZE dvd l \<Longrightarrow> l \<le> usize_max - PAGE_SIZE \<Longrightarrow> align_len l = Some l"
  by (auto simp: align_len_def checked_add_def page_floor_def PAGE_SIZE_def usize_max_def dvd_def)

lemma paged_upd: "paged fl \<Longrightarrow> PAGE_SIZE dvd fst r \<Longrightarrow> PAGE_SIZE dvd snd r \<Longrightarrow> paged (fl[i := r])"
  by (auto simp: paged_def dest: set_update_subset_insert[THEN subsetD])

lemma paged_nth: "paged fl \<Longrightarrow> i < length fl \<Longrightarrow> PAGE_SIZE dvd fst (fl ! i) \<and> PAGE_SIZE dvd snd (fl ! i)"
  by (simp add: paged_def)

lemma take_from_entry_paged:
  "paged fl \<Longrightarrow> i < length fl \<Longrightarrow> PAGE_SIZE dvd a \<Longrightarrow> paged (take_from_entry a i fl)"
  unfolding take_from_entry_def by (rule paged_upd) (auto dest: paged_nth)

lemma reuse_keeps:
  assumes r: "pool_ready p" and o: "owned_once lv p" and z: "free_zero p mem"
    and b: "best_fit a (vp_free_list p) = Some i" and a: "PAGE_SIZE dvd a"
  defines "p' \<equiv> p\<lparr>vp_free_list := take_from_entry a i (vp_free_list p)\<rparr>"
    and "rb \<equiv> fst (vp_free_list p ! i)"
  shows "pool_ready p'" "owned_once ((rb, a) # lv) p'" "free_zero p' mem"
    "PAGE_SIZE dvd rb" "x \<in># cells_of (rb, a) \<Longrightarrow> mem x = 0"
proof -
  let ?fl = "vp_free_list p"
  have i: "i < length ?fl" "a \<le> snd (?fl ! i)" using best_fit_Some[OF b] by auto
  have c: "cells (take_from_entry a i ?fl) + cells_of (rb, a) = cells ?fl"
    using take_from_entry_cells[of i ?fl rb "snd (?fl ! i)" a] i by (simp add: rb_def)
  show "PAGE_SIZE dvd rb" using r i(1) paged_nth by (simp add: pool_ready_def rb_def)
  show "pool_ready p'"
    using r take_from_entry_paged[OF _ i(1) a] by (simp add: pool_ready_def p'_def take_from_entry_def)
  show "owned_once ((rb, a) # lv) p'"
    using o unfolding owned_once_def c[symmetric] by (simp add: p'_def ac_simps)
  have z': "\<forall>x \<in># cells ?fl. mem x = 0" using z by (simp add: free_zero_def)
  have m: "set_mset (cells ?fl) = set_mset (cells (take_from_entry a i ?fl)) \<union> set_mset (cells_of (rb, a))"
    by (simp only: c[symmetric] set_mset_union)
  show "free_zero p' mem" using z z' m by (simp add: free_zero_def p'_def)
  show "x \<in># cells_of (rb, a) \<Longrightarrow> mem x = 0" using z' m by blast
qed

lemma bump_keeps:
  assumes r: "pool_ready p" and o: "owned_once lv p" and z: "free_zero p mem"
    and l: "vp_next p + a \<le> vp_limit p" and a: "PAGE_SIZE dvd a"
  defines "p' \<equiv> bump (vp_next p + a) p"
  shows "pool_ready p'" "owned_once ((vp_next p, a) # lv) p'" "free_zero p' mem"
proof -
  show "pool_ready p'" using r l a by (simp add: pool_ready_def p'_def bump_def)
  have "mset [vp_base p..<vp_next p + a] = cells_of (vp_next p, a) + mset [vp_base p..<vp_next p]"
    using r upt_add_eq_append[of "vp_base p" "vp_next p" a] by (simp add: cells_of_def pool_ready_def)
  then show "owned_once ((vp_next p, a) # lv) p'"
    using o by (simp add: owned_once_def p'_def bump_def add.assoc)
  show "free_zero p' mem" using z by (auto simp: free_zero_def p'_def bump_def)
qed

lemma owned_not_live:
  "owned_once lv p \<Longrightarrow> x \<in># cells lv \<Longrightarrow>
     x \<notin># cells (vp_free_list p) \<and> x \<notin># cells (vp_dirty_list p) \<and> vp_base p \<le> x \<and> x < vp_next p"
proof -
  assume o: "owned_once lv p" and x: "x \<in># cells lv"
  have "count (cells lv + cells (vp_free_list p) + cells (vp_dirty_list p)) x \<le> count (mset [vp_base p..<vp_next p]) x"
    by (rule mset_subset_eq_count[OF o[unfolded owned_once_def]])
  also have "\<dots> \<le> 1" by (simp add: count_mset_set')
  finally have c: "count (cells lv) x + count (cells (vp_free_list p)) x + count (cells (vp_dirty_list p)) x \<le> 1"
    by simp
  moreover have "0 < count (cells lv) x" using x by simp
  ultimately have "count (cells (vp_free_list p)) x = 0" "count (cells (vp_dirty_list p)) x = 0" by linarith+
  moreover have "x \<in># mset [vp_base p..<vp_next p]"
    by (rule mset_subset_eqD[OF o[unfolded owned_once_def]]) (simp add: x)
  ultimately show ?thesis by (auto simp: count_eq_zero_iff)
qed


definition pool_good :: "range_slots \<Rightarrow> vmo_pool \<Rightarrow> memory \<Rightarrow> bool" where
  "pool_good lv p mem \<longleftrightarrow> pool_ready p \<and> owned_once lv p \<and> free_zero p mem"

lemma write_zero_simps [simp]:
  "mem x = 0 \<Longrightarrow> write_zero a n mem x = 0"
  "a \<le> x \<Longrightarrow> x < a + n \<Longrightarrow> write_zero a n mem x = 0"
  "x < a \<or> a + n \<le> x \<Longrightarrow> write_zero a n mem x = mem x"
  by (auto simp: write_zero_def)

lemma free_zero_write [simp]: "free_zero p mem \<Longrightarrow> free_zero p (write_zero a n mem)"
  by (auto simp: free_zero_def)

lemma checked_add_Some: "checked_add a b = Some c \<longleftrightarrow> c = a + b \<and> a + b \<le> usize_max"
  by (auto simp: checked_add_def)

lemma allocate_ready:
  assumes "pool_ready p" "align_len len = Some a" "len \<noteq> 0"
  shows "pool_allocate len p mem =
    (case best_fit a (vp_free_list p) of
       Some i \<Rightarrow> (Inr (fst (vp_free_list p ! i), a), p\<lparr>vp_free_list := take_from_entry a i (vp_free_list p)\<rparr>, mem)
     | None \<Rightarrow>
         if vp_limit p < vp_next p + a then (Inl PermissionDenied, p, mem)
         else let e = vp_next p + a; d = min (max (vp_zeroed_until p) (vp_next p)) e in
           (Inr (vp_next p, a), (bump e p)\<lparr>vp_zeroed_until := max (vp_zeroed_until p) e\<rparr>,
            write_zero d (e - d) mem))"
proof -
  have lim: "vp_limit p \<le> usize_max"
    using assms(1) by (simp add: pool_ready_def usize_max_def arena_consts)
  have wz: "write_zero d 0 mem = mem" for d by (rule ext) (auto simp: write_zero_def)
  show ?thesis
    using assms lim
    by (auto simp: pool_allocate_def ensure_ready checked_add_def Let_def max_def wz split: option.splits)
qed

lemma allocate_good:
  assumes g: "pool_good lv p mem" and al: "pool_allocate len p mem = (Inr (b, l), p', mem')"
  shows "pool_good ((b, l) # lv) p' mem'"
    and "align_len len = Some l \<and> len \<noteq> 0 \<and> PAGE_SIZE dvd b"
    and "x \<in># cells_of (b, l) \<Longrightarrow> mem' x = 0"
    and "x \<in># cells lv \<Longrightarrow> mem' x = mem x"
proof -
  have r: "pool_ready p" and o: "owned_once lv p" and z: "free_zero p mem" using g by (auto simp: pool_good_def)
  have len: "len \<noteq> 0" using al by (cases "len = 0") (auto simp: pool_allocate_def Let_def)
  obtain a where a: "align_len len = Some a"
    using al len by (auto simp: pool_allocate_def Let_def split: option.splits)
  note pa = align_len_Some[OF a len]
  note al' = al[unfolded allocate_ready[OF r a len]]
  have "pool_good ((b, l) # lv) p' mem' \<and> (align_len len = Some l \<and> len \<noteq> 0 \<and> PAGE_SIZE dvd b) \<and>
      (x \<in># cells_of (b, l) \<longrightarrow> mem' x = 0) \<and> (x \<in># cells lv \<longrightarrow> mem' x = mem x)" for x
  proof (cases "best_fit a (vp_free_list p)")
    case (Some i)
    then have eq: "b = fst (vp_free_list p ! i)" "l = a" "mem' = mem"
      "p' = p\<lparr>vp_free_list := take_from_entry a i (vp_free_list p)\<rparr>" using al' by auto
    show ?thesis
      using reuse_keeps(1,2,3,4)[OF r o z Some pa(1)] reuse_keeps(5)[OF r o z Some pa(1)] a len
      unfolding eq pool_good_def by blast
  next
    case None
    define e d where ed: "e = vp_next p + a" "d = min (max (vp_zeroed_until p) (vp_next p)) e"
    have lim: "vp_next p + a \<le> vp_limit p" using al' None by (auto split: if_splits)
    have eq: "b = vp_next p" "l = a" "p' = (bump e p)\<lparr>vp_zeroed_until := max (vp_zeroed_until p) e\<rparr>"
      "mem' = write_zero d (e - d) mem"
      using al' None lim by (auto simp: Let_def ed)
    note k = bump_keeps[OF r o z lim pa(1), folded ed(1)]
    have z0: "\<forall>x. vp_next p \<le> x \<and> x < vp_zeroed_until p \<longrightarrow> mem x = 0" using z by (simp add: free_zero_def)
    have "free_zero p' mem'"
      using k(3) z0 by (auto simp: free_zero_def eq bump_def ed(1))
    moreover have "pool_ready p'" using k(1) by (simp add: pool_ready_def eq)
    moreover have "owned_once ((b, l) # lv) p'" using k(2) by (simp add: owned_once_def eq)
    moreover have "mem' x = 0" if "x \<in># cells_of (b, l)"
    proof (cases "x < d")
      case True
      then show ?thesis using z0 that by (auto simp: eq ed(2) less_max_iff_disj)
    qed (use that in \<open>simp add: eq ed\<close>)
    moreover have "mem' x = mem x" if "x \<in># cells lv"
      using owned_not_live[OF o that] by (auto simp: eq ed)
    ultimately show ?thesis using a len r by (auto simp: pool_good_def eq(1,2) pool_ready_def)
  qed
  then show "pool_good ((b, l) # lv) p' mem'" "align_len len = Some l \<and> len \<noteq> 0 \<and> PAGE_SIZE dvd b"
    "x \<in># cells_of (b, l) \<Longrightarrow> mem' x = 0" "x \<in># cells lv \<Longrightarrow> mem' x = mem x" by blast+
qed

lemma allocate_error:
  "pool_ready p \<Longrightarrow> pool_allocate len p mem = (Inl e, p', mem') \<Longrightarrow> p' = p \<and> mem' = mem"
  by (auto simp: pool_allocate_def ensure_ready Let_def split: option.splits if_splits)

lemma reserve_good:
  assumes g: "pool_good lv p mem" and al: "pool_allocate_nozero len p = (Inr (b, l, nz), p')"
  shows "pool_good ((b, l) # lv) p' mem" "align_len len = Some l \<and> len \<noteq> 0 \<and> PAGE_SIZE dvd b"
    "\<not> nz \<Longrightarrow> x \<in># cells_of (b, l) \<Longrightarrow> mem x = 0"
proof -
  have r: "pool_ready p" and o: "owned_once lv p" and z: "free_zero p mem" using g by (auto simp: pool_good_def)
  have len: "len \<noteq> 0" using al by (cases "len = 0") (auto simp: pool_allocate_nozero_def Let_def)
  obtain a where a: "align_len len = Some a"
    using al len by (auto simp: pool_allocate_nozero_def Let_def split: option.splits)
  note pa = align_len_Some[OF a len]
  have "pool_good ((b, l) # lv) p' mem \<and> (align_len len = Some l \<and> len \<noteq> 0 \<and> PAGE_SIZE dvd b) \<and>
      (\<not> nz \<longrightarrow> x \<in># cells_of (b, l) \<longrightarrow> mem x = 0)" for x
  proof (cases "best_fit a (vp_free_list p)")
    case (Some i)
    then have eq: "b = fst (vp_free_list p ! i)" "l = a"
      "p' = p\<lparr>vp_free_list := take_from_entry a i (vp_free_list p)\<rparr>"
      using al a len by (auto simp: pool_allocate_nozero_def ensure_ready[OF r])
    show ?thesis
      using reuse_keeps(1,2,3,4)[OF r o z Some pa(1)] reuse_keeps(5)[OF r o z Some pa(1)] a len
      unfolding eq pool_good_def by blast
  next
    case None
    then have lim: "vp_next p + a \<le> vp_limit p" and eq: "b = vp_next p" "l = a" "p' = bump (vp_next p + a) p"
      "nz = (vp_zeroed_until p < vp_next p + a)"
      using al a len
      by (auto simp: pool_allocate_nozero_def ensure_ready[OF r] checked_add_def Let_def split: if_splits)
    show ?thesis
      using bump_keeps[OF r o z lim pa(1)] z r a len by (auto simp: eq pool_good_def free_zero_def pool_ready_def)
  qed
  then show "pool_good ((b, l) # lv) p' mem" "align_len len = Some l \<and> len \<noteq> 0 \<and> PAGE_SIZE dvd b"
    "\<not> nz \<Longrightarrow> x \<in># cells_of (b, l) \<Longrightarrow> mem x = 0" by blast+
qed

lemma reserve_error: "pool_ready p \<Longrightarrow> pool_allocate_nozero len p = (Inl e, p') \<Longrightarrow> p' = p"
  by (auto simp: pool_allocate_nozero_def ensure_ready Let_def split: option.splits if_splits)


subsection \<open>Freeing keeps the invariant\<close>

definition no_overlap :: "usize \<Rightarrow> usize \<Rightarrow> vmo_pool \<Rightarrow> bool" where
  "no_overlap b l p \<longleftrightarrow> (\<forall>e \<in> set (vp_free_list p @ vp_dirty_list p). \<not> overlaps_entry b (b + l) e)"

lemma overlap_common:
  "overlaps_entry b (b + l) e \<Longrightarrow> l \<noteq> 0 \<Longrightarrow> \<exists>x. x \<in># cells_of (b, l) \<and> fst e \<le> x \<and> x < fst e + snd e"
  by (rule exI[of _ "max b (fst e)"]) (auto simp: overlaps_entry_def)

lemma live_no_overlap:
  assumes "owned_once lv p" "set_mset (cells_of (b, l)) \<subseteq> set_mset (cells lv)" "l \<noteq> 0"
  shows "no_overlap b l p"
  unfolding no_overlap_def
proof (intro ballI notI)
  fix e assume e: "e \<in> set (vp_free_list p @ vp_dirty_list p)" and "overlaps_entry b (b + l) e"
  then obtain x where x: "x \<in># cells_of (b, l)" "fst e \<le> x \<and> x < fst e + snd e"
    using overlap_common assms(3) by blast
  then have "x \<in># cells (vp_free_list p) \<or> x \<in># cells (vp_dirty_list p)"
    using e by (auto simp: in_cells)
  then show False using owned_not_live[OF assms(1)] x(1) assms(2) by blast
qed

lemma live_range:
  assumes o: "owned_once lv p" and s: "set_mset (cells_of (b, l)) \<subseteq> set_mset (cells lv)" and "l \<noteq> 0"
  shows "vp_base p \<le> b" "b + l \<le> vp_next p"
proof -
  have "b \<in># cells_of (b, l)" "b + l - 1 \<in># cells_of (b, l)" using assms(3) by simp_all
  then have "vp_base p \<le> b" "b + l - 1 < vp_next p" using owned_not_live[OF o] s by blast+
  then show "vp_base p \<le> b" "b + l \<le> vp_next p" by simp_all
qed

lemma owned_write_keeps:
  assumes o: "cells_of (b, l) + (cells lv + F + D) \<subseteq># mset [m..<n]" and x: "x \<in># cells lv"
  shows "write_zero b l mem x = mem x"
proof -
  have "count (cells_of (b, l) + (cells lv + F + D)) x \<le> count (mset [m..<n]) x"
    by (rule mset_subset_eq_count[OF o])
  also have "\<dots> \<le> 1" by (simp add: count_mset_set')
  finally have "count (cells_of (b, l)) x + count (cells lv) x \<le> 1" by simp
  moreover have "0 < count (cells lv) x" using x by simp
  ultimately have "count (cells_of (b, l)) x = 0" by linarith
  then show ?thesis by (auto simp: count_cells_of split: if_splits)
qed

lemma live_disjoint:
  assumes o: "owned_once ((b, l) # lv) p" and e: "e \<in> set lv" and "snd e \<noteq> 0" "l \<noteq> 0"
  shows "b + l \<le> fst e \<or> fst e + snd e \<le> b"
proof (rule ccontr)
  assume "\<not> ?thesis"
  then have "overlaps_entry b (b + l) e" using assms(3) by (auto simp: overlaps_entry_def)
  then obtain x where x: "x \<in># cells_of (b, l)" "fst e \<le> x \<and> x < fst e + snd e"
    using overlap_common assms(4) by blast
  have "x \<in># cells lv" using e x(2) by (auto simp: in_cells)
  moreover have "cells_of (b, l) + (cells lv + cells (vp_free_list p) + cells (vp_dirty_list p))
      \<subseteq># mset [vp_base p..<vp_next p]" using o by (simp add: owned_once_def ac_simps)
  ultimately have "write_zero b l (\<lambda>_. 1) x = 1" using owned_write_keeps by blast
  then show False using x(1) by (simp add: write_zero_def)
qed

text \<open>What \<open>free\<close> does with a range that passes its checks.\<close>

lemma free_accepted:
  assumes "pool_ready p" "PAGE_SIZE dvd b" "PAGE_SIZE dvd l" "l \<noteq> 0" "vp_base p \<le> b" "b + l \<le> vp_next p"
    "no_overlap b l p"
  shows "pool_free b l p mem =
     (if b + l = vp_next p then (Inr (), p\<lparr>vp_next := b, vp_zeroed_until := min b (vp_zeroed_until p)\<rparr>, mem)
      else case place (b, l) (vp_dirty_list p) of
        Some dl \<Rightarrow> (Inr (), p\<lparr>vp_dirty_list := dl\<rparr>, mem)
      | None \<Rightarrow> (case place (b, l) (vp_free_list p) of
           Some fl \<Rightarrow> (Inr (), p\<lparr>vp_free_list := fl\<rparr>, write_zero b l mem)
         | None \<Rightarrow> (Inr (), p\<lparr>vp_leaked := saturating_add (vp_leaked p) l\<rparr>, write_zero b l mem)))"
proof -
  have small: "b + l + PAGE_SIZE \<le> usize_max"
    using assms(1,6) by (simp add: pool_ready_def usize_max_def arena_consts)
  have "align_len l = Some l" by (rule align_len_paged[OF assms(3)]) (use small in simp)
  moreover have "checked_add b l = Some (b + l)" using small by (simp add: checked_add_def)
  moreover have "b mod PAGE_SIZE = 0" using assms(2) by simp
  moreover have "\<not> (\<exists>e \<in> set (vp_free_list p @ vp_dirty_list p). overlaps_entry b (b + l) e)"
    using assms(7) by (simp add: no_overlap_def)
  ultimately show ?thesis
    using assms(1,4,5,6)
    by (simp add: pool_free_def ensure_ready Let_def min_def del: set_append split: option.splits)
qed

lemma free_rejected:
  assumes r: "pool_ready p" and d: "PAGE_SIZE dvd b" "PAGE_SIZE dvd l" and s: "b + l + PAGE_SIZE \<le> usize_max"
    and c: "vp_next p < b + l \<or> \<not> no_overlap b l p"
  shows "pool_free b l p mem = (Inl PermissionDenied, p, mem)"
proof -
  have "align_len l = Some l" by (rule align_len_paged[OF d(2)]) (use s in simp)
  moreover have "checked_add b l = Some (b + l)" using s by (simp add: checked_add_def)
  moreover have "\<not> no_overlap b l p \<Longrightarrow>
      \<exists>e \<in> set (vp_free_list p @ vp_dirty_list p). overlaps_entry b (b + l) e" by (simp add: no_overlap_def)
  ultimately show ?thesis
    using c by (auto simp: pool_free_def ensure_ready[OF r] Let_def simp del: set_append)
qed

lemma place_Some_mem: "place r fl = Some fl' \<Longrightarrow> r \<in> set fl'"
  by (auto simp: place_def find_index_Some set_update_memI)

lemma place_None: "place r fl = None \<Longrightarrow> 0 \<notin> snd ` set fl"
  by (auto simp: place_def find_index_None)

lemma overlap_self: "l \<noteq> 0 \<Longrightarrow> (b, l) \<in> set (vp_free_list p @ vp_dirty_list p) \<Longrightarrow> \<not> no_overlap b l p"
  by (force simp: no_overlap_def overlaps_entry_def)

lemma place_paged: "place r fl = Some fl' \<Longrightarrow> paged fl \<Longrightarrow> PAGE_SIZE dvd fst r \<Longrightarrow> PAGE_SIZE dvd snd r \<Longrightarrow> paged fl'"
  by (auto simp: place_def intro: paged_upd)

lemma free_twice:
  assumes r: "pool_ready p" and d: "PAGE_SIZE dvd b" "PAGE_SIZE dvd l" "l \<noteq> 0"
    and rg: "vp_base p \<le> b" "b + l \<le> vp_next p" and no: "no_overlap b l p"
  shows "\<exists>p' mem'. pool_free b l p mem = (Inr (), p', mem') \<and>
     (pool_free b l p' mem' = (Inl PermissionDenied, p', mem') \<or>
      (0 \<notin> snd ` set (vp_dirty_list p') \<and> 0 \<notin> snd ` set (vp_free_list p') \<and>
       vp_leaked p' = saturating_add (vp_leaked p) l))"
proof -
  have s: "b + l + PAGE_SIZE \<le> usize_max" using r rg(2) by (simp add: pool_ready_def usize_max_def arena_consts)
  note fa = free_accepted[OF assms, of mem]
  show ?thesis
  proof (cases "b + l = vp_next p")
    case True
    have "pool_ready (p\<lparr>vp_next := b, vp_zeroed_until := min b (vp_zeroed_until p)\<rparr>)"
      using r d rg by (auto simp: pool_ready_def)
    from free_rejected[OF this d(1,2) s, of mem] show ?thesis using fa True d(3) by simp
  next
    case ne: False
    show ?thesis
    proof (cases "place (b, l) (vp_dirty_list p)")
      case (Some dl)
      have "pool_ready (p\<lparr>vp_dirty_list := dl\<rparr>)"
        using r d place_cells[OF Some] place_paged[OF Some] by (auto simp: pool_ready_def)
      from free_rejected[OF this d(1,2) s, of mem] show ?thesis
        using fa ne Some overlap_self[OF d(3)] place_Some_mem[OF Some] by simp
    next
      case nd: None
      show ?thesis
      proof (cases "place (b, l) (vp_free_list p)")
        case (Some fl)
        have "pool_ready (p\<lparr>vp_free_list := fl\<rparr>)"
          using r d place_cells[OF Some] place_paged[OF Some] by (auto simp: pool_ready_def)
        from free_rejected[OF this d(1,2) s, of "write_zero b l mem"] show ?thesis
          using fa ne nd Some overlap_self[OF d(3)] place_Some_mem[OF Some] by simp
      next
        case None
        then show ?thesis using fa ne nd place_None[OF nd] place_None[OF None] by simp
      qed
    qed
  qed
qed

lemma unbump_good:
  assumes r: "pool_ready p" and z: "free_zero p mem"
    and o: "cells_of (b, l) + (cells lv + cells (vp_free_list p) + cells (vp_dirty_list p))
              \<subseteq># mset [vp_base p..<vp_next p]"
    and e: "b + l = vp_next p" and "vp_base p \<le> b" "PAGE_SIZE dvd b"
  shows "pool_good lv (p\<lparr>vp_next := b, vp_zeroed_until := min b (vp_zeroed_until p)\<rparr>) mem"
proof -
  have "mset [vp_base p..<vp_next p] = cells_of (b, l) + mset [vp_base p..<b]"
    using upt_add_eq_append[OF assms(5), of l] e by (simp add: cells_of_def)
  then have "cells lv + cells (vp_free_list p) + cells (vp_dirty_list p) \<subseteq># mset [vp_base p..<b]"
    using o by simp
  then show ?thesis
    using r z assms(5,6) e by (auto simp: pool_good_def pool_ready_def owned_once_def free_zero_def)
qed

lemma free_good:
  assumes g: "pool_good lv p mem" and lv: "cells lv = cells_of (b, l) + cells lv'"
    and d: "PAGE_SIZE dvd b" "PAGE_SIZE dvd l" "l \<noteq> 0"
  obtains p' mem' where "pool_free b l p mem = (Inr (), p', mem')" "pool_good lv' p' mem'"
    "\<And>x. x \<in># cells lv' \<Longrightarrow> mem' x = mem x"
proof -
  have r: "pool_ready p" and o: "owned_once lv p" and z: "free_zero p mem" using g by (auto simp: pool_good_def)
  have sub: "set_mset (cells_of (b, l)) \<subseteq> set_mset (cells lv)" by (simp add: lv)
  note rg = live_range[OF o sub d(3)]
  note fa = free_accepted[OF r d rg live_no_overlap[OF o sub d(3)], of mem]
  let ?R = "cells lv' + cells (vp_free_list p) + cells (vp_dirty_list p)"
  have o': "cells_of (b, l) + ?R \<subseteq># mset [vp_base p..<vp_next p]"
    using o by (simp add: owned_once_def lv ac_simps)
  have keep: "write_zero b l mem x = mem x" if "x \<in># cells lv'" for x
    by (rule owned_write_keeps[OF o' that])
  show thesis
  proof (cases "b + l = vp_next p")
    case True
    then show thesis using that fa unbump_good[OF r z o' True rg(1) d(1)] by simp
  next
    case ne: False
    have sub': "?R \<subseteq># mset [vp_base p..<vp_next p]"
      using o' mset_subset_eq_add_right subset_mset.order_trans by blast
    have wz: "free_zero p (write_zero b l mem)" using z by simp
    show thesis
    proof (cases "place (b, l) (vp_dirty_list p)")
      case (Some dl)
      note pc = place_cells[OF Some] place_paged[OF Some]
      have "pool_good lv' (p\<lparr>vp_dirty_list := dl\<rparr>) mem"
        using r z o' pc d by (simp add: pool_good_def pool_ready_def owned_once_def free_zero_def ac_simps)
      then show thesis using that fa ne Some by simp
    next
      case nd: None
      show thesis
      proof (cases "place (b, l) (vp_free_list p)")
        case (Some fl)
        note pc = place_cells[OF Some] place_paged[OF Some]
        have "free_zero (p\<lparr>vp_free_list := fl\<rparr>) (write_zero b l mem)"
          using wz pc by (auto simp: free_zero_def)
        then have "pool_good lv' (p\<lparr>vp_free_list := fl\<rparr>) (write_zero b l mem)"
          using r o' pc d by (simp add: pool_good_def pool_ready_def owned_once_def ac_simps)
        then show thesis using that fa ne nd Some keep by simp
      next
        case None
        have "pool_good lv' (p\<lparr>vp_leaked := saturating_add (vp_leaked p) l\<rparr>) (write_zero b l mem)"
          using r wz sub' by (simp add: pool_good_def pool_ready_def owned_once_def free_zero_def)
        then show thesis using that fa ne nd None keep by simp
      qed
    qed
  qed
qed


subsection \<open>Idle zeroing keeps the invariant\<close>

lemma paged_Cons [simp]: "paged (e # fl) \<longleftrightarrow> PAGE_SIZE dvd fst e \<and> PAGE_SIZE dvd snd e \<and> paged fl"
  by (auto simp: paged_def)

lemma coalesce_paged:
  "coalesce r fl = (r', fl') \<Longrightarrow> paged fl \<Longrightarrow> PAGE_SIZE dvd fst r \<Longrightarrow> PAGE_SIZE dvd snd r \<Longrightarrow>
     paged fl' \<and> PAGE_SIZE dvd fst r' \<and> PAGE_SIZE dvd snd r'"
  by (induction r fl arbitrary: r' fl' rule: coalesce.induct) (auto split: prod.splits if_splits)

text \<open>The free and dirty addresses after a zeroed dirty entry is promoted: the same ones, unless no slot
  was empty, in which case the coalesced range is dropped and counted as leaked.\<close>

definition promote :: "usize \<times> usize \<Rightarrow> range_slots \<Rightarrow> usize \<Rightarrow> range_slots \<times> usize" where
  "promote e fl leaked =
     (case coalesce e fl of (r, fl1) \<Rightarrow>
        (case place r fl1 of Some fl2 \<Rightarrow> (fl2, leaked) | None \<Rightarrow> (fl1, saturating_add leaked (snd r))))"

lemma promote_cells:
  assumes "promote e fl k = (fl', k')"
  shows "(cells fl' = cells fl + cells_of e \<and> k' = k) \<or>
     (\<exists>r. cells fl' + cells_of r = cells fl + cells_of e \<and> k' = saturating_add k (snd r))"
    "length fl' = length fl"
    "paged fl \<Longrightarrow> PAGE_SIZE dvd fst e \<Longrightarrow> PAGE_SIZE dvd snd e \<Longrightarrow> paged fl'"
proof -
  obtain r fl1 where c: "coalesce e fl = (r, fl1)" by (cases "coalesce e fl")
  note cc = coalesce_cells[OF c] coalesce_length[OF c]
  have "((cells fl' = cells fl + cells_of e \<and> k' = k) \<or>
     (\<exists>r. cells fl' + cells_of r = cells fl + cells_of e \<and> k' = saturating_add k (snd r))) \<and>
    length fl' = length fl \<and>
    (paged fl \<longrightarrow> PAGE_SIZE dvd fst e \<longrightarrow> PAGE_SIZE dvd snd e \<longrightarrow> paged fl')"
  proof (cases "place r fl1")
    case None
    then have eq: "fl' = fl1" "k' = saturating_add k (snd r)" using assms c by (auto simp: promote_def)
    have "cells fl' + cells_of r = cells fl + cells_of e" using cc(1) by (simp add: eq ac_simps)
    then show ?thesis using cc(2) coalesce_paged[OF c] eq by blast
  next
    case (Some fl2)
    then have eq: "fl' = fl2" "k' = k" using assms c by (auto simp: promote_def)
    have "cells fl' = cells fl + cells_of e" using place_cells[OF Some] cc(1) by (simp add: eq ac_simps)
    moreover have "length fl' = length fl" using place_cells[OF Some] cc(2) by (simp add: eq)
    ultimately show ?thesis using coalesce_paged[OF c] place_paged[OF Some] eq by blast
  qed
  then show "(cells fl' = cells fl + cells_of e \<and> k' = k) \<or>
     (\<exists>r. cells fl' + cells_of r = cells fl + cells_of e \<and> k' = saturating_add k (snd r))"
    "length fl' = length fl"
    "paged fl \<Longrightarrow> PAGE_SIZE dvd fst e \<Longrightarrow> PAGE_SIZE dvd snd e \<Longrightarrow> paged fl'" by blast+
qed

lemma idle_dirty:
  assumes "pool_ready p" "find_index (\<lambda>e. snd e \<noteq> 0) (vp_dirty_list p) = Some i"
    and "vp_dirty_list p ! i = (b, l)"
  shows "l \<le> budget \<Longrightarrow> promote (b, l) (vp_free_list p) (vp_leaked p) = (fl, k) \<Longrightarrow>
      idle_zero_step budget p mem =
        (l, p\<lparr>vp_dirty_list := (vp_dirty_list p)[i := (0, 0)], vp_free_list := fl, vp_leaked := k\<rparr>,
         write_zero b l mem)"
    and "budget < l \<Longrightarrow>
      idle_zero_step budget p mem =
        (budget, p\<lparr>vp_dirty_list := (vp_dirty_list p)[i := (b + budget, l - budget)]\<rparr>, write_zero b budget mem)"
  using assms
  by (auto simp: idle_zero_step_def ensure_ready Let_def promote_def split: prod.splits option.splits)

lemma idle_full_good:
  assumes g: "pool_good lv p mem" and i: "i < length (vp_dirty_list p)" "vp_dirty_list p ! i = (b, l)"
    and pr: "promote (b, l) (vp_free_list p) (vp_leaked p) = (fl, k)"
  shows "pool_good lv (p\<lparr>vp_dirty_list := (vp_dirty_list p)[i := (0, 0)], vp_free_list := fl, vp_leaked := k\<rparr>)
     (write_zero b l mem)"
proof -
  let ?D = "cells ((vp_dirty_list p)[i := (0, 0)])"
  have r: "pool_ready p" and o: "owned_once lv p" and z: "free_zero p mem" using g by (auto simp: pool_good_def)
  have pg: "PAGE_SIZE dvd b" "PAGE_SIZE dvd l" using r paged_nth[of "vp_dirty_list p" i] i by (auto simp: pool_ready_def)
  have D: "?D + cells_of (b, l) = cells (vp_dirty_list p)" using cells_upd[OF i(1), of "(0, 0)"] i(2) by simp
  have sub: "cells fl \<subseteq># cells (vp_free_list p) + cells_of (b, l)"
    using promote_cells(1)[OF pr]
  proof (elim disjE exE conjE)
    fix r' assume "cells fl + cells_of r' = cells (vp_free_list p) + cells_of (b, l)"
    from this[symmetric] show ?thesis by simp
  qed simp
  have "cells lv + cells fl + ?D \<subseteq># cells lv + (cells (vp_free_list p) + cells_of (b, l)) + ?D"
    using sub by (simp add: subset_mset.add_mono)
  also have "\<dots> = cells lv + cells (vp_free_list p) + cells (vp_dirty_list p)" unfolding D[symmetric] by (simp add: ac_simps)
  also have "\<dots> \<subseteq># mset [vp_base p..<vp_next p]" using o by (simp add: owned_once_def)
  finally have o': "cells lv + cells fl + ?D \<subseteq># mset [vp_base p..<vp_next p]" .
  have "x \<in># cells (vp_free_list p) \<or> x \<in># cells_of (b, l)" if "x \<in># cells fl" for x
    using mset_subset_eqD[OF sub that] by simp
  then have z': "\<forall>x \<in># cells fl. write_zero b l mem x = 0"
    using z by (fastforce simp: free_zero_def)
  show ?thesis
    using r o' z z' promote_cells(2,3)[OF pr] pg
    by (simp add: pool_good_def pool_ready_def owned_once_def free_zero_def paged_upd)
qed

lemma idle_part_good:
  assumes g: "pool_good lv p mem" and i: "i < length (vp_dirty_list p)" "vp_dirty_list p ! i = (b, l)"
    and "budget < l" "PAGE_SIZE dvd budget"
  shows "pool_good lv (p\<lparr>vp_dirty_list := (vp_dirty_list p)[i := (b + budget, l - budget)]\<rparr>) (write_zero b budget mem)"
proof -
  let ?dl = "(vp_dirty_list p)[i := (b + budget, l - budget)]"
  have r: "pool_ready p" and o: "owned_once lv p" and z: "free_zero p mem" using g by (auto simp: pool_good_def)
  have pg: "paged ?dl"
    using r paged_nth[of "vp_dirty_list p" i] i assms(5) by (auto simp: pool_ready_def intro!: paged_upd)
  have D: "cells ?dl + cells_of (b, budget) = cells (vp_dirty_list p)"
    using take_from_entry_cells[OF i, of budget] assms(4) i(2) by (simp add: take_from_entry_def)
  have "cells lv + cells (vp_free_list p) + cells ?dl \<subseteq># cells lv + cells (vp_free_list p) + cells ?dl + cells_of (b, budget)"
    by simp
  also have "\<dots> = cells lv + cells (vp_free_list p) + cells (vp_dirty_list p)" unfolding D[symmetric] by (simp add: ac_simps)
  also have "\<dots> \<subseteq># mset [vp_base p..<vp_next p]" using o by (simp add: owned_once_def)
  finally have "cells lv + cells (vp_free_list p) + cells ?dl \<subseteq># mset [vp_base p..<vp_next p]" .
  then show ?thesis
    using r z pg by (auto simp: pool_good_def pool_ready_def owned_once_def free_zero_def)
qed

lemma idle_frontier:
  assumes "pool_ready p" "find_index (\<lambda>e. snd e \<noteq> 0) (vp_dirty_list p) = None"
    and "idle_zero_step budget p mem = (n, p', mem')"
  obtains a e where "p' = p\<lparr>vp_zeroed_until := e\<rparr>" "mem' = write_zero a n mem" "vp_next p \<le> a"
    "a = max (vp_zeroed_until p) (vp_next p)" "e = a + n"
proof -
  define zu where "zu = max (vp_zeroed_until p) (vp_next p)"
  define e where "e = min (min (vp_limit p) (saturating_add (vp_next p) FRONTIER_AHEAD)) (saturating_add zu budget)"
  have wz: "write_zero zu 0 mem = mem" by (rule ext) (auto simp: write_zero_def)
  have zu: "(if vp_zeroed_until p < vp_next p then vp_next p else vp_zeroed_until p) = zu" by (simp add: zu_def)
  have "idle_zero_step budget p mem =
      (if e \<le> zu then (0, p\<lparr>vp_zeroed_until := zu\<rparr>, mem) else (e - zu, p\<lparr>vp_zeroed_until := e\<rparr>, write_zero zu (e - zu) mem))"
    using assms(2) by (simp add: idle_zero_step_def ensure_ready[OF assms(1)] Let_def zu e_def)
  then have "p' = p\<lparr>vp_zeroed_until := zu + n\<rparr> \<and> mem' = write_zero zu n mem"
    using assms(3) wz by (auto split: if_splits)
  then show thesis by (intro that[of "zu + n" zu]) (auto simp: zu_def)
qed

lemma idle_frontier_good:
  assumes g: "pool_good lv p mem" and n: "find_index (\<lambda>e. snd e \<noteq> 0) (vp_dirty_list p) = None"
    and s: "idle_zero_step budget p mem = (n, p', mem')"
  shows "pool_good lv p' mem'" "x < vp_next p \<Longrightarrow> mem' x = mem x"
proof -
  have r: "pool_ready p" and o: "owned_once lv p" and z: "free_zero p mem" using g by (auto simp: pool_good_def)
  obtain a e where q: "p' = p\<lparr>vp_zeroed_until := e\<rparr>" "mem' = write_zero a n mem" "vp_next p \<le> a"
    "a = max (vp_zeroed_until p) (vp_next p)" "e = a + n"
    by (rule idle_frontier[OF r n s])
  have "write_zero a n mem x = 0" if "vp_next p \<le> x" "x < e" for x
    using z that q(4,5) by (cases "x < a") (auto simp: free_zero_def less_max_iff_disj)
  then have "free_zero p' mem'" using z by (simp add: free_zero_def q(1,2))
  then show "pool_good lv p' mem'" using r o by (simp add: pool_good_def pool_ready_def owned_once_def q(1))
  show "x < vp_next p \<Longrightarrow> mem' x = mem x" using q(3) by (simp add: q(2))
qed

lemma idle_good:
  assumes g: "pool_good lv p mem" and s: "idle_zero_step budget p mem = (n, p', mem')" and d: "PAGE_SIZE dvd budget"
  shows "pool_good lv p' mem'" "x \<in># cells lv \<Longrightarrow> mem' x = mem x"
proof -
  have r: "pool_ready p" and o: "owned_once lv p" using g by (auto simp: pool_good_def)
  have "pool_good lv p' mem' \<and> (x \<in># cells lv \<longrightarrow> mem' x = mem x)" for x
  proof (cases "find_index (\<lambda>e. snd e \<noteq> 0) (vp_dirty_list p)")
    case None
    then show ?thesis using idle_frontier_good[OF g None s] owned_not_live[OF o] by blast
  next
    case (Some i)
    obtain b l where bl: "vp_dirty_list p ! i = (b, l)" by (cases "vp_dirty_list p ! i")
    have i: "i < length (vp_dirty_list p)" using Some by (auto simp: find_index_Some)
    obtain fl k where pr: "promote (b, l) (vp_free_list p) (vp_leaked p) = (fl, k)"
      by (cases "promote (b, l) (vp_free_list p) (vp_leaked p)")
    have dirty: "\<not> (b \<le> x \<and> x < b + l)" if "x \<in># cells lv"
    proof -
      have "x \<notin># cells (vp_dirty_list p)" using owned_not_live[OF o that] by simp
      then show ?thesis using nth_mem[OF i] bl by (force simp: in_cells)
    qed
    show ?thesis
    proof (cases "l \<le> budget")
      case True
      then show ?thesis
        using s idle_dirty(1)[OF r Some bl True pr] idle_full_good[OF g i bl pr] dirty by (auto simp: write_zero_def)
    next
      case False
      then show ?thesis
        using s idle_dirty(2)[OF r Some bl] idle_part_good[OF g i bl _ d] dirty
        by (auto simp: write_zero_def not_le)
    qed
  qed
  then show "pool_good lv p' mem'" "x \<in># cells lv \<Longrightarrow> mem' x = mem x" by blast+
qed


subsection \<open>Every history keeps the invariant\<close>

lemma vmo_inv_good: "vmo_inv w \<longleftrightarrow> pool_good (vw_live w) (ensure_initialized (vw_pool w)) (vw_mem w) \<and> live_ok (vw_live w)"
  by (auto simp: vmo_inv_def pool_good_def Let_def)

lemma vmo_inv_ready: "pool_good lv p mem \<Longrightarrow> live_ok lv \<Longrightarrow> vmo_inv \<lparr>vw_pool = p, vw_mem = mem, vw_live = lv\<rparr>"
  by (simp add: vmo_inv_good ensure_ready pool_good_def)

lemma cells_append [simp]: "cells (a @ b) = cells a + cells b"
  by (simp add: cells_def)

lemma cells_remove_nth:
  assumes "i < length lv"
  shows "cells lv = cells_of (lv ! i) + cells (take i lv @ drop (Suc i) lv)"
proof -
  have "cells (take i lv @ lv ! i # drop (Suc i) lv) = cells_of (lv ! i) + cells (take i lv @ drop (Suc i) lv)"
    by (simp add: ac_simps)
  then show ?thesis by (subst (asm) id_take_nth_drop[OF assms, symmetric])
qed

lemma live_ok_remove: "live_ok lv \<Longrightarrow> live_ok (take i lv @ drop (Suc i) lv)"
  by (auto simp: live_ok_def paged_def dest: in_set_takeD in_set_dropD)

lemma live_ok_Cons:
  "live_ok lv \<Longrightarrow> align_len len = Some l \<and> len \<noteq> 0 \<and> PAGE_SIZE dvd b \<Longrightarrow> live_ok ((b, l) # lv)"
  using align_len_Some(1,4)[of len l] by (simp add: live_ok_def)

definition untouched :: "vmo_world \<Rightarrow> vmo_world \<Rightarrow> bool" where
  "untouched w w' \<longleftrightarrow> (\<forall>x. x \<in># cells (vw_live w) \<and> x \<in># cells (vw_live w') \<longrightarrow> vw_mem w' x = vw_mem w x)"

lemma free_step:
  assumes inv: "vmo_inv w" and i: "i < length (vw_live w)"
  obtains p' mem' where
    "pool_free (fst (vw_live w ! i)) (snd (vw_live w ! i)) (vw_pool w) (vw_mem w) = (Inr (), p', mem')"
    "pool_good (take i (vw_live w) @ drop (Suc i) (vw_live w)) p' mem'"
    "\<And>x. x \<in># cells (take i (vw_live w) @ drop (Suc i) (vw_live w)) \<Longrightarrow> mem' x = vw_mem w x"
proof -
  have g: "pool_good (vw_live w) (ensure_initialized (vw_pool w)) (vw_mem w)" and l: "live_ok (vw_live w)"
    using inv by (auto simp: vmo_inv_good)
  have e: "PAGE_SIZE dvd fst (vw_live w ! i)" "PAGE_SIZE dvd snd (vw_live w ! i)" "snd (vw_live w ! i) \<noteq> 0"
    using l i by (auto simp: live_ok_def paged_def)
  show thesis
    by (rule free_good[OF g _ e, of "take i (vw_live w) @ drop (Suc i) (vw_live w)"])
      (use that cells_remove_nth[OF i] ensure_absorb(3) in auto)
qed

lemma alloc_step:
  assumes g: "pool_good (vw_live w) (ensure_initialized (vw_pool w)) (vw_mem w)" and l: "live_ok (vw_live w)"
  shows "vmo_inv (vmo_exec (VAlloc len) w) \<and> untouched w (vmo_exec (VAlloc len) w)"
proof -
  have r: "pool_ready (ensure_initialized (vw_pool w))" using g by (simp add: pool_good_def)
  obtain res p' mem' where a: "pool_allocate len (vw_pool w) (vw_mem w) = (res, p', mem')"
    by (metis prod_cases3)
  note a' = a[folded ensure_absorb(1)[of len "vw_pool w"]]
  show ?thesis
  proof (cases res)
    case (Inl e)
    then show ?thesis using allocate_error[OF r a'[unfolded Inl]] a g l
      by (simp add: vmo_inv_ready untouched_def)
  next
    case (Inr bl)
    obtain b n where bl: "bl = (b, n)" by (cases bl)
    note k = allocate_good[OF g a'[unfolded Inr bl]]
    show ?thesis using a Inr bl vmo_inv_ready[OF k(1) live_ok_Cons[OF l k(2)]] k(4)
      by (simp add: untouched_def)
  qed
qed

lemma reserve_step:
  assumes g: "pool_good (vw_live w) (ensure_initialized (vw_pool w)) (vw_mem w)" and l: "live_ok (vw_live w)"
  shows "vmo_inv (vmo_exec (VReserve len) w) \<and> untouched w (vmo_exec (VReserve len) w)"
proof -
  have r: "pool_ready (ensure_initialized (vw_pool w))" using g by (simp add: pool_good_def)
  obtain res p' where a: "pool_allocate_nozero len (vw_pool w) = (res, p')"
    by (cases "pool_allocate_nozero len (vw_pool w)")
  note a' = a[folded ensure_absorb(2)[of len "vw_pool w"]]
  show ?thesis
  proof (cases res)
    case (Inl e)
    then show ?thesis using reserve_error[OF r a'[unfolded Inl]] a g l
      by (simp add: vmo_inv_good untouched_def)
  next
    case (Inr t)
    obtain b n nz where t: "t = (b, n, nz)" by (metis prod_cases3)
    note k = reserve_good[OF g a'[unfolded Inr t]]
    show ?thesis using a Inr t vmo_inv_ready[OF k(1) live_ok_Cons[OF l k(2)]]
      by (cases w) (simp add: untouched_def)
  qed
qed

lemma idle_step:
  assumes g: "pool_good (vw_live w) (ensure_initialized (vw_pool w)) (vw_mem w)" and l: "live_ok (vw_live w)"
  shows "vmo_inv (vmo_exec VIdle w) \<and> untouched w (vmo_exec VIdle w)"
proof -
  define B :: usize where "B = 64 * 1024"
  obtain n p' mem' where a: "idle_zero_step B (vw_pool w) (vw_mem w) = (n, p', mem')"
    by (metis prod_cases3)
  note a' = a[folded ensure_absorb(4)[of B "vw_pool w"]]
  have d: "PAGE_SIZE dvd B" by (simp add: PAGE_SIZE_def B_def)
  have "vmo_idle_zero_step (vw_pool w) (vw_mem w) = (n, p', mem')"
    using a by (simp only: vmo_idle_zero_step_def B_def)
  then show ?thesis using vmo_inv_ready[OF idle_good(1)[OF g a' d] l] idle_good(2)[OF g a' d]
    by (cases w) (simp add: untouched_def)
qed

lemma write_step:
  assumes g: "pool_good (vw_live w) (ensure_initialized (vw_pool w)) (vw_mem w)" and l: "live_ok (vw_live w)"
  shows "vmo_inv (vmo_exec (VWrite i off v) w)"
proof (cases "i < length (vw_live w) \<and> off < snd (vw_live w ! i)")
  case True
  let ?x = "fst (vw_live w ! i) + off"
  have "?x \<in># cells (vw_live w)" 
    unfolding in_cells by (rule bexI[of _ "vw_live w ! i"]) (use True in auto)
  then have "pool_good (vw_live w) (ensure_initialized (vw_pool w)) ((vw_mem w)(?x := v))"
    using g owned_not_live[of "vw_live w" "ensure_initialized (vw_pool w)" ?x]
    by (auto simp: pool_good_def free_zero_def)
  then show ?thesis using True l by (simp add: vmo_inv_good)
qed (use g l in \<open>auto simp: vmo_inv_good\<close>)

lemma vmo_exec_keeps:
  assumes inv: "vmo_inv w"
  shows "vmo_inv (vmo_exec op w) \<and> ((\<forall>i off v. op \<noteq> VWrite i off v) \<longrightarrow> untouched w (vmo_exec op w))"
proof -
  have g: "pool_good (vw_live w) (ensure_initialized (vw_pool w)) (vw_mem w)" and l: "live_ok (vw_live w)"
    using inv by (auto simp: vmo_inv_good)
  have fr: "vmo_inv (vmo_exec (VFree i) w) \<and> untouched w (vmo_exec (VFree i) w)" for i
  proof (cases "i < length (vw_live w)")
    case True
    show ?thesis
      by (rule free_step[OF inv True])
        (use True vmo_inv_ready[OF _ live_ok_remove[OF l]] in \<open>simp add: untouched_def\<close>)
  qed (use inv in \<open>simp add: untouched_def\<close>)
  show ?thesis
    using alloc_step[OF g l] reserve_step[OF g l] fr idle_step[OF g l] write_step[OF g l]
    by (cases op) (simp_all del: vmo_exec.simps)
qed

lemma vmo_run_inv: "vmo_inv (vmo_run ops mem)"
proof -
  have "vmo_inv (fold vmo_exec ops w)" if "vmo_inv w" for w
    using that by (induction ops arbitrary: w) (auto simp: vmo_exec_keeps)
  then show ?thesis by (simp add: vmo_run_def vmo_boot_inv)
qed


subsection \<open>A concrete history\<close>

definition vmo_demo_ops :: "vmo_op list" where
  "vmo_demo_ops = [VAlloc 5000, VAlloc 1, VWrite 1 7 42]"

lemma best_fit_empty [simp]: "a \<noteq> 0 \<Longrightarrow> best_fit a (replicate n (0, 0)) = None"
proof (cases "best_fit a (replicate n (0, 0))")
  case (Some i)
  assume "a \<noteq> 0"
  then show ?thesis using best_fit_Some[OF Some] by auto
qed simp

lemmas pool_eval = ensure_initialized_def vmo_pool_new_def align_up_addr_def page_floor_def
  saturating_add_def usize_max_def arena_consts align_len_def checked_add_def Let_def bump_def

lemma vmo_demo_live:
  "vw_live (vmo_run vmo_demo_ops (\<lambda>_. 9)) = [(USER_VMO_ARENA_BASE + 8192, 4096), (USER_VMO_ARENA_BASE, 8192)]"
  by (simp add: vmo_demo_ops_def vmo_run_def vmo_boot_def pool_eval pool_allocate_def)

lemma vmo_demo_pool:
  "vw_pool (vmo_run vmo_demo_ops (\<lambda>_. 9)) =
     \<lparr>vp_base = 0x83800000, vp_next = 0x83803000, vp_limit = 0x91800000, vp_peak_next = 0x83803000,
      vp_free_list = replicate 16 (0, 0), vp_dirty_list = replicate 16 (0, 0), vp_leaked = 0,
      vp_zeroed_until = 0x83803000\<rparr>"
  by (simp add: vmo_demo_ops_def vmo_run_def vmo_boot_def pool_eval pool_allocate_def)

lemma vmo_demo_alloc:
  "\<exists>p' mem'. pool_allocate 4096 (vw_pool (vmo_run vmo_demo_ops (\<lambda>_. 9))) (vw_mem (vmo_run vmo_demo_ops (\<lambda>_. 9)))
     = (Inr (0x83803000, 4096), p', mem')"
  by (simp add: vmo_demo_pool pool_eval pool_allocate_def)

subsection \<open>Properties\<close>

text \<open>C5: After any history of allocations, reservations, frees, idle zeroing and owner writes, starting
  from arbitrary memory contents, a successful \<open>allocate\<close> returns a page-aligned range inside the arena
  that is the request rounded up to pages, shares no address with any live range, and reads as zero
  everywhere, without disturbing the contents of any live range.\<close>

theorem allocate_fresh_zeroed:
  assumes "pool_allocate len (vw_pool (vmo_run ops mem)) (vw_mem (vmo_run ops mem)) = (Inr (b, l), p', mem')"
  shows "PAGE_SIZE dvd b \<and> PAGE_SIZE dvd l \<and> len \<le> l \<and> l < len + PAGE_SIZE \<and>
    USER_VMO_ARENA_BASE \<le> b \<and> b + l \<le> USER_VMO_ARENA_BASE + USER_VMO_ARENA_LEN \<and>
    (\<forall>r \<in> set (vw_live (vmo_run ops mem)). b + l \<le> fst r \<or> fst r + snd r \<le> b) \<and>
    (\<forall>x. b \<le> x \<and> x < b + l \<longrightarrow> mem' x = 0) \<and>
    (\<forall>x. x \<in># cells (vw_live (vmo_run ops mem)) \<longrightarrow> mem' x = vw_mem (vmo_run ops mem) x)"
proof -
  let ?w = "vmo_run ops mem"
  have g: "pool_good (vw_live ?w) (ensure_initialized (vw_pool ?w)) (vw_mem ?w)" and lok: "live_ok (vw_live ?w)"
    using vmo_run_inv[of ops mem] by (auto simp: vmo_inv_good)
  note k = allocate_good[OF g assms[folded ensure_absorb(1)[of len "vw_pool ?w"]]]
  have al: "align_len len = Some l" "len \<noteq> 0" "PAGE_SIZE dvd b" using k(2) by auto
  note pa = align_len_Some[OF al(1,2)]
  have o: "owned_once ((b, l) # vw_live ?w) p'" and r: "pool_ready p'" using k(1) by (auto simp: pool_good_def)
  have "set_mset (cells_of (b, l)) \<subseteq> set_mset (cells ((b, l) # vw_live ?w))" by simp
  note rg = live_range[OF o this pa(4)]
  have "b + l \<le> fst e \<or> fst e + snd e \<le> b" if "e \<in> set (vw_live ?w)" for e
    by (rule live_disjoint[OF o that]) (use lok that pa(4) in \<open>auto simp: live_ok_def\<close>)
  moreover have "mem' x = 0" if "b \<le> x \<and> x < b + l" for x using k(3)[of x] that by simp
  ultimately show ?thesis using al(3) pa rg r k(4) by (auto simp: pool_ready_def)
qed

theorem allocate_fresh_zeroed_witness:
  "\<exists>p' mem'. pool_allocate 4096 (vw_pool (vmo_run vmo_demo_ops (\<lambda>_. 9))) (vw_mem (vmo_run vmo_demo_ops (\<lambda>_. 9)))
     = (Inr (0x83803000, 4096), p', mem') \<and> (\<forall>x. 0x83803000 \<le> x \<and> x < 0x83804000 \<longrightarrow> mem' x = 0) \<and>
     mem' 0x83800007 = vw_mem (vmo_run vmo_demo_ops (\<lambda>_. 9)) 0x83800007"
proof -
  obtain p' mem' where a: "pool_allocate 4096 (vw_pool (vmo_run vmo_demo_ops (\<lambda>_. 9)))
      (vw_mem (vmo_run vmo_demo_ops (\<lambda>_. 9))) = (Inr (0x83803000, 4096), p', mem')"
    using vmo_demo_alloc by blast
  show ?thesis using allocate_fresh_zeroed[OF a] a by (simp add: vmo_demo_live arena_consts)
qed

text \<open>C22: No operation of the pool changes a byte of memory that is owned before and after it: after any
  history, an allocation, a reservation, a free of another range or an idle zeroing step leaves the
  contents of every live range as they were.  Only the owner's own writes change them.\<close>

theorem live_memory_untouched:
  assumes "\<forall>i off v. op \<noteq> VWrite i off v"
    and "x \<in># cells (vw_live (vmo_run ops mem))" "x \<in># cells (vw_live (vmo_exec op (vmo_run ops mem)))"
  shows "vw_mem (vmo_exec op (vmo_run ops mem)) x = vw_mem (vmo_run ops mem) x"
  using vmo_exec_keeps[OF vmo_run_inv, of op ops mem] assms by (auto simp: untouched_def)

theorem live_memory_untouched_witness:
  "0x83800007 \<in># cells (vw_live (vmo_run vmo_demo_ops (\<lambda>_. 9))) \<and>
   vw_mem (vmo_exec VIdle (vmo_run vmo_demo_ops (\<lambda>_. 9))) 0x83800007 = vw_mem (vmo_run vmo_demo_ops (\<lambda>_. 9)) 0x83800007"
proof -
  have l: "vw_live (vmo_exec VIdle w) = vw_live w" for w by (simp split: prod.splits)
  have m: "0x83800007 \<in># cells (vw_live (vmo_run vmo_demo_ops (\<lambda>_. 9)))"
    by (simp add: vmo_demo_live USER_VMO_ARENA_BASE_def)
  show ?thesis using live_memory_untouched[of VIdle "0x83800007" vmo_demo_ops "\<lambda>_. 9"] m unfolding l by blast
qed

text \<open>Freeing a live range always succeeds, and freeing it again at once is refused without any effect,
  except when both slot tables were full, where the first free only counted the range as leaked.\<close>

theorem double_free_refused:
  assumes "(b, l) \<in> set (vw_live (vmo_run ops mem))"
  shows "\<exists>p' mem'. pool_free b l (vw_pool (vmo_run ops mem)) (vw_mem (vmo_run ops mem)) = (Inr (), p', mem') \<and>
     (pool_free b l p' mem' = (Inl PermissionDenied, p', mem') \<or>
      (0 \<notin> snd ` set (vp_dirty_list p') \<and> 0 \<notin> snd ` set (vp_free_list p') \<and>
       vp_leaked p' = saturating_add (vp_leaked (vw_pool (vmo_run ops mem))) l))"
proof -
  let ?w = "vmo_run ops mem"
  let ?p = "ensure_initialized (vw_pool ?w)"
  have g: "pool_good (vw_live ?w) ?p (vw_mem ?w)" and lok: "live_ok (vw_live ?w)"
    using vmo_run_inv[of ops mem] by (auto simp: vmo_inv_good)
  have r: "pool_ready ?p" and o: "owned_once (vw_live ?w) ?p" using g by (auto simp: pool_good_def)
  have d: "PAGE_SIZE dvd b" "PAGE_SIZE dvd l" "l \<noteq> 0" using assms lok by (auto simp: live_ok_def paged_def)
  have sub: "set_mset (cells_of (b, l)) \<subseteq> set_mset (cells (vw_live ?w))"
    by (rule subsetI, unfold in_cells, rule bexI[of _ "(b, l)"]) (use assms in simp_all)
  note rg = live_range[OF o sub d(3)]
  note fa = free_accepted[OF r d rg live_no_overlap[OF o sub d(3)], of "vw_mem ?w"]
  have lk: "vp_leaked ?p = vp_leaked (vw_pool ?w)" by (simp add: ensure_initialized_def Let_def)
  show ?thesis
    using free_twice[OF r d rg live_no_overlap[OF o sub d(3)], of "vw_mem ?w"]
    unfolding ensure_absorb(3) lk .
qed

theorem double_free_refused_witness:
  "(USER_VMO_ARENA_BASE, 8192) \<in> set (vw_live (vmo_run vmo_demo_ops (\<lambda>_. 9))) \<and>
   (\<exists>p' mem'. pool_free USER_VMO_ARENA_BASE 8192 (vw_pool (vmo_run vmo_demo_ops (\<lambda>_. 9)))
       (vw_mem (vmo_run vmo_demo_ops (\<lambda>_. 9))) = (Inr (), p', mem'))"
  using double_free_refused[of USER_VMO_ARENA_BASE 8192 vmo_demo_ops "\<lambda>_. 9"] vmo_demo_live by auto

text \<open>What an idle step does to the accounting of free memory.  A dirty range within the budget moves to
  the clean list with no address lost, or, when no slot is empty, is counted as leaked; a dirty range
  larger than the budget keeps only its tail: the part just zeroed leaves both lists and is not counted.\<close>

theorem idle_zero_accounting:
  assumes "pool_ready p" "find_index (\<lambda>e. snd e \<noteq> 0) (vp_dirty_list p) = Some i" "vp_dirty_list p ! i = (b, l)"
    and "idle_zero_step budget p mem = (n, p', mem')"
  shows "n = min l budget \<and> mem' = write_zero b n mem \<and>
    (if l \<le> budget then
       (cells (vp_free_list p') + cells (vp_dirty_list p') = cells (vp_free_list p) + cells (vp_dirty_list p) \<and>
          vp_leaked p' = vp_leaked p) \<or>
       (\<exists>r. cells (vp_free_list p') + cells (vp_dirty_list p') + cells_of r
             = cells (vp_free_list p) + cells (vp_dirty_list p) \<and>
           vp_leaked p' = saturating_add (vp_leaked p) (snd r))
     else
       cells (vp_free_list p') + cells (vp_dirty_list p') + cells_of (b, budget)
         = cells (vp_free_list p) + cells (vp_dirty_list p) \<and> vp_leaked p' = vp_leaked p)"
proof -
  have i: "i < length (vp_dirty_list p)" using assms(2) by (auto simp: find_index_Some)
  show ?thesis
  proof (cases "l \<le> budget")
    case True
    obtain fl k where pr: "promote (b, l) (vp_free_list p) (vp_leaked p) = (fl, k)"
      by (cases "promote (b, l) (vp_free_list p) (vp_leaked p)")
    have D: "cells ((vp_dirty_list p)[i := (0, 0)]) + cells_of (b, l) = cells (vp_dirty_list p)"
      using cells_upd[OF i, of "(0, 0)"] assms(3) by simp
    have eq: "n = l" "mem' = write_zero b l mem"
      "p' = p\<lparr>vp_dirty_list := (vp_dirty_list p)[i := (0, 0)], vp_free_list := fl, vp_leaked := k\<rparr>"
      using idle_dirty(1)[OF assms(1-3) True pr, of mem] assms(4) by auto
    from promote_cells(1)[OF pr] show ?thesis
    proof (elim disjE exE conjE)
      assume "cells fl = cells (vp_free_list p) + cells_of (b, l)" "k = vp_leaked p"
      then show ?thesis using True by (simp add: eq D[symmetric] ac_simps)
    next
      fix r assume c: "cells fl + cells_of r = cells (vp_free_list p) + cells_of (b, l)"
        and k: "k = saturating_add (vp_leaked p) (snd r)"
      have "cells fl + cells ((vp_dirty_list p)[i := (0, 0)]) + cells_of r
          = (cells fl + cells_of r) + cells ((vp_dirty_list p)[i := (0, 0)])" by (simp add: ac_simps)
      also have "\<dots> = cells (vp_free_list p) + cells (vp_dirty_list p)" unfolding c D[symmetric] by (simp add: ac_simps)
      finally show ?thesis using True k by (cases r) (auto simp: eq)
    qed
  next
    case False
    have D: "cells ((vp_dirty_list p)[i := (b + budget, l - budget)]) + cells_of (b, budget) = cells (vp_dirty_list p)"
      using take_from_entry_cells[OF i assms(3), of budget] False assms(3) by (simp add: take_from_entry_def)
    have "idle_zero_step budget p mem =
        (budget, p\<lparr>vp_dirty_list := (vp_dirty_list p)[i := (b + budget, l - budget)]\<rparr>, write_zero b budget mem)"
      using idle_dirty(2)[OF assms(1-3)] False by simp
    then show ?thesis using assms(4) False D by (auto simp: ac_simps)
  qed
qed

theorem idle_zero_accounting_witness:
  "let p = (ensure_initialized vmo_pool_new)\<lparr>vp_dirty_list := (0x83800000, 0x20000) # replicate 15 (0, 0),
              vp_next := 0x83840000, vp_peak_next := 0x83840000\<rparr>;
       (n, p', mem') = vmo_idle_zero_step p (\<lambda>_. 9)
   in n = 0x10000 \<and> vp_leaked p' = 0 \<and> cells (vp_free_list p') = {#} \<and>
      cells (vp_dirty_list p') + cells_of (0x83800000, 0x10000) = cells_of (0x83800000, 0x20000)"
proof -
  define p where "p = (ensure_initialized vmo_pool_new)\<lparr>vp_dirty_list := (0x83800000, 0x20000) # replicate 15 (0, 0),
              vp_next := 0x83840000, vp_peak_next := 0x83840000\<rparr>"
  have r: "pool_ready p" by (simp add: p_def pool_ready_def paged_def pool_eval)
  have f: "find_index (\<lambda>e. snd e \<noteq> 0) (vp_dirty_list p) = Some 0" by (simp add: p_def find_index_def)
  have d: "vp_dirty_list p ! 0 = (0x83800000, 0x20000)" by (simp add: p_def)
  obtain n p' mem' where s: "idle_zero_step 0x10000 p (\<lambda>_. 9) = (n, p', mem')" by (metis prod_cases3)
  have c: "cells (vp_free_list p) = {#}" "vp_leaked p = 0"
    "cells (vp_dirty_list p) = cells_of (0x83800000, 0x20000)"
    by (simp_all add: p_def ensure_initialized_def vmo_pool_new_def Let_def)
  have "n = 0x10000 \<and> vp_leaked p' = 0 \<and>
      cells (vp_free_list p') + cells (vp_dirty_list p') + cells_of (0x83800000, 0x10000) = cells_of (0x83800000, 0x20000)"
    using idle_zero_accounting[OF r f d s] by (simp add: c)
  moreover have "cells (vp_free_list p') = {#}"
    using s idle_dirty(2)[OF r f d, of "0x10000" "\<lambda>_. 9"] c by auto
  ultimately show ?thesis using s unfolding p_def[symmetric] by (simp add: vmo_idle_zero_step_def)
qed

end
