(* ===== verification/Tlb.thy ===== *)
theory Tlb
  imports Prelude Sched
begin

text \<open>
  The TLB shootdown protocol of \<open>source/kernel/neuron/src/core/smp/tlb.rs\<close>.  The mailboxes are the
  source's atomics.  The executable definitions take a poll as one step; the step relation splits a
  responder's poll into its load, flush and store, so that they interleave with the initiator and with
  each other, and records which harts may still hold stale translations.
\<close>

subsection \<open>Mailboxes\<close>

record tlb =
  tlb_epoch :: u64
  tlb_requested :: "u64 list"
  tlb_acked :: "u64 list"

definition tlb_new :: tlb where
  "tlb_new = \<lparr>tlb_epoch = 0, tlb_requested = replicate MAX_CPUS 0, tlb_acked = replicate MAX_CPUS 0\<rparr>"

datatype tlb_poll_outcome = Flushed | NoPending

definition poll_mailbox :: "nat \<Rightarrow> tlb \<Rightarrow> tlb_poll_outcome \<times> tlb" where
  "poll_mailbox cpu t =
     (if MAX_CPUS \<le> cpu then (NoPending, t)
      else
        (let requested = tlb_requested t ! cpu in
         if requested \<le> tlb_acked t ! cpu then (NoPending, t)
         else (Flushed, t\<lparr>tlb_acked := (tlb_acked t)[cpu := requested]\<rparr>)))"

text \<open>The harts other than \<open>me\<close> whose bit is set in the online mask.\<close>

definition shootdown_targets :: "nat \<Rightarrow> u64 \<Rightarrow> nat list" where
  "shootdown_targets me online = filter (\<lambda>idx. idx \<noteq> me \<and> bit online idx) [0..<MAX_CPUS]"

text \<open>The initiator up to its wait: the epoch it waits for and the raised requests.\<close>

definition shootdown_begin :: "nat \<Rightarrow> u64 \<Rightarrow> tlb \<Rightarrow> u64 \<times> tlb" where
  "shootdown_begin me online t =
     (let epoch = tlb_epoch t + 1 in
      (epoch, t\<lparr>tlb_epoch := epoch,
                tlb_requested :=
                  fold (\<lambda>idx req. req[idx := max (req ! idx) epoch]) (shootdown_targets me online) (tlb_requested t)\<rparr>))"

definition all_acked :: "nat list \<Rightarrow> u64 \<Rightarrow> tlb \<Rightarrow> bool" where
  "all_acked targets epoch t = list_all (\<lambda>idx. epoch \<le> tlb_acked t ! idx) targets"

text \<open>The whole call.  \<open>polls\<close> are the responders' polls during the wait; \<open>None\<close> is the panic when
  the time budget is over before all acknowledged.\<close>

definition shootdown_all :: "nat \<Rightarrow> u64 \<Rightarrow> nat list \<Rightarrow> tlb \<Rightarrow> tlb option" where
  "shootdown_all me online polls t =
     (let targets = shootdown_targets me online;
          (epoch, t1) = shootdown_begin me online t
      in if targets = [] then Some t1
         else
           (let t2 = fold (\<lambda>cpu s. snd (poll_mailbox cpu s)) polls t1 in
            if all_acked targets epoch t2 then Some t2 else None))"

definition selftest_evidence :: "nat \<Rightarrow> tlb \<Rightarrow> u64 \<times> u64 \<times> u64" where
  "selftest_evidence cpu t =
     (if MAX_CPUS \<le> cpu then (tlb_epoch t, 0, 0)
      else (tlb_epoch t, tlb_requested t ! cpu, tlb_acked t ! cpu))"

subsection \<open>Interleaved execution\<close>

text \<open>Where a responder is inside its poll, with the epoch it loaded.\<close>

datatype responder = RIdle | RLoaded u64 | RFlushed u64

record tlb_sys =
  sys_tlb :: tlb
  sys_pc :: "nat \<Rightarrow> responder"
  sys_wait :: "(u64 \<times> nat \<times> nat list) option"
  sys_stale :: "nat set"

definition sys_boot :: tlb_sys where
  "sys_boot = \<lparr>sys_tlb = tlb_new, sys_pc = (\<lambda>_. RIdle), sys_wait = None, sys_stale = {}\<rparr>"

inductive tlb_step :: "tlb_sys \<Rightarrow> tlb_sys \<Rightarrow> bool" where
  change: "sys_wait s = None \<Longrightarrow> tlb_step s (s\<lparr>sys_stale := {0..<MAX_CPUS}\<rparr>)"
| start: "sys_wait s = None \<Longrightarrow> shootdown_begin me online (sys_tlb s) = (epoch, t) \<Longrightarrow>
    tlb_step s (s\<lparr>sys_tlb := t, sys_wait := Some (epoch, me, shootdown_targets me online), sys_stale := sys_stale s - {me}\<rparr>)"
| load: "cpu < MAX_CPUS \<Longrightarrow> sys_pc s cpu = RIdle \<Longrightarrow>
    tlb_acked (sys_tlb s) ! cpu < tlb_requested (sys_tlb s) ! cpu \<Longrightarrow>
    tlb_step s (s\<lparr>sys_pc := (sys_pc s)(cpu := RLoaded (tlb_requested (sys_tlb s) ! cpu))\<rparr>)"
| flush: "cpu < MAX_CPUS \<Longrightarrow> sys_pc s cpu = RLoaded r \<Longrightarrow>
    tlb_step s (s\<lparr>sys_pc := (sys_pc s)(cpu := RFlushed r), sys_stale := sys_stale s - {cpu}\<rparr>)"
| ack: "cpu < MAX_CPUS \<Longrightarrow> sys_pc s cpu = RFlushed r \<Longrightarrow>
    tlb_step s (s\<lparr>sys_pc := (sys_pc s)(cpu := RIdle),
                 sys_tlb := (sys_tlb s)\<lparr>tlb_acked := (tlb_acked (sys_tlb s))[cpu := r]\<rparr>\<rparr>)"
| finish: "sys_wait s = Some (epoch, me, targets) \<Longrightarrow> all_acked targets epoch (sys_tlb s) \<Longrightarrow>
    tlb_step s (s\<lparr>sys_wait := None\<rparr>)"

text \<open>The states reached within \<open>n\<close> steps of boot.\<close>

inductive tlb_reach :: "nat \<Rightarrow> tlb_sys \<Rightarrow> bool" where
  boot: "tlb_reach 0 sys_boot"
| step: "tlb_reach n s \<Longrightarrow> tlb_step s s' \<Longrightarrow> tlb_reach (Suc n) s'"

subsection \<open>Invariant\<close>

definition pc_le :: "responder \<Rightarrow> u64 \<Rightarrow> bool" where
  "pc_le pc r = (case pc of RIdle \<Rightarrow> True | RLoaded x \<Rightarrow> x \<le> r | RFlushed x \<Rightarrow> x \<le> r)"

lemma pc_le_simps [simp]: "pc_le RIdle r" "pc_le (RLoaded x) r \<longleftrightarrow> x \<le> r" "pc_le (RFlushed x) r \<longleftrightarrow> x \<le> r"
  by (simp_all add: pc_le_def)

definition mail_inv :: "nat \<Rightarrow> tlb_sys \<Rightarrow> bool" where
  "mail_inv n s \<longleftrightarrow>
     (let t = sys_tlb s in
      length (tlb_requested t) = MAX_CPUS \<and> length (tlb_acked t) = MAX_CPUS \<and> unat (tlb_epoch t) \<le> n \<and>
      (\<forall>c < MAX_CPUS. tlb_requested t ! c \<le> tlb_epoch t \<and> tlb_acked t ! c \<le> tlb_epoch t \<and>
         pc_le (sys_pc s c) (tlb_epoch t)))"

definition wait_inv :: "tlb_sys \<Rightarrow> bool" where
  "wait_inv s \<longleftrightarrow>
     (\<forall>e me ts. sys_wait s = Some (e, me, ts) \<longrightarrow> set ts \<subseteq> {0..<MAX_CPUS} \<and> me \<notin> sys_stale s \<and>
        (\<forall>c \<in> set ts. (e \<le> tlb_acked (sys_tlb s) ! c \<longrightarrow> c \<notin> sys_stale s) \<and>
           (\<forall>r. sys_pc s c = RFlushed r \<and> e \<le> r \<longrightarrow> c \<notin> sys_stale s)))"

lemma fold_max_length [simp]: "length (fold (\<lambda>idx req. req[idx := max (req ! idx) e]) ts req) = length req"
  by (induction ts arbitrary: req) simp_all

lemma fold_max_nth:
  "i < length req \<Longrightarrow> distinct ts \<Longrightarrow>
   fold (\<lambda>idx req. req[idx := max (req ! idx) e]) ts req ! i = (if i \<in> set ts then max (req ! i) e else req ! i)"
proof (induction ts arbitrary: req)
  case (Cons a ts)
  then show ?case by (cases "a = i") auto
qed simp

lemma targets_set: "set (shootdown_targets me online) = {i. i < MAX_CPUS \<and> i \<noteq> me \<and> bit online i}"
  by (auto simp: shootdown_targets_def)

lemma targets_distinct [simp]: "distinct (shootdown_targets me online)"
  by (simp add: shootdown_targets_def)

lemma begin_facts:
  assumes "shootdown_begin me online t = (e, t')" "length (tlb_requested t) = MAX_CPUS"
  shows "e = tlb_epoch t + 1" "tlb_epoch t' = tlb_epoch t + 1" "tlb_acked t' = tlb_acked t"
    "length (tlb_requested t') = MAX_CPUS"
    "c < MAX_CPUS \<Longrightarrow> tlb_requested t' ! c = (if c \<in> set (shootdown_targets me online)
       then max (tlb_requested t ! c) (tlb_epoch t + 1) else tlb_requested t ! c)"
  using assms by (auto simp: shootdown_begin_def Let_def fold_max_nth)

lemma epoch_grows:
  assumes "unat (x :: u64) \<le> n" "n < 2 ^ 64 - 1"
  shows "unat (x + 1) = Suc (unat x)" "y \<le> x \<Longrightarrow> y < x + 1" "y \<le> x \<Longrightarrow> y \<le> x + 1"
proof -
  have u: "unat (x + 1) = Suc (unat x)" using assms by (simp add: unat_word_ariths)
  then show "unat (x + 1) = Suc (unat x)" .
  show "y \<le> x \<Longrightarrow> y < x + 1" using u by (simp add: word_less_nat_alt word_le_nat_alt)
  then show "y \<le> x \<Longrightarrow> y \<le> x + 1" by simp
qed

lemma mail_inv_step:
  assumes "tlb_step s s'" "mail_inv n s" "n < 2 ^ 64 - 1"
  shows "mail_inv (Suc n) s'"
  using assms(1)
proof cases
  case (start me online epoch t)
  have len: "length (tlb_requested (sys_tlb s)) = MAX_CPUS" and ep: "unat (tlb_epoch (sys_tlb s)) \<le> n"
    using assms(2) by (auto simp: mail_inv_def Let_def)
  note b = begin_facts[OF start(3) len]
  note g = epoch_grows[OF ep assms(3)]
  have "pc_le pc (tlb_epoch (sys_tlb s)) \<Longrightarrow> pc_le pc (tlb_epoch (sys_tlb s) + 1)" for pc
    using g(3) by (auto simp: pc_le_def split: responder.splits)
  then show ?thesis
    using assms(2) start(1) b g(1,3) ep by (auto simp: mail_inv_def Let_def)
next
  case (ack cpu r)
  then have "r \<le> tlb_epoch (sys_tlb s)" using assms(2) by (metis mail_inv_def pc_le_simps(3))
  then show ?thesis using assms(2) ack by (auto simp: mail_inv_def Let_def nth_list_update)
next
  case (flush cpu r)
  then have "r \<le> tlb_epoch (sys_tlb s)" using assms(2) by (metis mail_inv_def pc_le_simps(2))
  then show ?thesis using assms(2) flush by (auto simp: mail_inv_def Let_def)
qed (use assms(2) in \<open>auto simp: mail_inv_def Let_def\<close>)

lemma wait_inv_step:
  assumes "tlb_step s s'" "mail_inv n s" "wait_inv s" "n < 2 ^ 64 - 1"
  shows "wait_inv s'"
  using assms(1)
proof cases
  case (start me online epoch t)
  have len: "length (tlb_requested (sys_tlb s)) = MAX_CPUS" and ep: "unat (tlb_epoch (sys_tlb s)) \<le> n"
    using assms(2) by (auto simp: mail_inv_def Let_def)
  note b = begin_facts[OF start(3) len]
  note g = epoch_grows[OF ep assms(4)]
  have m: "tlb_acked (sys_tlb s) ! c \<le> tlb_epoch (sys_tlb s)" "pc_le (sys_pc s c) (tlb_epoch (sys_tlb s))"
    if "c < MAX_CPUS" for c
    using assms(2) that by (auto simp: mail_inv_def Let_def)
  have "\<not> epoch \<le> tlb_acked t ! c" if "c < MAX_CPUS" for c
    using g(2)[OF m(1)[OF that]] by (simp add: b(1,3) not_le)
  moreover have "\<not> epoch \<le> r" if "c < MAX_CPUS" "sys_pc s c = RFlushed r" for c r
    using g(2)[of r] m(2)[OF that(1)] by (simp add: b(1) not_le that(2))
  ultimately show ?thesis using start(1) by (auto simp: wait_inv_def targets_set)
next
  case (ack cpu r)
  have len: "length (tlb_acked (sys_tlb s)) = MAX_CPUS" using assms(2) by (simp add: mail_inv_def Let_def)
  then show ?thesis using assms(3) ack by (auto simp: wait_inv_def nth_list_update)
qed (use assms(3) in \<open>auto simp: wait_inv_def\<close>)

lemma tlb_reach_inv: "tlb_reach n s \<Longrightarrow> n < 2 ^ 64 \<Longrightarrow> mail_inv n s \<and> wait_inv s"
proof (induction rule: tlb_reach.induct)
  case boot
  then show ?case by (simp add: mail_inv_def wait_inv_def sys_boot_def tlb_new_def pc_le_def)
next
  case (step n s s')
  then show ?case using mail_inv_step[of s s' n] wait_inv_step[of s s' n] by simp
qed

subsection \<open>Properties\<close>

text \<open>C12: When the initiator of a shootdown stops waiting, it and every hart it targeted have flushed
  their translations after the shootdown began, in every interleaving of the responders' loads, flushes
  and acknowledgements, for as long as the 64-bit epoch has not wrapped.\<close>

theorem shootdown_leaves_nothing_stale:
  assumes "tlb_reach n s" "n < 2 ^ 64" "sys_wait s = Some (epoch, me, targets)" "all_acked targets epoch (sys_tlb s)"
  shows "me \<notin> sys_stale s \<and> (\<forall>c \<in> set targets. c \<notin> sys_stale s)"
  using tlb_reach_inv[OF assms(1,2)] assms(3,4) by (auto simp: wait_inv_def all_acked_def list_all_iff)

text \<open>A run: a mapping changes, hart 0 starts a shootdown of hart 1, and hart 1 answers.\<close>

definition demo_start :: tlb_sys where
  "demo_start = \<lparr>sys_tlb = \<lparr>tlb_epoch = 1, tlb_requested = [0, 1, 0, 0], tlb_acked = [0, 0, 0, 0]\<rparr>,
     sys_pc = (\<lambda>_. RIdle), sys_wait = Some (1, 0, [1]), sys_stale = {0..<MAX_CPUS} - {0}\<rparr>"

definition demo_end :: tlb_sys where
  "demo_end = demo_start\<lparr>sys_pc := (\<lambda>_. RIdle), sys_stale := {0..<MAX_CPUS} - {0} - {1},
     sys_tlb := \<lparr>tlb_epoch = 1, tlb_requested = [0, 1, 0, 0], tlb_acked = [0, 1, 0, 0]\<rparr>\<rparr>"

lemma demo_targets: "shootdown_targets 0 3 = [1]"
  by (simp add: shootdown_targets_def MAX_CPUS_def upt_rec bit_numeral_rec)

lemma demo_reach: "tlb_reach 5 demo_end"
proof -
  have 1: "tlb_reach 1 (sys_boot\<lparr>sys_stale := {0..<MAX_CPUS}\<rparr>)"
    using tlb_reach.step[OF boot change, of] by (simp add: sys_boot_def)
  have b: "shootdown_begin 0 3 tlb_new = (1, \<lparr>tlb_epoch = 1, tlb_requested = [0, 1, 0, 0], tlb_acked = [0, 0, 0, 0]\<rparr>)"
    by (simp add: shootdown_begin_def demo_targets tlb_new_def MAX_CPUS_def numeral_eq_Suc)
  have 2: "tlb_reach 2 demo_start"
    using tlb_reach.step[OF 1 tlb_step.start[of _ 0 3]] b
    by (simp add: sys_boot_def demo_start_def demo_targets numeral_2_eq_2)
  have 3: "tlb_reach 3 (demo_start\<lparr>sys_pc := (\<lambda>_. RIdle)(1 := RLoaded 1)\<rparr>)"
    using tlb_reach.step[OF 2 tlb_step.load[of 1]]
    by (simp add: demo_start_def MAX_CPUS_def numeral_3_eq_3)
  have 4: "tlb_reach 4 (demo_start\<lparr>sys_pc := (\<lambda>_. RIdle)(1 := RFlushed 1), sys_stale := {0..<MAX_CPUS} - {0} - {1}\<rparr>)"
    using tlb_reach.step[OF 3 tlb_step.flush[of 1 _ 1]]
    by (simp add: demo_start_def MAX_CPUS_def eval_nat_numeral)
  have idle: "(\<lambda>_. RIdle)(1 := RIdle) = (\<lambda>_ :: nat. RIdle)" by auto
  show ?thesis
    using tlb_reach.step[OF 4 tlb_step.ack[of 1 _ 1]] idle
    by (simp add: demo_start_def demo_end_def MAX_CPUS_def eval_nat_numeral)
qed

theorem shootdown_leaves_nothing_stale_witness:
  "tlb_reach 5 demo_end \<and> sys_wait demo_end = Some (1, 0, [1]) \<and> all_acked [1] 1 (sys_tlb demo_end) \<and>
   0 \<notin> sys_stale demo_end \<and> 1 \<notin> sys_stale demo_end"
proof -
  have w: "sys_wait demo_end = Some (1, 0, [1])" "all_acked [1] 1 (sys_tlb demo_end)"
    by (simp_all add: demo_end_def demo_start_def all_acked_def)
  show ?thesis using shootdown_leaves_nothing_stale[OF demo_reach _ w] demo_reach w by simp
qed

text \<open>Polling each target once, in any order and with any further polls, ends the wait.\<close>

lemma poll_facts:
  "length (tlb_requested t) = MAX_CPUS \<Longrightarrow> length (tlb_acked t) = MAX_CPUS \<Longrightarrow> poll_mailbox cpu t = (o', t') \<Longrightarrow>
   tlb_requested t' = tlb_requested t \<and> length (tlb_acked t') = MAX_CPUS \<and> tlb_epoch t' = tlb_epoch t \<and>
   (\<forall>c < MAX_CPUS. tlb_acked t ! c \<le> tlb_acked t' ! c \<and> (c = cpu \<longrightarrow> tlb_requested t ! c \<le> tlb_acked t' ! c))"
  by (auto simp: poll_mailbox_def Let_def nth_list_update split: if_splits)

lemma polls_ack:
  assumes "length (tlb_requested t) = MAX_CPUS" "length (tlb_acked t) = MAX_CPUS"
  shows "let t' = fold (\<lambda>cpu s. snd (poll_mailbox cpu s)) polls t in
    tlb_requested t' = tlb_requested t \<and> length (tlb_acked t') = MAX_CPUS \<and> tlb_epoch t' = tlb_epoch t \<and>
    (\<forall>c < MAX_CPUS. tlb_acked t ! c \<le> tlb_acked t' ! c \<and> (c \<in> set polls \<longrightarrow> tlb_requested t ! c \<le> tlb_acked t' ! c))"
  using assms
proof (induction polls arbitrary: t)
  case (Cons p ps)
  obtain o' t1 where p: "poll_mailbox p t = (o', t1)" by (cases "poll_mailbox p t")
  note f = poll_facts[OF Cons.prems p]
  show ?case
    using Cons.IH[of t1] Cons.prems f p by (auto simp: Let_def intro: order_trans)
qed (simp add: Let_def)

lemma begin_requests:
  assumes "length (tlb_requested t) = MAX_CPUS" "c \<in> set (shootdown_targets me online)"
    and "shootdown_begin me online t = (e, t1)"
  shows "e \<le> tlb_requested t1 ! c"
  using begin_facts[OF assms(3,1)] assms(2) by (auto simp: targets_set)

text \<open>C36: The wait of \<open>shootdown_all\<close> ends without the time-out panic as soon as every targeted hart has
  polled its mailbox once, whatever other polls happen; the call then advances the epoch by one and every
  target has acknowledged it.\<close>

theorem shootdown_returns:
  assumes "length (tlb_requested t) = MAX_CPUS" "length (tlb_acked t) = MAX_CPUS"
    and "set (shootdown_targets me online) \<subseteq> set polls"
  shows "\<exists>t'. shootdown_all me online polls t = Some t' \<and> tlb_epoch t' = tlb_epoch t + 1 \<and>
    (\<forall>c \<in> set (shootdown_targets me online). tlb_epoch t' \<le> tlb_acked t' ! c)"
proof -
  obtain e t1 where b: "shootdown_begin me online t = (e, t1)" by (cases "shootdown_begin me online t")
  note bf = begin_facts[OF b assms(1)]
  let ?t2 = "fold (\<lambda>cpu s. snd (poll_mailbox cpu s)) polls t1"
  have pa: "tlb_epoch ?t2 = tlb_epoch t1" "c < MAX_CPUS \<Longrightarrow> c \<in> set polls \<Longrightarrow> tlb_requested t1 ! c \<le> tlb_acked ?t2 ! c" for c
    using polls_ack[of t1 polls] bf(3,4) assms(2) by (auto simp: Let_def)
  have ack: "e \<le> tlb_acked ?t2 ! c" if "c \<in> set (shootdown_targets me online)" for c
    using begin_requests[OF assms(1) that b] pa(2)[of c] assms(3) that by (auto simp: targets_set)
  show ?thesis
    using ack pa(1) bf(1,2) b
    by (cases "shootdown_targets me online = []") (auto simp: shootdown_all_def all_acked_def list_all_iff)
qed

theorem shootdown_returns_witness:
  "shootdown_targets 0 5 = [2] \<and> (\<exists>t'. shootdown_all 0 5 [2, 1] tlb_new = Some t' \<and> tlb_epoch t' = 1)"
proof -
  have t: "shootdown_targets 0 5 = [2]"
    by (simp add: shootdown_targets_def MAX_CPUS_def upt_rec bit_numeral_rec)
  show ?thesis
    using shootdown_returns[of tlb_new 0 5 "[2, 1]"] t by (auto simp: tlb_new_def)
qed

end
