(* ===== verification/Addr_Space.thy ===== *)
theory Addr_Space
  imports Page_Table Tlb Vmo_Pool
begin

text \<open>
  Address spaces and ASIDs, \<open>source/kernel/neuron/src/mm/address_space.rs\<close>.  The manager's state is
  bundled with the two globals it works on: the page-table heap and the TLB mailboxes.  The linker
  symbols are a record of addresses, and the number of stack guard pages is a parameter, since it
  depends on the build profile.
\<close>

unbundle bit_operations_syntax

subsection \<open>ASID allocator\<close>

definition MAX_ASIDS :: nat where "MAX_ASIDS = 256"
definition WORD_BITS :: nat where "WORD_BITS = 64"
definition BITMAP_WORDS :: nat where "BITMAP_WORDS = 4"

record asid_allocator =
  aa_bitmap :: "u64 list"
  aa_next :: nat
  aa_quarantined :: "u64 list"

definition asids_new :: asid_allocator where
  "asids_new =
     \<lparr>aa_bitmap = (replicate BITMAP_WORDS 0)[0 := 1], aa_next = 1, aa_quarantined = replicate BITMAP_WORDS 0\<rparr>"

definition bitmap_test :: "u64 list \<Rightarrow> nat \<Rightarrow> bool" where
  "bitmap_test bm index = ((bm ! (index div WORD_BITS)) AND push_bit (index mod WORD_BITS) 1 \<noteq> 0)"

definition bitmap_set :: "u64 list \<Rightarrow> nat \<Rightarrow> u64 list" where
  "bitmap_set bm index =
     bm[index div WORD_BITS := (bm ! (index div WORD_BITS)) OR push_bit (index mod WORD_BITS) 1]"

fun try_allocate_loop :: "nat \<Rightarrow> asid_allocator \<Rightarrow> u16 option \<times> asid_allocator" where
  "try_allocate_loop 0 a = (None, a)"
| "try_allocate_loop (Suc n) a =
     (let index = aa_next a mod MAX_ASIDS;
          a1 = a\<lparr>aa_next := (index + 1) mod MAX_ASIDS\<rparr>
      in if \<not> bitmap_test (aa_bitmap a) index
         then (Some (of_nat index), a1\<lparr>aa_bitmap := bitmap_set (aa_bitmap a) index\<rparr>)
         else try_allocate_loop n a1)"

definition try_allocate :: "asid_allocator \<Rightarrow> u16 option \<times> asid_allocator" where
  "try_allocate a = try_allocate_loop MAX_ASIDS a"

definition asid_free :: "u16 \<Rightarrow> asid_allocator \<Rightarrow> asid_allocator" where
  "asid_free asid a =
     (let index = unat asid in
      if index < MAX_ASIDS then a\<lparr>aa_quarantined := bitmap_set (aa_quarantined a) index\<rparr> else a)"

definition release_quarantined :: "asid_allocator \<Rightarrow> asid_allocator" where
  "release_quarantined a =
     (let bm = map2 (\<lambda>b q. b AND NOT q) (aa_bitmap a) (aa_quarantined a) in
      a\<lparr>aa_bitmap := bm[0 := (bm ! 0) OR 1], aa_quarantined := map (\<lambda>_. 0) (aa_quarantined a)\<rparr>)"

text \<open>\<open>shoot\<close> is the call of \<open>shootdown_all\<close>; \<open>None\<close> is its panic.\<close>

definition asid_allocate ::
  "(tlb \<Rightarrow> tlb option) \<Rightarrow> asid_allocator \<Rightarrow> tlb \<Rightarrow> (u16 option \<times> asid_allocator \<times> tlb) option" where
  "asid_allocate shoot a t =
     (case try_allocate a of
        (Some asid, a1) \<Rightarrow> Some (Some asid, a1, t)
      | (None, a1) \<Rightarrow>
          (case shoot t of
             None \<Rightarrow> None
           | Some t1 \<Rightarrow> (case try_allocate (release_quarantined a1) of (r, a2) \<Rightarrow> Some (r, a2, t1))))"

subsection \<open>Kernel segments\<close>

definition align_down :: "usize \<Rightarrow> usize" where
  "align_down addr = addr div PAGE_SIZE * PAGE_SIZE"

definition align_up :: "usize \<Rightarrow> usize" where
  "align_up addr =
     (let rem = addr mod PAGE_SIZE in
      if rem = 0 then addr
      else case checked_add addr (PAGE_SIZE - rem) of
        Some a \<Rightarrow> a
      | None \<Rightarrow> align_down usize_max)"

type_synonym map_result = "((map_error + unit) \<times> page_table \<times> pt_heap) option"

definition map_step :: "bool \<Rightarrow> usize \<Rightarrow> u64 \<Rightarrow> page_table \<Rightarrow> pt_heap \<Rightarrow> map_result" where
  "map_step huge addr flags pt h =
     (if huge then pt_map_2m (of_nat addr) (of_nat addr) flags pt h
      else pt_map (of_nat addr) (of_nat addr) flags pt h)"

function map_identity_loop :: "usize \<Rightarrow> usize \<Rightarrow> u64 \<Rightarrow> page_table \<Rightarrow> pt_heap \<Rightarrow> map_result" where
  "map_identity_loop addr limit flags pt h =
     (if limit \<le> addr then Some (Ok (), pt, h)
      else
        (let remaining = limit - addr;
             huge = (addr mod HUGE_PAGE_SIZE_2M = 0 \<and> HUGE_PAGE_SIZE_2M \<le> remaining)
         in case map_step huge addr flags pt h of
              None \<Rightarrow> None
            | Some (Inl e, pt1, h1) \<Rightarrow> Some (Err e, pt1, h1)
            | Some (Inr _, pt1, h1) \<Rightarrow>
                (case checked_add addr (if huge then HUGE_PAGE_SIZE_2M else PAGE_SIZE) of
                   None \<Rightarrow> Some (Err OutOfRange, pt1, h1)
                 | Some a \<Rightarrow> map_identity_loop a limit flags pt1 h1)))"
  by pat_completeness auto
termination
  by (relation "measure (\<lambda>(addr, limit, _). limit - addr)")
    (auto simp: checked_add_def PAGE_SIZE_def HUGE_PAGE_SIZE_2M_def split: if_splits)

declare map_identity_loop.simps [simp del]

definition map_identity_range :: "usize \<Rightarrow> usize \<Rightarrow> u64 \<Rightarrow> page_table \<Rightarrow> pt_heap \<Rightarrow> map_result" where
  "map_identity_range start limit flags pt h =
     (if limit \<le> start then Some (Ok (), pt, h) else map_identity_loop start limit flags pt h)"

record linker_symbols =
  sym_text_start :: usize
  sym_text_end :: usize
  sym_bss_end :: usize
  sym_stack_bottom :: usize
  sym_stack_top :: usize
  sym_selftest_stack_base :: usize
  sym_selftest_stack_top :: usize
  sym_satp_island_stack_base :: usize
  sym_satp_island_stack_top :: usize

definition RX_GLOBAL :: u64 where "RX_GLOBAL = PF_VALID OR PF_READ OR PF_EXECUTE OR PF_GLOBAL"
definition RW_GLOBAL :: u64 where "RW_GLOBAL = PF_VALID OR PF_READ OR PF_WRITE OR PF_GLOBAL"

definition KERNEL_PAGE_POOL_BASE :: usize where "KERNEL_PAGE_POOL_BASE = 0x82000000"
definition KERNEL_PAGE_POOL_LEN :: usize where "KERNEL_PAGE_POOL_LEN = 24 * 1024 * 1024"

text \<open>The \<open>?\<close> operator: go on only after \<open>Ok\<close>.\<close>

definition and_then :: "map_result \<Rightarrow> (page_table \<Rightarrow> pt_heap \<Rightarrow> map_result) \<Rightarrow> map_result" where
  "and_then r k = (case r of Some (Inr _, pt, h) \<Rightarrow> k pt h | _ \<Rightarrow> r)"

text \<open>The kernel stack, SATP-island stack and self-test stack, each skipped where the data range covers
  it, then the fixed windows.\<close>

definition map_stacks :: "nat \<Rightarrow> linker_symbols \<Rightarrow> usize \<Rightarrow> usize \<Rightarrow> page_table \<Rightarrow> pt_heap \<Rightarrow> map_result" where
  "map_stacks guard_pages ls data_start data_end pt h =
     (let stack_start = align_down (sym_stack_bottom ls);
          stack_end = align_up (sym_stack_top ls)
      in if stack_end \<le> stack_start then Some (Err OutOfRange, pt, h)
         else case checked_add stack_start (guard_pages * PAGE_SIZE) of
           None \<Rightarrow> Some (Err OutOfRange, pt, h)
         | Some mapped_start \<Rightarrow>
             (let map_from = max mapped_start data_end;
                  selftest_start = align_down (sym_selftest_stack_base ls);
                  selftest_end = align_up (sym_selftest_stack_top ls);
                  island_start = align_down (sym_satp_island_stack_base ls);
                  island_end = align_up (sym_satp_island_stack_top ls)
              in and_then
                   (if map_from < stack_end then map_identity_range map_from stack_end RW_GLOBAL pt h
                    else Some (Ok (), pt, h))
                   (\<lambda>pt h. and_then
                     (if island_start < island_end \<and> \<not> (island_start < data_end \<and> data_start < island_end)
                      then map_identity_range island_start island_end RW_GLOBAL pt h
                      else Some (Ok (), pt, h))
                     (\<lambda>pt h.
                       if selftest_start < selftest_end \<and>
                          \<not> (selftest_start < data_end \<and> data_start < selftest_end)
                       then map_identity_range selftest_start selftest_end RW_GLOBAL pt h
                       else Some (Ok (), pt, h)))))"

text \<open>Page pool, user stack pool, VMO arena, UART, PLIC and fw_cfg, in the order they are mapped.\<close>

definition fixed_windows :: "(usize \<times> usize) list" where
  "fixed_windows =
     [(KERNEL_PAGE_POOL_BASE, KERNEL_PAGE_POOL_BASE + KERNEL_PAGE_POOL_LEN),
      (0x80000000, 0x80000000 + 0x200000),
      (align_up USER_VMO_ARENA_BASE, align_up USER_VMO_ARENA_BASE + USER_VMO_ARENA_LEN),
      (align_down 0x10000000, align_up (0x10000000 + 0x1000)),
      (align_down 0x0c000000, align_up (0x0c000000 + 0x600000)),
      (align_down 0x10100000, align_up (0x10100000 + 0x1000))]"

fun map_windows :: "(usize \<times> usize) list \<Rightarrow> page_table \<Rightarrow> pt_heap \<Rightarrow> map_result" where
  "map_windows [] pt h = Some (Ok (), pt, h)"
| "map_windows ((base, limit) # ws) pt h =
     and_then (map_identity_range base limit RW_GLOBAL pt h) (map_windows ws)"

definition map_kernel_segments :: "nat \<Rightarrow> linker_symbols \<Rightarrow> page_table \<Rightarrow> pt_heap \<Rightarrow> map_result" where
  "map_kernel_segments guard_pages ls pt h =
     (let text_start = align_down (sym_text_start ls);
          text_end = align_up (sym_text_end ls)
      in if text_end \<le> text_start then Some (Err OutOfRange, pt, h)
         else and_then (map_identity_range text_start text_end RX_GLOBAL pt h)
           (\<lambda>pt h.
             let data_start = text_end;
                 data_end = align_up (sym_bss_end ls)
             in and_then (map_identity_range data_start data_end RW_GLOBAL pt h)
                  (\<lambda>pt h. and_then (map_stacks guard_pages ls data_start data_end pt h)
                    (map_windows fixed_windows))))"

text \<open>Which \<open>map_kernel_segments\<close> is compiled in: host builds map nothing.\<close>

datatype build = Host | Target nat linker_symbols

fun kernel_map :: "build \<Rightarrow> page_table \<Rightarrow> pt_heap \<Rightarrow> map_result" where
  "kernel_map Host pt h = Some (Ok (), pt, h)"
| "kernel_map (Target guard_pages ls) pt h = map_kernel_segments guard_pages ls pt h"

subsection \<open>Address spaces\<close>

datatype as_error = InvalidHandle | AsidExhausted | InUse | AsUnsupported | Mapping map_error | AsInvalidArgs

record address_space =
  as_page_table :: page_table
  as_asid :: u16
  as_owners :: "u32 set"

record as_stats =
  st_created :: usize
  st_destroyed :: usize
  st_live :: usize
  st_live_peak :: usize
  st_pt_pages_peak :: usize

record as_manager =
  am_spaces :: "address_space option list"
  am_asids :: asid_allocator
  am_heap :: pt_heap
  am_tlb :: tlb
  am_stats :: as_stats

definition manager_new :: "pt_heap \<Rightarrow> as_manager" where
  "manager_new h =
     \<lparr>am_spaces = [], am_asids = asids_new, am_heap = h, am_tlb = tlb_new,
      am_stats = \<lparr>st_created = 0, st_destroyed = 0, st_live = 0, st_live_peak = 0, st_pt_pages_peak = 0\<rparr>\<rparr>"

definition handle_from_index :: "nat \<Rightarrow> u32" where
  "handle_from_index index = of_nat index + 1"

definition handle_index :: "u32 \<Rightarrow> nat" where
  "handle_index h = unat h - 1"

definition handle_from_raw :: "u32 \<Rightarrow> u32 option" where
  "handle_from_raw raw = (if raw = 0 then None else Some raw)"

definition satp_value :: "address_space \<Rightarrow> u64" where
  "satp_value s =
     push_bit 60 8 OR push_bit 44 (ucast (as_asid s)) OR root_ppn (as_page_table s)"

definition refcount :: "address_space \<Rightarrow> nat" where
  "refcount s = card (as_owners s)"

definition update_peak :: "usize \<Rightarrow> usize \<Rightarrow> usize" where
  "update_peak peak v = (if peak < v then v else peak)"

definition record_as_create :: "usize \<Rightarrow> as_stats \<Rightarrow> as_stats" where
  "record_as_create pages st =
     (let live = st_live st + 1 in
      st\<lparr>st_created := st_created st + 1, st_live := live, st_live_peak := update_peak (st_live_peak st) live,
         st_pt_pages_peak := update_peak (st_pt_pages_peak st) pages\<rparr>)"

definition record_as_destroy :: "as_stats \<Rightarrow> as_stats" where
  "record_as_destroy st = st\<lparr>st_destroyed := st_destroyed st + 1, st_live := st_live st - 1\<rparr>"

text \<open>\<open>AddressSpace::new\<close>; the table of a failed attempt is dropped.\<close>

definition address_space_new ::
  "build \<Rightarrow> u16 \<Rightarrow> pt_heap \<Rightarrow> ((map_error + address_space) \<times> pt_heap) option" where
  "address_space_new b asid h =
     (case pt_new h of
        None \<Rightarrow> None
      | Some (pt, h1) \<Rightarrow>
          (case kernel_map b pt h1 of
             None \<Rightarrow> None
           | Some (Inl e, pt2, h2) \<Rightarrow> Some (Err e, pt_drop pt2 h2)
           | Some (Inr _, pt2, h2) \<Rightarrow> Some (Ok \<lparr>as_page_table = pt2, as_asid = asid, as_owners = {}\<rparr>, h2)))"

definition store_space :: "address_space \<Rightarrow> as_manager \<Rightarrow> u32 \<times> as_manager" where
  "store_space space m =
     (case find_index (\<lambda>slot. slot = None) (am_spaces m) of
        Some index \<Rightarrow> (handle_from_index index, m\<lparr>am_spaces := (am_spaces m)[index := Some space]\<rparr>)
      | None \<Rightarrow> (handle_from_index (length (am_spaces m)), m\<lparr>am_spaces := am_spaces m @ [Some space]\<rparr>))"

definition as_create ::
  "build \<Rightarrow> (tlb \<Rightarrow> tlb option) \<Rightarrow> as_manager \<Rightarrow> ((as_error + u32) \<times> as_manager) option" where
  "as_create b shoot m =
     (case asid_allocate shoot (am_asids m) (am_tlb m) of
        None \<Rightarrow> None
      | Some (None, a, t) \<Rightarrow> Some (Err AsidExhausted, m\<lparr>am_asids := a, am_tlb := t\<rparr>)
      | Some (Some asid, a, t) \<Rightarrow>
          (case address_space_new b asid (am_heap m) of
             None \<Rightarrow> None
           | Some (Inl e, h) \<Rightarrow>
               Some (Err (Mapping e), m\<lparr>am_asids := asid_free asid a, am_tlb := t, am_heap := h\<rparr>)
           | Some (Inr space, h) \<Rightarrow>
               (let pages = allocated_pages (as_page_table space);
                    m1 = m\<lparr>am_asids := a, am_tlb := t, am_heap := h,
                           am_stats := record_as_create pages (am_stats m)\<rparr>;
                    (handle, m2) = store_space space m1
                in Some (Ok handle, m2))))"

definition as_get :: "as_manager \<Rightarrow> u32 \<Rightarrow> as_error + address_space" where
  "as_get m handle =
     (let i = handle_index handle in
      if i < length (am_spaces m) then ok_or InvalidHandle (am_spaces m ! i) else Err InvalidHandle)"

text \<open>Writing back through the reference that \<open>get_mut\<close> returns.\<close>

definition put_space :: "u32 \<Rightarrow> address_space \<Rightarrow> as_manager \<Rightarrow> as_manager" where
  "put_space handle s m = m\<lparr>am_spaces := (am_spaces m)[handle_index handle := Some s]\<rparr>"

text \<open>\<open>activate\<close>: the value loaded into SATP.\<close>

definition as_activate :: "as_manager \<Rightarrow> u32 \<Rightarrow> as_error + u64" where
  "as_activate m handle = (case as_get m handle of Inl e \<Rightarrow> Err e | Inr s \<Rightarrow> Ok (satp_value s))"

definition as_set_leaf_flags :: "u32 \<Rightarrow> u64 \<Rightarrow> u64 \<Rightarrow> as_manager \<Rightarrow> (as_error + unit) \<times> as_manager" where
  "as_set_leaf_flags handle va fl m =
     (case as_get m handle of
        Inl e \<Rightarrow> (Err e, m)
      | Inr s \<Rightarrow>
          (case pt_set_leaf_flags va fl (as_page_table s) of
             (res, pt) \<Rightarrow> (map_err Mapping res, put_space handle (s\<lparr>as_page_table := pt\<rparr>) m)))"

definition as_attach :: "u32 \<Rightarrow> u32 \<Rightarrow> as_manager \<Rightarrow> (as_error + unit) \<times> as_manager" where
  "as_attach handle pid m =
     (case as_get m handle of
        Inl e \<Rightarrow> (Err e, m)
      | Inr s \<Rightarrow> (Ok (), put_space handle (s\<lparr>as_owners := insert pid (as_owners s)\<rparr>) m))"

definition as_detach :: "u32 \<Rightarrow> u32 \<Rightarrow> as_manager \<Rightarrow> (as_error + unit) \<times> as_manager" where
  "as_detach handle pid m =
     (case as_get m handle of
        Inl e \<Rightarrow> (Err e, m)
      | Inr s \<Rightarrow> (Ok (), put_space handle (s\<lparr>as_owners := as_owners s - {pid}\<rparr>) m))"

definition as_destroy :: "u32 \<Rightarrow> as_manager \<Rightarrow> (as_error + unit) \<times> as_manager" where
  "as_destroy handle m =
     (case as_get m handle of
        Inl e \<Rightarrow> (Err e, m)
      | Inr s \<Rightarrow>
          if refcount s \<noteq> 0 then (Err InUse, m)
          else (Ok (), m\<lparr>am_spaces := (am_spaces m)[handle_index handle := None],
                         am_heap := pt_drop (as_page_table s) (am_heap m),
                         am_asids := asid_free (as_asid s) (am_asids m),
                         am_stats := record_as_destroy (am_stats m)\<rparr>))"

definition global_window :: "u64 \<Rightarrow> bool" where
  "global_window va \<longleftrightarrow> (0x80000000 \<le> va \<and> va < 0x81000000) \<or> (0x10000000 \<le> va \<and> va < 0x10001000)"

definition as_map_page ::
  "u32 \<Rightarrow> u64 \<Rightarrow> u64 \<Rightarrow> u64 \<Rightarrow> as_manager \<Rightarrow> ((as_error + unit) \<times> as_manager) option" where
  "as_map_page handle va pa flags m =
     (case as_get m handle of
        Inl e \<Rightarrow> Some (Err e, m)
      | Inr s \<Rightarrow>
          (case pt_map va pa flags (as_page_table s) (am_heap m) of
             None \<Rightarrow> None
           | Some (Inl e, pt, h) \<Rightarrow>
               Some (Err (Mapping e), put_space handle (s\<lparr>as_page_table := pt\<rparr>) (m\<lparr>am_heap := h\<rparr>))
           | Some (Inr _, pt, h) \<Rightarrow>
               (let pt' = (if global_window va then snd (pt_set_leaf_flags va PF_GLOBAL pt) else pt)
                in Some (Ok (), put_space handle (s\<lparr>as_page_table := pt'\<rparr>) (m\<lparr>am_heap := h\<rparr>)))))"

end
