(* ===== verification/Page_Table_Correct.thy ===== *)
theory Page_Table_Correct
  imports Page_Table "HOL-Library.Sublist"
begin

text \<open>
  Correctness of the Sv39 table.  The tables reachable from the root form a tree (no table is reached
  by two index paths), so one entry update affects exactly the addresses below it.  \<open>walk\<close> is the
  abstract translation that \<open>lookup\<close>, \<open>translate\<close> and \<open>leaf_flags\<close> all compute.
\<close>

subsection \<open>Paths, tables and leaves\<close>

definition is_table :: "u64 \<Rightarrow> bool" where
  "is_table e \<longleftrightarrow> is_valid e \<and> \<not> is_leaf e \<and> next_table e \<noteq> 0"

fun table_at :: "page_table \<Rightarrow> u64 \<Rightarrow> nat list \<Rightarrow> u64 option" where
  "table_at pt t [] = Some t"
| "table_at pt t (i # p) =
     (if is_table (entry_at pt t i) then table_at pt (next_table (entry_at pt t i)) p else None)"

fun walk :: "page_table \<Rightarrow> u64 \<Rightarrow> nat list \<Rightarrow> (u64 \<times> nat) option" where
  "walk pt t [] = None"
| "walk pt t (i # p) =
     (let e = entry_at pt t i in
      if is_valid e \<and> is_leaf e then Some (e, length p)
      else if is_table e then walk pt (next_table e) p else None)"

abbreviation tables :: "page_table \<Rightarrow> nat list \<Rightarrow> u64 option" where
  "tables pt \<equiv> table_at pt (pt_root pt)"

definition wx_safe :: "u64 \<Rightarrow> bool" where
  "wx_safe e \<longleftrightarrow> \<not> (e AND PF_WRITE \<noteq> 0 \<and> e AND PF_EXECUTE \<noteq> 0)"

definition idx_ok :: "nat list \<Rightarrow> bool" where
  "idx_ok p \<longleftrightarrow> (\<forall>i \<in> set p. i < PT_ENTRIES)"

definition entry_ok :: "nat \<Rightarrow> u64 \<Rightarrow> bool" where
  "entry_ok level e \<longleftrightarrow>
     e = 0 \<or> (is_valid e \<and> is_leaf e \<and> wx_safe e) \<or> (level < 2 \<and> is_table e)"

definition pt_wf :: "page_table \<Rightarrow> bool" where
  "pt_wf pt \<longleftrightarrow>
     dom (pt_pages pt) = set (pt_owned pt) \<and> distinct (pt_owned pt) \<and>
     (\<forall>a pg. pt_pages pt a = Some pg \<longrightarrow> length pg = PT_ENTRIES \<and> a \<noteq> 0 \<and> a AND 0xFFF = 0) \<and>
     (\<forall>p a. idx_ok p \<and> length p \<le> 2 \<and> tables pt p = Some a \<longrightarrow> a \<in> dom (pt_pages pt)) \<and>
     (\<forall>p q a. idx_ok p \<and> idx_ok q \<and> length p \<le> 2 \<and> length q \<le> 2 \<and> tables pt p = Some a \<and> tables pt q = Some a
        \<longrightarrow> p = q) \<and>
     (\<forall>p a i. idx_ok p \<and> length p \<le> 2 \<and> tables pt p = Some a \<and> i < PT_ENTRIES \<longrightarrow> entry_ok (length p) (entry_at pt a i))"

definition heap_wf :: "page_table \<Rightarrow> pt_heap \<Rightarrow> bool" where
  "heap_wf pt h \<longleftrightarrow> distinct (ph_free h) \<and> set (ph_free h) \<inter> dom (pt_pages pt) = {} \<and>
     (\<forall>a \<in> set (ph_free h). a \<noteq> 0 \<and> a AND 0xFFF = 0)"

lemma table_at_append:
  "table_at pt t (p @ q) = (case table_at pt t p of None \<Rightarrow> None | Some a \<Rightarrow> table_at pt a q)"
  by (induction p arbitrary: t) auto

lemma walk_append:
  "table_at pt t p = Some a \<Longrightarrow> q \<noteq> [] \<Longrightarrow> walk pt t (p @ q) = walk pt a q"
  by (induction p arbitrary: t) (auto simp: is_table_def Let_def split: if_splits)

lemma entry_set_entry:
  assumes "pt_pages pt t = Some pg" "i < length pg"
  shows "entry_at (set_entry t i e pt) a j = (if a = t \<and> j = i then e else entry_at pt a j)"
  using assms by (auto simp: entry_at_def set_entry_def nth_list_update split: option.splits)

lemma set_entry_fields [simp]:
  "pt_root (set_entry t i e pt) = pt_root pt" "pt_owned (set_entry t i e pt) = pt_owned pt"
  by (simp_all add: set_entry_def split: option.splits)

lemma dom_set_entry [simp]: "dom (pt_pages (set_entry t i e pt)) = dom (pt_pages pt)"
  by (auto simp: set_entry_def split: option.splits)

lemma idx_ok_simps [simp]: "idx_ok []" "idx_ok (i # p) \<longleftrightarrow> i < PT_ENTRIES \<and> idx_ok p"
  "idx_ok (p @ q) \<longleftrightarrow> idx_ok p \<and> idx_ok q"
  by (auto simp: idx_ok_def)

lemma wf_dom: "pt_wf pt \<Longrightarrow> idx_ok p \<Longrightarrow> length p \<le> 2 \<Longrightarrow> tables pt p = Some a \<Longrightarrow> a \<in> dom (pt_pages pt)"
  unfolding pt_wf_def by blast

lemma wf_inj:
  "pt_wf pt \<Longrightarrow> idx_ok p \<Longrightarrow> length p \<le> 2 \<Longrightarrow> tables pt p = Some a \<Longrightarrow>
   idx_ok q \<Longrightarrow> length q \<le> 2 \<Longrightarrow> tables pt q = Some a \<Longrightarrow> p = q"
  unfolding pt_wf_def by blast

lemma wf_entry:
  "pt_wf pt \<Longrightarrow> idx_ok p \<Longrightarrow> length p \<le> 2 \<Longrightarrow> tables pt p = Some a \<Longrightarrow> i < PT_ENTRIES \<Longrightarrow>
   entry_ok (length p) (entry_at pt a i)"
  unfolding pt_wf_def by blast

lemma wf_page: "pt_wf pt \<Longrightarrow> pt_pages pt a = Some pg \<Longrightarrow> length pg = PT_ENTRIES \<and> a \<noteq> 0 \<and> a AND 0xFFF = 0"
  unfolding pt_wf_def by blast

lemma pt_wfI:
  assumes "dom (pt_pages pt) = set (pt_owned pt)" "distinct (pt_owned pt)"
    and "\<And>a pg. pt_pages pt a = Some pg \<Longrightarrow> length pg = PT_ENTRIES \<and> a \<noteq> 0 \<and> a AND 0xFFF = 0"
    and "\<And>p a. idx_ok p \<Longrightarrow> length p \<le> 2 \<Longrightarrow> tables pt p = Some a \<Longrightarrow> a \<in> dom (pt_pages pt)"
    and "\<And>p q a. idx_ok p \<Longrightarrow> idx_ok q \<Longrightarrow> length p \<le> 2 \<Longrightarrow> length q \<le> 2 \<Longrightarrow>
      tables pt p = Some a \<Longrightarrow> tables pt q = Some a \<Longrightarrow> p = q"
    and "\<And>p a i. idx_ok p \<Longrightarrow> length p \<le> 2 \<Longrightarrow> tables pt p = Some a \<Longrightarrow> i < PT_ENTRIES \<Longrightarrow>
      entry_ok (length p) (entry_at pt a i)"
  shows "pt_wf pt"
  unfolding pt_wf_def
proof (intro conjI allI impI)
  fix p q a assume "idx_ok p \<and> idx_ok q \<and> length p \<le> 2 \<and> length q \<le> 2 \<and> tables pt p = Some a \<and> tables pt q = Some a"
  then show "p = q" using assms(5)[of p q a] by simp
next
  fix p a assume "idx_ok p \<and> length p \<le> 2 \<and> tables pt p = Some a"
  then show "a \<in> dom (pt_pages pt)" using assms(4)[of p a] by simp
qed (use assms(1-3,6) in simp_all)

text \<open>Tables whose path does not lead through the changed slot stay where they were.\<close>

lemma tables_other:
  assumes wf: "pt_wf pt" and p: "idx_ok p" "length p \<le> 2" "tables pt p = Some a"
    and ent: "\<And>b j. (b, j) \<noteq> (a, i) \<Longrightarrow> b \<in> dom (pt_pages pt) \<Longrightarrow> entry_at pt' b j = entry_at pt b j"
    and root: "pt_root pt' = pt_root pt"
    and q: "idx_ok q" "length q \<le> 2" "\<not> prefix (p @ [i]) q"
  shows "tables pt' q = tables pt q"
  using q
proof (induction q rule: rev_induct)
  case Nil
  then show ?case by (simp add: root)
next
  case (snoc j q)
  have np: "\<not> prefix (p @ [i]) q" using snoc.prems(3) by (auto simp: prefix_def)
  have IH: "tables pt' q = tables pt q" using snoc np by simp
  show ?case
  proof (cases "tables pt q")
    case None
    then show ?thesis using IH by (simp add: table_at_append)
  next
    case (Some b)
    have "(b, j) \<noteq> (a, i)"
    proof
      assume "(b, j) = (a, i)"
      moreover have "q = p" if "b = a"
        using wf_inj[OF wf _ _ _ p] snoc.prems Some that by simp
      ultimately show False using snoc.prems(3) by simp
    qed
    moreover have "b \<in> dom (pt_pages pt)" using wf_dom[OF wf _ _ Some] snoc.prems by simp
    ultimately have "entry_at pt' b j = entry_at pt b j" by (rule ent)
    then show ?thesis using IH Some by (simp add: table_at_append)
  qed
qed

lemma walk_other_aux:
  assumes wf: "pt_wf pt" and p: "idx_ok p" "length p \<le> 2" "tables pt p = Some a"
    and ent: "\<And>b j. (b, j) \<noteq> (a, i) \<Longrightarrow> b \<in> dom (pt_pages pt) \<Longrightarrow> entry_at pt' b j = entry_at pt b j"
  shows "idx_ok (s @ q) \<Longrightarrow> length (s @ q) = 3 \<Longrightarrow> q \<noteq> [] \<Longrightarrow> tables pt s = Some b \<Longrightarrow> \<not> prefix (p @ [i]) (s @ q)
    \<Longrightarrow> walk pt' b q = walk pt b q"
proof (induction q arbitrary: s b)
  case (Cons j q)
  have s: "idx_ok s" "length s \<le> 2" using Cons.prems by auto
  have "(b, j) \<noteq> (a, i)"
  proof
    assume "(b, j) = (a, i)"
    moreover have "s = p" if "b = a" using wf_inj[OF wf s _ p] Cons.prems(4) that by simp
    ultimately show False using Cons.prems(5) by simp
  qed
  moreover have "b \<in> dom (pt_pages pt)" by (rule wf_dom[OF wf s Cons.prems(4)])
  ultimately have e: "entry_at pt' b j = entry_at pt b j" by (rule ent)
  show ?case
  proof (cases "is_table (entry_at pt b j) \<and> q \<noteq> []")
    case True
    have "walk pt' (next_table (entry_at pt b j)) q = walk pt (next_table (entry_at pt b j)) q"
      using Cons.IH[of "s @ [j]" "next_table (entry_at pt b j)"] Cons.prems True by (simp add: table_at_append)
    then show ?thesis by (simp add: e Let_def)
  qed (auto simp: e Let_def)
qed simp

lemma walk_other:
  assumes "pt_wf pt" "idx_ok p" "length p \<le> 2" "tables pt p = Some a"
    and "\<And>b j. (b, j) \<noteq> (a, i) \<Longrightarrow> b \<in> dom (pt_pages pt) \<Longrightarrow> entry_at pt' b j = entry_at pt b j"
    and "pt_root pt' = pt_root pt" "idx_ok r" "length r = 3" "\<not> prefix (p @ [i]) r"
  shows "walk pt' (pt_root pt') r = walk pt (pt_root pt) r"
  using walk_other_aux[OF assms(1-5), where s = "[]" and q = r and b = "pt_root pt"] assms by (cases r) auto

subsection \<open>Changing one leaf slot\<close>

text \<open>Storing a leaf into a slot that holds no table keeps the tree and changes exactly the
  translations below that slot.\<close>

lemma set_leaf:
  assumes wf: "pt_wf pt" and p: "idx_ok p" "length p \<le> 2" "tables pt p = Some a" and i: "i < PT_ENTRIES"
    and old: "\<not> is_table (entry_at pt a i)"
    and new: "is_valid e" "is_leaf e" "wx_safe e"
  defines "pt' \<equiv> set_entry a i e pt"
  shows "pt_wf pt'"
    and "idx_ok r \<Longrightarrow> length r = 3 \<Longrightarrow>
      walk pt' (pt_root pt') r = (if prefix (p @ [i]) r then Some (e, 2 - length p) else walk pt (pt_root pt) r)"
proof -
  obtain pg where pg: "pt_pages pt a = Some pg" using wf_dom[OF wf p] by auto
  have len: "i < length pg" using wf_page[OF wf pg] i by simp
  note es = entry_set_entry[OF pg len, of e, folded pt'_def]
  have root: "pt_root pt' = pt_root pt" by (simp add: pt'_def)
  have ent: "(b, j) \<noteq> (a, i) \<Longrightarrow> b \<in> dom (pt_pages pt) \<Longrightarrow> entry_at pt' b j = entry_at pt b j" for b j
    by (auto simp: es)
  have nt: "\<not> is_table e" using new by (simp add: is_table_def)
  have same: "tables pt' q = tables pt q" if q: "idx_ok q" "length q \<le> 2" for q
  proof (cases "prefix (p @ [i]) q")
    case False
    show ?thesis by (rule tables_other[OF wf p ent root q False])
  next
    case True
    then obtain t where t: "q = p @ i # t" by (auto simp: prefix_def)
    have "tables pt' p = Some a" using tables_other[OF wf p ent root p(1,2)] p(3) by simp
    then show ?thesis using p(3) old nt by (simp add: t table_at_append es)
  qed
  show "pt_wf pt'"
  proof (rule pt_wfI)
    fix q b j assume "idx_ok q" "length q \<le> 2" "tables pt' q = Some b" "j < PT_ENTRIES"
    then show "entry_ok (length q) (entry_at pt' b j)"
      using wf_entry[OF wf, of q b j] same new by (auto simp: es entry_ok_def)
  next
    fix b pg' assume "pt_pages pt' b = Some pg'"
    then show "length pg' = PT_ENTRIES \<and> b \<noteq> 0 \<and> b AND 0xFFF = 0"
      using wf_page[OF wf, of b] pg by (auto simp: pt'_def set_entry_def split: if_splits)
  qed (use wf same wf_dom[OF wf] wf_inj[OF wf] in \<open>auto simp: pt'_def pt_wf_def\<close>)
  assume r: "idx_ok r" "length r = 3"
  show "walk pt' (pt_root pt') r = (if prefix (p @ [i]) r then Some (e, 2 - length p) else walk pt (pt_root pt) r)"
  proof (cases "prefix (p @ [i]) r")
    case False
    then show ?thesis using walk_other[OF wf p ent root r False] by simp
  next
    case True
    then obtain t where t: "r = p @ i # t" by (auto simp: prefix_def)
    have "walk pt' (pt_root pt') r = walk pt' a (i # t)"
      unfolding t by (rule walk_append) (simp_all add: same p)
    also have "\<dots> = Some (e, 2 - length p)" using new r by (simp add: es t)
    finally show ?thesis using True by simp
  qed
qed

subsection \<open>Adding an empty table\<close>

definition table_pte :: "u64 \<Rightarrow> u64" where
  "table_pte n = push_bit 10 (drop_bit 12 n) OR PF_VALID"

definition add_table :: "u64 \<Rightarrow> nat \<Rightarrow> u64 \<Rightarrow> page_table \<Rightarrow> page_table" where
  "add_table a i n pt =
     set_entry a i (table_pte n) (pt\<lparr>pt_owned := pt_owned pt @ [n], pt_pages := (pt_pages pt)(n \<mapsto> page_new)\<rparr>)"

lemma page_bits: "a AND 0xFFF = 0 \<longleftrightarrow> (\<forall>k < 12. \<not> bit (a :: u64) k)"
proof -
  have m: "(0xFFF :: u64) = mask 12" by (simp add: mask_eq_exp_minus_1)
  show ?thesis unfolding m
  proof
    assume z: "a AND mask 12 = 0"
    show "\<forall>k < 12. \<not> bit a k"
    proof (intro allI impI)
      fix k :: nat assume "k < 12"
      moreover have "\<not> bit (a AND mask 12) k" by (simp add: z)
      ultimately show "\<not> bit a k" by (simp add: bit_simps)
    qed
  qed (rule bit_word_eqI, auto simp: bit_simps)
qed

lemma and_one_bit: "(e :: u64) AND 1 \<noteq> 0 \<longleftrightarrow> bit e 0"
  by (simp add: and_one_eq bit_0 odd_iff_mod_2_eq_one)

lemma flag_bits:
  "is_valid e \<longleftrightarrow> bit e 0" "e AND PF_READ \<noteq> 0 \<longleftrightarrow> bit e 1"
  "e AND PF_WRITE \<noteq> 0 \<longleftrightarrow> bit e 2" "e AND PF_EXECUTE \<noteq> 0 \<longleftrightarrow> bit e 3"
  using and_one_bit[of e] and_exp_eq_0_iff_not_bit[of e 1] and_exp_eq_0_iff_not_bit[of e 2]
    and_exp_eq_0_iff_not_bit[of e 3]
  by (simp_all add: is_valid_def PF_VALID_def PF_READ_def PF_WRITE_def PF_EXECUTE_def)

lemma leaf_bits: "is_leaf e \<longleftrightarrow> bit e 1 \<or> bit e 2 \<or> bit e 3"
proof -
  have "e AND LEAF_PERMS \<noteq> 0 \<longleftrightarrow> e AND PF_READ \<noteq> 0 \<or> e AND PF_WRITE \<noteq> 0 \<or> e AND PF_EXECUTE \<noteq> 0"
    by (simp add: LEAF_PERMS_def bit.conj_disj_distrib or_eq_0_iff)
  then show ?thesis using flag_bits by (simp add: is_leaf_def)
qed

lemma wx_bits: "wx_safe e \<longleftrightarrow> \<not> (bit e 2 \<and> bit e 3)"
  by (simp add: wx_safe_def flag_bits)

lemma pte_flag_bits: "k < 10 \<Longrightarrow> bit (push_bit 10 x OR f) k \<longleftrightarrow> bit (f :: u64) k"
  by (simp add: bit_simps)

lemma low_clear_bit: "\<forall>k < m. \<not> bit (n :: u64) k \<Longrightarrow> bit n j \<Longrightarrow> m \<le> j"
  by (meson leI)

lemma next_table_pte: "n AND 0xFFF = 0 \<Longrightarrow> next_table (table_pte n) = n"
  unfolding page_bits next_table_def table_pte_def PF_VALID_def
  by (rule bit_word_eqI) (auto simp: bit_simps dest: low_clear_bit)

lemma table_pte_is_table: "n AND 0xFFF = 0 \<Longrightarrow> n \<noteq> 0 \<Longrightarrow> is_table (table_pte n)"
  unfolding is_table_def
  by (intro conjI) (simp_all add: next_table_pte, simp_all add: flag_bits leaf_bits table_pte_def PF_VALID_def bit_simps)

lemma add_table_entries:
  assumes wf: "pt_wf pt" and p: "idx_ok p" "length p < 2" "tables pt p = Some a" and i: "i < PT_ENTRIES"
    and old: "\<not> is_valid (entry_at pt a i)"
    and n: "n \<notin> dom (pt_pages pt)" "n \<noteq> 0" "n AND 0xFFF = 0"
  defines "pt' \<equiv> add_table a i n pt"
  shows "pt_root pt' = pt_root pt" "dom (pt_pages pt') = insert n (dom (pt_pages pt))"
    and "\<And>b j. (b, j) \<noteq> (a, i) \<Longrightarrow> b \<in> dom (pt_pages pt) \<Longrightarrow> entry_at pt' b j = entry_at pt b j"
    and "\<And>j. j < PT_ENTRIES \<Longrightarrow> entry_at pt' n j = 0" "entry_at pt' a i = table_pte n"
    and "\<And>b pg'. pt_pages pt' b = Some pg' \<Longrightarrow> length pg' = PT_ENTRIES \<and> b \<noteq> 0 \<and> b AND 0xFFF = 0"
proof -
  let ?pt1 = "pt\<lparr>pt_owned := pt_owned pt @ [n], pt_pages := (pt_pages pt)(n \<mapsto> page_new)\<rparr>"
  obtain pg where pg: "pt_pages pt a = Some pg" using wf_dom[OF wf p(1) _ p(3)] p(2) by auto
  have an: "a \<noteq> n" using pg n by auto
  have len: "i < length pg" using wf_page[OF wf pg] i by simp
  have pg1: "pt_pages ?pt1 a = Some pg" using pg an by simp
  have e1: "entry_at ?pt1 b j = (if b = n then page_new ! j else entry_at pt b j)" for b j
    by (simp add: entry_at_def)
  note es = entry_set_entry[OF pg1 len, of "table_pte n", folded add_table_def, folded pt'_def, unfolded e1]
  show "pt_root pt' = pt_root pt" "dom (pt_pages pt') = insert n (dom (pt_pages pt))"
    by (simp_all add: pt'_def add_table_def)
  show "(b, j) \<noteq> (a, i) \<Longrightarrow> b \<in> dom (pt_pages pt) \<Longrightarrow> entry_at pt' b j = entry_at pt b j" for b j
    using n(1) by (auto simp: es)
  show "j < PT_ENTRIES \<Longrightarrow> entry_at pt' n j = 0" for j using an by (simp add: es page_new_def)
  show "entry_at pt' a i = table_pte n" by (simp add: es)
  show "pt_pages pt' b = Some pg' \<Longrightarrow> length pg' = PT_ENTRIES \<and> b \<noteq> 0 \<and> b AND 0xFFF = 0" for b pg'
    using wf_page[OF wf, of b] pg1 n
    by (auto simp: pt'_def add_table_def set_entry_def page_new_def split: if_splits)
qed

lemma add_table_tables:
  assumes wf: "pt_wf pt" and p: "idx_ok p" "length p < 2" "tables pt p = Some a" and i: "i < PT_ENTRIES"
    and old: "\<not> is_valid (entry_at pt a i)"
    and n: "n \<notin> dom (pt_pages pt)" "n \<noteq> 0" "n AND 0xFFF = 0"
  defines "pt' \<equiv> add_table a i n pt"
  shows "tables pt' p = Some a" "tables pt' (p @ [i]) = Some n"
    and "\<And>q b. idx_ok q \<Longrightarrow> length q \<le> 2 \<Longrightarrow> tables pt' q = Some b \<Longrightarrow>
      (tables pt q = Some b \<and> \<not> prefix (p @ [i]) q) \<or> (q = p @ [i] \<and> b = n)"
proof -
  have p2: "length p \<le> 2" using p(2) by simp
  note ate = add_table_entries[OF wf p i old n, folded pt'_def]
  have nt: "is_table (table_pte n)" "next_table (table_pte n) = n"
    using n table_pte_is_table next_table_pte by auto
  have other: "tables pt' q = tables pt q" if "idx_ok q" "length q \<le> 2" "\<not> prefix (p @ [i]) q" for q
    by (rule tables_other[OF wf p(1) p2 p(3) ate(3,1) that])
  show tp: "tables pt' p = Some a" using other[OF p(1) p2] p(3) by simp
  have below: "tables pt' (p @ i # t) = (if t = [] then Some n else None)" if "idx_ok t" for t
    using that tp ate(4,5) nt by (cases t) (auto simp: table_at_append is_table_def is_valid_def)
  show "tables pt' (p @ [i]) = Some n" using below[of "[]"] by simp
  fix q b assume q: "idx_ok q" "length q \<le> 2" "tables pt' q = Some b"
  show "(tables pt q = Some b \<and> \<not> prefix (p @ [i]) q) \<or> (q = p @ [i] \<and> b = n)"
  proof (cases "prefix (p @ [i]) q")
    case True
    then obtain t where t: "q = p @ i # t" by (auto simp: prefix_def)
    then show ?thesis using below[of t] q by (auto split: if_splits)
  qed (use other q in auto)
qed

lemma add_table_wf:
  assumes wf: "pt_wf pt" and p: "idx_ok p" "length p < 2" "tables pt p = Some a" and i: "i < PT_ENTRIES"
    and old: "\<not> is_valid (entry_at pt a i)"
    and n: "n \<notin> dom (pt_pages pt)" "n \<noteq> 0" "n AND 0xFFF = 0"
  defines "pt' \<equiv> add_table a i n pt"
  shows "pt_wf pt'"
proof (rule pt_wfI)
  have p2: "length p \<le> 2" using p(2) by simp
  note ate = add_table_entries[OF wf p i old n, folded pt'_def]
  note cases = add_table_tables(3)[OF wf p i old n, folded pt'_def]
  have nt: "is_table (table_pte n)" using n table_pte_is_table by auto
  {
    fix q b j assume q: "idx_ok q" "length q \<le> 2" "tables pt' q = Some b" and j: "j < PT_ENTRIES"
    from cases[OF q] show "entry_ok (length q) (entry_at pt' b j)"
    proof
      assume o: "tables pt q = Some b \<and> \<not> prefix (p @ [i]) q"
      show ?thesis
      proof (cases "(b, j) = (a, i)")
        case True
        then have "q = p" using wf_inj[OF wf q(1,2) _ p(1) p2 p(3)] o by simp
        then show ?thesis using True ate(5) nt p(2) by (simp add: entry_ok_def)
      next
        case False
        then have "entry_at pt' b j = entry_at pt b j" using ate(3) wf_dom[OF wf q(1,2)] o by blast
        then show ?thesis using wf_entry[OF wf q(1,2) _ j] o by simp
      qed
    qed (use ate(4) j in \<open>simp add: entry_ok_def\<close>)
  }
  fix q q' b assume q: "idx_ok q" "idx_ok q'" "length q \<le> 2" "length q' \<le> 2" "tables pt' q = Some b" "tables pt' q' = Some b"
  have "b \<noteq> n" if "tables pt r = Some b" "idx_ok r" "length r \<le> 2" for r
    using wf_dom[OF wf that(2,3,1)] n(1) by auto
  then show "q = q'" using cases[OF q(1,3,5)] cases[OF q(2,4,6)] wf_inj[OF wf] q by blast
next
  fix q b assume q: "idx_ok q" "length q \<le> 2" "tables pt' q = Some b"
  show "b \<in> dom (pt_pages pt')"
    using add_table_tables(3)[OF wf p i old n, folded pt'_def, OF q] wf_dom[OF wf q(1,2)]
      add_table_entries(2)[OF wf p i old n] by (auto simp: pt'_def)
qed (use wf n add_table_entries(6)[OF wf p i old n] in \<open>auto simp: pt'_def add_table_def pt_wf_def\<close>)

lemma add_table_walk:
  assumes wf: "pt_wf pt" and p: "idx_ok p" "length p < 2" "tables pt p = Some a" and i: "i < PT_ENTRIES"
    and old: "\<not> is_valid (entry_at pt a i)"
    and n: "n \<notin> dom (pt_pages pt)" "n \<noteq> 0" "n AND 0xFFF = 0"
  defines "pt' \<equiv> add_table a i n pt"
  shows "idx_ok r \<Longrightarrow> length r = 3 \<Longrightarrow> walk pt' (pt_root pt') r = walk pt (pt_root pt) r"
proof -
  assume r: "idx_ok r" "length r = 3"
  note ate = add_table_entries[OF wf p i old n, folded pt'_def]
  have nt: "is_table (table_pte n)" "next_table (table_pte n) = n"
    using n table_pte_is_table next_table_pte by auto
  show ?thesis
  proof (cases "prefix (p @ [i]) r")
    case False
    show ?thesis by (rule walk_other[OF wf p(1) _ p(3) ate(3,1) r False]) (use p(2) in simp_all)
  next
    case True
    then obtain t where t: "r = p @ i # t" by (auto simp: prefix_def)
    have "walk pt' (pt_root pt') r = walk pt' a (i # t)"
      unfolding t by (rule walk_append) (simp_all add: add_table_tables(1)[OF wf p i old n] pt'_def)
    also have "\<dots> = None"
      using r t ate(4,5) nt by (cases t) (auto simp: is_table_def is_valid_def Let_def)
    also have "\<dots> = walk pt a (i # t)" using old by (simp add: is_table_def)
    also have "\<dots> = walk pt (pt_root pt) r"
      unfolding t by (rule walk_append[symmetric]) (simp_all add: p(3))
    finally show ?thesis .
  qed
qed

subsection \<open>Installing a leaf\<close>

text \<open>\<open>busy\<close>: the slot \<open>k\<close> levels below table \<open>t\<close> on the given path, or a leaf above it, is in use.\<close>

fun busy :: "page_table \<Rightarrow> u64 \<Rightarrow> nat list \<Rightarrow> nat \<Rightarrow> bool" where
  "busy pt t [] k = False"
| "busy pt t (i # rest) k =
     (let e = entry_at pt t i in
      if k = 0 then is_valid e
      else (is_valid e \<and> is_leaf e) \<or> (is_table e \<and> busy pt (next_table e) rest (k - 1)))"

lemma alloc_page_Some:
  assumes "alloc_page h = Some (n, h')" "heap_wf pt h"
  shows "n \<notin> dom (pt_pages pt)" "n \<noteq> 0" "n AND 0xFFF = 0" "ph_free h = n # ph_free h'"
    and "heap_wf (add_table a i n pt) h'"
proof -
  have fr: "ph_free h = n # ph_free h'"
    using assms(1) by (auto simp: alloc_page_def record_heap_page_alloc_def Let_def split: list.splits)
  then show "n \<notin> dom (pt_pages pt)" "n \<noteq> 0" "n AND 0xFFF = 0" "ph_free h = n # ph_free h'"
    using assms(2) by (auto simp: heap_wf_def)
  have "dom (pt_pages (add_table a i n pt)) = insert n (dom (pt_pages pt))" by (simp add: add_table_def)
  then show "heap_wf (add_table a i n pt) h'" using assms(2) fr by (simp add: heap_wf_def)
qed

lemma heap_wf_set_entry [simp]: "heap_wf (set_entry t i e pt) h = heap_wf pt h"
  by (simp add: heap_wf_def)

definition mapped_at :: "page_table \<Rightarrow> page_table \<Rightarrow> nat list \<Rightarrow> u64 \<Rightarrow> nat \<Rightarrow> bool" where
  "mapped_at pt pt' path pte k \<longleftrightarrow>
     (\<forall>r. idx_ok r \<and> length r = 3 \<longrightarrow>
        walk pt' (pt_root pt') r = (if prefix path r then Some (pte, k) else walk pt (pt_root pt) r))"

lemma install_ok:
  assumes "install_loop lf pte t (length p) is pt h = Some (res, pt', h')"
    and "pt_wf pt" "heap_wf pt h" "idx_ok (p @ is)" "length (p @ is) = 3" "length p \<le> lf" "lf \<le> 2"
    and "tables pt p = Some t" "is_valid pte" "is_leaf pte" "wx_safe pte"
  shows "pt_wf pt' \<and> heap_wf pt' h' \<and>
    (if busy pt t is (lf - length p) then res = Inl Overlap \<and> pt' = pt \<and> h' = h
     else res = Inr () \<and> mapped_at pt pt' (take (Suc lf) (p @ is)) pte (2 - lf))"
  using assms
proof (induction "is" arbitrary: p t pt h)
  case Nil
  then show ?case by simp
next
  case (Cons i rest)
  let ?e = "entry_at pt t i"
  have i: "i < PT_ENTRIES" and p: "idx_ok p" "length p \<le> 2" "tables pt p = Some t" using Cons.prems by auto
  have eok: "entry_ok (length p) ?e" by (rule wf_entry[OF Cons.prems(2) p i])
  show ?case
  proof (cases "length p = lf")
    case True
    have nt: "\<not> is_valid ?e \<Longrightarrow> \<not> is_table ?e" by (simp add: is_table_def)
    show ?thesis
    proof (cases "is_valid ?e")
      case False
      note sl = set_leaf[OF Cons.prems(2) p i nt[OF False] Cons.prems(9,10,11)]
      have "mapped_at pt (set_entry t i pte pt) (p @ [i]) pte (2 - lf)"
        using sl(2) True by (auto simp: mapped_at_def)
      then show ?thesis using Cons.prems False True sl(1) by (auto simp: Let_def)
    qed (use Cons.prems True in \<open>auto simp: Let_def\<close>)
  next
    case False
    then have lt: "length p < lf" "length p < 2" and k: "lf - length p \<noteq> 0" "lf - length p - 1 = lf - length (p @ [i])"
      using Cons.prems(6,7) by auto
    show ?thesis
    proof (cases "is_valid ?e")
      case v: True
      show ?thesis
      proof (cases "is_leaf ?e")
        case True
        then show ?thesis using Cons.prems v False k by (simp add: Let_def)
      next
        case nl: False
        have it: "is_table ?e" using eok v nl by (auto simp: entry_ok_def is_valid_def)
        have tn: "tables pt (p @ [i]) = Some (next_table ?e)" using p(3) it by (simp add: table_at_append)
        have run: "install_loop lf pte (next_table ?e) (length (p @ [i])) rest pt h = Some (res, pt', h')"
          using Cons.prems(1) False v nl it by (simp add: Let_def is_table_def)
        from Cons.IH[OF run Cons.prems(2,3) _ _ _ Cons.prems(7) tn Cons.prems(9,10,11)] Cons.prems(4,5) lt
        show ?thesis using it nl k by (auto simp: Let_def simp del: take_append split: if_splits)
      qed
    next
      case nv: False
      obtain n h1 where al: "alloc_page h = Some (n, h1)"
        and run: "install_loop lf pte n (length (p @ [i])) rest (add_table t i n pt) h1 = Some (res, pt', h')"
        using Cons.prems(1) False nv
        by (auto simp: Let_def add_table_def table_pte_def split: option.splits)
      note fr = alloc_page_Some[OF al Cons.prems(3)]
      note at = add_table_wf[OF Cons.prems(2) p(1) lt(2) p(3) i nv fr(1-3)]
        add_table_tables(2)[OF Cons.prems(2) p(1) lt(2) p(3) i nv fr(1-3)]
        add_table_entries(4)[OF Cons.prems(2) p(1) lt(2) p(3) i nv fr(1-3)]
        add_table_walk[OF Cons.prems(2) p(1) lt(2) p(3) i nv fr(1-3)]
      have nb: "\<not> busy (add_table t i n pt) n rest (lf - length (p @ [i]))"
        using at(3) Cons.prems(4) by (cases rest) (auto simp: Let_def is_valid_def is_table_def)
      from Cons.IH[OF run at(1) fr(5) _ _ _ Cons.prems(7) at(2) Cons.prems(9,10,11)] Cons.prems(4,5) lt nb
      have "pt_wf pt' \<and> heap_wf pt' h' \<and> res = Inr () \<and>
          mapped_at (add_table t i n pt) pt' (take (Suc lf) (p @ i # rest)) pte (2 - lf)"
        by (simp del: take_append)
      then show ?thesis using at(4) nv k by (simp add: mapped_at_def Let_def is_table_def del: take_append)
    qed
  qed
qed

text \<open>Installing returns whenever the heap holds two pages.\<close>

lemma install_returns:
  "level \<le> lf \<Longrightarrow> lf \<le> 2 \<Longrightarrow> lf - level \<le> length (ph_free h) \<Longrightarrow>
   \<exists>res pt' h'. install_loop lf pte t level is pt h = Some (res, pt', h')"
proof (induction "is" arbitrary: level t pt h)
  case (Cons i rest)
  have al: "alloc_page h \<noteq> None \<and> (\<forall>n h1. alloc_page h = Some (n, h1) \<longrightarrow> length (ph_free h) = Suc (length (ph_free h1)))"
    if "level \<noteq> lf"
    using Cons.prems that
    by (cases "ph_free h") (auto simp: alloc_page_def record_heap_page_alloc_def Let_def)
  show ?case
  proof (cases "level = lf")
    case False
    note lv = al[OF False]
    have sub: "Suc level \<le> lf" using False Cons.prems by simp
    show ?thesis using Cons.IH[OF sub Cons.prems(2)] Cons.prems lv
      by (auto simp: Let_def split: option.splits)
  qed (simp add: Let_def)
qed simp

subsection \<open>The public walks compute the abstract one\<close>

lemma translate_loop_walk:
  "level + length is = 3 \<Longrightarrow>
   translate_loop pt t level is va = map_option (\<lambda>(e, k). leaf_phys e (2 - k) va) (walk pt t is)"
proof (induction "is" arbitrary: level t)
  case (Cons i rest)
  then have "2 - length rest = level" by simp
  then show ?case using Cons by (auto simp: Let_def is_table_def)
qed simp

lemma lookup_loop_walk: "lookup_loop pt t is = map_option fst (walk pt t is)"
  by (induction "is" arbitrary: t) (auto simp: Let_def is_table_def)

lemma leaf_flags_loop_walk:
  "leaf_flags_loop pt t is = ok_or OutOfRange (map_option (\<lambda>(e, k). e AND 0x3FF AND 0xFF) (walk pt t is))"
  by (induction "is" arbitrary: t) (auto simp: Let_def is_table_def ok_or_def)

lemma busy_walk:
  assumes "pt_wf pt" "idx_ok (p @ is)" "length (p @ is) = 3" "tables pt p = Some t" "is \<noteq> []"
  shows "busy pt t is (length is - 1) \<longleftrightarrow> walk pt t is \<noteq> None"
  using assms
proof (induction "is" arbitrary: p t)
  case (Cons i rest)
  have eok: "entry_ok (length p) (entry_at pt t i)"
    using wf_entry[OF Cons.prems(1) _ _ Cons.prems(4)] Cons.prems by simp
  show ?case
  proof (cases "rest = []")
    case True
    then have "length p = 2" using Cons.prems(3) by simp
    then show ?thesis using eok True by (auto simp: Let_def entry_ok_def is_valid_def)
  next
    case False
    show ?thesis
      using Cons.IH[of "p @ [i]" "next_table (entry_at pt t i)"] Cons.prems False
      by (auto simp: Let_def table_at_append)
  qed
qed simp

subsection \<open>Virtual addresses and paths\<close>

lemma length_vpn [simp]: "length (vpn_indices va) = 3"
  by (simp add: vpn_indices_def)

lemma and_1ff: "(x :: u64) AND 0x1ff = take_bit 9 x"
proof -
  have m: "(0x1ff :: u64) = mask 9" by (simp add: mask_eq_exp_minus_1)
  show ?thesis unfolding m by (simp add: take_bit_eq_mask)
qed

lemma idx_ok_vpn [simp]: "idx_ok (vpn_indices va)"
proof -
  have "unat (take_bit 9 x) < 512" for x :: u64
    using take_bit_nat_less_exp[of 9 "unat x"] by (simp add: unsigned_take_bit_eq)
  then show ?thesis by (simp add: vpn_indices_def and_1ff PT_ENTRIES_def)
qed

lemma drop_bit_eq_bits: "drop_bit m (a :: u64) = drop_bit m b \<longleftrightarrow> (\<forall>k. m \<le> k \<and> k < 64 \<longrightarrow> bit a k = bit b k)"
proof
  assume e: "drop_bit m a = drop_bit m b"
  show "\<forall>k. m \<le> k \<and> k < 64 \<longrightarrow> bit a k = bit b k"
  proof (intro allI impI)
    fix k assume "m \<le> k \<and> k < 64"
    moreover have "bit (drop_bit m a) (k - m) = bit (drop_bit m b) (k - m)" by (simp add: e)
    ultimately show "bit a k = bit b k" by (simp add: bit_simps)
  qed
next
  assume r: "\<forall>k. m \<le> k \<and> k < 64 \<longrightarrow> bit a k = bit b k"
  show "drop_bit m a = drop_bit m b"
  proof (rule bit_word_eqI)
    fix k assume "k < LENGTH(64)"
    show "bit (drop_bit m a) k = bit (drop_bit m b) k"
    proof (cases "m + k < 64")
      case False
      then have "\<not> bit a (m + k)" "\<not> bit b (m + k)" using bit_imp_le_length[of a "m + k"] bit_imp_le_length[of b "m + k"] by auto
      then show ?thesis by (simp add: bit_simps)
    qed (use r in \<open>simp add: bit_simps\<close>)
  qed
qed

lemma canonical_bits: "is_canonical_sv39 va \<longleftrightarrow> (\<forall>k. 39 \<le> k \<and> k < 64 \<longrightarrow> bit va k = bit va 38)"
proof -
  have up: "drop_bit 39 va = 0 \<longleftrightarrow> (\<forall>k. 39 \<le> k \<and> k < 64 \<longrightarrow> \<not> bit va k)"
    using drop_bit_eq_bits[of 39 va 0] by simp
  have up1: "drop_bit 39 va = drop_bit 39 (NOT 0) \<longleftrightarrow> (\<forall>k. 39 \<le> k \<and> k < 64 \<longrightarrow> bit va k)"
    using drop_bit_eq_bits[of 39 va "NOT 0"] by (simp add: bit_simps)
  have "drop_bit 38 va AND 1 = 0 \<longleftrightarrow> \<not> bit va 38"
    using and_one_bit[of "drop_bit 38 va"] by (auto simp: bit_simps)
  then show ?thesis unfolding is_canonical_sv39_def Let_def using up up1 by auto
qed

lemma vpn_index_eq:
  "unat (drop_bit m (a :: u64) AND 0x1ff) = unat (drop_bit m (b :: u64) AND 0x1ff) \<longleftrightarrow>
     (\<forall>k. m \<le> k \<and> k < m + 9 \<longrightarrow> bit a k = bit b k)"
proof -
  have "take_bit 9 (drop_bit m a) = take_bit 9 (drop_bit m b) \<longleftrightarrow> (\<forall>k < 9. bit a (m + k) = bit b (m + k))"
    (is "?l = ?r")
  proof
    assume e: ?l
    show ?r
    proof (intro allI impI)
      fix k :: nat assume "k < 9"
      moreover have "bit (take_bit 9 (drop_bit m a)) k = bit (take_bit 9 (drop_bit m b)) k" by (simp add: e)
      ultimately show "bit a (m + k) = bit b (m + k)" by (simp add: bit_simps)
    qed
  qed (rule bit_word_eqI, auto simp: bit_simps)
  moreover have "(\<forall>k < 9. bit a (m + k) = bit b (m + k)) \<longleftrightarrow> (\<forall>k. m \<le> k \<and> k < m + 9 \<longrightarrow> bit a k = bit b k)"
    by (metis add_less_cancel_left le_add1 le_add_diff_inverse)
  ultimately show ?thesis unfolding and_1ff word_unat_eq_iff[symmetric] by simp
qed

lemma canonical_range:
  assumes "is_canonical_sv39 a" "is_canonical_sv39 b" "m \<le> 38"
  shows "drop_bit m a = drop_bit m b \<longleftrightarrow> (\<forall>k. m \<le> k \<and> k < 39 \<longrightarrow> bit a k = bit b k)"
proof
  assume r: "\<forall>k. m \<le> k \<and> k < 39 \<longrightarrow> bit a k = bit b k"
  have "bit a k = bit b k" if "m \<le> k \<and> k < 64" for k
  proof (cases "k < 39")
    case False
    then have "bit a k = bit a 38" "bit b k = bit b 38" using assms(1,2) that by (auto simp: canonical_bits)
    then show ?thesis using r assms(3) by simp
  qed (use r that in simp)
  then show "drop_bit m a = drop_bit m b" by (simp add: drop_bit_eq_bits)
qed (simp add: drop_bit_eq_bits)

lemma vpn_same_page:
  assumes "is_canonical_sv39 a" "is_canonical_sv39 b"
  shows "vpn_indices a = vpn_indices b \<longleftrightarrow> drop_bit 12 a = drop_bit 12 b"
    and "take 2 (vpn_indices a) = take 2 (vpn_indices b) \<longleftrightarrow> drop_bit 21 a = drop_bit 21 b"
proof -
  have s: "(\<forall>k. i \<le> k \<and> k < (l :: nat) \<longrightarrow> P k) \<longleftrightarrow> (\<forall>k. i \<le> k \<and> k < j \<longrightarrow> P k) \<and> (\<forall>k. j \<le> k \<and> k < l \<longrightarrow> P k)"
    if "i \<le> j" "j \<le> l" for i j l P
    using that by (meson leI le_trans less_le_trans)
  show "vpn_indices a = vpn_indices b \<longleftrightarrow> drop_bit 12 a = drop_bit 12 b"
    unfolding vpn_indices_def list.inject vpn_index_eq
    using canonical_range[OF assms, of 12] s[of 12 21 39 "\<lambda>k. bit a k = bit b k"] s[of 21 30 39 "\<lambda>k. bit a k = bit b k"]
    by auto
  show "take 2 (vpn_indices a) = take 2 (vpn_indices b) \<longleftrightarrow> drop_bit 21 a = drop_bit 21 b"
    unfolding vpn_indices_def
    using canonical_range[OF assms, of 21] s[of 21 30 39 "\<lambda>k. bit a k = bit b k"]
      vpn_index_eq[of 30 a b] vpn_index_eq[of 21 a b]
    by auto
qed

subsection \<open>Leaf entries\<close>

definition flags_ok :: "u64 \<Rightarrow> bool" where
  "flags_ok f \<longleftrightarrow> f AND NOT 0xFF = 0"

lemma flags_ok_bits: "flags_ok f \<longleftrightarrow> (\<forall>k. bit f k \<longrightarrow> k < 8)"
proof -
  have m: "(0xFF :: u64) = mask 8" by (simp add: mask_eq_exp_minus_1)
  have "f AND NOT (mask 8) = 0 \<longleftrightarrow> (\<forall>k. \<not> bit (f AND NOT (mask 8)) k)" by (metis bit_0_eq bit_eqI bot_apply bot_bool_def)
  moreover have "bit f k \<Longrightarrow> k < 64" for k using bit_imp_le_length[of f k] by simp
  ultimately show ?thesis unfolding flags_ok_def m by (auto simp: bit_simps)
qed

lemma effective_flags_ok:
  assumes "flags_ok f"
  shows "flags_ok (effective_flags f)"
proof -
  have "flags_ok PF_ACCESSED" "flags_ok PF_DIRTY" by (simp_all add: flags_ok_def PF_ACCESSED_def PF_DIRTY_def)
  then show ?thesis using assms by (auto simp: flags_ok_bits effective_flags_def bit_simps)
qed

lemma effective_low_bits: "k < 4 \<Longrightarrow> bit (effective_flags f) k = bit f k"
proof -
  assume k: "k < 4"
  have e: "PF_ACCESSED = 2 ^ 6" "PF_DIRTY = 2 ^ 7" by (simp_all add: PF_ACCESSED_def PF_DIRTY_def)
  have "\<not> bit PF_ACCESSED k" "\<not> bit PF_DIRTY k" unfolding e bit_exp_iff using k by auto
  then show ?thesis by (auto simp: effective_flags_def bit_simps)
qed

lemma leaf_pte_props:
  assumes "map_check sz va pa f = None"
  shows "is_valid (leaf_pte pa f)" "is_leaf (leaf_pte pa f)" "wx_safe (leaf_pte pa f)"
proof -
  have f: "f AND LEAF_PERMS \<noteq> 0" "f AND PF_VALID \<noteq> 0" "\<not> (f AND PF_WRITE \<noteq> 0 \<and> f AND PF_EXECUTE \<noteq> 0)"
    using assms by (auto simp: map_check_def split: if_splits)
  have b: "bit (leaf_pte pa f) k = bit f k" if "k < 4" for k
    using that by (simp add: leaf_pte_def pte_flag_bits effective_low_bits)
  show "is_valid (leaf_pte pa f)" using f(2) b by (simp add: flag_bits flip: is_valid_def)
  show "is_leaf (leaf_pte pa f)" using f(1) b by (simp add: leaf_bits flip: is_leaf_def)
  show "wx_safe (leaf_pte pa f)" using f(3) b by (simp add: wx_bits flag_bits)
qed

lemma leaf_pte_flags: "flags_ok f \<Longrightarrow> leaf_pte pa f AND 0x3FF AND 0xFF = effective_flags f"
proof -
  assume f: "flags_ok f"
  have m: "(0x3FF :: u64) = mask 10" "(0xFF :: u64) = mask 8" by (simp_all add: mask_eq_exp_minus_1)
  show ?thesis unfolding m
    by (rule bit_word_eqI) (use effective_flags_ok[OF f] in \<open>auto simp: leaf_pte_def bit_simps flags_ok_bits\<close>)
qed

lemma leaf_phys_alt:
  "leaf_phys e level va = (push_bit 12 (drop_bit 10 e) AND NOT (mask (12 + (2 - level) * 9))) OR take_bit (12 + (2 - level) * 9) va"
  by (simp add: leaf_phys_def Let_def mask_eq_exp_minus_1 take_bit_eq_mask)

lemma aligned_bits: "unat (pa :: u64) mod 2 ^ m = 0 \<Longrightarrow> m \<le> 64 \<Longrightarrow> k < m \<Longrightarrow> \<not> bit pa k"
proof -
  assume a: "unat pa mod 2 ^ m = 0" "m \<le> 64" "k < m"
  have "take_bit m (unat pa) = 0" using a(1) by (simp add: take_bit_eq_mod)
  then have "\<not> bit (take_bit m (unat pa)) k" by simp
  then have "\<not> bit (unat pa) k" using a(3) by (simp add: bit_take_bit_iff)
  then show ?thesis by (simp add: bit_unsigned_iff)
qed

lemma leaf_phys_pte:
  assumes "flags_ok f" "unat pa mod 2 ^ (12 + (2 - level) * 9) = 0" "level \<le> 2"
  shows "leaf_phys (leaf_pte pa f) level va = pa OR take_bit (12 + (2 - level) * 9) va"
proof -
  let ?m = "12 + (2 - level) * 9"
  have lo: "\<not> bit pa k" if "k < ?m" for k
    by (rule aligned_bits[OF assms(2) _ that]) simp
  have e: "bit (effective_flags f) k \<Longrightarrow> k < 8" for k
    using effective_flags_ok[OF assms(1)] by (simp add: flags_ok_bits)
  have "push_bit 12 (drop_bit 10 (leaf_pte pa f)) AND NOT (mask ?m) = pa"
  proof (rule bit_word_eqI)
    fix k assume "k < LENGTH(64)"
    then show "bit (push_bit 12 (drop_bit 10 (leaf_pte pa f)) AND NOT (mask ?m)) k = bit pa k"
      using lo[of k] e[of "10 + (k - 12)"] by (cases "k < 12") (auto simp: leaf_pte_def bit_simps)
  qed
  then show ?thesis by (simp add: leaf_phys_alt)
qed

subsection \<open>Mapping\<close>

lemma translate_walk:
  "pt_translate pt va =
     (if is_canonical_sv39 va
      then map_option (\<lambda>(e, k). leaf_phys e (2 - k) va) (walk pt (pt_root pt) (vpn_indices va)) else None)"
  using translate_loop_walk[of 0 "vpn_indices va"] by (simp add: pt_translate_def)

lemma vpn_busy:
  assumes "pt_wf pt" "is_canonical_sv39 va"
  shows "busy pt (pt_root pt) (vpn_indices va) 2 \<longleftrightarrow> pt_translate pt va \<noteq> None"
proof -
  have "vpn_indices va \<noteq> []" by (simp add: vpn_indices_def)
  then show ?thesis
    using busy_walk[OF assms(1), of "[]" "vpn_indices va" "pt_root pt"] assms(2) by (simp add: translate_walk)
qed

lemma map_check_aligned: "map_check sz va pa f = None \<Longrightarrow> unat va mod sz = 0 \<and> unat pa mod sz = 0 \<and> is_canonical_sv39 va"
  by (auto simp: map_check_def split: if_splits)

lemma prefix_take: "length xs = length ys \<Longrightarrow> prefix (take n xs) ys \<longleftrightarrow> take n ys = take n xs"
  by (metis append_eq_conv_conj append_take_drop_id length_take prefix_def)

text \<open>The translation after a leaf was installed on a prefix of the address's path.\<close>

lemma mapped_at_translate:
  assumes m: "mapped_at pt pt' (take (Suc lf) (vpn_indices va)) (leaf_pte pa f) (2 - lf)"
    and lf: "lf = 1 \<or> lf = 2" and f: "flags_ok f" and va: "is_canonical_sv39 va"
    and al: "unat pa mod 2 ^ (12 + (2 - lf) * 9) = 0"
  shows "pt_translate pt' va' =
    (if drop_bit (12 + (2 - lf) * 9) va' = drop_bit (12 + (2 - lf) * 9) va \<and> is_canonical_sv39 va'
     then Some (pa OR take_bit (12 + (2 - lf) * 9) va') else pt_translate pt va')"
proof (cases "is_canonical_sv39 va'")
  case True
  have pre: "prefix (take (Suc lf) (vpn_indices va)) (vpn_indices va') \<longleftrightarrow>
      drop_bit (12 + (2 - lf) * 9) va' = drop_bit (12 + (2 - lf) * 9) va"
    using lf vpn_same_page[OF True va] by (auto simp: prefix_take numeral_2_eq_2)
  have "walk pt' (pt_root pt') (vpn_indices va') =
      (if prefix (take (Suc lf) (vpn_indices va)) (vpn_indices va') then Some (leaf_pte pa f, 2 - lf)
       else walk pt (pt_root pt) (vpn_indices va'))"
    using m by (simp add: mapped_at_def)
  moreover have "2 - (2 - lf) = lf" using lf by auto
  ultimately show ?thesis
    using True pre leaf_phys_pte[OF f al] lf by (auto simp: translate_walk)
qed (simp add: translate_walk)

lemma map_outcome:
  assumes run: "(case map_check (2 ^ (12 + (2 - lf) * 9)) va pa f of
        Some err \<Rightarrow> Some (Inl err, pt, h)
      | None \<Rightarrow> install_loop lf (leaf_pte pa f) (pt_root pt) 0 (vpn_indices va) pt h) = Some (res, pt', h')"
    and lf: "lf = 1 \<or> lf = 2" and wf: "pt_wf pt" "heap_wf pt h" and f: "flags_ok f"
  shows "pt_wf pt' \<and> heap_wf pt' h' \<and>
    (case map_check (2 ^ (12 + (2 - lf) * 9)) va pa f of
       Some e \<Rightarrow> res = Inl e \<and> pt' = pt \<and> h' = h
     | None \<Rightarrow>
         if busy pt (pt_root pt) (vpn_indices va) lf then res = Inl Overlap \<and> pt' = pt \<and> h' = h
         else res = Inr () \<and> mapped_at pt pt' (take (Suc lf) (vpn_indices va)) (leaf_pte pa f) (2 - lf) \<and>
           (\<forall>va'. pt_translate pt' va' =
              (if drop_bit (12 + (2 - lf) * 9) va' = drop_bit (12 + (2 - lf) * 9) va \<and> is_canonical_sv39 va'
               then Some (pa OR take_bit (12 + (2 - lf) * 9) va') else pt_translate pt va')))"
proof (cases "map_check (2 ^ (12 + (2 - lf) * 9)) va pa f")
  case None
  note al = map_check_aligned[OF None]
  have "install_loop lf (leaf_pte pa f) (pt_root pt) (length ([] :: nat list)) (vpn_indices va) pt h = Some (res, pt', h')"
    using run None by simp
  from install_ok[OF this wf _ _ _ _ _ leaf_pte_props[OF None]] lf
  have io: "pt_wf pt' \<and> heap_wf pt' h' \<and>
    (if busy pt (pt_root pt) (vpn_indices va) lf then res = Inl Overlap \<and> pt' = pt \<and> h' = h
     else res = Inr () \<and> mapped_at pt pt' (take (Suc lf) (vpn_indices va)) (leaf_pte pa f) (2 - lf))"
    by auto
  then show ?thesis
    using mapped_at_translate[OF _ lf f] al None by auto
qed (use run wf in auto)

subsection \<open>Flag updates\<close>

definition new_pte :: "(u64 \<Rightarrow> u64) \<Rightarrow> u64 \<Rightarrow> u64" where
  "new_pte upd e = (e AND NOT 0x3FF) OR upd (e AND 0x3FF)"

lemma new_pte_bits:
  "k < 10 \<Longrightarrow> bit (new_pte upd e) k = bit (upd (e AND 0x3FF)) k"
  "10 \<le> k \<Longrightarrow> \<not> bit (upd (e AND 0x3FF)) k \<Longrightarrow> bit (new_pte upd e) k = bit e k"
proof -
  have m: "(0x3FF :: u64) = mask 10" by (simp add: mask_eq_exp_minus_1)
  show "k < 10 \<Longrightarrow> bit (new_pte upd e) k = bit (upd (e AND 0x3FF)) k"
    "10 \<le> k \<Longrightarrow> \<not> bit (upd (e AND 0x3FF)) k \<Longrightarrow> bit (new_pte upd e) k = bit e k"
    unfolding new_pte_def m by (auto simp: bit_simps dest: bit_imp_le_length)
qed

lemma new_pte_or: "new_pte (\<lambda>c. c OR fl) e = e OR fl"
proof -
  have m: "(0x3FF :: u64) = mask 10" by (simp add: mask_eq_exp_minus_1)
  show ?thesis unfolding new_pte_def m by (rule bit_word_eqI) (auto simp: bit_simps)
qed

lemma leaf_phys_or: "flags_ok fl \<Longrightarrow> leaf_phys (e OR fl) level va = leaf_phys e level va"
proof -
  assume f: "flags_ok fl"
  have "drop_bit 10 (e OR fl) = drop_bit 10 e"
  proof (rule bit_word_eqI)
    fix k assume "k < LENGTH(64)"
    have "\<not> bit fl (10 + k)" using f[unfolded flags_ok_bits, rule_format, of "10 + k"] by auto
    then show "bit (drop_bit 10 (e OR fl)) k = bit (drop_bit 10 e) k" by (simp add: bit_simps)
  qed
  then show ?thesis by (simp add: leaf_phys_def)
qed

lemma flags_loop_cases:
  assumes "flags_loop wx upd t is pt = (res, pt')" "tables pt p = Some t" "is \<noteq> []"
  shows "(\<exists>e. res = Inl e) \<and> pt' = pt \<or>
    (\<exists>q a i e. p @ is = q @ [i] \<and> tables pt q = Some a \<and> entry_at pt a i = e \<and> is_valid e \<and> is_leaf e \<and>
       walk pt t is = Some (e, 0) \<and> res = Inr () \<and> pt' = set_entry a i (new_pte upd e) pt \<and>
       (wx \<longrightarrow> wx_safe (upd (e AND 0x3FF))))"
  using assms
proof (induction "is" arbitrary: t p)
  case (Cons i rest)
  show ?case
  proof (cases "rest = []")
    case True
    then show ?thesis using Cons.prems
      by (auto simp: Let_def new_pte_def wx_safe_def split: if_splits)
  next
    case False
    show ?thesis
    proof (cases "is_table (entry_at pt t i)")
      case True
      then have "tables pt (p @ [i]) = Some (next_table (entry_at pt t i))"
        using Cons.prems(2) by (simp add: table_at_append)
      moreover have "flags_loop wx upd (next_table (entry_at pt t i)) rest pt = (res, pt')"
        using Cons.prems(1) False True by (auto simp: Let_def is_table_def split: if_splits)
      ultimately show ?thesis using Cons.IH[of _ "p @ [i]"] False True by (simp add: is_table_def Let_def)
    next
      case nt: False
      then show ?thesis using Cons.prems(1) False by (auto simp: Let_def is_table_def split: if_splits)
    qed
  qed
qed simp

text \<open>OR-ing named flags into a leaf.\<close>

lemma set_leaf_flags_ok:
  assumes wf: "pt_wf pt" and f: "flags_ok fl" and run: "pt_set_leaf_flags va fl pt = (res, pt')"
  shows "pt_wf pt' \<and>
    ((\<exists>e. res = Inl e) \<and> pt' = pt \<or>
     (\<exists>e. res = Inr () \<and> walk pt (pt_root pt) (vpn_indices va) = Some (e, 0) \<and>
        mapped_at pt pt' (vpn_indices va) (new_pte (\<lambda>c. c OR fl) e) 0)) \<and>
    dom (pt_pages pt') = dom (pt_pages pt)"
proof (cases "unat va mod PAGE_SIZE \<noteq> 0 \<or> \<not> is_canonical_sv39 va")
  case True
  then show ?thesis using run wf by (auto simp: pt_set_leaf_flags_def pt_update_flags_def)
next
  case False
  then have "flags_loop True (\<lambda>cur. cur OR fl) (pt_root pt) (vpn_indices va) pt = (res, pt')"
    using run by (auto simp: pt_set_leaf_flags_def pt_update_flags_def)
  from flags_loop_cases[OF this, of "[]"]
  have "(\<exists>e. res = Inl e) \<and> pt' = pt \<or>
    (\<exists>q a i e. vpn_indices va = q @ [i] \<and> tables pt q = Some a \<and> entry_at pt a i = e \<and> is_valid e \<and> is_leaf e \<and>
       walk pt (pt_root pt) (vpn_indices va) = Some (e, 0) \<and> res = Inr () \<and>
       pt' = set_entry a i (new_pte (\<lambda>cur. cur OR fl) e) pt \<and> wx_safe (e AND 0x3FF OR fl))" (is "?err \<or> ?ok")
    using length_vpn[of va] by fastforce
  then show ?thesis
  proof
    assume ?ok
    then obtain q a i e where q: "vpn_indices va = q @ [i]" "tables pt q = Some a" "entry_at pt a i = e"
      "is_valid e" "is_leaf e" "walk pt (pt_root pt) (vpn_indices va) = Some (e, 0)" "res = Inr ()"
      "pt' = set_entry a i (new_pte (\<lambda>cur. cur OR fl) e) pt" "wx_safe (e AND 0x3FF OR fl)" by auto
    let ?n = "new_pte (\<lambda>cur. cur OR fl) e"
    have m: "(0x3FF :: u64) = mask 10" by (simp add: mask_eq_exp_minus_1)
    have ix: "idx_ok q" "i < PT_ENTRIES" "length q = 2"
      using idx_ok_vpn[of va] length_vpn[of va] unfolding q(1) by auto
    have lo: "bit ?n k = (bit e k \<or> bit fl k)" if "k < 4" for k
      using that new_pte_bits(1)[of k "\<lambda>cur. cur OR fl" e] unfolding m by (auto simp: bit_simps)
    have v: "is_valid ?n" "is_leaf ?n" using q(4,5) lo by (auto simp: flag_bits leaf_bits)
    have w: "wx_safe ?n"
      using q(9) new_pte_bits(1)[of 2 "\<lambda>cur. cur OR fl" e] new_pte_bits(1)[of 3 "\<lambda>cur. cur OR fl" e]
      by (simp add: wx_bits)
    have nt: "\<not> is_table (entry_at pt a i)" using q(3,5) by (simp add: is_table_def)
    note sl = set_leaf[OF wf ix(1) _ q(2) ix(2) nt v w, folded q(8)]
    have "mapped_at pt pt' (vpn_indices va) ?n 0" using sl(2) ix(3) by (auto simp: mapped_at_def q(1))
    then show ?thesis using sl(1) ix(3) q by auto
  qed (use wf in auto)
qed

subsection \<open>Fresh tables and the debug walk\<close>

definition heap_ok :: "pt_heap \<Rightarrow> bool" where
  "heap_ok h \<longleftrightarrow> distinct (ph_free h) \<and> (\<forall>a \<in> set (ph_free h). a \<noteq> 0 \<and> a AND 0xFFF = 0)"

lemma pt_new_wf:
  assumes "pt_new h = Some (pt, h')" "heap_ok h"
  shows "pt_wf pt" "heap_wf pt h'" "pt_translate pt va = None"
proof -
  obtain a rest where f: "ph_free h = a # rest"
    using assms(1) by (auto simp: pt_new_def alloc_page_def split: list.splits)
  have pt: "pt = \<lparr>pt_root = a, pt_owned = [a], pt_pages = [a \<mapsto> page_new]\<rparr>" and h': "ph_free h' = rest"
    using assms(1) f by (auto simp: pt_new_def alloc_page_def record_heap_page_alloc_def Let_def)
  have z: "entry_at pt a i = 0" if "i < PT_ENTRIES" for i using that by (simp add: pt entry_at_def page_new_def)
  have t: "tables pt p = (if p = [] then Some a else None)" if "idx_ok p" for p
    using that z by (cases p) (auto simp: is_table_def is_valid_def pt)
  show "pt_wf pt"
  proof (rule pt_wfI)
    fix p b i assume "idx_ok p" "tables pt p = Some b" "i < PT_ENTRIES"
    then show "entry_ok (length p) (entry_at pt b i)" using t z by (auto simp: entry_ok_def split: if_splits)
  next
    fix b pg assume "pt_pages pt b = Some pg"
    then show "length pg = PT_ENTRIES \<and> b \<noteq> 0 \<and> b AND 0xFFF = 0"
      using assms(2) f by (auto simp: pt page_new_def heap_ok_def split: if_splits)
  qed (use t in \<open>auto simp: pt split: if_splits\<close>)
  show "heap_wf pt h'" using assms(2) f h' by (auto simp: heap_wf_def heap_ok_def pt)
  have "walk pt a (vpn_indices va) = None"
    using z idx_ok_vpn[of va] by (cases "vpn_indices va") (auto simp: Let_def is_table_def is_valid_def)
  then show "pt_translate pt va = None" by (simp add: translate_walk pt)
qed

lemma verify_foldl:
  "\<forall>i \<in> set is. f i = Some (Inr ()) \<Longrightarrow>
   foldl (\<lambda>acc i. case acc of Some (Inr _) \<Rightarrow> f i | _ \<Rightarrow> acc) (Some (Inr ())) is = Some (Inr ())"
  by (induction "is") auto

lemma verify_walk_ok:
  assumes "pt_wf pt" "idx_ok p" "length p + fuel = 3" "fuel \<noteq> 0" "tables pt p = Some a"
  shows "verify_walk fuel pt a = Some (Inr ())"
  using assms
proof (induction fuel arbitrary: p a)
  case (Suc fuel)
  have "verify_entry (verify_walk fuel pt) (entry_at pt a i) = Some (Inr ())" if "i < PT_ENTRIES" for i
  proof -
    let ?e = "entry_at pt a i"
    have eok: "entry_ok (length p) ?e" using wf_entry[OF Suc.prems(1,2) _ Suc.prems(5) that] Suc.prems(3) by simp
    have "verify_walk fuel pt (next_table ?e) = Some (Inr ())" if t: "is_table ?e" "length p < 2"
      using Suc.IH[of "p @ [i]" "next_table ?e"] Suc.prems t \<open>i < PT_ENTRIES\<close> by (simp add: table_at_append)
    then show ?thesis using eok
      by (auto simp: entry_ok_def verify_entry_def is_table_def is_leaf_def is_valid_def wx_safe_def)
  qed
  then show ?case by (simp add: verify_foldl)
qed simp

lemma verify_ok: "pt_wf pt \<Longrightarrow> pt_verify 3 pt = Some (Inr ())"
  by (simp add: pt_verify_def verify_walk_ok[of pt "[]" 3])

lemma walk_wx:
  assumes "pt_wf pt" "idx_ok (p @ is)" "length (p @ is) = 3" "tables pt p = Some t" "walk pt t is = Some (e, k)"
  shows "wx_safe e"
  using assms
proof (induction "is" arbitrary: p t)
  case (Cons i rest)
  have eok: "entry_ok (length p) (entry_at pt t i)"
    using wf_entry[OF Cons.prems(1) _ _ Cons.prems(4)] Cons.prems by simp
  show ?case
    using Cons.IH[of "p @ [i]" "next_table (entry_at pt t i)"] Cons.prems eok
    by (auto simp: Let_def table_at_append entry_ok_def is_table_def is_valid_def split: if_splits)
qed simp

text \<open>A history of mapping requests.  \<open>PageFlags\<close> values carry only the eight named bits.\<close>

datatype pt_op = PMap u64 u64 u64 | PMap2m u64 u64 u64 | PSetFlags u64 u64

fun pt_exec :: "pt_op \<Rightarrow> page_table \<times> pt_heap \<Rightarrow> (page_table \<times> pt_heap) option" where
  "pt_exec (PMap va pa f) (pt, h) = map_option snd (pt_map va pa (f AND 0xFF) pt h)"
| "pt_exec (PMap2m va pa f) (pt, h) = map_option snd (pt_map_2m va pa (f AND 0xFF) pt h)"
| "pt_exec (PSetFlags va f) (pt, h) = Some (snd (pt_set_leaf_flags va (f AND 0xFF) pt), h)"

fun pt_run :: "pt_op list \<Rightarrow> page_table \<times> pt_heap \<Rightarrow> (page_table \<times> pt_heap) option" where
  "pt_run [] s = Some s"
| "pt_run (op # ops) s = (case pt_exec op s of None \<Rightarrow> None | Some s' \<Rightarrow> pt_run ops s')"

lemma flags_ok_mask: "flags_ok (f AND 0xFF)"
  by (simp add: flags_ok_def and.assoc)

lemma map_keeps_wf:
  assumes "pt_wf pt" "heap_wf pt h" "flags_ok f"
  shows "pt_map va pa f pt h = Some (res, pt', h') \<Longrightarrow> pt_wf pt' \<and> heap_wf pt' h'"
    "pt_map_2m va pa f pt h = Some (res, pt', h') \<Longrightarrow> pt_wf pt' \<and> heap_wf pt' h'"
  using map_outcome[where lf = 2 and va = va and pa = pa and res = res and pt' = pt' and h' = h', OF _ _ assms]
    map_outcome[where lf = 1 and va = va and pa = pa and res = res and pt' = pt' and h' = h', OF _ _ assms]
  by (auto simp: pt_map_def pt_map_2m_def PAGE_SIZE_def HUGE_PAGE_SIZE_2M_def)

lemma pt_exec_wf:
  assumes "pt_wf pt" "heap_wf pt h" "pt_exec op (pt, h) = Some (pt', h')"
  shows "pt_wf pt' \<and> heap_wf pt' h'"
proof (cases op)
  case (PSetFlags va f)
  obtain res where "pt_set_leaf_flags va (f AND 0xFF) pt = (res, pt')" "h' = h"
    using assms(3) PSetFlags by (cases "pt_set_leaf_flags va (f AND 0xFF) pt") auto
  then show ?thesis using set_leaf_flags_ok[OF assms(1) flags_ok_mask] assms(2) by (simp add: heap_wf_def)
qed (use assms map_keeps_wf[OF assms(1,2) flags_ok_mask] in auto)

lemma pt_run_wf:
  "pt_run ops (pt, h) = Some (pt', h') \<Longrightarrow> pt_wf pt \<Longrightarrow> heap_wf pt h \<Longrightarrow> pt_wf pt' \<and> heap_wf pt' h'"
  by (induction ops arbitrary: pt h) (auto split: option.splits dest: pt_exec_wf)

subsection \<open>A concrete table\<close>

definition ex_heap :: pt_heap where
  "ex_heap = \<lparr>ph_free = [0x1000, 0x2000, 0x3000, 0x4000], ph_live = 0, ph_total = 0, ph_peak = 0\<rparr>"

definition ex_pt :: page_table where
  "ex_pt = \<lparr>pt_root = 0x1000, pt_owned = [0x1000], pt_pages = [0x1000 \<mapsto> page_new]\<rparr>"

definition ex_heap1 :: pt_heap where
  "ex_heap1 = \<lparr>ph_free = [0x2000, 0x3000, 0x4000], ph_live = 1, ph_total = 1, ph_peak = 1\<rparr>"

lemma ex_pt_new: "pt_new ex_heap = Some (ex_pt, ex_heap1)"
  by (simp add: pt_new_def alloc_page_def ex_heap_def ex_pt_def ex_heap1_def record_heap_page_alloc_def Let_def)

lemma ex_heap_ok: "heap_ok ex_heap"
  by (simp add: heap_ok_def ex_heap_def)

lemmas ex_pt_facts = pt_new_wf[OF ex_pt_new ex_heap_ok]

lemma ex_map: "\<exists>res pt' h'. pt_map 0x5000 0x80000000 3 ex_pt ex_heap1 = Some (res, pt', h')"
  using install_returns[of 0 2 ex_heap1]
  by (simp add: pt_map_def ex_heap1_def split: option.splits)

lemma ex_map_2m: "\<exists>res pt' h'. pt_map_2m 0x200000 0x80000000 3 ex_pt ex_heap1 = Some (res, pt', h')"
  using install_returns[of 0 1 ex_heap1]
  by (simp add: pt_map_2m_def ex_heap1_def split: option.splits)

lemmas check_eval = map_check_def PAGE_SIZE_def HUGE_PAGE_SIZE_2M_def is_canonical_sv39_def LEAF_PERMS_def PF_READ_def
  PF_WRITE_def PF_EXECUTE_def PF_VALID_def

definition ex_pt2 :: page_table where
  "ex_pt2 = (case pt_map 0x5000 0x80000000 3 ex_pt ex_heap1 of Some (_, pt, _) \<Rightarrow> pt | None \<Rightarrow> ex_pt)"

lemma ex_pt2_wf: "pt_wf ex_pt2"
proof -
  obtain res pt' h' where m: "pt_map 0x5000 0x80000000 3 ex_pt ex_heap1 = Some (res, pt', h')" using ex_map by blast
  have "flags_ok 3" by (simp add: flags_ok_def)
  then show ?thesis using map_keeps_wf(1)[OF ex_pt_facts(1,2) _ m] m by (simp add: ex_pt2_def)
qed

lemma ex_pt2_flags: "pt_set_leaf_flags 0x5000 0x20 ex_pt2 = (Inr (), snd (pt_set_leaf_flags 0x5000 0x20 ex_pt2))"
  by (simp add: ex_pt2_def pt_map_def check_eval vpn_indices_def ex_pt_def ex_heap1_def alloc_page_def
      record_heap_page_alloc_def Let_def entry_at_def set_entry_def page_new_def PT_ENTRIES_def is_valid_def
      is_leaf_def next_table_def leaf_pte_def effective_flags_def PF_ACCESSED_def pt_set_leaf_flags_def
      pt_update_flags_def)

subsection \<open>Properties\<close>

text \<open>C7: \<open>map\<close> does exactly what it says.  It either reports the first failed argument check, or
  \<open>Overlap\<close> when the page already translates, in both cases leaving the table and the heap as they
  were, or it succeeds; then every address of the page translates to the physical page plus its offset,
  with the requested flags, and the translation of every other address is unchanged.\<close>

theorem map_translates:
  assumes "pt_wf pt" "heap_wf pt h" "flags_ok flags" "pt_map va pa flags pt h = Some (res, pt', h')"
  shows "pt_wf pt' \<and> heap_wf pt' h' \<and>
    (case map_check PAGE_SIZE va pa flags of
       Some e \<Rightarrow> res = Inl e \<and> pt' = pt \<and> h' = h
     | None \<Rightarrow>
         if pt_translate pt va \<noteq> None then res = Inl Overlap \<and> pt' = pt \<and> h' = h
         else res = Inr () \<and> pt_leaf_flags pt' va = Inr (effective_flags flags) \<and>
           (\<forall>va'. pt_translate pt' va' =
              (if drop_bit 12 va' = drop_bit 12 va \<and> is_canonical_sv39 va' then Some (pa OR take_bit 12 va')
               else pt_translate pt va')))"
proof -
  have sz: "(2 :: nat) ^ (12 + (2 - 2) * 9) = PAGE_SIZE" by (simp add: PAGE_SIZE_def)
  have run: "(case map_check (2 ^ (12 + (2 - 2) * 9)) va pa flags of
        Some err \<Rightarrow> Some (Inl err, pt, h)
      | None \<Rightarrow> install_loop 2 (leaf_pte pa flags) (pt_root pt) 0 (vpn_indices va) pt h) = Some (res, pt', h')"
    using assms(4) unfolding pt_map_def sz .
  note mo = map_outcome[OF run _ assms(1,2,3), unfolded sz]
  show ?thesis
  proof (cases "map_check PAGE_SIZE va pa flags")
    case None
    note al = map_check_aligned[OF None]
    have "pt_leaf_flags pt' va = Inr (effective_flags flags)"
      if "mapped_at pt pt' (take (Suc 2) (vpn_indices va)) (leaf_pte pa flags) (2 - 2)"
      using that al leaf_pte_flags[OF assms(3)]
      by (simp add: mapped_at_def pt_leaf_flags_def leaf_flags_loop_walk ok_or_def)
    then show ?thesis using mo None vpn_busy[OF assms(1)] al by (auto split: if_splits)
  qed (use mo in auto)
qed

theorem map_translates_witness:
  "\<exists>pt' h'. pt_map 0x5000 0x80000000 3 ex_pt ex_heap1 = Some (Inr (), pt', h') \<and>
     pt_translate pt' 0x5123 = Some 0x80000123 \<and> pt_translate pt' 0x6000 = None"
proof -
  obtain res pt' h' where m: "pt_map 0x5000 0x80000000 3 ex_pt ex_heap1 = Some (res, pt', h')"
    using ex_map by blast
  have "flags_ok 3" "map_check PAGE_SIZE 0x5000 0x80000000 3 = None" by (simp_all add: flags_ok_def check_eval)
  then show ?thesis
    using map_translates[OF ex_pt_facts(1,2) _ m] ex_pt_facts(3) m
    by (simp add: is_canonical_sv39_def take_bit_eq_mod)
qed

text \<open>C34: A 2 MiB mapping succeeds exactly when its arguments pass the checks and nothing is mapped or
  tabled in its slot; then all 512 pages translate with one entry and no other translation changes;
  otherwise the table and the heap are unchanged.\<close>

theorem map_2m_translates:
  assumes "pt_wf pt" "heap_wf pt h" "flags_ok flags" "pt_map_2m va pa flags pt h = Some (res, pt', h')"
  shows "pt_wf pt' \<and> heap_wf pt' h' \<and>
    (case map_check HUGE_PAGE_SIZE_2M va pa flags of
       Some e \<Rightarrow> res = Inl e \<and> pt' = pt \<and> h' = h
     | None \<Rightarrow>
         if busy pt (pt_root pt) (vpn_indices va) 1 then res = Inl Overlap \<and> pt' = pt \<and> h' = h
         else res = Inr () \<and>
           (\<forall>va'. pt_translate pt' va' =
              (if drop_bit 21 va' = drop_bit 21 va \<and> is_canonical_sv39 va' then Some (pa OR take_bit 21 va')
               else pt_translate pt va')))"
proof -
  have sz: "(2 :: nat) ^ (12 + (2 - 1) * 9) = HUGE_PAGE_SIZE_2M" by (simp add: HUGE_PAGE_SIZE_2M_def)
  have run: "(case map_check (2 ^ (12 + (2 - 1) * 9)) va pa flags of
        Some err \<Rightarrow> Some (Inl err, pt, h)
      | None \<Rightarrow> install_loop 1 (leaf_pte pa flags) (pt_root pt) 0 (vpn_indices va) pt h) = Some (res, pt', h')"
    using assms(4) unfolding pt_map_2m_def sz .
  show ?thesis
    using map_outcome[OF run _ assms(1,2,3), unfolded sz]
    by (cases "map_check HUGE_PAGE_SIZE_2M va pa flags") (auto split: if_splits)
qed

theorem map_2m_translates_witness:
  "\<exists>pt' h'. pt_map_2m 0x200000 0x80000000 3 ex_pt ex_heap1 = Some (Inr (), pt', h') \<and>
     pt_translate pt' 0x2ABCDE = Some 0x800ABCDE \<and> pt_translate pt' 0x400000 = None"
proof -
  obtain res pt' h' where m: "pt_map_2m 0x200000 0x80000000 3 ex_pt ex_heap1 = Some (res, pt', h')"
    using ex_map_2m by blast
  have b: "\<not> busy ex_pt (pt_root ex_pt) (vpn_indices 0x200000) 1"
    by (simp add: vpn_indices_def ex_pt_def entry_at_def page_new_def PT_ENTRIES_def is_valid_def is_table_def Let_def)
  have "flags_ok 3" "map_check HUGE_PAGE_SIZE_2M 0x200000 0x80000000 3 = None" by (simp_all add: flags_ok_def check_eval)
  then show ?thesis
    using map_2m_translates[OF ex_pt_facts(1,2) _ m] ex_pt_facts(3) m b
    by (simp add: is_canonical_sv39_def take_bit_eq_mod)
qed

text \<open>Setting leaf flags never changes where an address translates.  It fails without effect, or it
  adds exactly the given flags to the one 4 KiB leaf of that address, and never makes it both writable
  and executable.\<close>

theorem set_leaf_flags_translation:
  assumes "pt_wf pt" "flags_ok fl" "pt_set_leaf_flags va fl pt = (res, pt')"
  shows "pt_translate pt' va' = pt_translate pt va' \<and>
    (case res of
       Inl _ \<Rightarrow> pt' = pt
     | Inr _ \<Rightarrow> \<exists>e. pt_lookup pt va = Some e \<and> pt_lookup pt' va = Some (e OR fl) \<and>
         \<not> ((e OR fl) AND PF_WRITE \<noteq> 0 \<and> (e OR fl) AND PF_EXECUTE \<noteq> 0))"
proof -
  from set_leaf_flags_ok[OF assms] show ?thesis
  proof (elim conjE disjE exE)
    fix e assume wf': "pt_wf pt'" and res: "res = Inr ()"
      and w: "walk pt (pt_root pt) (vpn_indices va) = Some (e, 0)"
      and m: "mapped_at pt pt' (vpn_indices va) (new_pte (\<lambda>c. c OR fl) e) 0"
    have eq: "new_pte (\<lambda>c. c OR fl) e = e OR fl" by (rule new_pte_or)
    have w': "walk pt' (pt_root pt') (vpn_indices va) = Some (e OR fl, 0)" using m eq by (simp add: mapped_at_def)
    have va: "unat va mod PAGE_SIZE = 0" "is_canonical_sv39 va"
      using assms(3) res by (auto simp: pt_set_leaf_flags_def pt_update_flags_def split: if_splits)
    have "wx_safe (e OR fl)" using walk_wx[OF wf', of "[]" "vpn_indices va"] w' by simp
    moreover have "pt_translate pt' va' = pt_translate pt va'"
    proof (cases "vpn_indices va' = vpn_indices va")
      case True
      then show ?thesis using w w' leaf_phys_or[OF assms(2)] by (simp add: translate_walk)
    next
      case False
      then have "\<not> prefix (vpn_indices va) (vpn_indices va')"
        by (metis length_vpn not_equal_is_parallel parallelE)
      then show ?thesis using m by (simp add: translate_walk mapped_at_def)
    qed
    ultimately show ?thesis
      using w w' va res by (simp add: pt_lookup_def lookup_loop_walk wx_safe_def)
  qed (use assms in auto)
qed

theorem set_leaf_flags_translation_witness:
  "\<exists>pt' e. pt_set_leaf_flags 0x5000 PF_GLOBAL ex_pt2 = (Inr (), pt') \<and> pt_lookup pt' 0x5000 = Some (e OR PF_GLOBAL) \<and>
     pt_translate pt' 0x5008 = pt_translate ex_pt2 0x5008"
proof -
  have f: "flags_ok 0x20" by (simp add: flags_ok_def)
  show ?thesis
    using set_leaf_flags_translation[OF ex_pt2_wf f ex_pt2_flags, of "0x5008"] ex_pt2_flags
    by (auto simp: PF_GLOBAL_def)
qed

text \<open>C11: Whatever mappings and flag changes are requested on a fresh table, no address is ever both
  writable and executable, the tables stay a proper tree, and the kernel's own debug walk reports no
  violation and ends within the three levels.\<close>

theorem page_tables_wx:
  assumes "heap_ok h0" "pt_new h0 = Some (pt0, h1)" "pt_run ops (pt0, h1) = Some (pt, h)"
  shows "pt_verify 3 pt = Some (Inr ()) \<and> pt_wf pt \<and>
    (\<forall>va e. pt_lookup pt va = Some e \<longrightarrow> \<not> (e AND PF_WRITE \<noteq> 0 \<and> e AND PF_EXECUTE \<noteq> 0))"
proof -
  have wf: "pt_wf pt" using pt_run_wf[OF assms(3)] pt_new_wf[OF assms(2,1)] by blast
  have "wx_safe e" if "pt_lookup pt va = Some e" for va e
    using that walk_wx[OF wf, of "[]" "vpn_indices va"]
    by (auto simp: pt_lookup_def lookup_loop_walk split: if_splits)
  then show ?thesis using wf verify_ok by (simp add: wx_safe_def)
qed

theorem page_tables_wx_witness:
  "\<exists>pt h. pt_run [PMap 0x5000 0x80000000 3] (ex_pt, ex_heap1) = Some (pt, h) \<and> pt_verify 3 pt = Some (Inr ())"
proof -
  obtain res pt' h' where "pt_map 0x5000 0x80000000 3 ex_pt ex_heap1 = Some (res, pt', h')"
    using ex_map by blast
  then have r: "pt_run [PMap 0x5000 0x80000000 3] (ex_pt, ex_heap1) = Some (pt', h')" by simp
  show ?thesis using page_tables_wx[OF ex_heap_ok ex_pt_new r] r by blast
qed

end
