(* ===== verification/Addr_Space_Correct.thy ===== *)
theory Addr_Space_Correct
  imports Addr_Space Page_Table_Correct
begin

text \<open>
  Correctness of address spaces: the ASID bitmap never hands out an identifier that is in use or
  quarantined, the kernel windows are mapped exactly one to one, and over every history of the manager
  each page-table page belongs to exactly one live address space or to the heap.
\<close>

subsection \<open>Bitmaps\<close>

lemma bitmap_test_bit: "bitmap_test bm i \<longleftrightarrow> bit (bm ! (i div 64)) (i mod 64)"
proof -
  have "push_bit (i mod 64) 1 = (2 ^ (i mod 64) :: u64)" by (simp add: push_bit_eq_mult)
  then show ?thesis
    using and_exp_eq_0_iff_not_bit[of "bm ! (i div 64)" "i mod 64"] by (simp add: bitmap_test_def WORD_BITS_def)
qed

lemma bitmap_set_test:
  assumes "length bm = 4" "i < 256" "j < 256"
  shows "bitmap_test (bitmap_set bm i) j \<longleftrightarrow> i = j \<or> bitmap_test bm j"
proof -
  have lt: "i div 64 < 4" "j div 64 < 4" using assms(2,3) by (simp_all add: less_mult_imp_div_less)
  have eq: "i = j \<longleftrightarrow> i div 64 = j div 64 \<and> i mod 64 = j mod 64" by (metis div_mult_mod_eq)
  have "j mod 64 < 64" by simp
  then have b: "bit (push_bit (i mod 64) 1 :: u64) (j mod 64) \<longleftrightarrow> i mod 64 = j mod 64"
    by (auto simp: bit_simps)
  show ?thesis
    unfolding bitmap_test_bit bitmap_set_def WORD_BITS_def
    using lt assms(1) eq b by (auto simp: nth_list_update bit_or_iff)
qed

lemma length_bitmap_set [simp]: "length (bitmap_set bm i) = length bm"
  by (simp add: bitmap_set_def)

definition asid_wf :: "asid_allocator \<Rightarrow> bool" where
  "asid_wf a \<longleftrightarrow>
     length (aa_bitmap a) = 4 \<and> length (aa_quarantined a) = 4 \<and>
     bitmap_test (aa_bitmap a) 0 \<and> \<not> bitmap_test (aa_quarantined a) 0 \<and>
     (\<forall>i < 256. bitmap_test (aa_quarantined a) i \<longrightarrow> bitmap_test (aa_bitmap a) i)"

text \<open>Identifiers held by a live address space.\<close>

definition asid_used :: "asid_allocator \<Rightarrow> nat \<Rightarrow> bool" where
  "asid_used a i \<longleftrightarrow> i < 256 \<and> i \<noteq> 0 \<and> bitmap_test (aa_bitmap a) i \<and> \<not> bitmap_test (aa_quarantined a) i"

lemma asids_new_wf: "asid_wf asids_new" "\<not> asid_used asids_new i"
proof -
  have t0: "bitmap_test (aa_bitmap asids_new) i \<longleftrightarrow> i = 0" if "i < 256" for i
  proof (cases "i div 64 = 0")
    case True
    then show ?thesis using that by (auto simp: bitmap_test_bit asids_new_def BITMAP_WORDS_def bit_1_iff)
  next
    case False
    moreover have "i div 64 < 4" using that by (simp add: less_mult_imp_div_less)
    ultimately show ?thesis by (auto simp: bitmap_test_bit asids_new_def BITMAP_WORDS_def)
  qed
  have q: "\<not> bitmap_test (aa_quarantined asids_new) i" if "i < 256" for i
    using that less_mult_imp_div_less[of i 4 64] by (simp add: bitmap_test_bit asids_new_def BITMAP_WORDS_def)
  show "asid_wf asids_new" using t0 q by (simp add: asid_wf_def) (simp add: asids_new_def BITMAP_WORDS_def)
  show "\<not> asid_used asids_new i" using t0 by (auto simp: asid_used_def)
qed

lemma try_loop_spec:
  assumes "try_allocate_loop n a = (r, a')" "length (aa_bitmap a) = 4"
  shows "case r of
      Some asid \<Rightarrow> unat asid < 256 \<and> \<not> bitmap_test (aa_bitmap a) (unat asid) \<and>
        aa_bitmap a' = bitmap_set (aa_bitmap a) (unat asid) \<and> aa_quarantined a' = aa_quarantined a
    | None \<Rightarrow> aa_bitmap a' = aa_bitmap a \<and> aa_quarantined a' = aa_quarantined a \<and>
        (\<forall>k < n. bitmap_test (aa_bitmap a) ((aa_next a + k) mod 256))"
  using assms
proof (induction n a arbitrary: r a' rule: try_allocate_loop.induct)
  case (2 n a)
  let ?i = "aa_next a mod MAX_ASIDS"
  have i: "?i < 256" by (simp add: MAX_ASIDS_def)
  have u: "unat (of_nat ?i :: u16) = ?i" using i by (simp add: unat_of_nat take_bit_nat_eq_self)
  show ?case
  proof (cases "bitmap_test (aa_bitmap a) ?i")
    case False
    then show ?thesis using 2(2) i u by (auto simp: Let_def)
  next
    case True
    let ?a1 = "a\<lparr>aa_next := (?i + 1) mod MAX_ASIDS\<rparr>"
    have run: "try_allocate_loop n ?a1 = (r, a')" using 2(2) True by (simp add: Let_def)
    have IH: "case r of
      Some asid \<Rightarrow> unat asid < 256 \<and> \<not> bitmap_test (aa_bitmap a) (unat asid) \<and>
        aa_bitmap a' = bitmap_set (aa_bitmap a) (unat asid) \<and> aa_quarantined a' = aa_quarantined a
    | None \<Rightarrow> aa_bitmap a' = aa_bitmap a \<and> aa_quarantined a' = aa_quarantined a \<and>
        (\<forall>k < n. bitmap_test (aa_bitmap a) (((?i + 1) mod MAX_ASIDS + k) mod 256))"
      using 2(1)[OF refl refl _ run] True 2(3) by (cases r) simp_all
    have sh: "((?i + 1) mod MAX_ASIDS + k) mod 256 = (aa_next a + Suc k) mod 256" for k
      by (simp add: MAX_ASIDS_def mod_simps)
    have "bitmap_test (aa_bitmap a) ((aa_next a + k) mod 256)"
      if "\<forall>k < n. bitmap_test (aa_bitmap a) ((aa_next a + Suc k) mod 256)" "k < Suc n" for k
      using that True by (cases k) (auto simp: MAX_ASIDS_def)
    then show ?thesis using IH unfolding sh by (auto split: option.splits)
  qed
qed simp

lemma try_allocate_spec:
  assumes "try_allocate a = (r, a')" "asid_wf a"
  shows "asid_wf a' \<and>
    (case r of
       Some asid \<Rightarrow> unat asid < 256 \<and> unat asid \<noteq> 0 \<and> \<not> bitmap_test (aa_bitmap a) (unat asid) \<and>
         (\<forall>i. asid_used a' i \<longleftrightarrow> asid_used a i \<or> i = unat asid)
     | None \<Rightarrow> (\<forall>i < 256. bitmap_test (aa_bitmap a) i) \<and> (\<forall>i. asid_used a' i \<longleftrightarrow> asid_used a i))"
proof -
  have len: "length (aa_bitmap a) = 4" using assms(2) by (simp add: asid_wf_def)
  note sp = try_loop_spec[OF assms(1)[unfolded try_allocate_def] len]
  show ?thesis
  proof (cases r)
    case None
    have "bitmap_test (aa_bitmap a) i" if "i < 256" for i
    proof -
      define k where "k = (i + 256 - aa_next a mod 256) mod 256"
      have m: "aa_next a mod 256 < 256" by simp
      have "(aa_next a + k) mod 256 = (aa_next a mod 256 + (i + 256 - aa_next a mod 256)) mod 256"
        unfolding k_def by (simp only: mod_add_left_eq mod_add_right_eq)
      also have "aa_next a mod 256 + (i + 256 - aa_next a mod 256) = i + 256" using m by linarith
      also have "(i + 256) mod 256 = i" using that by simp
      finally have "(aa_next a + k) mod 256 = i" .
      moreover have "k < MAX_ASIDS" by (simp add: k_def MAX_ASIDS_def)
      ultimately show ?thesis using sp None by auto
    qed
    moreover have "aa_bitmap a' = aa_bitmap a" "aa_quarantined a' = aa_quarantined a" using sp None by auto
    moreover from this have "asid_wf a' = asid_wf a" "asid_used a' i = asid_used a i" for i
      by (simp_all only: asid_wf_def asid_used_def)
    ultimately show ?thesis using None assms(2) by simp
  next
    case (Some asid)
    have e: "unat asid < 256" "\<not> bitmap_test (aa_bitmap a) (unat asid)"
      "aa_bitmap a' = bitmap_set (aa_bitmap a) (unat asid)" "aa_quarantined a' = aa_quarantined a"
      using sp Some by auto
    have nz: "unat asid \<noteq> 0"
    proof
      assume "unat asid = 0"
      with e(2) assms(2) show False by (simp add: asid_wf_def)
    qed
    have nq: "\<not> bitmap_test (aa_quarantined a) (unat asid)" using e(1,2) assms(2) by (auto simp: asid_wf_def)
    have "asid_wf a'" using assms(2) e by (simp add: asid_wf_def bitmap_set_test)
    moreover have "asid_used a' i \<longleftrightarrow> asid_used a i \<or> i = unat asid" for i
      using e nz nq len by (auto simp: asid_used_def bitmap_set_test)
    ultimately show ?thesis using Some e nz by simp
  qed
qed

lemma asid_free_spec:
  assumes "asid_wf a" "asid_used a (unat asid)"
  shows "asid_wf (asid_free asid a)" "asid_used (asid_free asid a) i \<longleftrightarrow> asid_used a i \<and> i \<noteq> unat asid"
  using assms by (auto simp: asid_wf_def asid_used_def asid_free_def Let_def MAX_ASIDS_def bitmap_set_test)

lemma release_test:
  assumes "asid_wf a" "i < 256"
  shows "bitmap_test (aa_bitmap (release_quarantined a)) i \<longleftrightarrow>
           i = 0 \<or> bitmap_test (aa_bitmap a) i \<and> \<not> bitmap_test (aa_quarantined a) i"
    "\<not> bitmap_test (aa_quarantined (release_quarantined a)) i"
proof -
  have len: "length (aa_bitmap a) = 4" "length (aa_quarantined a) = 4" using assms(1) by (auto simp: asid_wf_def)
  have w: "i div 64 < 4" using assms(2) by (simp add: less_mult_imp_div_less)
  let ?bm = "map2 (\<lambda>b q. b AND NOT q) (aa_bitmap a) (aa_quarantined a)"
  have "bitmap_test (aa_bitmap (release_quarantined a)) i \<longleftrightarrow> bitmap_test (bitmap_set ?bm 0) i"
    by (simp add: release_quarantined_def bitmap_set_def WORD_BITS_def Let_def)
  also have "\<dots> \<longleftrightarrow> 0 = i \<or> bitmap_test ?bm i" using len assms(2) by (intro bitmap_set_test) simp_all
  finally show "bitmap_test (aa_bitmap (release_quarantined a)) i \<longleftrightarrow>
      i = 0 \<or> bitmap_test (aa_bitmap a) i \<and> \<not> bitmap_test (aa_quarantined a) i"
    using len w by (auto simp: bitmap_test_bit bit_and_iff bit_not_iff_eq)
  show "\<not> bitmap_test (aa_quarantined (release_quarantined a)) i"
    using len w by (simp add: release_quarantined_def bitmap_test_bit Let_def)
qed

lemma release_spec:
  assumes "asid_wf a"
  shows "asid_wf (release_quarantined a)" "asid_used (release_quarantined a) i \<longleftrightarrow> asid_used a i"
proof -
  have "length (aa_bitmap (release_quarantined a)) = 4" "length (aa_quarantined (release_quarantined a)) = 4"
    using assms by (simp_all add: release_quarantined_def asid_wf_def Let_def)
  then show "asid_wf (release_quarantined a)" using release_test[OF assms] by (simp add: asid_wf_def)
  show "asid_used (release_quarantined a) i \<longleftrightarrow> asid_used a i"
    using release_test[OF assms, of i] by (auto simp: asid_used_def)
qed

text \<open>Allocation fails only when every identifier but 0 is held by a live space; one that was
  quarantined is handed out only after a shootdown.\<close>

lemma asid_allocate_spec:
  assumes "asid_allocate shoot a t = Some (r, a', t')" "asid_wf a"
  shows "asid_wf a' \<and>
    (case r of
       Some asid \<Rightarrow> 0 < unat asid \<and> unat asid < 256 \<and> \<not> asid_used a (unat asid) \<and>
         (\<forall>i. asid_used a' i \<longleftrightarrow> asid_used a i \<or> i = unat asid) \<and>
         (bitmap_test (aa_quarantined a) (unat asid) \<longrightarrow> shoot t = Some t') \<and>
         (\<not> bitmap_test (aa_quarantined a) (unat asid) \<longrightarrow> t' = t \<or> shoot t = Some t')
     | None \<Rightarrow> shoot t = Some t' \<and> (\<forall>i. 0 < i \<and> i < 256 \<longrightarrow> asid_used a i) \<and> (\<forall>i. asid_used a' i \<longleftrightarrow> asid_used a i))"
proof (cases "try_allocate a")
  case (Pair r1 a1)
  note s1 = try_allocate_spec[OF Pair assms(2)]
  show ?thesis
  proof (cases r1)
    case (Some asid)
    then show ?thesis using assms Pair s1 by (auto simp: asid_allocate_def asid_used_def asid_wf_def)
  next
    case None
    obtain r2 a2 where two: "try_allocate (release_quarantined a1) = (r2, a2)" by fastforce
    have res: "shoot t = Some t'" "r = r2" "a' = a2"
      using assms(1) Pair None two by (auto simp: asid_allocate_def split: option.splits)
    have w1: "asid_wf a1" and u1: "\<And>i. asid_used a1 i = asid_used a i" using s1 None by auto
    note s2 = try_allocate_spec[OF two release_spec(1)[OF w1]]
    have u2: "asid_used (release_quarantined a1) i = asid_used a i" for i
      using release_spec(2)[OF w1] u1 by simp
    have free: "bitmap_test (aa_bitmap (release_quarantined a1)) i = asid_used a i" if "0 < i" "i < 256" for i
      using release_test[OF w1 that(2)] that u2[of i] by (auto simp: asid_used_def)
    show ?thesis using s2 res u2 free by (cases r2) auto
  qed
qed

subsection \<open>Pages move between the heap and the tables\<close>

definition conserves :: "page_table \<Rightarrow> pt_heap \<Rightarrow> page_table \<Rightarrow> pt_heap \<Rightarrow> bool" where
  "conserves pt h pt' h' \<longleftrightarrow>
     mset (pt_owned pt') + mset (ph_free h') = mset (pt_owned pt) + mset (ph_free h) \<and>
     ph_live h' + length (pt_owned pt) = ph_live h + length (pt_owned pt')"

lemma conserves_refl [simp]: "conserves pt h pt h"
  by (simp add: conserves_def)

lemma conserves_trans: "conserves pt h pt1 h1 \<Longrightarrow> conserves pt1 h1 pt2 h2 \<Longrightarrow> conserves pt h pt2 h2"
  by (simp add: conserves_def)

lemma set_entry_conserves [simp]: "conserves pt h (set_entry t i e pt') h' \<longleftrightarrow> conserves pt h pt' h'"
  by (simp add: conserves_def)

lemma alloc_conserves:
  assumes "alloc_page h = Some (n, h')"
  shows "conserves pt h (pt\<lparr>pt_owned := pt_owned pt @ [n], pt_pages := pg\<rparr>) h'"
  using assms by (auto simp: alloc_page_def conserves_def record_heap_page_alloc_def Let_def split: list.splits)

lemma install_conserves:
  "install_loop lf pte t level is pt h = Some (res, pt', h') \<Longrightarrow> conserves pt h pt' h'"
proof (induction lf pte t level "is" pt h rule: install_loop.induct)
  case (2 lf pte t level i rest pt h)
  show ?case
  proof (cases "level = lf \<or> is_valid (entry_at pt t i)")
    case True
    then show ?thesis using 2(1,3) by (auto simp: Let_def split: if_splits)
  next
    case False
    then obtain n h1 where a: "alloc_page h = Some (n, h1)"
      using 2(3) by (auto simp: Let_def split: option.splits)
    have "conserves (set_entry t i (push_bit 10 (drop_bit 12 n) OR PF_VALID)
        (pt\<lparr>pt_owned := pt_owned pt @ [n], pt_pages := (pt_pages pt)(n \<mapsto> page_new)\<rparr>)) h1 pt' h'"
      using 2(2)[OF refl _ _ a refl refl refl] 2(3) False a by (simp add: Let_def)
    then show ?thesis
      by (rule conserves_trans[rotated]) (simp only: set_entry_conserves alloc_conserves[OF a])
  qed
qed simp

text \<open>What every mapping routine keeps.\<close>

definition map_inv :: "page_table \<Rightarrow> pt_heap \<Rightarrow> map_result \<Rightarrow> bool" where
  "map_inv pt h r \<longleftrightarrow>
     (\<forall>res pt' h'. r = Some (res, pt', h') \<longrightarrow> pt_wf pt' \<and> heap_wf pt' h' \<and> conserves pt h pt' h')"

lemma map_inv_done: "pt_wf pt \<Longrightarrow> heap_wf pt h \<Longrightarrow> map_inv pt h (Some (res, pt, h))"
  by (simp add: map_inv_def)

lemma map_inv_trans:
  "map_inv pt h (Some (res, pt1, h1)) \<Longrightarrow> map_inv pt1 h1 r \<Longrightarrow> map_inv pt h r"
  by (auto simp: map_inv_def intro: conserves_trans)

lemma and_then_cases:
  "(\<exists>pt h. r = Some (Inr (), pt, h) \<and> and_then r k = k pt h) \<or> and_then r k = r"
  by (cases r) (auto simp: and_then_def split: sum.splits)

lemma map_inv_and_then:
  assumes "map_inv pt h r" "\<And>pt1 h1. pt_wf pt1 \<Longrightarrow> heap_wf pt1 h1 \<Longrightarrow> map_inv pt1 h1 (k pt1 h1)"
  shows "map_inv pt h (and_then r k)"
  using and_then_cases[of r k]
proof (elim disjE exE conjE)
  fix pt1 h1 assume r: "r = Some (Inr (), pt1, h1)" "and_then r k = k pt1 h1"
  then have "pt_wf pt1" "heap_wf pt1 h1" using assms(1) by (auto simp: map_inv_def)
  then show ?thesis using assms r by (auto intro: map_inv_trans)
qed (use assms(1) in simp)

lemma map_step_inv:
  assumes "pt_wf pt" "heap_wf pt h" "flags_ok f"
  shows "map_inv pt h (pt_map va pa f pt h)" "map_inv pt h (pt_map_2m va pa f pt h)"
proof -
  have "conserves pt h pt' h'" if "pt_map va pa f pt h = Some (res, pt', h')" for res pt' h'
    using that by (auto simp: pt_map_def split: option.splits dest: install_conserves)
  then show "map_inv pt h (pt_map va pa f pt h)" using map_keeps_wf(1)[OF assms] by (auto simp: map_inv_def)
  have "conserves pt h pt' h'" if "pt_map_2m va pa f pt h = Some (res, pt', h')" for res pt' h'
    using that by (auto simp: pt_map_2m_def split: option.splits dest: install_conserves)
  then show "map_inv pt h (pt_map_2m va pa f pt h)" using map_keeps_wf(2)[OF assms] by (auto simp: map_inv_def)
qed

subsection \<open>Identity windows\<close>

text \<open>\<open>identity W pt pt'\<close>: the addresses in \<open>W\<close> are now mapped to themselves, the others as before.\<close>

definition identity :: "(nat \<Rightarrow> bool) \<Rightarrow> page_table \<Rightarrow> page_table \<Rightarrow> bool" where
  "identity W pt pt' \<longleftrightarrow> (\<forall>va. pt_translate pt' va = (if W (unat va) then Some va else pt_translate pt va))"

lemma identity_none [simp]: "identity (\<lambda>_. False) pt pt"
  by (simp add: identity_def)

lemma identity_trans: "identity V pt pt1 \<Longrightarrow> identity W pt1 pt2 \<Longrightarrow> identity (\<lambda>a. V a \<or> W a) pt pt2"
  by (auto simp: identity_def)

lemma page_interval:
  fixes a v m :: nat
  assumes "a mod 2 ^ m = 0"
  shows "v div 2 ^ m = a div 2 ^ m \<longleftrightarrow> a \<le> v \<and> v < a + 2 ^ m"
proof -
  obtain q where q: "a = q * 2 ^ m" using assms by (metis mod_0_imp_dvd dvdE mult.commute)
  have "v div 2 ^ m = q \<longleftrightarrow> q * 2 ^ m \<le> v \<and> v < Suc q * 2 ^ m"
    using div_nat_eqI[where n = "2 ^ m" and m = v and q = q] dividend_less_div_times[of "2 ^ m" v]
      div_times_less_eq_dividend[of v "2 ^ m"] by (auto simp: mult.commute)
  then show ?thesis using q by (simp add: add.commute)
qed

lemma map_identity_step:
  assumes run: "map_step huge addr f pt h = Some (Inr (), pt', h')"
    and wf: "pt_wf pt" "heap_wf pt h" "flags_ok f" and lim: "addr + sz \<le> 2 ^ 38"
    and sz: "sz = (if huge then HUGE_PAGE_SIZE_2M else PAGE_SIZE)"
  shows "identity (\<lambda>v. addr \<le> v \<and> v < addr + sz) pt pt'"
proof -
  define lf :: nat where "lf = (if huge then 1 else 2)"
  let ?m = "12 + (2 - lf) * 9"
  let ?a = "of_nat addr :: u64"
  have m: "sz = 2 ^ ?m" using sz by (simp add: lf_def HUGE_PAGE_SIZE_2M_def PAGE_SIZE_def)
  have ua: "unat ?a = addr" using lim by (simp add: unat_of_nat take_bit_nat_eq_self)
  have "(case map_check (2 ^ ?m) ?a ?a f of Some err \<Rightarrow> Some (Inl err, pt, h)
      | None \<Rightarrow> install_loop lf (leaf_pte ?a f) (pt_root pt) 0 (vpn_indices ?a) pt h) = Some (Inr (), pt', h')"
    using run unfolding lf_def map_step_def
    by (cases huge) (simp_all add: pt_map_def pt_map_2m_def HUGE_PAGE_SIZE_2M_def PAGE_SIZE_def)
  note mo = map_outcome[OF this _ wf]
  have "lf = 1 \<or> lf = 2" by (simp add: lf_def)
  note mo = mo[OF this]
  have out: "case map_check (2 ^ ?m) ?a ?a f of
      Some e \<Rightarrow> Inr () = (Inl e :: map_error + unit)
    | None \<Rightarrow> \<not> busy pt (pt_root pt) (vpn_indices ?a) lf \<and>
        (\<forall>v. pt_translate pt' v = (if drop_bit ?m v = drop_bit ?m ?a \<and> is_canonical_sv39 v
           then Some (?a OR take_bit ?m v) else pt_translate pt v))"
  proof (cases "map_check (2 ^ ?m) ?a ?a f")
    case None
    show ?thesis
      using mo unfolding None option.case
      by (cases "busy pt (pt_root pt) (vpn_indices ?a) lf") (simp_all only: if_True if_False sum.distinct simp_thms)
  qed (use mo in simp)
  have none: "map_check (2 ^ ?m) ?a ?a f = None"
    using out by (cases "map_check (2 ^ ?m) ?a ?a f") auto
  have tr: "pt_translate pt' v = (if drop_bit ?m v = drop_bit ?m ?a \<and> is_canonical_sv39 v
      then Some (?a OR take_bit ?m v) else pt_translate pt v)" for v
    using out none by simp
  have al: "addr mod 2 ^ ?m = 0" using map_check_aligned[OF none] ua by simp
  have pg: "drop_bit ?m v = drop_bit ?m ?a \<longleftrightarrow> addr \<le> unat v \<and> unat v < addr + sz" for v :: u64
  proof -
    have "drop_bit ?m v = drop_bit ?m ?a \<longleftrightarrow> unat v div 2 ^ ?m = addr div 2 ^ ?m"
      unfolding word_unat_eq_iff[of "drop_bit ?m v"] unat_drop_bit_eq ua by (simp only: drop_bit_eq_div)
    then show ?thesis using page_interval[OF al] m by simp
  qed
  have can: "is_canonical_sv39 v" if "unat v < 2 ^ 38" for v :: u64
  proof -
    have t: "unat v = take_bit 38 (unat v)" using that by (simp add: take_bit_nat_eq_self)
    have "\<not> bit v k" if k: "38 \<le> k" for k
    proof -
      have "\<not> bit (unat v) k" by (subst t) (use k in \<open>simp add: bit_take_bit_iff\<close>)
      then show ?thesis by (auto simp: bit_unsigned_iff)
    qed
    then show ?thesis by (simp add: canonical_bits)
  qed
  have or: "?a OR take_bit ?m v = v" if e: "drop_bit ?m v = drop_bit ?m ?a" for v
  proof (rule bit_word_eqI)
    fix k assume k: "k < LENGTH(64)"
    show "bit (?a OR take_bit ?m v) k = bit v k"
      using aligned_bits[of ?a ?m k] al ua e k
      by (cases "k < ?m") (auto simp: bit_or_iff bit_take_bit_iff drop_bit_eq_bits lf_def)
  qed
  show ?thesis unfolding identity_def using tr pg or can lim by auto
qed

lemma map_step_keeps: "pt_wf pt \<Longrightarrow> heap_wf pt h \<Longrightarrow> flags_ok f \<Longrightarrow> map_inv pt h (map_step huge addr f pt h)"
  by (simp add: map_step_def map_step_inv)

lemma identity_loop_eq:
  assumes "huge = (addr mod HUGE_PAGE_SIZE_2M = 0 \<and> HUGE_PAGE_SIZE_2M \<le> limit - addr)"
    and "sz = (if huge then HUGE_PAGE_SIZE_2M else PAGE_SIZE)"
  shows "map_identity_loop addr limit f pt h =
    (if limit \<le> addr then Some (Ok (), pt, h)
     else case map_step huge addr f pt h of
       None \<Rightarrow> None
     | Some (Inl e, pt1, h1) \<Rightarrow> Some (Err e, pt1, h1)
     | Some (Inr _, pt1, h1) \<Rightarrow>
         (case checked_add addr sz of
            None \<Rightarrow> Some (Err OutOfRange, pt1, h1)
          | Some a \<Rightarrow> map_identity_loop a limit f pt1 h1))"
  unfolding map_identity_loop.simps[of addr] assms Let_def ..

lemma identity_loop_inv:
  "pt_wf pt \<Longrightarrow> heap_wf pt h \<Longrightarrow> flags_ok f \<Longrightarrow> map_inv pt h (map_identity_loop addr limit f pt h)"
proof (induction addr limit f pt h rule: map_identity_loop.induct)
  case (1 addr limit f pt h)
  define huge where "huge = (addr mod HUGE_PAGE_SIZE_2M = 0 \<and> HUGE_PAGE_SIZE_2M \<le> limit - addr)"
  define sz where "sz = (if huge then HUGE_PAGE_SIZE_2M else PAGE_SIZE)"
  note st = map_step_keeps[OF 1(2-4), of huge addr]
  note eq = identity_loop_eq[OF huge_def sz_def, of f pt h]
  show ?case
  proof (cases "limit \<le> addr")
    case True
    then show ?thesis using eq map_inv_done[OF 1(2,3)] by simp
  next
    case False
    show ?thesis
    proof (cases "map_step huge addr f pt h")
      case None
      then show ?thesis using False eq by (simp add: map_inv_def)
    next
      case (Some q)
      obtain r pt1 h1 where q: "q = (r, pt1, h1)" by (cases q) auto
      have w: "pt_wf pt1" "heap_wf pt1 h1" "map_inv pt h (Some (r', pt1, h1))" for r'
        using st Some q by (auto simp: map_inv_def)
      have IH: "map_inv pt1 h1 (map_identity_loop a limit f pt1 h1)" if "r = Inr ()" "checked_add addr sz = Some a" for a
        by (rule 1(1)[OF False refl huge_def Some[unfolded q that(1)] refl refl refl that(2)[unfolded sz_def] w(1,2) 1(4)])
      show ?thesis
      proof (cases r)
        case (Inl e)
        then show ?thesis using eq False Some q w by simp
      next
        case (Inr u)
        then show ?thesis using eq False Some q w IH
          by (cases "checked_add addr sz") (auto intro: map_inv_trans)
      qed
    qed
  qed
qed

lemma identity_loop:
  "map_identity_loop addr limit f pt h = Some (Inr (), pt', h') \<Longrightarrow> pt_wf pt \<Longrightarrow> heap_wf pt h \<Longrightarrow> flags_ok f \<Longrightarrow>
   addr mod PAGE_SIZE = 0 \<Longrightarrow> limit mod PAGE_SIZE = 0 \<Longrightarrow> limit \<le> 2 ^ 38 \<Longrightarrow>
   identity (\<lambda>v. addr \<le> v \<and> v < limit) pt pt'"
proof (induction addr limit f pt h rule: map_identity_loop.induct)
  case (1 addr limit f pt h)
  define huge where "huge = (addr mod HUGE_PAGE_SIZE_2M = 0 \<and> HUGE_PAGE_SIZE_2M \<le> limit - addr)"
  define sz where "sz = (if huge then HUGE_PAGE_SIZE_2M else PAGE_SIZE)"
  show ?case
  proof (cases "limit \<le> addr")
    case True
    moreover from True have "(\<lambda>v. addr \<le> v \<and> v < limit) = (\<lambda>_. False)" by auto
    ultimately show ?thesis using 1(2) by (simp add: map_identity_loop.simps[of addr])
  next
    case False
    then obtain pt1 h1 where s: "map_step huge addr f pt h = Some (Inr (), pt1, h1)"
      "checked_add addr sz = Some (addr + sz)" "map_identity_loop (addr + sz) limit f pt1 h1 = Some (Inr (), pt', h')"
      using 1(2) unfolding identity_loop_eq[OF huge_def sz_def]
      by (auto simp: checked_add_def split: option.splits sum.splits if_splits)
    have w: "pt_wf pt1" "heap_wf pt1 h1" using map_step_keeps[OF 1(3-5), of huge addr] s(1) by (auto simp: map_inv_def)
    have al: "(addr + sz) mod PAGE_SIZE = 0"
      using 1(6) by (simp add: sz_def HUGE_PAGE_SIZE_2M_def PAGE_SIZE_def mod_add_eq[symmetric, of addr])
    have le: "addr + sz \<le> limit"
    proof (cases huge)
      case True
      then have "HUGE_PAGE_SIZE_2M \<le> limit - addr" "sz = HUGE_PAGE_SIZE_2M" by (simp_all add: huge_def sz_def)
      then show ?thesis using False by linarith
    next
      case False': False
      obtain q r where "addr = q * 4096" "limit = r * 4096"
        using 1(6,7) by (metis PAGE_SIZE_def mod_0_imp_dvd dvdE mult.commute)
      then show ?thesis using False False' by (simp add: sz_def PAGE_SIZE_def)
    qed
    have i1: "identity (\<lambda>v. addr \<le> v \<and> v < addr + sz) pt pt1"
      by (rule map_identity_step[OF s(1) 1(3-5) _ sz_def]) (use le 1(8) in simp)
    have s2: "checked_add addr (if huge then HUGE_PAGE_SIZE_2M else PAGE_SIZE) = Some (addr + sz)"
      unfolding sz_def[symmetric] by (rule s(2))
    have i2: "identity (\<lambda>v. addr + sz \<le> v \<and> v < limit) pt1 pt'"
      by (rule 1(1)[OF False refl huge_def s(1) refl refl refl s2 s(3) w 1(5) al 1(7,8)])
    have "(addr \<le> v \<and> v < addr + sz) \<or> (addr + sz \<le> v \<and> v < limit) \<longleftrightarrow> addr \<le> v \<and> v < limit" for v
      using le by linarith
    then show ?thesis using identity_trans[OF i1 i2] by simp
  qed
qed

subsection \<open>Kernel segments\<close>

lemma range_inv:
  "pt_wf pt \<Longrightarrow> heap_wf pt h \<Longrightarrow> flags_ok f \<Longrightarrow> map_inv pt h (map_identity_range start limit f pt h)"
  by (simp add: map_identity_range_def identity_loop_inv map_inv_done)

lemma global_flags_ok [simp]: "flags_ok RX_GLOBAL" "flags_ok RW_GLOBAL"
  by (simp_all add: flags_ok_def RX_GLOBAL_def RW_GLOBAL_def PF_VALID_def PF_READ_def PF_WRITE_def PF_EXECUTE_def PF_GLOBAL_def)

lemma windows_inv: "pt_wf pt \<Longrightarrow> heap_wf pt h \<Longrightarrow> map_inv pt h (map_windows ws pt h)"
  by (induction ws arbitrary: pt h) (auto intro!: map_inv_and_then range_inv map_inv_done)

lemma stacks_inv: "pt_wf pt \<Longrightarrow> heap_wf pt h \<Longrightarrow> map_inv pt h (map_stacks guard ls ds de pt h)"
  by (auto simp: map_stacks_def Let_def split: option.splits intro!: map_inv_and_then range_inv map_inv_done)

lemma segments_inv: "pt_wf pt \<Longrightarrow> heap_wf pt h \<Longrightarrow> map_inv pt h (map_kernel_segments guard ls pt h)"
  by (auto simp: map_kernel_segments_def Let_def intro!: map_inv_and_then range_inv stacks_inv windows_inv map_inv_done)

lemma kernel_map_inv: "pt_wf pt \<Longrightarrow> heap_wf pt h \<Longrightarrow> map_inv pt h (kernel_map b pt h)"
  by (cases b) (simp_all add: segments_inv map_inv_done)

text \<open>The windows \<open>map_kernel_segments\<close> means to map.\<close>

definition kernel_windows :: "nat \<Rightarrow> linker_symbols \<Rightarrow> (usize \<times> usize) list" where
  "kernel_windows guard ls =
     (let text_end = align_up (sym_text_end ls);
          data_end = align_up (sym_bss_end ls);
          clear = (\<lambda>(b, l). \<not> (b < data_end \<and> text_end < l))
      in [(align_down (sym_text_start ls), text_end), (text_end, data_end),
          (max (align_down (sym_stack_bottom ls) + guard * PAGE_SIZE) data_end, align_up (sym_stack_top ls))]
         @ filter clear
             [(align_down (sym_satp_island_stack_base ls), align_up (sym_satp_island_stack_top ls)),
              (align_down (sym_selftest_stack_base ls), align_up (sym_selftest_stack_top ls))]
         @ fixed_windows)"

definition in_windows :: "(usize \<times> usize) list \<Rightarrow> nat \<Rightarrow> bool" where
  "in_windows ws v \<longleftrightarrow> (\<exists>(b, l) \<in> set ws. b \<le> v \<and> v < l)"

definition window_ok :: "usize \<times> usize \<Rightarrow> bool" where
  "window_ok w \<longleftrightarrow> fst w mod PAGE_SIZE = 0 \<and> snd w mod PAGE_SIZE = 0 \<and> snd w \<le> 2 ^ 38"

text \<open>\<open>maps ws pt h r\<close>: if \<open>r\<close> succeeded, exactly the windows \<open>ws\<close> were added to \<open>pt\<close>.\<close>

definition maps :: "(usize \<times> usize) list \<Rightarrow> page_table \<Rightarrow> map_result \<Rightarrow> bool" where
  "maps ws pt r \<longleftrightarrow> (\<forall>pt' h'. r = Some (Inr (), pt', h') \<longrightarrow> identity (in_windows ws) pt pt')"

lemma in_windows_simps [simp]:
  "in_windows [] v \<longleftrightarrow> False" "in_windows (w # ws) v \<longleftrightarrow> fst w \<le> v \<and> v < snd w \<or> in_windows ws v"
  "in_windows (vs @ ws) v \<longleftrightarrow> in_windows vs v \<or> in_windows ws v"
  by (auto simp: in_windows_def)

lemma maps_none [simp]: "maps [] pt (Some (Inr (), pt, h))" "maps ws pt (Some (Inl e, pt', h))"
  by (simp_all add: maps_def identity_def)

lemma maps_range:
  assumes "window_ok (b, l)" "pt_wf pt" "heap_wf pt h" "flags_ok f"
  shows "maps [(b, l)] pt (map_identity_range b l f pt h)"
proof -
  have "identity (in_windows [(b, l)]) pt pt'" if "map_identity_range b l f pt h = Some (Inr (), pt', h')" for pt' h'
  proof (cases "l \<le> b")
    case False
    then have "identity (\<lambda>v. b \<le> v \<and> v < l) pt pt'"
      using that assms by (auto simp: map_identity_range_def window_ok_def intro: identity_loop)
    then show ?thesis by (simp add: identity_def)
  qed (use that in \<open>auto simp: map_identity_range_def identity_def\<close>)
  then show ?thesis by (simp add: maps_def)
qed

lemma maps_and_then:
  assumes "maps vs pt r" "map_inv pt h r"
    and "\<And>pt1 h1. pt_wf pt1 \<Longrightarrow> heap_wf pt1 h1 \<Longrightarrow> maps ws pt1 (k pt1 h1)"
  shows "maps (vs @ ws) pt (and_then r k)"
  using and_then_cases[of r k]
proof (elim disjE exE conjE)
  fix pt1 h1 assume r: "r = Some (Inr (), pt1, h1)" "and_then r k = k pt1 h1"
  then have "maps ws pt1 (k pt1 h1)" using assms(2,3) by (auto simp: map_inv_def)
  then show ?thesis using assms(1) r by (auto simp: maps_def identity_def)
next
  assume "and_then r k = r"
  show ?thesis
  proof (cases "\<exists>pt1 h1. r = Some (Inr (), pt1, h1)")
    case True
    then obtain pt1 h1 where r: "r = Some (Inr (), pt1, h1)" by blast
    then have "maps ws pt1 (k pt1 h1)" using assms(2,3) by (auto simp: map_inv_def)
    then show ?thesis using assms(1) r by (auto simp: maps_def identity_def and_then_def)
  qed (use \<open>and_then r k = r\<close> in \<open>auto simp: maps_def\<close>)
qed

lemma maps_windows:
  "\<forall>w \<in> set ws. window_ok w \<Longrightarrow> pt_wf pt \<Longrightarrow> heap_wf pt h \<Longrightarrow> maps ws pt (map_windows ws pt h)"
proof (induction ws arbitrary: pt h)
  case (Cons w ws)
  obtain b l where w: "w = (b, l)" by fastforce
  have "maps ([(b, l)] @ ws) pt (and_then (map_identity_range b l RW_GLOBAL pt h) (map_windows ws))"
    using Cons w by (intro maps_and_then[where h = h] maps_range range_inv) auto
  then show ?case using w by simp
qed simp

lemma align_mod [simp]: "align_down a mod PAGE_SIZE = 0" "align_up a mod PAGE_SIZE = 0"
proof -
  show d: "align_down a mod PAGE_SIZE = 0" for a by (simp add: align_down_def)
  have "(a + (PAGE_SIZE - a mod PAGE_SIZE)) mod PAGE_SIZE = 0"
  proof -
    have "a mod PAGE_SIZE \<le> PAGE_SIZE" by (simp add: PAGE_SIZE_def)
    then have "a + (PAGE_SIZE - a mod PAGE_SIZE) = a div PAGE_SIZE * PAGE_SIZE + PAGE_SIZE"
      using div_mult_mod_eq[of a PAGE_SIZE] by linarith
    then show ?thesis by simp
  qed
  then show "align_up a mod PAGE_SIZE = 0"
    using d[of usize_max] by (auto simp: align_up_def Let_def checked_add_def)
qed

lemma maps_empty: "\<not> b < l \<Longrightarrow> maps [(b, l)] pt (Some (Ok (), pt, h))"
  by (auto simp: maps_def identity_def)

text \<open>The stacks of \<open>map_stacks\<close>.\<close>

definition stack_windows :: "nat \<Rightarrow> linker_symbols \<Rightarrow> usize \<Rightarrow> usize \<Rightarrow> (usize \<times> usize) list" where
  "stack_windows guard ls data_start data_end =
     (max (align_down (sym_stack_bottom ls) + guard * PAGE_SIZE) data_end, align_up (sym_stack_top ls)) #
     filter (\<lambda>(b, l). \<not> (b < data_end \<and> data_start < l))
       [(align_down (sym_satp_island_stack_base ls), align_up (sym_satp_island_stack_top ls)),
        (align_down (sym_selftest_stack_base ls), align_up (sym_selftest_stack_top ls))]"

lemma maps_stacks:
  assumes ok: "\<forall>w \<in> set (stack_windows guard ls ds de). window_ok w" and wf: "pt_wf pt" "heap_wf pt h"
  shows "maps (stack_windows guard ls ds de) pt (map_stacks guard ls ds de pt h)"
proof -
  define st where "st = (max (align_down (sym_stack_bottom ls) + guard * PAGE_SIZE) de, align_up (sym_stack_top ls))"
  define iw where "iw = (align_down (sym_satp_island_stack_base ls), align_up (sym_satp_island_stack_top ls))"
  define sw where "sw = (align_down (sym_selftest_stack_base ls), align_up (sym_selftest_stack_top ls))"
  let ?out = "\<lambda>(b, l). \<not> (b < de \<and> ds < l)"
  let ?opt = "\<lambda>w pt h. if fst w < snd w \<and> ?out w then map_identity_range (fst w) (snd w) RW_GLOBAL pt h
    else Some (Ok (), pt, h)"
  have sws: "stack_windows guard ls ds de = [st] @ filter ?out [iw] @ filter ?out [sw]"
    by (simp add: stack_windows_def st_def iw_def sw_def)
  have opt: "maps (filter ?out [w]) pt (?opt w pt h)" "map_inv pt h (?opt w pt h)"
    if "w \<in> {iw, sw}" "pt_wf pt" "heap_wf pt h" for w pt h
    using that ok unfolding sws
    by (auto intro!: maps_range range_inv map_inv_done maps_empty split: prod.splits)
  have fst_step: "maps [st] pt (if fst st < snd st then map_identity_range (fst st) (snd st) RW_GLOBAL pt h
      else Some (Ok (), pt, h))"
    using ok wf unfolding sws by (cases st) (auto intro!: maps_range maps_empty)
  have "maps ([st] @ filter ?out [iw] @ filter ?out [sw]) pt
      (and_then (if fst st < snd st then map_identity_range (fst st) (snd st) RW_GLOBAL pt h else Some (Ok (), pt, h))
        (\<lambda>pt h. and_then (?opt iw pt h) (?opt sw)))"
  proof (rule maps_and_then[where h = h, OF fst_step])
    fix pt1 h1 assume w: "pt_wf pt1" "heap_wf pt1 h1"
    show "maps (filter ?out [iw] @ filter ?out [sw]) pt1 (and_then (?opt iw pt1 h1) (?opt sw))"
      by (rule maps_and_then[OF opt(1) opt(2)]) (rule insertI1 w opt(1) insertI2 singletonI | assumption)+
  qed (use wf in \<open>simp add: range_inv map_inv_done\<close>)
  moreover have "map_stacks guard ls ds de pt h = Some (Err OutOfRange, pt, h) \<or>
      map_stacks guard ls ds de pt h =
        and_then (if fst st < snd st then map_identity_range (fst st) (snd st) RW_GLOBAL pt h else Some (Ok (), pt, h))
          (\<lambda>pt h. and_then (?opt iw pt h) (?opt sw))"
    unfolding st_def iw_def sw_def fst_conv snd_conv prod.case
    by (cases "checked_add (align_down (sym_stack_bottom ls)) (guard * PAGE_SIZE)")
      (simp_all add: map_stacks_def Let_def checked_add_def split: if_splits)
  ultimately show ?thesis unfolding sws by (elim disjE) (simp_all only: maps_none)
qed

lemma maps_segments:
  assumes ok: "\<forall>w \<in> set (kernel_windows guard ls). window_ok w" and wf: "pt_wf pt" "heap_wf pt h"
  shows "maps (kernel_windows guard ls) pt (map_kernel_segments guard ls pt h)"
proof -
  define ts where "ts = align_down (sym_text_start ls)"
  define te where "te = align_up (sym_text_end ls)"
  define de where "de = align_up (sym_bss_end ls)"
  have kw: "kernel_windows guard ls = [(ts, te)] @ [(te, de)] @ stack_windows guard ls te de @ fixed_windows"
    by (simp add: kernel_windows_def stack_windows_def ts_def te_def de_def Let_def)
  have stacks: "maps (stack_windows guard ls te de @ fixed_windows) pt
      (and_then (map_stacks guard ls te de pt h) (map_windows fixed_windows))" if "pt_wf pt" "heap_wf pt h" for pt h
    by (rule maps_and_then[OF maps_stacks stacks_inv maps_windows]) (use ok that in \<open>auto simp: kw\<close>)
  have data: "maps ([(te, de)] @ stack_windows guard ls te de @ fixed_windows) pt
      (and_then (map_identity_range te de RW_GLOBAL pt h)
        (\<lambda>pt h. and_then (map_stacks guard ls te de pt h) (map_windows fixed_windows)))" if "pt_wf pt" "heap_wf pt h" for pt h
    by (rule maps_and_then[OF maps_range range_inv stacks]) (use ok that in \<open>auto simp: kw\<close>)
  have "maps (kernel_windows guard ls) pt (and_then (map_identity_range ts te RX_GLOBAL pt h)
      (\<lambda>pt h. and_then (map_identity_range te de RW_GLOBAL pt h)
        (\<lambda>pt h. and_then (map_stacks guard ls te de pt h) (map_windows fixed_windows))))"
    unfolding kw by (rule maps_and_then[OF maps_range range_inv data]) (use ok wf in \<open>auto simp: kw\<close>)
  then show ?thesis by (simp add: map_kernel_segments_def Let_def ts_def te_def de_def)
qed

end
