(* ===== verification/As_Manager_Correct.thy ===== *)
theory As_Manager_Correct
  imports Addr_Space_Correct "HOL-Library.Multiset"
begin

text \<open>
  Isolation of address spaces over every history of the manager.  The live spaces are kept as a
  multiset; their ASIDs are exactly the identifiers in use, and the pages of all their tables together
  with the free pages of the heap are the pages the system started with, each exactly once.
\<close>

subsection \<open>Histories\<close>

datatype as_op =
    ACreate
  | ADestroy u32
  | AAttach u32 u32
  | ADetach u32 u32
  | AMap u32 u64 u64 u64
  | ASetFlags u32 u64 u64

text \<open>Only \<open>create\<close> and \<open>map_page\<close> allocate, so only they can abort.\<close>

fun as_exec :: "build \<Rightarrow> (tlb \<Rightarrow> tlb option) \<Rightarrow> as_op \<Rightarrow> as_manager \<Rightarrow> as_manager option" where
  "as_exec b shoot ACreate m = map_option snd (as_create b shoot m)"
| "as_exec b shoot (ADestroy h) m = Some (snd (as_destroy h m))"
| "as_exec b shoot (AAttach h p) m = Some (snd (as_attach h p m))"
| "as_exec b shoot (ADetach h p) m = Some (snd (as_detach h p m))"
| "as_exec b shoot (AMap h va pa f) m = map_option snd (as_map_page h va pa (f AND 0xFF) m)"
| "as_exec b shoot (ASetFlags h va f) m = Some (snd (as_set_leaf_flags h va (f AND 0xFF) m))"

fun as_run :: "build \<Rightarrow> (tlb \<Rightarrow> tlb option) \<Rightarrow> as_op list \<Rightarrow> as_manager \<Rightarrow> as_manager option" where
  "as_run b shoot [] m = Some m"
| "as_run b shoot (op # ops) m =
     (case as_exec b shoot op m of None \<Rightarrow> None | Some m' \<Rightarrow> as_run b shoot ops m')"

subsection \<open>Live spaces\<close>

fun live :: "'a option list \<Rightarrow> 'a multiset" where
  "live [] = {#}"
| "live (None # xs) = live xs"
| "live (Some s # xs) = add_mset s (live xs)"

lemma live_append [simp]: "live (xs @ ys) = live xs + live ys"
  by (induction xs rule: live.induct) simp_all

lemma live_set: "s \<in># live xs \<longleftrightarrow> Some s \<in> set xs"
  by (induction xs rule: live.induct) auto

lemma live_nth: "i < length xs \<Longrightarrow> xs ! i = Some s \<Longrightarrow> s \<in># live xs"
  by (metis live_set nth_mem)

lemma live_update:
  "i < length xs \<Longrightarrow>
   live (xs[i := y]) = live xs - (case xs ! i of None \<Rightarrow> {#} | Some s \<Rightarrow> {#s#}) + (case y of None \<Rightarrow> {#} | Some s \<Rightarrow> {#s#})"
proof (induction xs arbitrary: i rule: live.induct)
  case (2 xs)
  then show ?case by (cases i) (auto split: option.splits)
next
  case (3 s xs)
  show ?case
  proof (cases i)
    case (Suc j)
    have j: "j < length xs" using 3(2) Suc by simp
    have sub: "xs ! j = Some t \<Longrightarrow> t \<in># live xs" for t using live_nth[OF j] .
    show ?thesis using 3(1)[OF j] Suc sub by (cases "xs ! j") auto
  qed (auto split: option.splits)
qed simp

subsection \<open>The invariant\<close>

abbreviation owned :: "address_space \<Rightarrow> u64 multiset" where
  "owned s \<equiv> mset (pt_owned (as_page_table s))"

definition as_inv :: "u64 list \<Rightarrow> as_manager \<Rightarrow> bool" where
  "as_inv ps m \<longleftrightarrow>
     asid_wf (am_asids m) \<and>
     image_mset (\<lambda>s. unat (as_asid s)) (live (am_spaces m)) = mset_set {i. asid_used (am_asids m) i} \<and>
     (\<forall>s \<in># live (am_spaces m). pt_wf (as_page_table s)) \<and>
     sum_mset (image_mset owned (live (am_spaces m))) + mset (ph_free (am_heap m)) = mset ps \<and>
     ph_live (am_heap m) = size (sum_mset (image_mset owned (live (am_spaces m)))) \<and>
     st_live (am_stats m) = size (live (am_spaces m)) \<and>
     st_created (am_stats m) = st_destroyed (am_stats m) + st_live (am_stats m)"

definition pages_ok :: "u64 list \<Rightarrow> bool" where
  "pages_ok ps \<longleftrightarrow> distinct ps \<and> (\<forall>a \<in> set ps. a \<noteq> 0 \<and> a AND 0xFFF = 0)"

lemma finite_used [simp]: "finite {i. asid_used a i}"
  by (rule finite_subset[of _ "{..<256}"]) (auto simp: asid_used_def)

lemma distinct_mset_add:
  assumes "mset xs + mset ys + Z = mset ps" "distinct ps"
  shows "distinct xs \<and> distinct ys \<and> set xs \<inter> set ys = {}"
proof -
  obtain zs where z: "Z = mset zs" by (metis ex_mset)
  have "mset (xs @ ys @ zs) = mset ps" using assms(1) z by (simp add: add.assoc)
  then have "distinct (xs @ ys @ zs)" using assms(2) by (metis mset_eq_imp_distinct_iff)
  then show ?thesis by auto
qed

lemma space_heap_wf:
  assumes "as_inv ps m" "pages_ok ps" "s \<in># live (am_spaces m)"
  shows "heap_wf (as_page_table s) (am_heap m)"
proof -
  obtain M where M: "live (am_spaces m) = add_mset s M" using assms(3) by (metis mset_add)
  have "mset (pt_owned (as_page_table s)) + mset (ph_free (am_heap m)) + sum_mset (image_mset owned M) = mset ps"
    using assms(1) M by (simp add: as_inv_def ac_simps)
  note d = distinct_mset_add[OF this]
  have "set (ph_free (am_heap m)) \<subseteq> set ps"
    using assms(1) by (metis as_inv_def mset_subset_eq_add_right set_mset_mono set_mset_mset)
  then show ?thesis
    using d assms M by (auto simp: heap_wf_def pages_ok_def as_inv_def pt_wf_def)
qed

lemma put_inv:
  assumes inv: "as_inv ps m" and get: "as_get m ah = Inr s" and asid: "as_asid s' = as_asid s"
    and wf: "pt_wf (as_page_table s')" and cons: "conserves (as_page_table s) (am_heap m) (as_page_table s') h'"
  shows "as_inv ps (put_space ah s' (m\<lparr>am_heap := h'\<rparr>))"
proof -
  let ?i = "handle_index ah"
  have i: "?i < length (am_spaces m)" "am_spaces m ! ?i = Some s"
    using get by (auto simp: as_get_def Let_def split: if_splits option.splits)
  obtain M where M: "live (am_spaces m) = add_mset s M" using live_nth[OF i] by (metis mset_add)
  have L: "live ((am_spaces m)[?i := Some s']) = add_mset s' M" using live_update[OF i(1)] i(2) M by simp
  have pages: "owned s' + (sum_mset (image_mset owned M) + mset (ph_free h')) = mset ps"
  proof -
    have "owned s + mset (ph_free (am_heap m)) + sum_mset (image_mset owned M) = mset ps"
      using inv by (simp add: as_inv_def M ac_simps)
    then have "owned s' + mset (ph_free h') + sum_mset (image_mset owned M) = mset ps"
      using cons by (simp add: conserves_def)
    then show ?thesis by (simp add: ac_simps)
  qed
  have "ph_live h' + length (pt_owned (as_page_table s)) = ph_live (am_heap m) + length (pt_owned (as_page_table s'))"
    using cons by (simp add: conserves_def)
  then show ?thesis
    using inv wf asid pages by (auto simp: as_inv_def put_space_def L M add.assoc)
qed

subsection \<open>Operations on a live space\<close>

lemma flags_loop_owned: "pt_owned (snd (flags_loop wx upd t is pt)) = pt_owned pt"
  by (induction wx upd t "is" pt rule: flags_loop.induct) (auto simp: Let_def)

lemma set_flags_owned: "pt_owned (snd (pt_set_leaf_flags va f pt)) = pt_owned pt"
  by (simp add: pt_set_leaf_flags_def pt_update_flags_def flags_loop_owned)

lemma set_flags_wf: "pt_wf pt \<Longrightarrow> flags_ok f \<Longrightarrow> pt_wf (snd (pt_set_leaf_flags va f pt))"
  using set_leaf_flags_ok by (metis prod.collapse)

lemma get_live: "as_get m ah = Inr s \<Longrightarrow> s \<in># live (am_spaces m)"
  by (auto simp: as_get_def Let_def split: if_splits option.splits intro: live_nth)

lemma get_wf: "as_inv ps m \<Longrightarrow> as_get m ah = Inr s \<Longrightarrow> pt_wf (as_page_table s)"
  by (auto simp: as_inv_def dest: get_live)

lemma owners_inv:
  assumes "as_inv ps m" "as_get m ah = Inr s"
  shows "as_inv ps (put_space ah (s\<lparr>as_owners := X\<rparr>) m)"
  using put_inv[OF assms, of "s\<lparr>as_owners := X\<rparr>" "am_heap m"] get_wf[OF assms] by simp

lemma attach_inv: "as_inv ps m \<Longrightarrow> as_inv ps (snd (as_attach ah p m))" "as_inv ps m \<Longrightarrow> as_inv ps (snd (as_detach ah p m))"
  by (auto simp: as_attach_def as_detach_def owners_inv split: sum.splits)

lemma set_flags_inv:
  assumes "as_inv ps m" "flags_ok f"
  shows "as_inv ps (snd (as_set_leaf_flags ah va f m))"
proof (cases "as_get m ah")
  case (Inr s)
  obtain res pt where r: "pt_set_leaf_flags va f (as_page_table s) = (res, pt)" by fastforce
  have "pt_wf pt" "pt_owned pt = pt_owned (as_page_table s)"
    using set_flags_wf[OF get_wf[OF assms(1) Inr] assms(2), of va] set_flags_owned[of va f "as_page_table s"] r by auto
  then show ?thesis
    using put_inv[OF assms(1) Inr, of "s\<lparr>as_page_table := pt\<rparr>" "am_heap m"] Inr r
    by (simp add: as_set_leaf_flags_def conserves_def)
qed (use assms in \<open>simp add: as_set_leaf_flags_def\<close>)

lemma map_page_inv:
  assumes inv: "as_inv ps m" and ps: "pages_ok ps" and f: "flags_ok f" and run: "as_map_page ah va pa f m = Some (res, m')"
  shows "as_inv ps m'"
proof (cases "as_get m ah")
  case (Inr s)
  have wf: "pt_wf (as_page_table s)" "heap_wf (as_page_table s) (am_heap m)"
    using get_wf[OF inv Inr] space_heap_wf[OF inv ps get_live[OF Inr]] by auto
  obtain r pt h where q: "pt_map va pa f (as_page_table s) (am_heap m) = Some (r, pt, h)"
    using run Inr by (auto simp: as_map_page_def split: option.splits)
  have k: "pt_wf pt" "conserves (as_page_table s) (am_heap m) pt h"
    using map_step_inv(1)[OF wf f, of va pa] q by (auto simp: map_inv_def)
  define pt' where "pt' = (if r = Inr () \<and> global_window va then snd (pt_set_leaf_flags va PF_GLOBAL pt) else pt)"
  have g: "flags_ok PF_GLOBAL" by (simp add: flags_ok_def PF_GLOBAL_def)
  have "pt_wf pt'" "conserves (as_page_table s) (am_heap m) pt' h"
    using k set_flags_wf[OF k(1) g] by (auto simp: pt'_def conserves_def set_flags_owned)
  moreover have "m' = put_space ah (s\<lparr>as_page_table := pt'\<rparr>) (m\<lparr>am_heap := h\<rparr>)"
    using run Inr q by (cases r) (auto simp: as_map_page_def pt'_def Let_def)
  ultimately show ?thesis using put_inv[OF inv Inr, of "s\<lparr>as_page_table := pt'\<rparr>" h] by simp
qed (use run inv in \<open>simp add: as_map_page_def\<close>)

subsection \<open>Destroying and creating\<close>

lemma drop_fold:
  "ph_free (fold free_page ps h) = rev ps @ ph_free h" "ph_live (fold free_page ps h) = ph_live h - length ps"
  by (induction ps arbitrary: h) (simp_all add: free_page_def record_heap_page_free_def)

lemma pt_drop_simps [simp]:
  "mset (ph_free (pt_drop pt h)) = mset (pt_owned pt) + mset (ph_free h)"
  "ph_live (pt_drop pt h) = ph_live h - length (pt_owned pt)"
  by (simp_all add: pt_drop_def drop_fold)

lemma destroy_inv:
  assumes inv: "as_inv ps m"
  shows "as_inv ps (snd (as_destroy ah m))"
proof (cases "as_get m ah")
  case (Inr s)
  let ?i = "handle_index ah"
  have i: "?i < length (am_spaces m)" "am_spaces m ! ?i = Some s"
    using Inr by (auto simp: as_get_def Let_def split: if_splits option.splits)
  obtain M where M: "live (am_spaces m) = add_mset s M" using live_nth[OF i] by (metis mset_add)
  have L: "live ((am_spaces m)[?i := None]) = M" using live_update[OF i(1)] i(2) M by simp
  let ?U = "\<lambda>a. {i. asid_used a i}"
  have eq: "add_mset (unat (as_asid s)) (image_mset (\<lambda>s. unat (as_asid s)) M) = mset_set (?U (am_asids m))"
    using inv M by (simp add: as_inv_def)
  then have used: "asid_used (am_asids m) (unat (as_asid s))"
    by (metis elem_mset_set finite_used mem_Collect_eq union_single_eq_member)
  have aw: "asid_wf (am_asids m)" using inv by (simp add: as_inv_def)
  note fr = asid_free_spec[OF aw used]
  have "?U (asid_free (as_asid s) (am_asids m)) = ?U (am_asids m) - {unat (as_asid s)}" using fr(2) by auto
  then have "mset_set (?U (asid_free (as_asid s) (am_asids m))) = image_mset (\<lambda>s. unat (as_asid s)) M"
    using eq used mset_set.remove[OF finite_used, of "unat (as_asid s)" "am_asids m"] by auto
  then show ?thesis
    using inv fr(1) Inr M
    by (auto simp: as_destroy_def as_inv_def L record_as_destroy_def ac_simps)
qed (use inv in \<open>simp add: as_destroy_def\<close>)

lemma space_new_spec:
  assumes run: "address_space_new b asid h = Some (res, h')" and ok: "heap_ok h"
  shows "case res of
      Inl e \<Rightarrow> mset (ph_free h') = mset (ph_free h) \<and> ph_live h' = ph_live h
    | Inr s \<Rightarrow> as_asid s = asid \<and> as_owners s = {} \<and> pt_wf (as_page_table s) \<and>
        owned s + mset (ph_free h') = mset (ph_free h) \<and> ph_live h' = ph_live h + size (owned s)"
proof -
  obtain pt h1 where n: "pt_new h = Some (pt, h1)"
    using run by (auto simp: address_space_new_def split: option.splits)
  have n2: "mset (pt_owned pt) + mset (ph_free h1) = mset (ph_free h)" "ph_live h1 = ph_live h + length (pt_owned pt)"
    using n by (auto simp: pt_new_def alloc_page_def record_heap_page_alloc_def Let_def split: list.splits)
  obtain r pt2 h2 where k: "kernel_map b pt h1 = Some (r, pt2, h2)"
    using run n by (auto simp: address_space_new_def split: option.splits)
  have inv: "pt_wf pt2" "conserves pt h1 pt2 h2"
    using kernel_map_inv[OF pt_new_wf(1,2)[OF n ok], of b] k by (auto simp: map_inv_def)
  have c: "mset (pt_owned pt2) + mset (ph_free h2) = mset (ph_free h)" "ph_live h2 = ph_live h + length (pt_owned pt2)"
    using inv(2) n2 by (auto simp: conserves_def)
  show ?thesis
    using run n k c inv(1) by (cases r) (auto simp: address_space_new_def)
qed

lemma store_live:
  assumes "store_space s m = (ah, m')"
  shows "live (am_spaces m') = add_mset s (live (am_spaces m))" "am_asids m' = am_asids m" "am_heap m' = am_heap m"
    "am_stats m' = am_stats m"
proof -
  show "live (am_spaces m') = add_mset s (live (am_spaces m))"
  proof (cases "find_index (\<lambda>slot. slot = None) (am_spaces m)")
    case (Some i)
    then have i: "i < length (am_spaces m)" "am_spaces m ! i = None" by (auto simp: find_index_Some)
    then show ?thesis using assms Some live_update[OF i(1), of "Some s"] by (auto simp: store_space_def)
  qed (use assms in \<open>auto simp: store_space_def\<close>)
qed (use assms in \<open>auto simp: store_space_def split: option.splits\<close>)

lemma inv_heap_ok: "as_inv ps m \<Longrightarrow> pages_ok ps \<Longrightarrow> heap_ok (am_heap m)"
proof -
  assume a: "as_inv ps m" "pages_ok ps"
  then have e: "mset (ph_free (am_heap m)) + mset [] + sum_mset (image_mset owned (live (am_spaces m))) = mset ps"
    by (simp add: as_inv_def ac_simps)
  have "set_mset (mset (ph_free (am_heap m))) \<subseteq> set_mset (mset ps)" unfolding e[symmetric] by auto
  then have "set (ph_free (am_heap m)) \<subseteq> set ps" by simp
  then show ?thesis using distinct_mset_add[OF e] a(2) by (auto simp: heap_ok_def pages_ok_def)
qed

lemma create_inv:
  assumes inv: "as_inv ps m" and ps: "pages_ok ps" and run: "as_create b shoot m = Some (res, m')"
  shows "as_inv ps m'"
proof -
  let ?U = "\<lambda>a. {i. asid_used a i}"
  have aw: "asid_wf (am_asids m)" using inv by (simp add: as_inv_def)
  obtain r a t where al: "asid_allocate shoot (am_asids m) (am_tlb m) = Some (r, a, t)"
    using run by (auto simp: as_create_def split: option.splits)
  note sp = asid_allocate_spec[OF al aw]
  show ?thesis
  proof (cases r)
    case None
    then have "m' = m\<lparr>am_asids := a, am_tlb := t\<rparr>" using run al by (simp add: as_create_def)
    moreover have "?U a = ?U (am_asids m)" using sp None by auto
    ultimately show ?thesis using inv sp by (simp add: as_inv_def)
  next
    case (Some asid)
    have new: "0 < unat asid" "\<not> asid_used (am_asids m) (unat asid)" "asid_wf a" "?U a = insert (unat asid) (?U (am_asids m))"
      using sp Some by auto
    obtain q h where n: "address_space_new b asid (am_heap m) = Some (q, h)"
      using run al Some by (auto simp: as_create_def split: option.splits)
    note ns = space_new_spec[OF n inv_heap_ok[OF inv ps]]
    show ?thesis
    proof (cases q)
      case (Inl e)
      have used: "asid_used a (unat asid)" using new(4) by auto
      have "?U (asid_free asid a) = ?U (am_asids m)" using asid_free_spec(2)[OF new(3) used] new(2,4) by auto
      moreover have "m' = m\<lparr>am_asids := asid_free asid a, am_tlb := t, am_heap := h\<rparr>"
        using run al Some n Inl by (simp add: as_create_def)
      ultimately show ?thesis using inv ns Inl asid_free_spec(1)[OF new(3) used] by (simp add: as_inv_def)
    next
      case (Inr s)
      let ?m1 = "m\<lparr>am_asids := a, am_tlb := t, am_heap := h,
        am_stats := record_as_create (allocated_pages (as_page_table s)) (am_stats m)\<rparr>"
      obtain ah where st: "store_space s ?m1 = (ah, m')"
        using run al Some n Inr by (auto simp: as_create_def Let_def split: prod.splits)
      let ?X = "sum_mset (image_mset owned (live (am_spaces m)))"
      have "?X + (owned s + mset (ph_free h)) = mset ps" using inv ns Inr by (simp add: as_inv_def)
      then have pages: "owned s + (?X + mset (ph_free h)) = mset ps" by (simp add: ac_simps)
      have "mset_set (?U a) = add_mset (unat asid) (mset_set (?U (am_asids m)))" using new by simp
      then show ?thesis
        using inv ns Inr new(3) store_live[OF st] pages
        by (auto simp: as_inv_def record_as_create_def Let_def add.assoc)
    qed
  qed
qed

lemma as_exec_inv:
  assumes "as_inv ps m" "pages_ok ps" "as_exec b shoot op m = Some m'"
  shows "as_inv ps m'"
  using assms
  by (cases op) (auto simp: attach_inv set_flags_inv destroy_inv flags_ok_mask
      intro: create_inv map_page_inv[OF _ _ flags_ok_mask])

lemma as_run_inv:
  "as_run b shoot ops m = Some m' \<Longrightarrow> as_inv ps m \<Longrightarrow> pages_ok ps \<Longrightarrow> as_inv ps m'"
  by (induction ops arbitrary: m) (auto split: option.splits dest: as_exec_inv)

lemma manager_new_inv: "ph_live h = 0 \<Longrightarrow> as_inv (ph_free h) (manager_new h)"
  by (simp add: as_inv_def manager_new_def asids_new_wf)

subsection \<open>Properties\<close>

lemma live_pair:
  "i < length xs \<Longrightarrow> j < length xs \<Longrightarrow> i \<noteq> j \<Longrightarrow> xs ! i = Some s \<Longrightarrow> xs ! j = Some t \<Longrightarrow>
   \<exists>M. live xs = add_mset s (add_mset t M)"
proof -
  assume a: "i < length xs" "j < length xs" "i \<noteq> j" "xs ! i = Some s" "xs ! j = Some t"
  have j: "j < length (xs[i := None])" "xs[i := None] ! j = Some t" using a by simp_all
  obtain M where "live (xs[i := None]) = add_mset t M" using live_nth[OF j] by (metis mset_add)
  moreover have "live xs = add_mset s (live (xs[i := None]))"
    using live_update[OF a(1), of None] live_nth[OF a(1,4)] a(4) by simp
  ultimately show ?thesis by auto
qed

lemma inv_pair:
  assumes inv: "as_inv ps m" and ps: "distinct ps" and M: "live (am_spaces m) = add_mset s (add_mset t M)"
  shows "as_asid s \<noteq> as_asid t" "set (pt_owned (as_page_table s)) \<inter> set (pt_owned (as_page_table t)) = {}"
proof -
  let ?A = "mset_set {i. asid_used (am_asids m) i}"
  have "count ?A (unat (as_asid s)) \<le> 1" by (simp add: count_mset_set')
  moreover have "?A = add_mset (unat (as_asid s)) (add_mset (unat (as_asid t)) (image_mset (\<lambda>s. unat (as_asid s)) M))"
    using inv M by (simp add: as_inv_def)
  ultimately show "as_asid s \<noteq> as_asid t" by auto
  have "owned s + owned t + (sum_mset (image_mset owned M) + mset (ph_free (am_heap m))) = mset ps"
    using inv M by (simp add: as_inv_def ac_simps)
  from distinct_mset_add[OF this ps]
  show "set (pt_owned (as_page_table s)) \<inter> set (pt_owned (as_page_table t)) = {}" by blast
qed

lemma as_inv_isolated:
  assumes inv: "as_inv ps m" and ps: "pages_ok ps"
  shows "i < length (am_spaces m) \<Longrightarrow> j < length (am_spaces m) \<Longrightarrow> i \<noteq> j \<Longrightarrow> am_spaces m ! i = Some s \<Longrightarrow>
      am_spaces m ! j = Some t \<Longrightarrow>
      as_asid s \<noteq> as_asid t \<and> set (pt_owned (as_page_table s)) \<inter> set (pt_owned (as_page_table t)) = {}"
    and "Some s \<in> set (am_spaces m) \<Longrightarrow>
      0 < unat (as_asid s) \<and> unat (as_asid s) < MAX_ASIDS \<and>
      set (pt_owned (as_page_table s)) \<inter> set (ph_free (am_heap m)) = {} \<and> pt_verify 3 (as_page_table s) = Some (Inr ())"
proof -
  show "as_asid s \<noteq> as_asid t \<and> set (pt_owned (as_page_table s)) \<inter> set (pt_owned (as_page_table t)) = {}"
    if "i < length (am_spaces m)" "j < length (am_spaces m)" "i \<noteq> j" "am_spaces m ! i = Some s" "am_spaces m ! j = Some t"
  proof -
    note pair = live_pair[OF that]
    obtain M where "live (am_spaces m) = add_mset s (add_mset t M)" using pair by blast
    then show ?thesis using inv_pair[OF inv] ps unfolding pages_ok_def by blast
  qed
  show "0 < unat (as_asid s) \<and> unat (as_asid s) < MAX_ASIDS \<and>
      set (pt_owned (as_page_table s)) \<inter> set (ph_free (am_heap m)) = {} \<and> pt_verify 3 (as_page_table s) = Some (Inr ())"
    if "Some s \<in> set (am_spaces m)"
  proof -
    have s: "s \<in># live (am_spaces m)" using that by (simp add: live_set)
    then have "unat (as_asid s) \<in># mset_set {i. asid_used (am_asids m) i}"
      using inv by (metis as_inv_def imageI set_image_mset)
    then have "asid_used (am_asids m) (unat (as_asid s))" by simp
    moreover have w: "pt_wf (as_page_table s)" using inv s by (simp add: as_inv_def)
    moreover have "set (pt_owned (as_page_table s)) \<inter> set (ph_free (am_heap m)) = {}"
      using space_heap_wf[OF inv ps s] w by (auto simp: heap_wf_def pt_wf_def)
    ultimately show ?thesis by (auto simp: asid_used_def MAX_ASIDS_def verify_ok)
  qed
qed


lemma try_allocate_new: "try_allocate asids_new = (Some 1, asids_new\<lparr>aa_next := 2, aa_bitmap := [3, 0, 0, 0]\<rparr>)"
proof -
  have m: "MAX_ASIDS = Suc 255" by (simp add: MAX_ASIDS_def)
  have "replicate 4 (0 :: u64) = [0, 0, 0, 0]" by (simp add: numeral_eq_Suc)
  then show ?thesis
    unfolding try_allocate_def m try_allocate_loop.simps
    by (simp add: Let_def bitmap_test_def bitmap_set_def WORD_BITS_def asids_new_def BITMAP_WORDS_def)
qed

text \<open>The second allocation.\<close>

definition ex_asids :: asid_allocator where
  "ex_asids = asids_new\<lparr>aa_next := 2, aa_bitmap := [3, 0, 0, 0]\<rparr>"

lemma try_allocate_next: "try_allocate ex_asids = (Some 2, ex_asids\<lparr>aa_next := 3, aa_bitmap := [7, 0, 0, 0]\<rparr>)"
proof -
  have m: "MAX_ASIDS = Suc 255" by (simp add: MAX_ASIDS_def)
  show ?thesis
    unfolding try_allocate_def m try_allocate_loop.simps
    by (simp add: Let_def bitmap_test_def bitmap_set_def WORD_BITS_def ex_asids_def)
qed

definition ex_space :: "u64 \<Rightarrow> u16 \<Rightarrow> address_space" where
  "ex_space a asid = \<lparr>as_page_table = \<lparr>pt_root = a, pt_owned = [a], pt_pages = [a \<mapsto> page_new]\<rparr>, as_asid = asid, as_owners = {}\<rparr>"

lemma ex_creates:
  "\<exists>m. as_run Host Some [ACreate, ACreate] (manager_new ex_heap) = Some m \<and>
     am_spaces m = [Some (ex_space 0x1000 1), Some (ex_space 0x2000 2)]"
  by (simp add: as_create_def asid_allocate_def manager_new_def try_allocate_new address_space_new_def pt_new_def
      alloc_page_def ex_heap_def record_heap_page_alloc_def store_space_def Let_def try_allocate_next
      ex_space_def flip: ex_asids_def)


text \<open>C27: ASID allocation.  The identifier handed out is neither 0 nor in use, and it stays in use until it
  is freed; one that was freed before is handed out again only after the TLB shootdown.  Allocation fails
  only when all 255 identifiers belong to live spaces, and then after a shootdown too.\<close>

theorem asid_allocation:
  assumes "asid_wf a" "asid_allocate shoot a t = Some (r, a', t')"
  shows "asid_wf a' \<and>
    (case r of
       Some asid \<Rightarrow>
         0 < unat asid \<and> unat asid < MAX_ASIDS \<and> \<not> asid_used a (unat asid) \<and>
         (\<forall>i. asid_used a' i \<longleftrightarrow> asid_used a i \<or> i = unat asid) \<and>
         (bitmap_test (aa_quarantined a) (unat asid) \<longrightarrow> shoot t = Some t') \<and> (shoot t = Some t' \<or> t' = t)
     | None \<Rightarrow> shoot t = Some t' \<and> (\<forall>i. 0 < i \<and> i < MAX_ASIDS \<longrightarrow> asid_used a i))"
  using asid_allocate_spec[OF assms(2,1)] by (auto simp: MAX_ASIDS_def split: option.splits)

theorem asid_allocation_witness:
  "asid_allocate Some asids_new tlb_new = Some (Some 1, asids_new\<lparr>aa_next := 2, aa_bitmap := [3, 0, 0, 0]\<rparr>, tlb_new) \<and>
   asid_used (asids_new\<lparr>aa_next := 2, aa_bitmap := [3, 0, 0, 0]\<rparr>) 1"
proof -
  have run: "asid_allocate Some asids_new tlb_new = Some (Some 1, asids_new\<lparr>aa_next := 2, aa_bitmap := [3, 0, 0, 0]\<rparr>, tlb_new)"
    by (simp add: asid_allocate_def try_allocate_new)
  from asid_allocation[OF asids_new_wf(1) run] run show ?thesis by simp
qed


definition ex_image :: linker_symbols where
  "ex_image = \<lparr>sym_text_start = 0x80200000, sym_text_end = 0x80280010, sym_bss_end = 0x80400800,
     sym_stack_bottom = 0x80401000, sym_stack_top = 0x80411000,
     sym_selftest_stack_base = 0x80300000, sym_selftest_stack_top = 0x80304000,
     sym_satp_island_stack_base = 0x80420000, sym_satp_island_stack_top = 0x80422000\<rparr>"

lemma ex_image_windows: "\<forall>w \<in> set (kernel_windows 1 ex_image). window_ok w"
  by (simp add: kernel_windows_def ex_image_def window_ok_def fixed_windows_def align_up_def align_down_def PAGE_SIZE_def Let_def
      checked_add_def usize_max_def KERNEL_PAGE_POOL_BASE_def KERNEL_PAGE_POOL_LEN_def USER_VMO_ARENA_BASE_def USER_VMO_ARENA_LEN_def)


end
