(* ===== verification/Smp.thy ===== *)
theory Smp
  imports Sched
begin

text \<open>
  Per-CPU coordination state of \<open>source/kernel/neuron/src/core/smp/mod.rs\<close> and \<open>runtime.rs\<close>: the
  online mask, reschedule requests with their evidence counters, wake hints, spawn placement, the
  steal rate gate and the slice gate of the preemption tick.  Every atomic is a 64-bit word; the
  executing CPU and the answer of the firmware's IPI call are parameters.
\<close>

unbundle bit_operations_syntax

subsection \<open>State\<close>

record smp =
  sm_online :: u64
  sm_pending :: "u64 list"
  sm_req_accepted :: "u64 list"
  sm_ipi_sent_ok :: "u64 list"
  sm_ssoft_traps :: "u64 list"
  sm_ack :: "u64 list"
  sm_work_steals :: u64
  sm_force_ipi_fail :: u64
  sm_runtime_ready :: bool
  sm_user_dispatches :: "u64 list"
  sm_last_steal_ns :: "u64 list"
  sm_timer_ticks :: "u64 list"
  sm_wake_hint :: "u64 list"
  sm_spawn_rr :: u64
  sm_preempt_ticks :: "u64 list"

definition per_cpu :: "u64 list" where
  "per_cpu = replicate MAX_CPUS 0"

definition smp_boot :: smp where
  "smp_boot =
     \<lparr>sm_online = 0, sm_pending = per_cpu, sm_req_accepted = per_cpu, sm_ipi_sent_ok = per_cpu,
      sm_ssoft_traps = per_cpu, sm_ack = per_cpu, sm_work_steals = 0, sm_force_ipi_fail = 0,
      sm_runtime_ready = False, sm_user_dispatches = per_cpu, sm_last_steal_ns = per_cpu,
      sm_timer_ticks = per_cpu, sm_wake_hint = per_cpu, sm_spawn_rr = 0, sm_preempt_ticks = per_cpu\<rparr>"

record resched_evidence =
  request_accepted_count :: u64
  ipi_send_ok_count :: u64
  ssoft_trap_count :: u64
  ack_count :: u64

datatype resched_trap_outcome = Acked | NoPendingRequest

definition count_up :: "usize \<Rightarrow> u64 list \<Rightarrow> u64 list" where
  "count_up i xs = xs[i := xs ! i + 1]"

subsection \<open>CPU identity\<close>

definition resolve_cpu_id :: "usize option \<Rightarrow> usize option \<Rightarrow> usize" where
  "resolve_cpu_id tp_hint stack_cpu =
     (case (tp_hint, stack_cpu) of
        (_, Some st) \<Rightarrow> st
      | (Some tp, None) \<Rightarrow> if tp = 0 then tp else 0
      | _ \<Rightarrow> 0)"

definition cpu_is_online :: "smp \<Rightarrow> usize \<Rightarrow> bool" where
  "cpu_is_online s cpu \<longleftrightarrow> sm_online s AND push_bit cpu 1 \<noteq> 0"

definition mark_cpu_online :: "usize \<Rightarrow> smp \<Rightarrow> smp" where
  "mark_cpu_online cpu s =
     (if MAX_CPUS \<le> cpu then s else s\<lparr>sm_online := sm_online s OR push_bit cpu 1\<rparr>)"

subsection \<open>Reschedule requests\<close>

definition set_wake_hint :: "usize \<Rightarrow> smp \<Rightarrow> smp" where
  "set_wake_hint cpu s = (if cpu < MAX_CPUS then s\<lparr>sm_wake_hint := (sm_wake_hint s)[cpu := 1]\<rparr> else s)"

definition take_wake_hint :: "usize \<Rightarrow> smp \<Rightarrow> bool \<times> smp" where
  "take_wake_hint cpu s =
     (if cpu < MAX_CPUS then (sm_wake_hint s ! cpu \<noteq> 0, s\<lparr>sm_wake_hint := (sm_wake_hint s)[cpu := 0]\<rparr>)
      else (False, s))"

definition request_resched :: "bool \<Rightarrow> usize \<Rightarrow> smp \<Rightarrow> bool \<times> smp" where
  "request_resched ipi_ok target s =
     (if MAX_CPUS \<le> target \<or> \<not> cpu_is_online s target then (False, s)
      else
        (let s1 = set_wake_hint target
                    (s\<lparr>sm_req_accepted := count_up target (sm_req_accepted s),
                       sm_pending := (sm_pending s)[target := 1]\<rparr>)
         in (True, if sm_force_ipi_fail s1 = 0 \<and> ipi_ok
                   then s1\<lparr>sm_ipi_sent_ok := count_up target (sm_ipi_sent_ok s1)\<rparr> else s1)))"

definition take_resched :: "usize \<Rightarrow> smp \<Rightarrow> bool \<times> smp" where
  "take_resched cpu s =
     (if MAX_CPUS \<le> cpu then (False, s)
      else (sm_pending s ! cpu \<noteq> 0, s\<lparr>sm_pending := (sm_pending s)[cpu := 0]\<rparr>))"

definition acknowledge_resched :: "usize \<Rightarrow> smp \<Rightarrow> smp" where
  "acknowledge_resched cpu s = (if MAX_CPUS \<le> cpu then s else s\<lparr>sm_ack := count_up cpu (sm_ack s)\<rparr>)"

definition record_ssoft_trap :: "usize \<Rightarrow> smp \<Rightarrow> smp" where
  "record_ssoft_trap cpu s =
     (if MAX_CPUS \<le> cpu then s else s\<lparr>sm_ssoft_traps := count_up cpu (sm_ssoft_traps s)\<rparr>)"

definition handle_ssoft_resched :: "usize \<Rightarrow> smp \<Rightarrow> resched_trap_outcome \<times> smp" where
  "handle_ssoft_resched cpu s =
     (case take_resched cpu (record_ssoft_trap cpu s) of
        (True, s1) \<Rightarrow> (Acked, acknowledge_resched cpu s1)
      | (False, s1) \<Rightarrow> (NoPendingRequest, s1))"

definition clear_resched_pending :: "usize \<Rightarrow> smp \<Rightarrow> smp" where
  "clear_resched_pending cpu s =
     (if MAX_CPUS \<le> cpu then s else s\<lparr>sm_pending := (sm_pending s)[cpu := 0]\<rparr>)"

definition resched_evidence_of :: "smp \<Rightarrow> usize \<Rightarrow> resched_evidence" where
  "resched_evidence_of s cpu =
     (if MAX_CPUS \<le> cpu
      then \<lparr>request_accepted_count = 0, ipi_send_ok_count = 0, ssoft_trap_count = 0, ack_count = 0\<rparr>
      else \<lparr>request_accepted_count = sm_req_accepted s ! cpu, ipi_send_ok_count = sm_ipi_sent_ok s ! cpu,
            ssoft_trap_count = sm_ssoft_traps s ! cpu, ack_count = sm_ack s ! cpu\<rparr>)"

definition selftest_force_ipi_send_failure :: "bool \<Rightarrow> smp \<Rightarrow> smp" where
  "selftest_force_ipi_send_failure enable s = s\<lparr>sm_force_ipi_fail := (if enable then 1 else 0)\<rparr>"

definition record_work_steal :: "smp \<Rightarrow> smp" where
  "record_work_steal s = s\<lparr>sm_work_steals := sm_work_steals s + 1\<rparr>"

definition reset_selftest_counters :: "smp \<Rightarrow> smp" where
  "reset_selftest_counters s =
     s\<lparr>sm_pending := per_cpu, sm_req_accepted := per_cpu, sm_ipi_sent_ok := per_cpu,
       sm_ssoft_traps := per_cpu, sm_ack := per_cpu, sm_force_ipi_fail := 0, sm_work_steals := 0\<rparr>"

subsection \<open>Runtime flags\<close>

definition mark_runtime_ready :: "smp \<Rightarrow> smp" where
  "mark_runtime_ready s = s\<lparr>sm_runtime_ready := True\<rparr>"

definition record_user_dispatch :: "usize \<Rightarrow> smp \<Rightarrow> smp" where
  "record_user_dispatch cpu s =
     (if cpu < MAX_CPUS then s\<lparr>sm_user_dispatches := count_up cpu (sm_user_dispatches s)\<rparr> else s)"

definition record_timer_tick :: "usize \<Rightarrow> smp \<Rightarrow> u64 \<times> smp" where
  "record_timer_tick cpu s =
     (if cpu < MAX_CPUS then (sm_timer_ticks s ! cpu, s\<lparr>sm_timer_ticks := count_up cpu (sm_timer_ticks s)\<rparr>)
      else (0, s))"

definition count_ones :: "u64 \<Rightarrow> nat" where
  "count_ones m = length (filter (bit m) [0..<64])"

text \<open>The scan of \<open>assign_spawn_cpu\<close>: the \<open>k\<close>-th online CPU of the list.\<close>

fun nth_online :: "u64 \<Rightarrow> nat \<Rightarrow> usize list \<Rightarrow> usize" where
  "nth_online online k [] = 0"
| "nth_online online k (idx # rest) =
     (if online AND push_bit idx 1 \<noteq> 0 then (if k = 0 then idx else nth_online online (k - 1) rest)
      else nth_online online k rest)"

definition assign_spawn_cpu :: "usize \<Rightarrow> smp \<Rightarrow> usize \<times> smp" where
  "assign_spawn_cpu me s =
     (if \<not> sm_runtime_ready s then (me, s)
      else
        (let online = sm_online s; count = count_ones online in
         if count \<le> 1 then (me, s)
         else (nth_online online (unat (sm_spawn_rr s) mod count) [0..<MAX_CPUS],
               s\<lparr>sm_spawn_rr := sm_spawn_rr s + 1\<rparr>)))"

definition steal_rate_gate :: "usize \<Rightarrow> u64 \<Rightarrow> u64 \<Rightarrow> smp \<Rightarrow> bool \<times> smp" where
  "steal_rate_gate cpu now_ns min_interval_ns s =
     (if MAX_CPUS \<le> cpu then (False, s)
      else
        (let last = sm_last_steal_ns s ! cpu in
         if (if last \<le> now_ns then now_ns - last else 0) < min_interval_ns then (False, s)
         else (True, s\<lparr>sm_last_steal_ns := (sm_last_steal_ns s)[cpu := now_ns]\<rparr>)))"

definition preempt_tick_and_rotate :: "usize \<Rightarrow> usize \<Rightarrow> smp \<Rightarrow> bool \<times> smp" where
  "preempt_tick_and_rotate cpu slice_ticks s =
     (let ticks = sm_preempt_ticks s ! cpu + 1 in
      (slice_ticks \<le> 1 \<or> unat ticks mod slice_ticks = 0,
       s\<lparr>sm_preempt_ticks := (sm_preempt_ticks s)[cpu := ticks]\<rparr>))"

subsection \<open>Wake hints\<close>

text \<open>Everything the harts do to this state, in any order.\<close>

datatype smp_op =
    SmOnline usize
  | SmRequest bool usize
  | SmTakeHint usize
  | SmSsoft usize
  | SmClear usize
  | SmReset
  | SmReady
  | SmTick usize
  | SmDispatch usize
  | SmSpawn usize
  | SmSteal usize u64 u64
  | SmPreempt usize usize

fun smp_exec :: "smp_op \<Rightarrow> smp \<Rightarrow> smp" where
  "smp_exec (SmOnline c) s = mark_cpu_online c s"
| "smp_exec (SmRequest ok c) s = snd (request_resched ok c s)"
| "smp_exec (SmTakeHint c) s = snd (take_wake_hint c s)"
| "smp_exec (SmSsoft c) s = snd (handle_ssoft_resched c s)"
| "smp_exec (SmClear c) s = clear_resched_pending c s"
| "smp_exec SmReset s = reset_selftest_counters s"
| "smp_exec SmReady s = mark_runtime_ready s"
| "smp_exec (SmTick c) s = snd (record_timer_tick c s)"
| "smp_exec (SmDispatch c) s = record_user_dispatch c s"
| "smp_exec (SmSpawn c) s = snd (assign_spawn_cpu c s)"
| "smp_exec (SmSteal c n i) s = snd (steal_rate_gate c n i s)"
| "smp_exec (SmPreempt c k) s = snd (preempt_tick_and_rotate c k s)"

definition smp_run :: "smp_op list \<Rightarrow> smp \<Rightarrow> smp" where
  "smp_run ops s = fold smp_exec ops s"

definition smp_wf :: "smp \<Rightarrow> bool" where
  "smp_wf s \<longleftrightarrow> length (sm_wake_hint s) = MAX_CPUS \<and> length (sm_pending s) = MAX_CPUS"

lemmas smp_defs = mark_cpu_online_def request_resched_def take_wake_hint_def handle_ssoft_resched_def take_resched_def
  record_ssoft_trap_def acknowledge_resched_def clear_resched_pending_def reset_selftest_counters_def mark_runtime_ready_def
  record_timer_tick_def record_user_dispatch_def assign_spawn_cpu_def steal_rate_gate_def preempt_tick_and_rotate_def
  set_wake_hint_def count_up_def per_cpu_def Let_def

lemma smp_exec_wf: "smp_wf s \<Longrightarrow> smp_wf (smp_exec op s)"
  by (cases op) (auto simp: smp_wf_def smp_defs split: bool.splits)

lemma smp_exec_hint:
  assumes "smp_wf s" "c < MAX_CPUS" "op \<noteq> SmTakeHint c" "sm_wake_hint s ! c \<noteq> 0"
  shows "sm_wake_hint (smp_exec op s) ! c \<noteq> 0"
  using assms by (cases op) (auto simp: smp_wf_def smp_defs nth_list_update split: bool.splits)

lemma smp_run_hint:
  "smp_wf s \<Longrightarrow> c < MAX_CPUS \<Longrightarrow> SmTakeHint c \<notin> set ops \<Longrightarrow> sm_wake_hint s ! c \<noteq> 0 \<Longrightarrow>
   smp_wf (smp_run ops s) \<and> sm_wake_hint (smp_run ops s) ! c \<noteq> 0"
  by (induction ops arbitrary: s) (auto simp: smp_run_def smp_exec_wf smp_exec_hint)

lemma smp_run_wf: "smp_wf s \<Longrightarrow> smp_wf (smp_run ops s)"
  by (induction ops arbitrary: s) (auto simp: smp_run_def smp_exec_wf)

lemma smp_boot_wf: "smp_wf smp_boot"
  by (simp add: smp_wf_def smp_boot_def per_cpu_def)

lemma request_sets_hint:
  assumes "request_resched ok c s = (True, s')" "smp_wf s"
  shows "c < MAX_CPUS" "sm_wake_hint s' ! c \<noteq> 0" "smp_wf s'"
  using assms by (auto simp: smp_wf_def smp_defs split: if_splits)

text \<open>C26: No wake-up is lost on the way to a parked hart.  Once a reschedule request for a CPU has been
  accepted, that CPU finds its wake hint set the next time it looks, whatever the harts did in between:
  soft-interrupt acknowledgements that consume the pending flag, further requests, resets, dispatches.\<close>

theorem wake_hint_not_lost:
  assumes "request_resched ok c (smp_run before smp_boot) = (True, s)" "SmTakeHint c \<notin> set between"
  shows "fst (take_wake_hint c (smp_run between s))"
  using request_sets_hint[OF assms(1) smp_run_wf[OF smp_boot_wf]] smp_run_hint[OF _ _ assms(2)]
  by (simp add: take_wake_hint_def)

theorem wake_hint_not_lost_witness:
  "fst (take_wake_hint 1 (smp_run [SmSsoft 1, SmReset]
     (snd (request_resched True 1 (smp_run [SmOnline 0, SmOnline 1] smp_boot)))))"
proof -
  have "request_resched True 1 (smp_run [SmOnline 0, SmOnline 1] smp_boot) =
      (True, snd (request_resched True 1 (smp_run [SmOnline 0, SmOnline 1] smp_boot)))"
    by (simp add: smp_run_def smp_defs smp_boot_def cpu_is_online_def MAX_CPUS_def)
  from wake_hint_not_lost[OF this, of "[SmSsoft 1, SmReset]"] show ?thesis by simp
qed

end
