(* ===== verification/Task.thy ===== *)
theory Task
  imports Ipc Waitset Fence Ktimer Smp Addr_Space
begin

text \<open>
  The task table of \<open>source/kernel/neuron/src/task/mod.rs\<close> with \<open>task/stack_pool.rs\<close>,
  \<open>image_allocs.rs\<close> and \<open>syscall/api/task_image.rs\<close>.  The kernel state bundles everything the system
  calls work on, as \<open>Context\<close> of \<open>syscall/api/mod.rs\<close> does; the executing CPU, the firmware's answer to
  an IPI, the build, the TLB shootdown and the time are the environment.  Logging, the trap domain (one
  syscall table) and the guard-page metadata of fault messages are left out.
\<close>

unbundle bit_operations_syntax

subsection \<open>Data\<close>

record trap_frame =
  tf_x :: "u64 list"
  tf_sepc :: u64
  tf_sstatus :: u64
  tf_scause :: u64
  tf_stval :: u64

definition frame_default :: trap_frame where
  "frame_default = \<lparr>tf_x = replicate 32 0, tf_sepc = 0, tf_sstatus = 0, tf_scause = 0, tf_stval = 0\<rparr>"

datatype task_state = Running | Suspended | Zombie

datatype block_reason =
    BrIpcRecv endpoint_id u64
  | BrIpcSend endpoint_id u64
  | BrWaitChild "pid option"
  | BrWaitset u32 u64
  | BrFence u32 u64 u64

datatype wake_outcome = TaskNotFound | TaskNotBlocked | Woken | WokenNoopSelftest | EnqueueRejected

datatype resume_outcome = ResumeNotFound | NotSuspended | Resumed | ResumeRejected

datatype wait_error = NoChildren | NoSuchPid | InvalidTarget | WouldBlock

datatype spawn_fail_reason =
    FailUnknown | FailOutOfMemory | FailCapTableFull | FailEndpointQuota | FailMapFailed | FailInvalidPayload
  | FailDeniedByPolicy

definition fail_reason_as_u8 :: "spawn_fail_reason \<Rightarrow> u8" where
  "fail_reason_as_u8 r =
     (case r of FailUnknown \<Rightarrow> 0 | FailOutOfMemory \<Rightarrow> 1 | FailCapTableFull \<Rightarrow> 2 | FailEndpointQuota \<Rightarrow> 3
      | FailMapFailed \<Rightarrow> 4 | FailInvalidPayload \<Rightarrow> 5 | FailDeniedByPolicy \<Rightarrow> 6)"

datatype spawn_error =
    InvalidParent
  | InvalidEntryPoint
  | InvalidStackPointer
  | BootstrapNotEndpoint
  | SpCapability cap_error
  | SpIpc ipc_error
  | SpAddressSpace as_error
  | StackExhausted
  | SpRunQueueFull

definition spawn_fail_reason_of :: "spawn_error \<Rightarrow> spawn_fail_reason" where
  "spawn_fail_reason_of e =
     (case e of
        SpCapability NoSpace \<Rightarrow> FailCapTableFull
      | SpCapability _ \<Rightarrow> FailInvalidPayload
      | SpIpc IpcNoSpace \<Rightarrow> FailEndpointQuota
      | SpIpc _ \<Rightarrow> FailInvalidPayload
      | SpAddressSpace AsidExhausted \<Rightarrow> FailMapFailed
      | SpAddressSpace (Mapping _) \<Rightarrow> FailMapFailed
      | SpAddressSpace _ \<Rightarrow> FailInvalidPayload
      | StackExhausted \<Rightarrow> FailOutOfMemory
      | SpRunQueueFull \<Rightarrow> FailOutOfMemory
      | _ \<Rightarrow> FailInvalidPayload)"

datatype transfer_error = TrInvalidParent | TrInvalidChild | TrCapability cap_error

datatype transfer_mode = CopyAllocate | CopyToSlot usize

subsection \<open>Process images\<close>

definition MAX_RANGES :: usize where "MAX_RANGES = 12"

text \<open>The recorded prefix of the range array.\<close>

record image_allocs =
  ia_ranges :: "(usize \<times> usize) list"
  ia_untracked :: usize

definition image_new :: image_allocs where
  "image_new = \<lparr>ia_ranges = [], ia_untracked = 0\<rparr>"

definition image_push :: "usize \<Rightarrow> usize \<Rightarrow> image_allocs \<Rightarrow> image_allocs" where
  "image_push base len a =
     (if len = 0 then a
      else if length (ia_ranges a) = MAX_RANGES then a\<lparr>ia_untracked := ia_untracked a + 1\<rparr>
      else a\<lparr>ia_ranges := ia_ranges a @ [(base, len)]\<rparr>)"

subsection \<open>Tasks and the kernel state\<close>

record task =
  t_pid :: pid
  t_parent :: "pid option"
  t_state :: task_state
  t_exit_code :: "32 word option"
  t_frame :: trap_frame
  t_caps :: cap_table
  t_qos :: qos_class
  t_blocked :: bool
  t_block_reason :: "block_reason option"
  t_address_space :: "u32 option"
  t_service_id :: u64
  t_home_cpu :: usize
  t_affinity :: u8
  t_shares :: u16
  t_last_fail :: "spawn_fail_reason option"
  t_bootstrap_slot :: "usize option"
  t_children :: "pid list"
  t_image :: image_allocs

record task_table =
  tt_tasks :: "task list"
  tt_current :: "pid list"

text \<open>\<open>k_mem\<close> is physical memory; user memory is reached through the page table of the calling task.
  \<open>k_armed\<close> is the per-hart shadow of the armed wake-up deadline, \<open>k_irq\<close> the interrupt bindings
  (0 is unbound), \<open>k_ecall_sepc\<close> and \<open>k_ecall_same\<close> the counters of the ecall-storm guard.\<close>

record kernel =
  k_sched :: scheduler
  k_tt :: task_table
  k_router :: router
  k_spaces :: as_manager
  k_timers :: hart_timers
  k_waitsets :: waitset_table
  k_fences :: fence_table
  k_smp :: smp
  k_stack_cursor :: usize
  k_pool :: vmo_pool
  k_mem :: memory
  k_armed :: "u64 list"
  k_irq :: "u32 list"
  k_last_message :: "message option"
  k_ecall_sepc :: u64
  k_ecall_same :: usize

record env =
  ev_cpu :: usize
  ev_ipi :: "usize \<Rightarrow> bool"
  ev_build :: build
  ev_shoot :: "tlb \<Rightarrow> tlb option"
  ev_now :: u64
  ev_fold_verdicts :: bool
  ev_display_mode :: u32

definition KERNEL_PID :: pid where "KERNEL_PID = 0"
definition ALL_CPUS_MASK :: u8 where "ALL_CPUS_MASK = 2 ^ MAX_CPUS - 1"
definition DEFAULT_SHARES :: u16 where "DEFAULT_SHARES = 100"

definition SSTATUS_SPIE :: u64 where "SSTATUS_SPIE = 2 ^ 5"
definition SSTATUS_SPP :: u64 where "SSTATUS_SPP = 2 ^ 8"
definition SSTATUS_SUM :: u64 where "SSTATUS_SUM = 2 ^ 18"

definition task_bootstrap :: task where
  "task_bootstrap =
     \<lparr>t_pid = KERNEL_PID, t_parent = None, t_state = Running, t_exit_code = None,
      t_frame = frame_default\<lparr>tf_sstatus := SSTATUS_SPP OR SSTATUS_SPIE OR SSTATUS_SUM\<rparr>,
      t_caps = cap_new, t_qos = PerfBurst, t_blocked = False, t_block_reason = None, t_address_space = None,
      t_service_id = 0, t_home_cpu = 0, t_affinity = ALL_CPUS_MASK, t_shares = DEFAULT_SHARES,
      t_last_fail = None, t_bootstrap_slot = None, t_children = [], t_image = image_new\<rparr>"

definition task_table_new :: task_table where
  "task_table_new = \<lparr>tt_tasks = [task_bootstrap], tt_current = replicate MAX_CPUS KERNEL_PID\<rparr>"

subsection \<open>Access\<close>

definition task_of :: "kernel \<Rightarrow> pid \<Rightarrow> task option" where
  "task_of k p = vec_get (tt_tasks (k_tt k)) (unat p)"

definition upd_tt :: "(task_table \<Rightarrow> task_table) \<Rightarrow> kernel \<Rightarrow> kernel" where
  "upd_tt f k = k\<lparr>k_tt := f (k_tt k)\<rparr>"

text \<open>Writing through \<open>task_mut(pid)\<close>; nothing happens when there is no such task.\<close>

definition upd_task :: "pid \<Rightarrow> (task \<Rightarrow> task) \<Rightarrow> kernel \<Rightarrow> kernel" where
  "upd_task p f k =
     (case task_of k p of
        None \<Rightarrow> k
      | Some t \<Rightarrow> upd_tt (\<lambda>tt. tt\<lparr>tt_tasks := (tt_tasks tt)[unat p := f t]\<rparr>) k)"

definition current_pid :: "env \<Rightarrow> kernel \<Rightarrow> pid" where
  "current_pid ev k = tt_current (k_tt k) ! current_cpu_index (ev_cpu ev)"

definition set_current :: "env \<Rightarrow> pid \<Rightarrow> kernel \<Rightarrow> kernel" where
  "set_current ev p =
     upd_tt (\<lambda>tt. tt\<lparr>tt_current := (tt_current tt)[current_cpu_index (ev_cpu ev) := p]\<rparr>)"

text \<open>\<open>current_task\<close>; indexing out of range would panic, which the table's invariant excludes.\<close>

definition current_task :: "env \<Rightarrow> kernel \<Rightarrow> task" where
  "current_task ev k = tt_tasks (k_tt k) ! unat (current_pid ev k)"

definition set_blocked :: "block_reason \<Rightarrow> task \<Rightarrow> task" where
  "set_blocked r t = t\<lparr>t_blocked := True, t_block_reason := Some r\<rparr>"

definition clear_blocked :: "task \<Rightarrow> task" where
  "clear_blocked t = t\<lparr>t_blocked := False, t_block_reason := None\<rparr>"

definition affinity_allows :: "task \<Rightarrow> usize \<Rightarrow> bool" where
  "affinity_allows t cpu \<longleftrightarrow> t_affinity t AND push_bit cpu 1 \<noteq> 0"

definition set_home_cpu :: "pid \<Rightarrow> usize \<Rightarrow> kernel \<Rightarrow> kernel" where
  "set_home_cpu p cpu = upd_task p (\<lambda>t. t\<lparr>t_home_cpu := cpu\<rparr>)"

definition set_last_spawn_fail_reason :: "pid \<Rightarrow> spawn_fail_reason \<Rightarrow> kernel \<Rightarrow> kernel" where
  "set_last_spawn_fail_reason p r = upd_task p (\<lambda>t. t\<lparr>t_last_fail := Some r\<rparr>)"

definition take_last_spawn_fail_reason :: "pid \<Rightarrow> kernel \<Rightarrow> spawn_fail_reason option \<times> kernel" where
  "take_last_spawn_fail_reason p k =
     (case task_of k p of
        None \<Rightarrow> (None, k)
      | Some t \<Rightarrow> (t_last_fail t, upd_task p (\<lambda>t. t\<lparr>t_last_fail := None\<rparr>) k))"

definition set_image_allocs :: "pid \<Rightarrow> image_allocs \<Rightarrow> kernel \<Rightarrow> kernel" where
  "set_image_allocs p a = upd_task p (\<lambda>t. t\<lparr>t_image := a\<rparr>)"

subsection \<open>Affinity\<close>

definition validate_affinity_mask :: "u64 \<Rightarrow> u64 \<Rightarrow> unit + u8" where
  "validate_affinity_mask m online =
     (if m = 0 \<or> ucast ALL_CPUS_MASK < m then Err ()
      else if m AND online = 0 then Err () else Ok (ucast m))"

definition clamp_home_to_affinity :: "u8 \<Rightarrow> usize \<Rightarrow> u64 \<Rightarrow> usize" where
  "clamp_home_to_affinity m home online =
     (if m AND push_bit home 1 \<noteq> 0 \<and> online AND push_bit home 1 \<noteq> 0 then home
      else case List.find (\<lambda>idx. m AND push_bit idx 1 \<noteq> 0 \<and> online AND push_bit idx 1 \<noteq> 0) [0..<MAX_CPUS] of
        Some idx \<Rightarrow> idx
      | None \<Rightarrow> 0)"

subsection \<open>Blocking and waking\<close>

definition block_current :: "env \<Rightarrow> block_reason \<Rightarrow> kernel \<Rightarrow> kernel" where
  "block_current ev r k =
     (let p = current_pid ev k;
          k1 = upd_task p (set_blocked r) k
      in k1\<lparr>k_sched := finish_current (ev_cpu ev) (purge p (k_sched k1))\<rparr>)"

text \<open>The IPI that kicks another CPU.\<close>

definition kick :: "env \<Rightarrow> usize \<Rightarrow> kernel \<Rightarrow> kernel" where
  "kick ev cpu k =
     (if cpu \<noteq> ev_cpu ev then k\<lparr>k_smp := snd (request_resched (ev_ipi ev cpu) cpu (k_smp k))\<rparr> else k)"

definition home_of :: "task \<Rightarrow> kernel \<Rightarrow> usize" where
  "home_of t k = clamp_home_to_affinity (t_affinity t) (t_home_cpu t) (sm_online (k_smp k))"

definition wake :: "env \<Rightarrow> pid \<Rightarrow> kernel \<Rightarrow> wake_outcome \<times> kernel" where
  "wake ev p k =
     (case task_of k p of
        None \<Rightarrow> (TaskNotFound, k)
      | Some t \<Rightarrow>
          if \<not> t_blocked t then (TaskNotBlocked, k)
          else if t_address_space t = None \<and> tf_sepc (t_frame t) = 0
          then (WokenNoopSelftest, upd_task p clear_blocked k)
          else
            (case enqueue_on_cpu (home_of t k) p (t_qos t) (purge p (k_sched k)) of
               (Rejected _, s) \<Rightarrow> (EnqueueRejected, k\<lparr>k_sched := s\<rparr>)
             | (Enqueued, s) \<Rightarrow>
                 (Woken, kick ev (home_of t k) (upd_task p clear_blocked (k\<lparr>k_sched := s\<rparr>)))))"

text \<open>A list of wake-ups whose outcomes are only logged.\<close>

definition wake_all :: "env \<Rightarrow> pid list \<Rightarrow> kernel \<Rightarrow> kernel" where
  "wake_all ev ps k = fold (\<lambda>p. snd \<circ> wake ev p) ps k"

definition resume_task :: "env \<Rightarrow> pid \<Rightarrow> kernel \<Rightarrow> resume_outcome \<times> kernel" where
  "resume_task ev p k =
     (case task_of k p of
        None \<Rightarrow> (ResumeNotFound, k)
      | Some t \<Rightarrow>
          if t_state t \<noteq> Suspended then (NotSuspended, k)
          else
            (case enqueue_on_cpu (home_of t k) p (t_qos t) (k_sched k) of
               (Enqueued, s) \<Rightarrow>
                 (Resumed, kick ev (home_of t k) (upd_task p (\<lambda>t. t\<lparr>t_state := Running\<rparr>) (k\<lparr>k_sched := s\<rparr>)))
             | (Rejected _, s) \<Rightarrow> (ResumeRejected, k\<lparr>k_sched := s\<rparr>)))"

definition wake_parent_waiter :: "env \<Rightarrow> pid \<Rightarrow> kernel \<Rightarrow> kernel" where
  "wake_parent_waiter ev child k =
     (case task_of k child of
        None \<Rightarrow> k
      | Some c \<Rightarrow>
          (case t_parent c of
             None \<Rightarrow> k
           | Some parent \<Rightarrow>
               (case task_of k parent of
                  None \<Rightarrow> k
                | Some pt \<Rightarrow>
                    if \<not> t_blocked pt then k
                    else (case t_block_reason pt of
                            Some (BrWaitChild target) \<Rightarrow>
                              if target = None \<or> target = Some child then snd (wake ev parent k) else k
                          | _ \<Rightarrow> k))))"

subsection \<open>Spawning\<close>

definition USER_STACK_TOP :: usize where "USER_STACK_TOP = 0x40000000"
definition STACK_PAGES :: usize where "STACK_PAGES = 4"
definition STACK_POOL_BASE :: usize where "STACK_POOL_BASE = 0x80000000 + 0x100000"
definition STACK_POOL_LIMIT :: usize where "STACK_POOL_LIMIT = 0x80000000 + 0x200000"

definition stack_alloc :: "usize \<Rightarrow> usize \<Rightarrow> usize option \<times> usize" where
  "stack_alloc pages cursor0 =
     (let c1 = (if cursor0 = 0 then STACK_POOL_LIMIT else cursor0);
          cursor = (if c1 < STACK_POOL_BASE \<or> STACK_POOL_LIMIT < c1 then STACK_POOL_LIMIT else c1)
      in case checked_mul pages PAGE_SIZE of
           None \<Rightarrow> (None, cursor)
         | Some bytes \<Rightarrow>
             if cursor < bytes then (None, cursor)
             else if cursor - bytes < STACK_POOL_BASE then (None, cursor)
             else (Some (cursor - bytes), cursor - bytes))"

definition RW_USER :: u64 where "RW_USER = PF_VALID OR PF_READ OR PF_WRITE OR PF_USER"

text \<open>The mapping loop; the first failure ends it.\<close>

fun map_stack_pages :: "u32 \<Rightarrow> usize \<Rightarrow> nat list \<Rightarrow> as_manager \<Rightarrow> ((as_error + unit) \<times> as_manager) option" where
  "map_stack_pages handle phys [] m = Some (Ok (), m)"
| "map_stack_pages handle phys (page # rest) m =
     (let guard_bottom = USER_STACK_TOP - (STACK_PAGES + 1) * PAGE_SIZE in
      case as_map_page handle (of_nat (guard_bottom + PAGE_SIZE + page * PAGE_SIZE)) (of_nat (phys + page * PAGE_SIZE))
             RW_USER m of
        None \<Rightarrow> None
      | Some (Inl e, m1) \<Rightarrow> Some (Err e, m1)
      | Some (Inr _, m1) \<Rightarrow> map_stack_pages handle phys rest m1)"

definition allocate_guarded_stack :: "u32 \<Rightarrow> kernel \<Rightarrow> ((spawn_error + u64) \<times> kernel) option" where
  "allocate_guarded_stack handle k =
     (case stack_alloc STACK_PAGES (k_stack_cursor k) of
        (None, c) \<Rightarrow> Some (Err StackExhausted, k\<lparr>k_stack_cursor := c\<rparr>)
      | (Some phys, c) \<Rightarrow>
          (let k1 = k\<lparr>k_stack_cursor := c, k_mem := write_zero phys (STACK_PAGES * PAGE_SIZE) (k_mem k)\<rparr> in
           case map_stack_pages handle phys [0..<STACK_PAGES] (k_spaces k1) of
             None \<Rightarrow> None
           | Some (Inl e, m) \<Rightarrow> Some (Err (SpAddressSpace e), k1\<lparr>k_spaces := m\<rparr>)
           | Some (Inr _, m) \<Rightarrow> Some (Ok (of_nat USER_STACK_TOP), k1\<lparr>k_spaces := m\<rparr>)))"

definition ensure_entry_in_kernel_text :: "build \<Rightarrow> u64 \<Rightarrow> u32 option \<Rightarrow> spawn_error + unit" where
  "ensure_entry_in_kernel_text b entry address_space =
     (if address_space \<noteq> None then Ok ()
      else case b of
        Host \<Rightarrow> Ok ()
      | Target _ ls \<Rightarrow>
          if sym_text_end ls \<le> sym_text_start ls \<or> unat entry < sym_text_start ls \<or> sym_text_end ls \<le> unat entry
          then Err InvalidEntryPoint else Ok ())"

text \<open>The capability table of a new child: the bootstrap endpoint in its slot and, for the children of
  the bootstrap task, the endpoint factory in slot 1.\<close>

definition child_caps_for :: "pid \<Rightarrow> u32 option \<Rightarrow> usize \<Rightarrow> cap_table \<Rightarrow> spawn_error + cap_table" where
  "child_caps_for parent address_space slot parent_caps =
     (case cap_get parent_caps slot of
        Inl e \<Rightarrow> Err (SpCapability e)
      | Inr bootstrap_cap \<Rightarrow>
          (case kind bootstrap_cap of
             Endpoint _ \<Rightarrow>
               (case cap_set slot bootstrap_cap cap_new of
                  (Inl e, _) \<Rightarrow> Err (SpCapability e)
                | (Inr _, caps) \<Rightarrow>
                    Ok (if parent = KERNEL_PID \<and> address_space \<noteq> None then
                          (case cap_get parent_caps 2 of
                             Inl _ \<Rightarrow> caps
                           | Inr f \<Rightarrow>
                               if kind f = EndpointFactory \<and> flags_contain (rights f) MANAGE
                               then snd (cap_set 1 \<lparr>kind = EndpointFactory, rights = MANAGE\<rparr> caps) else caps)
                        else caps))
           | _ \<Rightarrow> Err BootstrapNotEndpoint))"

definition spawn_frame :: "bool \<Rightarrow> u64 \<Rightarrow> u64 \<Rightarrow> u64 \<Rightarrow> trap_frame" where
  "spawn_frame user entry sp gp =
     frame_default\<lparr>tf_sepc := entry, tf_x := (replicate 32 0)[2 := sp, 1 := 0, 3 := gp],
       tf_sstatus := (if user then SSTATUS_SPIE OR SSTATUS_SUM else SSTATUS_SPP OR SSTATUS_SPIE OR SSTATUS_SUM)\<rparr>"

text \<open>The address space and stack of the child.\<close>

definition spawn_space :: "env \<Rightarrow> u64 option \<Rightarrow> u32 option \<Rightarrow> kernel \<Rightarrow> ((spawn_error + u32 \<times> u64) \<times> kernel) option" where
  "spawn_space ev stack_sp address_space k =
     (case address_space of
        Some handle \<Rightarrow>
          Some (case stack_sp of None \<Rightarrow> Err InvalidStackPointer | Some sp \<Rightarrow> Ok (handle, sp), k)
      | None \<Rightarrow>
          if stack_sp \<noteq> None then Some (Err InvalidStackPointer, k)
          else
            (case as_create (ev_build ev) (ev_shoot ev) (k_spaces k) of
               None \<Rightarrow> None
             | Some (Inl e, m) \<Rightarrow> Some (Err (SpAddressSpace e), k\<lparr>k_spaces := m\<rparr>)
             | Some (Inr handle, m) \<Rightarrow>
                 (case allocate_guarded_stack handle (k\<lparr>k_spaces := m\<rparr>) of
                    None \<Rightarrow> None
                  | Some (Inl e, k1) \<Rightarrow> Some (Err e, k1)
                  | Some (Inr sp, k1) \<Rightarrow> Some (Ok (handle, sp), k1))))"

text \<open>The new task starts suspended, so the enqueue branch at the end of \<open>spawn_inner\<close> is not taken.\<close>

definition spawn ::
  "env \<Rightarrow> pid \<Rightarrow> u64 \<Rightarrow> u64 option \<Rightarrow> u32 option \<Rightarrow> u64 \<Rightarrow> usize \<Rightarrow> kernel \<Rightarrow> ((spawn_error + pid) \<times> kernel) option" where
  "spawn ev parent entry stack_sp address_space gp slot k =
     (case task_of k parent of
        None \<Rightarrow> Some (Err InvalidParent, k)
      | Some pt \<Rightarrow>
          (case ensure_entry_in_kernel_text (ev_build ev) entry address_space of
             Inl e \<Rightarrow> Some (Err e, k)
           | Inr _ \<Rightarrow>
               (case child_caps_for parent address_space slot (t_caps pt) of
                  Inl e \<Rightarrow> Some (Err e, k)
                | Inr caps \<Rightarrow>
                    (case spawn_space ev stack_sp address_space k of
                       None \<Rightarrow> None
                     | Some (Inl e, k1) \<Rightarrow> Some (Err e, k1)
                     | Some (Inr (child_as, sp), k1) \<Rightarrow>
                         (let p = of_nat (length (tt_tasks (k_tt k1)));
                              (cpu, smp1) = assign_spawn_cpu (ev_cpu ev) (k_smp k1);
                              t = \<lparr>t_pid = p, t_parent = Some parent, t_state = Suspended, t_exit_code = None,
                                   t_frame = spawn_frame (address_space \<noteq> None) entry sp gp, t_caps = caps,
                                   t_qos = Normal, t_blocked = False, t_block_reason = None,
                                   t_address_space = Some child_as, t_service_id = 0,
                                   t_home_cpu = clamp_home_to_affinity (t_affinity pt) cpu (sm_online smp1),
                                   t_affinity = t_affinity pt, t_shares = t_shares pt, t_last_fail = None,
                                   t_bootstrap_slot = Some slot, t_children = [], t_image = image_new\<rparr>;
                              k2 = upd_tt (\<lambda>tt. tt\<lparr>tt_tasks := tt_tasks tt @ [t]\<rparr>) (k1\<lparr>k_smp := smp1\<rparr>)
                          in case as_attach child_as p (k_spaces k2) of
                               (Inl e, m) \<Rightarrow>
                                 Some (Err (SpAddressSpace e),
                                       upd_tt (\<lambda>tt. tt\<lparr>tt_tasks := butlast (tt_tasks tt)\<rparr>) (k2\<lparr>k_spaces := m\<rparr>))
                             | (Inr _, m) \<Rightarrow>
                                 Some (Ok p, upd_task parent (\<lambda>t. t\<lparr>t_children := t_children t @ [p]\<rparr>)
                                               (k2\<lparr>k_spaces := m\<rparr>)))))))"

subsection \<open>Capability transfer\<close>

definition transfer_cap_with_mode ::
  "pid \<Rightarrow> pid \<Rightarrow> usize \<Rightarrow> rights \<Rightarrow> transfer_mode \<Rightarrow> kernel \<Rightarrow> (transfer_error + usize) \<times> kernel" where
  "transfer_cap_with_mode parent child parent_slot r mode k =
     (case task_of k parent of
        None \<Rightarrow> (Err TrInvalidParent, k)
      | Some pt \<Rightarrow>
          (case cap_derive (t_caps pt) parent_slot r of
             Inl e \<Rightarrow> (Err (TrCapability e), k)
           | Inr derived \<Rightarrow>
               (case task_of k child of
                  None \<Rightarrow> (Err TrInvalidChild, k)
                | Some ct \<Rightarrow>
                    (case mode of
                       CopyAllocate \<Rightarrow>
                         (case cap_allocate derived (t_caps ct) of
                            (res, caps) \<Rightarrow> (map_err TrCapability res, upd_task child (\<lambda>t. t\<lparr>t_caps := caps\<rparr>) k))
                     | CopyToSlot child_slot \<Rightarrow>
                         (case cap_set_if_empty child_slot derived (t_caps ct) of
                            (Inl e, caps) \<Rightarrow> (Err (TrCapability e), upd_task child (\<lambda>t. t\<lparr>t_caps := caps\<rparr>) k)
                          | (Inr _, caps) \<Rightarrow> (Ok child_slot, upd_task child (\<lambda>t. t\<lparr>t_caps := caps\<rparr>) k))))))"

subsection \<open>Exit and reaping\<close>

definition exit_current :: "env \<Rightarrow> 32 word \<Rightarrow> kernel \<Rightarrow> image_allocs \<times> kernel" where
  "exit_current ev status k =
     (case task_of k (current_pid ev k) of
        None \<Rightarrow> (image_new, k)
      | Some t \<Rightarrow>
          (t_image t,
           upd_task (current_pid ev k)
             (\<lambda>t. t\<lparr>t_state := Zombie, t_exit_code := Some status, t_caps := cap_new, t_bootstrap_slot := None,
                     t_frame := frame_default, t_children := [], t_image := image_new\<rparr>) k))"

text \<open>Every recorded range goes back to the arena; a range the arena refuses stays allocated.\<close>

definition release_range :: "usize \<times> usize \<Rightarrow> usize \<times> kernel \<Rightarrow> usize \<times> kernel" where
  "release_range r acc =
     (case acc of
        (bytes, k) \<Rightarrow>
          (case pool_free (fst r) (snd r) (k_pool k) (k_mem k) of
             (Inr _, p, mem) \<Rightarrow> (saturating_add bytes (snd r), k\<lparr>k_pool := p, k_mem := mem\<rparr>)
           | (Inl _, p, mem) \<Rightarrow> (bytes, k\<lparr>k_pool := p, k_mem := mem\<rparr>)))"

definition release_image :: "image_allocs \<Rightarrow> kernel \<Rightarrow> usize \<times> kernel" where
  "release_image a k = fold release_range (ia_ranges a) (0, k)"

definition exit_current_and_release :: "env \<Rightarrow> 32 word \<Rightarrow> kernel \<Rightarrow> kernel" where
  "exit_current_and_release ev status k =
     (case exit_current ev status k of (a, k1) \<Rightarrow> snd (release_image a k1))"

definition zombie_child :: "kernel \<Rightarrow> pid \<Rightarrow> bool" where
  "zombie_child k c = (case task_of k c of None \<Rightarrow> False | Some t \<Rightarrow> t_state t = Zombie \<and> t_exit_code t \<noteq> None)"

definition select_child :: "pid \<Rightarrow> pid option \<Rightarrow> pid list \<Rightarrow> kernel \<Rightarrow> wait_error + pid" where
  "select_child parent target children k =
     (case target of
        Some p \<Rightarrow>
          if p = parent then Err InvalidTarget
          else if p \<notin> set children then Err NoSuchPid else Ok p
      | None \<Rightarrow> ok_or WouldBlock (List.find (zombie_child k) children))"

text \<open>Clearing the reaped task and giving its address space back; failures there are only logged.\<close>

definition reap_task :: "pid \<Rightarrow> kernel \<Rightarrow> kernel" where
  "reap_task p k =
     (case task_of k p of
        None \<Rightarrow> k
      | Some t \<Rightarrow>
          (let k1 = upd_task p (\<lambda>t. t\<lparr>t_exit_code := None, t_parent := None, t_caps := cap_new, t_bootstrap_slot := None,
                                      t_frame := frame_default, t_children := [], t_address_space := None\<rparr>) k
           in case t_address_space t of
                None \<Rightarrow> k1
              | Some handle \<Rightarrow>
                  k1\<lparr>k_spaces := snd (as_destroy handle (snd (as_detach handle p (k_spaces k1))))\<rparr>))"

definition reap_child :: "env \<Rightarrow> pid option \<Rightarrow> kernel \<Rightarrow> (wait_error + pid \<times> 32 word) \<times> kernel" where
  "reap_child ev target k =
     (let parent = current_pid ev k in
      case task_of k parent of
        None \<Rightarrow> (Err NoChildren, k)
      | Some pt \<Rightarrow>
          if t_children pt = [] then (Err NoChildren, k)
          else
            (case select_child parent target (t_children pt) k of
               Inl e \<Rightarrow> (Err e, k)
             | Inr sel \<Rightarrow>
                 (case task_of k sel of
                    None \<Rightarrow> (Err NoSuchPid, k)
                  | Some ct \<Rightarrow>
                      if t_parent ct \<noteq> Some parent then (Err NoSuchPid, k)
                      else if t_state ct \<noteq> Zombie then (Err WouldBlock, k)
                      else
                        (case t_exit_code ct of
                           None \<Rightarrow> (Err WouldBlock, k)
                         | Some status \<Rightarrow>
                             (Ok (sel, status),
                              reap_task sel
                                (upd_task parent (\<lambda>t. t\<lparr>t_children := filter (\<lambda>p. p \<noteq> sel) (t_children t)\<rparr>) k))))))"

text \<open>The self-test's dummy task: blocked, without an address space or an entry point.\<close>

definition selftest_create_dummy_task :: "env \<Rightarrow> pid \<Rightarrow> kernel \<Rightarrow> (pid \<times> kernel) option" where
  "selftest_create_dummy_task ev parent k =
     (case task_of k parent of
        None \<Rightarrow> None
      | Some pt \<Rightarrow>
          (let p = of_nat (length (tt_tasks (k_tt k)));
               (cpu, smp1) = assign_spawn_cpu (ev_cpu ev) (k_smp k);
               t = \<lparr>t_pid = p, t_parent = Some parent, t_state = Running, t_exit_code = None, t_frame = frame_default,
                    t_caps = cap_new, t_qos = PerfBurst, t_blocked = True, t_block_reason = None,
                    t_address_space = None, t_service_id = 0,
                    t_home_cpu = clamp_home_to_affinity (t_affinity pt) cpu (sm_online smp1),
                    t_affinity = t_affinity pt, t_shares = t_shares pt, t_last_fail = None, t_bootstrap_slot = None,
                    t_children = [], t_image = image_new\<rparr>
           in Some (p, upd_task parent (\<lambda>t. t\<lparr>t_children := t_children t @ [p]\<rparr>)
                         (upd_tt (\<lambda>tt. tt\<lparr>tt_tasks := tt_tasks tt @ [t]\<rparr>) (k\<lparr>k_smp := smp1\<rparr>)))))"

end
