(* ===== verification/Kmonad.thy ===== *)
theory Kmonad
  imports Task
begin

text \<open>
  What the system-call handlers of \<open>source/kernel/neuron/src/syscall/api\<close> share: the error type, the
  shape of a handler (it returns with an error or a value, or the kernel panics), the \<open>?\<close> operator,
  access to the memory of the caller, the wake-up deadline shadow and the blocking tail of the
  waiting calls.  The second half is a small calculus for invariants of handlers.
\<close>

unbundle bit_operations_syntax

subsection \<open>Handlers\<close>

datatype sys_error =
    InvalidSyscall
  | ErrCap cap_error
  | ErrIpc ipc_error
  | ErrSpawn spawn_error
  | ErrTransfer transfer_error
  | ErrAs as_error
  | ErrWait wait_error
  | TaskExit
  | Reschedule
  | ErrInvalidTarget
  | ErrRunQueueFull

text \<open>\<open>None\<close> is a kernel panic.\<close>

type_synonym 'a sys = "kernel \<Rightarrow> ((sys_error + 'a) \<times> kernel) option"

definition ret :: "'a \<Rightarrow> 'a sys" where
  "ret a k = Some (Ok a, k)"

definition fail :: "sys_error \<Rightarrow> 'a sys" where
  "fail e k = Some (Err e, k)"

definition panic :: "'a sys" where
  "panic k = None"

text \<open>Sequencing with the \<open>?\<close> operator: an error ends the handler, its effects so far stay.\<close>

definition bnd :: "'a sys \<Rightarrow> ('a \<Rightarrow> 'b sys) \<Rightarrow> 'b sys" where
  "bnd m f k =
     (case m k of
        None \<Rightarrow> None
      | Some (Inl e, k1) \<Rightarrow> Some (Err e, k1)
      | Some (Inr a, k1) \<Rightarrow> f a k1)"

definition gets :: "(kernel \<Rightarrow> 'a) \<Rightarrow> 'a sys" where
  "gets f k = Some (Ok (f k), k)"

definition modify :: "(kernel \<Rightarrow> kernel) \<Rightarrow> unit sys" where
  "modify f k = Some (Ok (), f k)"

text \<open>A pure result under \<open>?\<close>, a state-changing call under \<open>?\<close>, and one whose outcome is a value
  (\<open>let _ =\<close>, \<open>match\<close>).\<close>

definition lift_res :: "('e \<Rightarrow> sys_error) \<Rightarrow> 'e + 'a \<Rightarrow> 'a sys" where
  "lift_res w r k = Some (map_err w r, k)"

definition try_op :: "('e \<Rightarrow> sys_error) \<Rightarrow> (kernel \<Rightarrow> ('e + 'a) \<times> kernel) \<Rightarrow> 'a sys" where
  "try_op w f k = (case f k of (r, k1) \<Rightarrow> Some (map_err w r, k1))"

definition call :: "(kernel \<Rightarrow> 'a \<times> kernel) \<Rightarrow> 'a sys" where
  "call f k = (case f k of (r, k1) \<Rightarrow> Some (Ok r, k1))"

definition try_panic :: "('e \<Rightarrow> sys_error) \<Rightarrow> (kernel \<Rightarrow> (('e + 'a) \<times> kernel) option) \<Rightarrow> 'a sys" where
  "try_panic w f k = (case f k of None \<Rightarrow> None | Some (r, k1) \<Rightarrow> Some (map_err w r, k1))"

text \<open>A handler whose result is matched on instead of propagated.\<close>

definition attempt :: "'a sys \<Rightarrow> (sys_error + 'a) sys" where
  "attempt m k = (case m k of None \<Rightarrow> None | Some (r, k1) \<Rightarrow> Some (Ok r, k1))"

definition ensure :: "bool \<Rightarrow> sys_error \<Rightarrow> unit sys" where
  "ensure b e = (if b then ret () else fail e)"

fun each :: "('x \<Rightarrow> unit sys) \<Rightarrow> 'x list \<Rightarrow> unit sys" where
  "each f [] = ret ()"
| "each f (x # xs) = bnd (f x) (\<lambda>_. each f xs)"

abbreviation invalid_args :: sys_error where
  "invalid_args \<equiv> ErrAs AsInvalidArgs"

abbreviation denied :: sys_error where
  "denied \<equiv> ErrCap PermissionDenied"

subsection \<open>Parts of the kernel state\<close>

definition on_router :: "(router \<Rightarrow> 'r \<times> router) \<Rightarrow> kernel \<Rightarrow> 'r \<times> kernel" where
  "on_router f k = (case f (k_router k) of (r, x) \<Rightarrow> (r, k\<lparr>k_router := x\<rparr>))"

definition on_timers :: "(hart_timers \<Rightarrow> 'r \<times> hart_timers) \<Rightarrow> kernel \<Rightarrow> 'r \<times> kernel" where
  "on_timers f k = (case f (k_timers k) of (r, x) \<Rightarrow> (r, k\<lparr>k_timers := x\<rparr>))"

definition on_waitsets :: "(waitset_table \<Rightarrow> 'r \<times> waitset_table) \<Rightarrow> kernel \<Rightarrow> 'r \<times> kernel" where
  "on_waitsets f k = (case f (k_waitsets k) of (r, x) \<Rightarrow> (r, k\<lparr>k_waitsets := x\<rparr>))"

definition on_fences :: "(fence_table \<Rightarrow> 'r \<times> fence_table) \<Rightarrow> kernel \<Rightarrow> 'r \<times> kernel" where
  "on_fences f k = (case f (k_fences k) of (r, x) \<Rightarrow> (r, k\<lparr>k_fences := x\<rparr>))"

definition on_sched :: "(scheduler \<Rightarrow> 'r \<times> scheduler) \<Rightarrow> kernel \<Rightarrow> 'r \<times> kernel" where
  "on_sched f k = (case f (k_sched k) of (r, x) \<Rightarrow> (r, k\<lparr>k_sched := x\<rparr>))"

definition on_pool :: "(vmo_pool \<Rightarrow> memory \<Rightarrow> 'r \<times> vmo_pool \<times> memory) \<Rightarrow> kernel \<Rightarrow> 'r \<times> kernel" where
  "on_pool f k = (case f (k_pool k) (k_mem k) of (r, p, mem) \<Rightarrow> (r, k\<lparr>k_pool := p, k_mem := mem\<rparr>))"

definition on_spaces :: "(as_manager \<Rightarrow> ('r \<times> as_manager) option) \<Rightarrow> kernel \<Rightarrow> ('r \<times> kernel) option" where
  "on_spaces f k = (case f (k_spaces k) of None \<Rightarrow> None | Some (r, x) \<Rightarrow> Some (r, k\<lparr>k_spaces := x\<rparr>))"

text \<open>\<open>current_caps_mut()\<close>: a read, and an operation on the table.  Without a current task the indexing
  panics.\<close>

definition caps_look :: "env \<Rightarrow> (cap_table \<Rightarrow> cap_error + 'a) \<Rightarrow> 'a sys" where
  "caps_look ev f k =
     (case task_of k (current_pid ev k) of
        None \<Rightarrow> None
      | Some t \<Rightarrow> Some (map_err ErrCap (f (t_caps t)), k))"

definition caps_try :: "env \<Rightarrow> (cap_table \<Rightarrow> (cap_error + 'a) \<times> cap_table) \<Rightarrow> 'a sys" where
  "caps_try ev f k =
     (case task_of k (current_pid ev k) of
        None \<Rightarrow> None
      | Some t \<Rightarrow>
          (case f (t_caps t) of
             (r, c) \<Rightarrow> Some (map_err ErrCap r, upd_task (current_pid ev k) (\<lambda>t. t\<lparr>t_caps := c\<rparr>) k)))"

text \<open>\<open>current_task()\<close>\<close>

definition cur_task :: "env \<Rightarrow> (task \<Rightarrow> 'a) \<Rightarrow> 'a sys" where
  "cur_task ev f k =
     (case task_of k (current_pid ev k) of None \<Rightarrow> None | Some t \<Rightarrow> Some (Ok (f t), k))"

definition arg :: "u64 list \<Rightarrow> nat \<Rightarrow> u64" where
  "arg args i = args ! i"

definition uarg :: "u64 list \<Rightarrow> nat \<Rightarrow> usize" where
  "uarg args i = unat (args ! i)"

subsection \<open>Memory of the caller\<close>

definition USER_VADDR_LIMIT :: usize where "USER_VADDR_LIMIT = 0x80000000"

definition ensure_user_slice :: "usize \<Rightarrow> usize \<Rightarrow> sys_error + unit" where
  "ensure_user_slice ptr len =
     (if len = 0 then Ok ()
      else if ptr = 0 then Err invalid_args
      else if USER_VADDR_LIMIT \<le> ptr then Err invalid_args
      else case checked_add ptr (len - 1) of
        None \<Rightarrow> Err invalid_args
      | Some final \<Rightarrow> if USER_VADDR_LIMIT \<le> final then Err invalid_args else Ok ())"

text \<open>
  Where a supervisor access with permission \<open>need\<close> at a virtual address lands, through the page table
  of the current task (\<open>sstatus.SUM\<close> is set, so user pages are reachable); \<open>None\<close> is the page fault,
  which the trap handler turns into a panic when it comes from the kernel.  The tasks without an
  address space run on the identity mapping.
\<close>

definition user_pa :: "env \<Rightarrow> u64 \<Rightarrow> kernel \<Rightarrow> usize \<Rightarrow> usize option" where
  "user_pa ev need k va =
     (case task_of k (current_pid ev k) of
        None \<Rightarrow> None
      | Some t \<Rightarrow>
          (case t_address_space t of
             None \<Rightarrow> Some va
           | Some handle \<Rightarrow>
               (case as_get (k_spaces k) handle of
                  Inl _ \<Rightarrow> None
                | Inr s \<Rightarrow>
                    (case pt_leaf_flags (as_page_table s) (of_nat (page_floor va)) of
                       Inl _ \<Rightarrow> None
                     | Inr fl \<Rightarrow>
                         if fl AND need = 0 then None
                         else map_option unat (pt_translate (as_page_table s) (of_nat va))))))"

definition copy_from_user :: "env \<Rightarrow> usize \<Rightarrow> usize \<Rightarrow> u8 list sys" where
  "copy_from_user ev ptr n k =
     map_option (\<lambda>as. (Ok (map (k_mem k) as), k)) (those (map (user_pa ev PF_READ k) [ptr..<ptr + n]))"

definition write_bytes :: "(usize \<times> u8) list \<Rightarrow> memory \<Rightarrow> memory" where
  "write_bytes ws mem = fold (\<lambda>(a, b) m. m(a := b)) ws mem"

definition copy_to_user :: "env \<Rightarrow> usize \<Rightarrow> u8 list \<Rightarrow> unit sys" where
  "copy_to_user ev ptr bs k =
     map_option (\<lambda>as. (Ok (), k\<lparr>k_mem := write_bytes (zip as bs) (k_mem k)\<rparr>))
       (those (map (user_pa ev PF_WRITE k) [ptr..<ptr + length bs]))"

subsection \<open>Little-endian reads\<close>

definition read_u16_le :: "u8 list \<Rightarrow> usize \<Rightarrow> sys_error + u16" where
  "read_u16_le bytes off =
     (case checked_add off 2 of
        None \<Rightarrow> Err invalid_args
      | Some e \<Rightarrow> if length bytes < e then Err invalid_args else Ok (from_le (slice off e bytes)))"

definition read_u32_le :: "u8 list \<Rightarrow> usize \<Rightarrow> sys_error + u32" where
  "read_u32_le bytes off =
     (case checked_add off 4 of
        None \<Rightarrow> Err invalid_args
      | Some e \<Rightarrow> if length bytes < e then Err invalid_args else Ok (from_le (slice off e bytes)))"

definition read_u64_le :: "u8 list \<Rightarrow> usize \<Rightarrow> sys_error + u64" where
  "read_u64_le bytes off =
     (case checked_add off 8 of
        None \<Rightarrow> Err invalid_args
      | Some e \<Rightarrow> if length bytes < e then Err invalid_args else Ok (from_le (slice off e bytes)))"

subsection \<open>Virtual addresses\<close>

definition va_new :: "u64 \<Rightarrow> u64 option" where
  "va_new addr = (if is_canonical_sv39 addr then Some addr else None)"

definition va_page_aligned :: "u64 \<Rightarrow> u64 option" where
  "va_page_aligned addr =
     (case va_new addr of None \<Rightarrow> None | Some va \<Rightarrow> if unat va mod PAGE_SIZE = 0 then Some va else None)"

definition instr_align :: "build \<Rightarrow> nat" where
  "instr_align b = (case b of Target _ _ \<Rightarrow> 2 | Host \<Rightarrow> 4)"

definition va_instr_aligned :: "build \<Rightarrow> u64 \<Rightarrow> u64 option" where
  "va_instr_aligned b addr =
     (case va_new addr of None \<Rightarrow> None | Some va \<Rightarrow> if unat va mod instr_align b = 0 then Some va else None)"

definition page_len :: "u64 \<Rightarrow> usize option" where
  "page_len bytes =
     (if bytes = 0 then None else if unat bytes mod PAGE_SIZE = 0 then Some (unat bytes) else None)"

subsection \<open>Deadlines\<close>

definition armed_slot :: "env \<Rightarrow> usize" where
  "armed_slot ev = (if ev_cpu ev < MAX_CPUS then ev_cpu ev else 0)"

definition arm_wakeup :: "env \<Rightarrow> u64 \<Rightarrow> kernel \<Rightarrow> kernel" where
  "arm_wakeup ev deadline k =
     (if deadline = 0 then k
      else let armed = k_armed k ! armed_slot ev in
        if ev_now ev < armed \<and> armed \<le> deadline then k
        else k\<lparr>k_armed := (k_armed k)[armed_slot ev := deadline]\<rparr>)"

definition reached :: "env \<Rightarrow> u64 \<Rightarrow> bool" where
  "reached ev deadline \<longleftrightarrow> deadline \<noteq> 0 \<and> deadline \<le> ev_now ev"

definition drop_recv_waiters :: "u32 list \<Rightarrow> pid \<Rightarrow> kernel \<Rightarrow> kernel" where
  "drop_recv_waiters eps p k = fold (\<lambda>ep. snd \<circ> on_router (remove_recv_waiter ep p)) eps k"

text \<open>The members of a waitset, copied to the stack; a missing set has none.\<close>

definition members_or_none :: "kernel \<Rightarrow> u32 \<Rightarrow> u32 list" where
  "members_or_none k ws = (case ws_members_of (k_waitsets k) ws of None \<Rightarrow> [] | Some m \<Rightarrow> m)"

definition expire_one :: "env \<Rightarrow> pid \<Rightarrow> kernel \<Rightarrow> kernel" where
  "expire_one ev p k =
     (case task_of k p of
        None \<Rightarrow> k
      | Some t \<Rightarrow>
          if \<not> t_blocked t then k
          else (case t_block_reason t of
                  Some (BrIpcRecv ep d) \<Rightarrow>
                    if reached ev d then snd (wake ev p (snd (on_router (remove_recv_waiter ep p) k))) else k
                | Some (BrIpcSend ep d) \<Rightarrow>
                    if reached ev d then snd (wake ev p (snd (on_router (remove_send_waiter ep p) k))) else k
                | Some (BrWaitset ws d) \<Rightarrow>
                    if reached ev d then snd (wake ev p (drop_recv_waiters (members_or_none k ws) p k)) else k
                | Some (BrFence f _ d) \<Rightarrow>
                    if reached ev d
                    then snd (wake ev p (k\<lparr>k_fences := fence_remove_waiter f p (k_fences k)\<rparr>)) else k
                | _ \<Rightarrow> k))"

definition all_pids :: "kernel \<Rightarrow> pid list" where
  "all_pids k = map of_nat [0..<length (tt_tasks (k_tt k))]"

definition wake_expired_blocked :: "env \<Rightarrow> kernel \<Rightarrow> kernel" where
  "wake_expired_blocked ev k = fold (expire_one ev) (all_pids k) k"

text \<open>
  The tail of the waiting calls: pick another task, or undo the registration, wake the caller again
  and retry the call.
\<close>

definition switch_or_retry :: "env \<Rightarrow> pid \<Rightarrow> (kernel \<Rightarrow> kernel) \<Rightarrow> 'a sys" where
  "switch_or_retry ev cur undo =
     bnd (call (on_sched (schedule_next (ev_cpu ev))))
       (\<lambda>picked. case picked of
          Some p \<Rightarrow> bnd (modify (set_current ev p)) (\<lambda>_. fail Reschedule)
        | None \<Rightarrow> bnd (modify undo) (\<lambda>_. bnd (call (wake ev cur)) (\<lambda>_. fail Reschedule)))"

definition block_and_switch :: "env \<Rightarrow> pid \<Rightarrow> block_reason \<Rightarrow> (kernel \<Rightarrow> kernel) \<Rightarrow> 'a sys" where
  "block_and_switch ev cur reason undo =
     bnd (modify (block_current ev reason))
       (\<lambda>_. bnd (modify (wake_expired_blocked ev)) (\<lambda>_. switch_or_retry ev cur undo))"

subsection \<open>Invariants of handlers\<close>

text \<open>
  \<open>yields I m Q\<close>: the handler keeps \<open>I\<close> on every outcome and a value it returns satisfies \<open>Q\<close>.
\<close>

definition yields :: "(kernel \<Rightarrow> bool) \<Rightarrow> 'a sys \<Rightarrow> ('a \<Rightarrow> bool) \<Rightarrow> bool" where
  "yields I m Q \<longleftrightarrow> (\<forall>k r k'. I k \<longrightarrow> m k = Some (r, k') \<longrightarrow> I k' \<and> (\<forall>a. r = Inr a \<longrightarrow> Q a))"

abbreviation keeps :: "(kernel \<Rightarrow> bool) \<Rightarrow> 'a sys \<Rightarrow> bool" where
  "keeps I m \<equiv> yields I m (\<lambda>_. True)"

named_theorems yields_rules

lemma yieldsD: "yields I m Q \<Longrightarrow> I k \<Longrightarrow> m k = Some (r, k') \<Longrightarrow> I k'"
  by (auto simp: yields_def)

lemma yieldsI:
  "(\<And>k r k'. I k \<Longrightarrow> m k = Some (r, k') \<Longrightarrow> I k' \<and> (\<forall>a. r = Inr a \<longrightarrow> Q a)) \<Longrightarrow> yields I m Q"
  by (auto simp: yields_def)

lemma yields_weaken: "yields I m Q \<Longrightarrow> (\<And>a. Q a \<Longrightarrow> R a) \<Longrightarrow> yields I m R"
  by (auto simp: yields_def)

lemma yields_ret [yields_rules]: "Q a \<Longrightarrow> yields I (ret a) Q"
  by (simp add: yields_def ret_def)

lemma yields_fail [yields_rules]: "yields I (fail e) Q"
  by (simp add: yields_def fail_def)

lemma yields_panic [yields_rules]: "yields I panic Q"
  by (simp add: yields_def panic_def)

lemma yields_bnd: "yields I m Q \<Longrightarrow> (\<And>a. Q a \<Longrightarrow> yields I (f a) R) \<Longrightarrow> yields I (bnd m f) R"
proof (rule yieldsI)
  fix k r k'
  assume m: "yields I m Q" and f: "\<And>a. Q a \<Longrightarrow> yields I (f a) R" and k: "I k" and run: "bnd m f k = Some (r, k')"
  from run obtain r1 k1 where r1: "m k = Some (r1, k1)" by (auto simp: bnd_def split: option.splits)
  with m k have k1: "I k1" "\<And>a. r1 = Inr a \<Longrightarrow> Q a" by (auto simp: yields_def)
  show "I k' \<and> (\<forall>a. r = Inr a \<longrightarrow> R a)"
  proof (cases r1)
    case (Inl e)
    with run r1 k1 show ?thesis by (auto simp: bnd_def)
  next
    case (Inr a)
    with run r1 f[of a] k1 show ?thesis by (auto simp: bnd_def yields_def)
  qed
qed

lemma keeps_bnd [yields_rules]: "keeps I m \<Longrightarrow> (\<And>a. yields I (f a) R) \<Longrightarrow> yields I (bnd m f) R"
  by (rule yields_bnd)

lemma keeps_gets [yields_rules]: "keeps I (gets f)"
  by (simp add: yields_def gets_def)

lemma keeps_modify: "(\<And>k. I k \<Longrightarrow> I (f k)) \<Longrightarrow> keeps I (modify f)"
  by (simp add: yields_def modify_def)

lemma keeps_lift_res [yields_rules]: "keeps I (lift_res w r)"
  by (simp add: yields_def lift_res_def)

lemma keeps_try_op: "(\<And>k. I k \<Longrightarrow> I (snd (f k))) \<Longrightarrow> keeps I (try_op w f)"
  by (force simp: yields_def try_op_def split: prod.splits)

lemma keeps_call: "(\<And>k. I k \<Longrightarrow> I (snd (f k))) \<Longrightarrow> keeps I (call f)"
  by (force simp: yields_def call_def split: prod.splits)

lemma keeps_try_panic: "(\<And>k r k'. I k \<Longrightarrow> f k = Some (r, k') \<Longrightarrow> I k') \<Longrightarrow> keeps I (try_panic w f)"
  by (auto simp: yields_def try_panic_def split: option.splits prod.splits)

lemma keeps_attempt [yields_rules]: "keeps I m \<Longrightarrow> keeps I (attempt m)"
  by (auto simp: yields_def attempt_def split: option.splits prod.splits)

lemma yields_attempt: "yields I m Q \<Longrightarrow> yields I (attempt m) (\<lambda>r. \<forall>a. r = Inr a \<longrightarrow> Q a)"
  by (auto simp: yields_def attempt_def split: option.splits prod.splits)

lemma yields_ensure [yields_rules]: "yields I (ensure b e) (\<lambda>_. b)"
  by (simp add: ensure_def yields_ret yields_fail)

lemma keeps_ensure [yields_rules]: "keeps I (ensure b e)"
  by (simp add: ensure_def yields_ret yields_fail)

lemma keeps_each [yields_rules]: "(\<And>x. keeps I (f x)) \<Longrightarrow> keeps I (each f xs)"
  by (induction xs) (auto intro: yields_rules)

lemma keeps_caps_look [yields_rules]: "keeps I (caps_look ev f)"
  by (auto simp: yields_def caps_look_def split: option.splits)

lemma keeps_cur_task [yields_rules]: "keeps I (cur_task ev f)"
  by (auto simp: yields_def cur_task_def split: option.splits)

lemma keeps_copy_from_user [yields_rules]: "keeps I (copy_from_user ev p n)"
  by (auto simp: yields_def copy_from_user_def)

lemma yields_if [yields_rules]:
  "(b \<Longrightarrow> yields I x Q) \<Longrightarrow> (\<not> b \<Longrightarrow> yields I y Q) \<Longrightarrow> yields I (if b then x else y) Q"
  by simp

lemma yields_case_option [yields_rules]:
  "(x = None \<Longrightarrow> yields I a Q) \<Longrightarrow> (\<And>y. x = Some y \<Longrightarrow> yields I (b y) Q) \<Longrightarrow>
   yields I (case x of None \<Rightarrow> a | Some y \<Rightarrow> b y) Q"
  by (cases x) auto

lemma yields_case_sum [yields_rules]:
  "(\<And>e. x = Inl e \<Longrightarrow> yields I (a e) Q) \<Longrightarrow> (\<And>y. x = Inr y \<Longrightarrow> yields I (b y) Q) \<Longrightarrow>
   yields I (case x of Inl e \<Rightarrow> a e | Inr y \<Rightarrow> b y) Q"
  by (cases x) auto

lemma yields_case_prod [yields_rules]:
  "(\<And>a b. x = (a, b) \<Longrightarrow> yields I (f a b) Q) \<Longrightarrow> yields I (case x of (a, b) \<Rightarrow> f a b) Q"
  by (cases x) auto

lemma yields_Let [yields_rules]: "yields I (f a) Q \<Longrightarrow> yields I (Let a f) Q"
  by simp

lemma yields_case_kind [yields_rules]:
  assumes "\<And>e. kd = Endpoint e \<Longrightarrow> yields I (f1 e) Q" "kd = EndpointFactory \<Longrightarrow> yields I f2 Q"
    "\<And>b l. kd = Vmo b l \<Longrightarrow> yields I (f3 b l) Q" "\<And>b l. kd = DeviceMmio b l \<Longrightarrow> yields I (f4 b l) Q"
    "\<And>i. kd = Irq i \<Longrightarrow> yields I (f5 i) Q" "\<And>i. kd = Timer i \<Longrightarrow> yields I (f6 i) Q"
    "\<And>i. kd = Waitset i \<Longrightarrow> yields I (f7 i) Q" "\<And>i. kd = Fence i \<Longrightarrow> yields I (f8 i) Q"
    "kd = SchedSetAffinity \<Longrightarrow> yields I f9 Q"
  shows "yields I (case_capability_kind f1 f2 f3 f4 f5 f6 f7 f8 f9 kd) Q"
  using assms by (cases kd) auto

end
