(* ===== verification/Sys_Ipc.thy ===== *)
theory Sys_Ipc
  imports Kmonad
begin

text \<open>
  The message system calls of \<open>syscall/api/ipc_msg.rs\<close>: the legacy send and receive, \<open>ipc_send_v1\<close>
  with the capability-move protocol, \<open>ipc_recv_v1\<close> and the descriptor-based \<open>ipc_recv_v2\<close>.  The
  retry loops of the source never iterate: every branch of their bodies returns.  The
  \<open>ipc_trace_ring\<close> and \<open>debug_uart\<close> features are off.
\<close>

unbundle bit_operations_syntax

definition IPC_SYS_NONBLOCK :: u64 where "IPC_SYS_NONBLOCK = 1"
definition IPC_SYS_TRUNCATE :: u64 where "IPC_SYS_TRUNCATE = 2"
definition IPC_MSG_FLAG_CAP_MOVE :: u16 where "IPC_MSG_FLAG_CAP_MOVE = 1"

subsection \<open>Legacy calls\<close>

definition endpoint_of_slot :: "env \<Rightarrow> usize \<Rightarrow> rights \<Rightarrow> endpoint_id sys" where
  "endpoint_of_slot ev slot r =
     bnd (caps_look ev (\<lambda>t. derive_endpoint_ref t slot r)) (\<lambda>c. ret (ref_endpoint c))"

definition sys_send :: "env \<Rightarrow> u64 list \<Rightarrow> usize sys" where
  "sys_send ev args =
     (let slot = uarg args 0; len = ucast (arg args 3) :: u32 in
      bnd (endpoint_of_slot ev slot SEND)
        (\<lambda>ep. let hdr = header_new (of_nat slot) ep (ucast (arg args 1)) (ucast (arg args 2)) len in
          bnd (try_op ErrIpc (on_router (router_send ep (message_new hdr [] None))))
            (\<lambda>_. ret (unat len))))"

definition sys_recv :: "env \<Rightarrow> u64 list \<Rightarrow> usize sys" where
  "sys_recv ev args =
     bnd (endpoint_of_slot ev (uarg args 0) RECV)
       (\<lambda>ep. bnd (try_op ErrIpc (on_router (router_recv ep)))
         (\<lambda>msg. bnd (modify (\<lambda>k. k\<lparr>k_last_message := Some msg\<rparr>))
           (\<lambda>_. ret (unat (hlen (header msg))))))"

subsection \<open>Sending\<close>

definition check_slice :: "usize \<Rightarrow> usize \<Rightarrow> unit sys" where
  "check_slice ptr len = lift_res id (ensure_user_slice ptr len)"

definition send_v1_check :: "u64 list \<Rightarrow> unit sys" where
  "send_v1_check args =
     bnd (check_slice (uarg args 1) 16)
       (\<lambda>_. bnd (ensure (uarg args 3 \<le> MAX_FRAME_BYTES) invalid_args)
         (\<lambda>_. if uarg args 3 \<noteq> 0 then check_slice (uarg args 2) (uarg args 3) else ret ()))"

text \<open>Putting a taken capability back.\<close>

definition restore_cap :: "env \<Rightarrow> usize \<Rightarrow> capability \<Rightarrow> unit sys" where
  "restore_cap ev slot cap = bnd (attempt (caps_try ev (cap_set slot cap))) (\<lambda>_. ret ())"

definition take_moved_cap :: "env \<Rightarrow> usize option \<Rightarrow> capability option sys" where
  "take_moved_cap ev slot_opt =
     (case slot_opt of
        None \<Rightarrow> ret None
      | Some slot \<Rightarrow>
          bnd (caps_try ev (cap_take slot))
            (\<lambda>cap. if flags_contain (rights cap) MANAGE \<or> kind cap = EndpointFactory
                   then bnd (restore_cap ev slot cap) (\<lambda>_. fail denied)
                   else bnd (gets k_router)
                     (\<lambda>r. if (case kind cap of Endpoint i \<Rightarrow> \<not> endpoint_alive r i | _ \<Rightarrow> False)
                          then bnd (restore_cap ev slot cap) (\<lambda>_. fail (ErrIpc NoSuchEndpoint))
                          else ret (Some cap))))"

definition expected_ep :: "capability option \<Rightarrow> u32" where
  "expected_ep c = (case c of Some cap \<Rightarrow> (case kind cap of Endpoint i \<Rightarrow> i | _ \<Rightarrow> 0) | None \<Rightarrow> 0)"

definition outgoing :: "message_header \<Rightarrow> u8 list \<Rightarrow> capability option \<Rightarrow> u64 \<Rightarrow> message" where
  "outgoing hdr body cap sid =
     (message_new hdr body cap)\<lparr>capmove_expected_ep := expected_ep cap, sender_service_id := sid\<rparr>"

definition rollback_cap :: "env \<Rightarrow> usize option \<Rightarrow> message \<Rightarrow> unit sys" where
  "rollback_cap ev slot_opt msg =
     (case slot_opt of
        None \<Rightarrow> ret ()
      | Some slot \<Rightarrow> (case moved_cap msg of None \<Rightarrow> ret () | Some cap \<Rightarrow> restore_cap ev slot cap))"

definition wake_receiver :: "env \<Rightarrow> endpoint_id \<Rightarrow> unit sys" where
  "wake_receiver ev ep =
     bnd (call (on_router (pop_recv_waiter ep)))
       (\<lambda>r. case r of
          Inl _ \<Rightarrow> ret ()
        | Inr w \<Rightarrow> (case w of None \<Rightarrow> ret () | Some p \<Rightarrow> bnd (call (wake ev p)) (\<lambda>_. ret ())))"

definition send_attempt ::
  "env \<Rightarrow> endpoint_id \<Rightarrow> bool \<Rightarrow> u64 \<Rightarrow> usize option \<Rightarrow> message_header \<Rightarrow> u8 list \<Rightarrow> usize sys" where
  "send_attempt ev ep nonblock deadline slot_opt hdr body =
     bnd (take_moved_cap ev slot_opt)
       (\<lambda>cap. bnd (cur_task ev t_service_id)
         (\<lambda>sid. bnd (call (on_router (send_returning_message ep (outgoing hdr body cap sid))))
           (\<lambda>res. case res of
              Inr _ \<Rightarrow> bnd (wake_receiver ev ep) (\<lambda>_. ret (length body))
            | Inl em \<Rightarrow>
                if fst em = QueueFull \<and> \<not> nonblock then
                  bnd (rollback_cap ev slot_opt (snd em))
                    (\<lambda>_. if reached ev deadline then fail (ErrIpc TimedOut)
                         else bnd (gets (current_pid ev))
                           (\<lambda>cur. bnd (try_op ErrIpc (on_router (register_send_waiter ep cur)))
                             (\<lambda>_. block_and_switch ev cur (BrIpcSend ep deadline)
                                    (\<lambda>k. snd (on_router (remove_send_waiter ep cur) k)))))
                else bnd (rollback_cap ev slot_opt (snd em)) (\<lambda>_. fail (ErrIpc (fst em))))))"

definition sys_ipc_send_v1 :: "env \<Rightarrow> u64 list \<Rightarrow> usize sys" where
  "sys_ipc_send_v1 ev args =
     bnd (send_v1_check args)
       (\<lambda>_. bnd (ensure (arg args 4 AND NOT IPC_SYS_NONBLOCK = 0) invalid_args)
         (\<lambda>_. let nonblock = (arg args 4 AND IPC_SYS_NONBLOCK \<noteq> 0); deadline = arg args 5 in
           bnd (endpoint_of_slot ev (uarg args 0) SEND)
             (\<lambda>ep. bnd (copy_from_user ev (uarg args 1) 16)
               (\<lambda>raw. let user_hdr = header_from_le_bytes raw;
                          cap_move = (hflags user_hdr AND IPC_MSG_FLAG_CAP_MOVE \<noteq> 0) in
                 bnd (ensure (unat (hlen user_hdr) = uarg args 3) invalid_args)
                   (\<lambda>_. bnd (copy_from_user ev (uarg args 2) (uarg args 3))
                     (\<lambda>body. bnd (gets (current_pid ev))
                       (\<lambda>cur. let hdr = header_new 0 cur (ty user_hdr) (hflags user_hdr) (of_nat (uarg args 3)) in
                         bnd (modify (\<lambda>k. if \<not> nonblock \<and> deadline \<noteq> 0 then arm_wakeup ev deadline k else k))
                           (\<lambda>_. send_attempt ev ep nonblock deadline
                                  (if cap_move then Some (unat (src user_hdr)) else None) hdr body))))))))"

subsection \<open>Receiving\<close>

definition wake_sender :: "env \<Rightarrow> endpoint_id \<Rightarrow> unit sys" where
  "wake_sender ev ep =
     bnd (call (on_router (pop_send_waiter ep)))
       (\<lambda>r. case r of
          Inl _ \<Rightarrow> ret ()
        | Inr w \<Rightarrow> (case w of None \<Rightarrow> ret () | Some p \<Rightarrow> bnd (call (wake ev p)) (\<lambda>_. ret ())))"

definition wait_message :: "env \<Rightarrow> endpoint_id \<Rightarrow> bool \<Rightarrow> u64 \<Rightarrow> message sys" where
  "wait_message ev ep nonblock deadline =
     bnd (call (on_router (router_recv ep)))
       (\<lambda>r. case r of
          Inr msg \<Rightarrow> bnd (wake_sender ev ep) (\<lambda>_. ret msg)
        | Inl e \<Rightarrow>
            if e = QueueEmpty \<and> \<not> nonblock then
              if reached ev deadline then fail (ErrIpc TimedOut)
              else bnd (gets (current_pid ev))
                (\<lambda>cur. bnd (try_op ErrIpc (on_router (register_recv_waiter ep cur)))
                  (\<lambda>_. bnd (call (on_router (router_recv ep)))
                    (\<lambda>r2. case r2 of
                       Inr msg \<Rightarrow>
                         bnd (call (on_router (remove_recv_waiter ep cur)))
                           (\<lambda>_. bnd (wake_sender ev ep) (\<lambda>_. ret msg))
                     | Inl e2 \<Rightarrow>
                         if e2 = QueueEmpty then
                           block_and_switch ev cur (BrIpcRecv ep deadline)
                             (\<lambda>k. snd (on_router (remove_recv_waiter ep cur) k))
                         else bnd (call (on_router (remove_recv_waiter ep cur))) (\<lambda>_. fail (ErrIpc e2)))))
            else fail (ErrIpc e))"

text \<open>A capability whose endpoint differs from the one the sender saw is set back to it.\<close>

definition checked_cap :: "u32 \<Rightarrow> capability \<Rightarrow> capability" where
  "checked_cap expected cap =
     (if expected \<noteq> 0 then
        (case kind cap of
           Endpoint i \<Rightarrow> if i \<noteq> expected then cap\<lparr>kind := Endpoint expected\<rparr> else cap
         | _ \<Rightarrow> cap)
      else cap)"

definition accept_moved_cap :: "env \<Rightarrow> endpoint_id \<Rightarrow> message \<Rightarrow> message sys" where
  "accept_moved_cap ev ep msg =
     (case moved_cap msg of
        None \<Rightarrow> ret msg
      | Some cap0 \<Rightarrow>
          (let cap = checked_cap (capmove_expected_ep msg) cap0 in
           bnd (attempt (caps_try ev (cap_allocate cap)))
             (\<lambda>r. case r of
                Inr slot \<Rightarrow> ret (msg\<lparr>moved_cap := None, header := (header msg)\<lparr>src := of_nat slot\<rparr>\<rparr>)
              | Inl _ \<Rightarrow>
                  bnd (call (on_router (requeue_front ep (msg\<lparr>moved_cap := Some cap\<rparr>))))
                    (\<lambda>_. fail (ErrIpc IpcNoSpace)))))"

definition remember :: "message \<Rightarrow> unit sys" where
  "remember msg = modify (\<lambda>k. k\<lparr>k_last_message := Some msg\<rparr>)"

text \<open>Copying the payload out; a message that does not fit is dropped unless truncation is asked for.\<close>

definition deliver_payload :: "env \<Rightarrow> usize \<Rightarrow> usize \<Rightarrow> bool \<Rightarrow> message \<Rightarrow> usize sys" where
  "deliver_payload ev ptr out_max trunc msg =
     (let total = length (payload msg) in
      if total = 0 \<or> out_max = 0 then bnd (remember msg) (\<lambda>_. ret 0)
      else if out_max < total \<and> \<not> trunc then fail invalid_args
      else let n = min total out_max in
        bnd (copy_to_user ev ptr (take n (payload msg)))
          (\<lambda>_. bnd (remember msg) (\<lambda>_. ret n)))"

definition recv_v1_check :: "u64 list \<Rightarrow> unit sys" where
  "recv_v1_check args =
     bnd (check_slice (uarg args 1) 16)
       (\<lambda>_. if uarg args 3 \<noteq> 0 then check_slice (uarg args 2) (uarg args 3) else ret ())"

definition sys_ipc_recv_v1 :: "env \<Rightarrow> u64 list \<Rightarrow> usize sys" where
  "sys_ipc_recv_v1 ev args =
     bnd (recv_v1_check args)
       (\<lambda>_. bnd (ensure (arg args 4 AND NOT (IPC_SYS_NONBLOCK OR IPC_SYS_TRUNCATE) = 0) invalid_args)
         (\<lambda>_. bnd (endpoint_of_slot ev (uarg args 0) RECV)
           (\<lambda>ep. let trunc = (arg args 4 AND IPC_SYS_TRUNCATE \<noteq> 0);
                     nonblock = (arg args 4 AND IPC_SYS_NONBLOCK \<noteq> 0);
                     deadline = arg args 5 in
             bnd (modify (\<lambda>k. if \<not> nonblock \<and> deadline \<noteq> 0 then arm_wakeup ev deadline k else k))
               (\<lambda>_. bnd (wait_message ev ep nonblock deadline)
                 (\<lambda>m. bnd (accept_moved_cap ev ep m)
                   (\<lambda>msg. bnd (copy_to_user ev (uarg args 1) (header_to_le_bytes (header msg)))
                     (\<lambda>_. deliver_payload ev (uarg args 2) (uarg args 3) trunc msg)))))))"

subsection \<open>The descriptor call\<close>

definition IPC_RECV_V2_MAGIC :: u32 where "IPC_RECV_V2_MAGIC = 0x4E584932"
definition IPC_RECV_V2_VERSION :: u32 where "IPC_RECV_V2_VERSION = 1"

record recv_v2_desc =
  rd_slot :: u32
  rd_header_out :: usize
  rd_payload_out :: usize
  rd_payload_max :: usize
  rd_service_out :: usize
  rd_sys_flags :: u64
  rd_deadline :: u64

definition read_desc :: "u8 list \<Rightarrow> recv_v2_desc sys" where
  "read_desc raw =
     bnd (lift_res id (read_u32_le raw 0)) (\<lambda>magic.
     bnd (lift_res id (read_u32_le raw 4)) (\<lambda>version.
     bnd (ensure (magic = IPC_RECV_V2_MAGIC \<and> version = IPC_RECV_V2_VERSION) invalid_args) (\<lambda>_.
     bnd (lift_res id (read_u32_le raw 8)) (\<lambda>slot.
     bnd (lift_res id (read_u64_le raw 16)) (\<lambda>hp.
     bnd (lift_res id (read_u64_le raw 24)) (\<lambda>pp.
     bnd (lift_res id (read_u64_le raw 32)) (\<lambda>pm.
     bnd (lift_res id (read_u64_le raw 40)) (\<lambda>sp.
     bnd (lift_res id (read_u32_le raw 48)) (\<lambda>fl.
     bnd (lift_res id (read_u64_le raw 56)) (\<lambda>dl.
       ret \<lparr>rd_slot = slot, rd_header_out = unat hp, rd_payload_out = unat pp, rd_payload_max = unat pm,
            rd_service_out = unat sp, rd_sys_flags = ucast fl, rd_deadline = dl\<rparr>))))))))))"

definition recv_v2_check :: "recv_v2_desc \<Rightarrow> unit sys" where
  "recv_v2_check d =
     bnd (check_slice (rd_header_out d) 16)
       (\<lambda>_. bnd (ensure (rd_payload_max d \<le> MAX_FRAME_BYTES) invalid_args)
         (\<lambda>_. bnd (if rd_payload_max d \<noteq> 0 then check_slice (rd_payload_out d) (rd_payload_max d) else ret ())
           (\<lambda>_. check_slice (rd_service_out d) 8)))"

definition sys_ipc_recv_v2 :: "env \<Rightarrow> u64 list \<Rightarrow> usize sys" where
  "sys_ipc_recv_v2 ev args =
     bnd (check_slice (uarg args 0) 64)
       (\<lambda>_. bnd (copy_from_user ev (uarg args 0) 64)
         (\<lambda>raw. bnd (read_desc raw)
           (\<lambda>d. bnd (recv_v2_check d)
             (\<lambda>_. bnd (ensure (rd_sys_flags d AND NOT (IPC_SYS_NONBLOCK OR IPC_SYS_TRUNCATE) = 0) invalid_args)
               (\<lambda>_. bnd (endpoint_of_slot ev (unat (rd_slot d)) RECV)
                 (\<lambda>ep. let trunc = (rd_sys_flags d AND IPC_SYS_TRUNCATE \<noteq> 0);
                           nonblock = (rd_sys_flags d AND IPC_SYS_NONBLOCK \<noteq> 0);
                           deadline = rd_deadline d in
                   bnd (modify (\<lambda>k. if \<not> nonblock \<and> deadline \<noteq> 0 then arm_wakeup ev deadline k else k))
                     (\<lambda>_. bnd (wait_message ev ep nonblock deadline)
                       (\<lambda>m. bnd (accept_moved_cap ev ep m)
                         (\<lambda>msg. bnd (copy_to_user ev (rd_header_out d) (header_to_le_bytes (header msg)))
                           (\<lambda>_. bnd (copy_to_user ev (rd_service_out d) (to_le 8 (sender_service_id msg)))
                             (\<lambda>_. deliver_payload ev (rd_payload_out d) (rd_payload_max d) trunc msg)))))))))))"

end
