(* ===== verification/Sys_Objects.thy ===== *)
theory Sys_Objects
  imports Sys_Ipc
begin

text \<open>
  The system calls on kernel objects: timers, interrupt bindings, waitsets and fences of
  \<open>syscall/api/sync_objects.rs\<close>, endpoints and capabilities of \<open>syscall/api/caps.rs\<close>.  The PLIC
  register writes behind an interrupt binding are not modelled.
\<close>

unbundle bit_operations_syntax

subsection \<open>Timers\<close>

definition map_timer_error :: "timer_error \<Rightarrow> sys_error" where
  "map_timer_error e =
     (case e of TmResourceExhausted \<Rightarrow> ErrCap NoSpace | TmInvalidHandle \<Rightarrow> ErrCap InvalidSlot
      | TmAlreadyArmed \<Rightarrow> denied)"

definition timer_id_from_cap :: "env \<Rightarrow> usize \<Rightarrow> u32 sys" where
  "timer_id_from_cap ev slot =
     bnd (caps_look ev (\<lambda>t. cap_get t slot))
       (\<lambda>cap. bnd (ensure (flags_contain (rights cap) MANAGE) denied)
         (\<lambda>_. case kind cap of
            Timer i \<Rightarrow>
              bnd (gets (\<lambda>k. timer_owned_by (k_timers k) i (current_pid ev k)))
                (\<lambda>own. bnd (ensure own denied) (\<lambda>_. ret i))
          | _ \<Rightarrow> fail (ErrCap InvalidSlot)))"

definition sys_timer_create :: "env \<Rightarrow> u64 list \<Rightarrow> usize sys" where
  "sys_timer_create ev args =
     bnd (caps_look ev (\<lambda>t. cap_get t (uarg args 0)))
       (\<lambda>notify. case kind notify of
          Endpoint ep \<Rightarrow>
            bnd (gets (current_pid ev))
              (\<lambda>cur. bnd (try_op map_timer_error (on_timers (timer_alloc cur ep (arg args 1))))
                (\<lambda>i. bnd (attempt (caps_try ev (cap_allocate \<lparr>kind = Timer i, rights = MANAGE\<rparr>)))
                  (\<lambda>r. case r of
                     Inr slot \<Rightarrow> ret slot
                   | Inl e \<Rightarrow> bnd (call (on_timers (timer_free i))) (\<lambda>_. fail e))))
        | _ \<Rightarrow> fail (ErrCap InvalidSlot))"

definition sys_timer_set :: "env \<Rightarrow> u64 list \<Rightarrow> usize sys" where
  "sys_timer_set ev args =
     bnd (timer_id_from_cap ev (uarg args 0))
       (\<lambda>i. bnd (try_op map_timer_error (on_timers (timer_arm i (arg args 1))))
         (\<lambda>_. bnd (modify (arm_wakeup ev (arg args 1))) (\<lambda>_. ret 0)))"

definition sys_timer_cancel :: "env \<Rightarrow> u64 list \<Rightarrow> usize sys" where
  "sys_timer_cancel ev args =
     bnd (timer_id_from_cap ev (uarg args 0))
       (\<lambda>i. bnd (try_op map_timer_error (on_timers (timer_disarm i))) (\<lambda>_. ret 0))"

subsection \<open>Interrupt bindings\<close>

definition MAX_IRQ :: u32 where "MAX_IRQ = 95"

definition irq_new :: "u32 \<Rightarrow> u32 option" where
  "irq_new raw = (if raw = 0 \<or> MAX_IRQ < raw then None else Some raw)"

definition irq_bind :: "u32 \<Rightarrow> endpoint_id \<Rightarrow> kernel \<Rightarrow> kernel" where
  "irq_bind irq ep k = k\<lparr>k_irq := (k_irq k)[unat irq := ep]\<rparr>"

definition sys_irq_bind :: "env \<Rightarrow> u64 list \<Rightarrow> usize sys" where
  "sys_irq_bind ev args =
     (case irq_new (ucast (arg args 0)) of
        None \<Rightarrow> fail (ErrCap InvalidSlot)
      | Some irq \<Rightarrow>
          bnd (caps_look ev (\<lambda>t. cap_get t (uarg args 1)))
            (\<lambda>cap. case kind cap of
               Endpoint ep \<Rightarrow> bnd (modify (irq_bind irq ep)) (\<lambda>_. ret 0)
             | _ \<Rightarrow> fail (ErrCap InvalidSlot)))"

definition sys_irq_complete :: "u64 list \<Rightarrow> usize sys" where
  "sys_irq_complete args =
     (case irq_new (ucast (arg args 0)) of None \<Rightarrow> fail (ErrCap InvalidSlot) | Some irq \<Rightarrow> ret 0)"

subsection \<open>Waitsets\<close>

definition map_waitset_error :: "waitset_error \<Rightarrow> sys_error" where
  "map_waitset_error e = (case e of WsResourceExhausted \<Rightarrow> ErrCap NoSpace | WsInvalidHandle \<Rightarrow> ErrCap InvalidSlot)"

definition waitset_id_from_cap :: "env \<Rightarrow> usize \<Rightarrow> u32 sys" where
  "waitset_id_from_cap ev slot =
     bnd (caps_look ev (\<lambda>t. cap_get t slot))
       (\<lambda>cap. case kind cap of
          Waitset i \<Rightarrow>
            bnd (gets (\<lambda>k. ws_owned_by (k_waitsets k) i (current_pid ev k)))
              (\<lambda>own. bnd (ensure own denied) (\<lambda>_. ret i))
        | _ \<Rightarrow> fail (ErrCap InvalidSlot))"

definition sys_waitset_create :: "env \<Rightarrow> usize sys" where
  "sys_waitset_create ev =
     bnd (gets (current_pid ev))
       (\<lambda>cur. bnd (try_op map_waitset_error (on_waitsets (ws_alloc cur)))
         (\<lambda>i. bnd (attempt (caps_try ev (cap_allocate_high \<lparr>kind = Waitset i, rights = MANAGE\<rparr>)))
           (\<lambda>r. case r of
              Inr slot \<Rightarrow> ret slot
            | Inl e \<Rightarrow> bnd (call (on_waitsets (ws_free i))) (\<lambda>_. fail e))))"

definition sys_waitset_add :: "env \<Rightarrow> u64 list \<Rightarrow> usize sys" where
  "sys_waitset_add ev args =
     bnd (waitset_id_from_cap ev (uarg args 0))
       (\<lambda>i. bnd (endpoint_of_slot ev (uarg args 1) RECV)
         (\<lambda>ep. bnd (try_op map_waitset_error (on_waitsets (ws_add_member i ep))) (\<lambda>_. ret 0)))"

definition register_on_all :: "u32 list \<Rightarrow> pid \<Rightarrow> kernel \<Rightarrow> kernel" where
  "register_on_all eps p k = fold (\<lambda>ep. snd \<circ> on_router (register_recv_waiter ep p)) eps k"

definition ready_member :: "u32 list \<Rightarrow> kernel \<Rightarrow> usize option" where
  "ready_member members k = first_ready members (pending (k_router k))"

definition sys_waitset_wait :: "env \<Rightarrow> u64 list \<Rightarrow> usize sys" where
  "sys_waitset_wait ev args =
     (let deadline = arg args 1 in
      bnd (waitset_id_from_cap ev (uarg args 0))
        (\<lambda>i. bnd (modify (arm_wakeup ev deadline))
          (\<lambda>_. bnd (gets (\<lambda>k. ws_members_of (k_waitsets k) i))
            (\<lambda>mo. case mo of
               None \<Rightarrow> fail (ErrCap InvalidSlot)
             | Some members \<Rightarrow>
                 bnd (gets (current_pid ev))
                   (\<lambda>cur. bnd (modify (drop_recv_waiters members cur))
                     (\<lambda>_. bnd (gets (ready_member members))
                       (\<lambda>first. case first of
                          Some index \<Rightarrow> ret index
                        | None \<Rightarrow>
                            if reached ev deadline then fail (ErrIpc TimedOut)
                            else bnd (modify (register_on_all members cur))
                              (\<lambda>_. bnd (gets (ready_member members))
                                (\<lambda>again. case again of
                                   Some index \<Rightarrow> bnd (modify (drop_recv_waiters members cur)) (\<lambda>_. ret index)
                                 | None \<Rightarrow>
                                     block_and_switch ev cur (BrWaitset i deadline)
                                       (drop_recv_waiters members cur))))))))))"

subsection \<open>Fences\<close>

definition map_fence_error :: "fence_error \<Rightarrow> sys_error" where
  "map_fence_error e = (case e of FnResourceExhausted \<Rightarrow> ErrCap NoSpace | FnInvalidHandle \<Rightarrow> ErrCap InvalidSlot)"

definition fence_id_from_cap :: "env \<Rightarrow> usize \<Rightarrow> u32 sys" where
  "fence_id_from_cap ev slot =
     bnd (caps_look ev (\<lambda>t. cap_get t slot))
       (\<lambda>cap. case kind cap of
          Fence i \<Rightarrow>
            bnd (gets (\<lambda>k. fence_exists (k_fences k) i))
              (\<lambda>ex. bnd (ensure ex (ErrCap InvalidSlot)) (\<lambda>_. ret i))
        | _ \<Rightarrow> fail (ErrCap InvalidSlot))"

definition sys_fence_create :: "env \<Rightarrow> usize sys" where
  "sys_fence_create ev =
     bnd (gets (current_pid ev))
       (\<lambda>cur. bnd (try_op map_fence_error (on_fences (fence_alloc cur)))
         (\<lambda>i. bnd (attempt (caps_try ev (cap_allocate \<lparr>kind = Fence i, rights = MANAGE\<rparr>)))
           (\<lambda>r. case r of
              Inr slot \<Rightarrow> ret slot
            | Inl e \<Rightarrow> bnd (call (on_fences (fence_free i))) (\<lambda>_. fail e))))"

definition sys_fence_signal :: "env \<Rightarrow> u64 list \<Rightarrow> usize sys" where
  "sys_fence_signal ev args =
     bnd (fence_id_from_cap ev (uarg args 0))
       (\<lambda>i. bnd (try_op map_fence_error (on_fences (fence_signal i (arg args 1))))
         (\<lambda>_. bnd (call (on_fences (fence_take_satisfied i MAX_FENCE_WAITERS)))
           (\<lambda>woken. bnd (modify (wake_all ev woken)) (\<lambda>_. ret 0))))"

definition drop_fence_waiter :: "u32 \<Rightarrow> pid \<Rightarrow> kernel \<Rightarrow> kernel" where
  "drop_fence_waiter i p k = k\<lparr>k_fences := fence_remove_waiter i p (k_fences k)\<rparr>"

definition sys_fence_wait :: "env \<Rightarrow> u64 list \<Rightarrow> usize sys" where
  "sys_fence_wait ev args =
     (let target = arg args 1; deadline = arg args 2 in
      bnd (fence_id_from_cap ev (uarg args 0))
        (\<lambda>i. bnd (modify (arm_wakeup ev deadline))
          (\<lambda>_. bnd (gets (current_pid ev))
            (\<lambda>cur. bnd (modify (drop_fence_waiter i cur))
              (\<lambda>_. bnd (gets (\<lambda>k. fence_is_satisfied (k_fences k) i target))
                (\<lambda>sat. if sat = Some True then ret 0
                       else if reached ev deadline then fail (ErrIpc TimedOut)
                       else bnd (try_op map_fence_error (on_fences (fence_register_waiter i cur target)))
                         (\<lambda>_. bnd (gets (\<lambda>k. fence_is_satisfied (k_fences k) i target))
                           (\<lambda>sat2. if sat2 = Some True
                                   then bnd (modify (drop_fence_waiter i cur)) (\<lambda>_. ret 0)
                                   else block_and_switch ev cur (BrFence i target deadline)
                                          (drop_fence_waiter i cur)))))))))"

subsection \<open>Endpoints\<close>

definition has_factory :: "env \<Rightarrow> usize \<Rightarrow> unit sys" where
  "has_factory ev slot =
     bnd (gets (\<lambda>k. case task_of k (current_pid ev k) of
                       None \<Rightarrow> Err PermissionDenied
                     | Some t \<Rightarrow> cap_get (t_caps t) slot))
       (\<lambda>res. bnd (lift_res ErrCap res)
         (\<lambda>cap. ensure (kind cap = EndpointFactory \<and> flags_contain (rights cap) MANAGE) denied))"

definition owner_cap :: "endpoint_id \<Rightarrow> capability" where
  "owner_cap ep = \<lparr>kind = Endpoint ep, rights = SEND OR RECV OR MANAGE\<rparr>"

definition sys_ipc_endpoint_create :: "usize sys" where
  "sys_ipc_endpoint_create = fail denied"

definition sys_ipc_endpoint_create_v2 :: "env \<Rightarrow> u64 list \<Rightarrow> usize sys" where
  "sys_ipc_endpoint_create_v2 ev args =
     bnd (ensure (uarg args 1 \<noteq> 0 \<and> uarg args 1 \<le> 256) invalid_args)
       (\<lambda>_. bnd (has_factory ev (uarg args 0))
         (\<lambda>_. bnd (gets (current_pid ev))
           (\<lambda>cur. bnd (try_op ErrIpc (on_router (create_endpoint (uarg args 1) (Some cur))))
             (\<lambda>ep. caps_try ev (cap_allocate (owner_cap ep))))))"

definition may_own_for :: "env \<Rightarrow> pid \<Rightarrow> kernel \<Rightarrow> bool" where
  "may_own_for ev owner_pid k =
     (case task_of k owner_pid of
        None \<Rightarrow> False
      | Some t \<Rightarrow> owner_pid = current_pid ev k \<or> t_parent t = Some (current_pid ev k))"

definition sys_ipc_endpoint_create_for :: "env \<Rightarrow> u64 list \<Rightarrow> usize sys" where
  "sys_ipc_endpoint_create_for ev args =
     (let owner_pid = ucast (arg args 1) :: pid in
      bnd (ensure (uarg args 2 \<noteq> 0 \<and> uarg args 2 \<le> 256) invalid_args)
        (\<lambda>_. bnd (has_factory ev (uarg args 0))
          (\<lambda>_. bnd (gets (may_own_for ev owner_pid))
            (\<lambda>may. bnd (ensure may denied)
              (\<lambda>_. bnd (try_op ErrIpc (on_router (create_endpoint (uarg args 2) (Some owner_pid))))
                (\<lambda>ep. caps_try ev (cap_allocate (owner_cap ep))))))))"

definition sys_ipc_endpoint_close :: "env \<Rightarrow> u64 list \<Rightarrow> usize sys" where
  "sys_ipc_endpoint_close ev args =
     bnd (caps_try ev (cap_take (uarg args 0)))
       (\<lambda>cap. case kind cap of
          Endpoint i \<Rightarrow>
            bnd (ensure (flags_contain (rights cap) MANAGE) denied)
              (\<lambda>_. bnd (try_op ErrIpc (on_router (close_endpoint i)))
                (\<lambda>waiters. bnd (modify (wake_all ev waiters)) (\<lambda>_. ret 0)))
        | _ \<Rightarrow> fail (ErrCap InvalidSlot))"

subsection \<open>Capabilities\<close>

definition release_object :: "env \<Rightarrow> capability_kind \<Rightarrow> kernel \<Rightarrow> kernel" where
  "release_object ev kd k =
     (case kd of
        Timer i \<Rightarrow> snd (on_timers (timer_free i) k)
      | Waitset i \<Rightarrow> snd (on_waitsets (ws_free i) k)
      | Fence i \<Rightarrow>
          if fence_owned_by (k_fences k) i (current_pid ev k) then snd (on_fences (fence_free i) k) else k
      | _ \<Rightarrow> k)"

definition sys_cap_close :: "env \<Rightarrow> u64 list \<Rightarrow> usize sys" where
  "sys_cap_close ev args =
     bnd (caps_try ev (cap_take (uarg args 0)))
       (\<lambda>cap. bnd (modify (release_object ev (kind cap))) (\<lambda>_. ret 0))"

definition sys_cap_clone :: "env \<Rightarrow> u64 list \<Rightarrow> usize sys" where
  "sys_cap_clone ev args =
     bnd (caps_look ev (\<lambda>t. cap_get t (uarg args 0)))
       (\<lambda>cap. if kind cap = EndpointFactory then fail denied else caps_try ev (cap_allocate cap))"

definition query_bytes :: "u32 \<Rightarrow> usize \<Rightarrow> usize \<Rightarrow> u8 list" where
  "query_bytes tag base len =
     to_le 4 tag @ to_le 4 (0 :: u32) @ to_le 8 (of_nat base :: u64) @ to_le 8 (of_nat len :: u64)"

definition sys_cap_query :: "env \<Rightarrow> u64 list \<Rightarrow> usize sys" where
  "sys_cap_query ev args =
     bnd (check_slice (uarg args 1) 24)
       (\<lambda>_. bnd (caps_look ev (\<lambda>t. cap_derive t (uarg args 0) MAP))
         (\<lambda>cap. case kind cap of
            Vmo base len \<Rightarrow> bnd (copy_to_user ev (uarg args 1) (query_bytes 1 base len)) (\<lambda>_. ret 0)
          | DeviceMmio base len \<Rightarrow> bnd (copy_to_user ev (uarg args 1) (query_bytes 2 base len)) (\<lambda>_. ret 0)
          | _ \<Rightarrow> fail denied))"

definition ALL_RIGHTS :: rights where "ALL_RIGHTS = SEND OR RECV OR MAP OR MANAGE"

definition rights_from_bits :: "u32 \<Rightarrow> rights option" where
  "rights_from_bits b = (if b AND NOT ALL_RIGHTS = 0 then Some b else None)"

definition transfer_denied :: sys_error where
  "transfer_denied = ErrTransfer (TrCapability PermissionDenied)"

text \<open>The two checks before a transfer: MANAGE leaves the caller only with a factory or a fence, and the
  factory only from the bootstrap task to its first child.\<close>

definition transfer_manage_check :: "env \<Rightarrow> usize \<Rightarrow> rights \<Rightarrow> kernel \<Rightarrow> sys_error + unit" where
  "transfer_manage_check ev slot r k =
     (if \<not> flags_contain r MANAGE then Ok ()
      else case task_of k (current_pid ev k) of
        None \<Rightarrow> Err (ErrTransfer TrInvalidParent)
      | Some t \<Rightarrow>
          (case cap_get (t_caps t) slot of
             Inl e \<Rightarrow> Err (ErrTransfer (TrCapability e))
           | Inr base \<Rightarrow>
               (case kind base of EndpointFactory \<Rightarrow> Ok () | Fence _ \<Rightarrow> Ok () | _ \<Rightarrow> Err transfer_denied)))"

definition transfer_factory_check :: "env \<Rightarrow> pid \<Rightarrow> usize \<Rightarrow> kernel \<Rightarrow> sys_error + unit" where
  "transfer_factory_check ev child slot k =
     (case task_of k (current_pid ev k) of
        None \<Rightarrow> Ok ()
      | Some t \<Rightarrow>
          (case cap_get (t_caps t) slot of
             Inl _ \<Rightarrow> Ok ()
           | Inr base \<Rightarrow>
               if kind base = EndpointFactory \<and> \<not> (current_pid ev k = KERNEL_PID \<and> child = 1)
               then Err transfer_denied else Ok ()))"

definition transfer_checked :: "env \<Rightarrow> pid \<Rightarrow> usize \<Rightarrow> u32 \<Rightarrow> transfer_mode \<Rightarrow> usize sys" where
  "transfer_checked ev child slot bits mode =
     (case rights_from_bits bits of
        None \<Rightarrow> fail transfer_denied
      | Some r \<Rightarrow>
          (\<lambda>k. case transfer_manage_check ev slot r k of
                 Inl e \<Rightarrow> fail e k
               | Inr _ \<Rightarrow>
                   (case transfer_factory_check ev child slot k of
                      Inl e \<Rightarrow> fail e k
                    | Inr _ \<Rightarrow>
                        try_op ErrTransfer (transfer_cap_with_mode (current_pid ev k) child slot r mode) k)))"

definition sys_cap_transfer :: "env \<Rightarrow> u64 list \<Rightarrow> usize sys" where
  "sys_cap_transfer ev args =
     transfer_checked ev (ucast (arg args 0)) (uarg args 1) (ucast (arg args 2)) CopyAllocate"

definition sys_cap_transfer_to :: "env \<Rightarrow> u64 list \<Rightarrow> usize sys" where
  "sys_cap_transfer_to ev args =
     transfer_checked ev (ucast (arg args 0)) (uarg args 1) (ucast (arg args 2)) (CopyToSlot (uarg args 3))"

end
