(* ===== verification/Sys_Task.thy ===== *)
theory Sys_Task
  imports Sys_Objects
begin

text \<open>
  The task and scheduling system calls of \<open>syscall/api/sched_task.rs\<close>: service classes, affinity and
  shares, yield, exit, wait, spawn and resume, and the small calls of \<open>syscall/api/mod.rs\<close>.  The
  lock-accounting reports of \<open>sys_sched\<close> (operations 4 and 5) only log.
\<close>

unbundle bit_operations_syntax

subsection \<open>Service identities\<close>

definition service_id_from_name :: "u8 list \<Rightarrow> u64" where
  "service_id_from_name name =
     fold (\<lambda>b h. (h XOR ucast b) * 0x100000001b3) name 0xcbf29ce484222325"

definition QOS_ADMINS :: "u8 list list" where
  "QOS_ADMINS = [ascii ''execd'', ascii ''policyd'', ascii ''init-lite'', ascii ''nexus-init'']"

definition is_qos_admin :: "u64 \<Rightarrow> bool" where
  "is_qos_admin sid = list_ex (\<lambda>n. sid = service_id_from_name n) QOS_ADMINS"

definition caller_has_qos_admin :: "env \<Rightarrow> bool sys" where
  "caller_has_qos_admin ev = cur_task ev (\<lambda>t. is_qos_admin (t_service_id t))"

definition initial_qos_for :: "u64 \<Rightarrow> qos_class" where
  "initial_qos_for sid =
     (if sid = service_id_from_name (ascii ''dsoftbusd'') \<or> sid = service_id_from_name (ascii ''touchd'')
      then Idle else Normal)"

subsection \<open>Service classes\<close>

definition TASK_QOS_OP_GET_SELF :: u64 where "TASK_QOS_OP_GET_SELF = 0"
definition TASK_QOS_OP_SET :: u64 where "TASK_QOS_OP_SET = 1"

text \<open>Setting the class in the scheduler and, unless its queue is full, in the task.\<close>

definition apply_qos :: "pid \<Rightarrow> qos_class \<Rightarrow> kernel \<Rightarrow> (sys_error + usize) \<times> kernel" where
  "apply_qos target q k =
     (case set_task_qos target q (k_sched k) of
        (QosQueueFull, s) \<Rightarrow> (Err (ErrIpc QueueFull), k\<lparr>k_sched := s\<rparr>)
      | (_, s) \<Rightarrow>
          (case task_of k target of
             None \<Rightarrow> (Err invalid_args, k\<lparr>k_sched := s\<rparr>)
           | Some _ \<Rightarrow> (Ok 0, upd_task target (\<lambda>t. t\<lparr>t_qos := q\<rparr>) (k\<lparr>k_sched := s\<rparr>))))"

definition sys_task_qos :: "env \<Rightarrow> u64 list \<Rightarrow> usize sys" where
  "sys_task_qos ev args =
     bnd (ensure (uarg args 1 \<le> 0xFFFFFFFF) invalid_args)
       (\<lambda>_. bnd (ensure (uarg args 2 \<le> 0xFF) invalid_args)
         (\<lambda>_. if arg args 0 = TASK_QOS_OP_GET_SELF then cur_task ev (\<lambda>t. qos_index (t_qos t))
              else if arg args 0 = TASK_QOS_OP_SET then
                (case qos_from_u8 (ucast (arg args 2)) of
                   None \<Rightarrow> fail invalid_args
                 | Some q \<Rightarrow>
                     (let target = ucast (arg args 1) :: pid in
                      bnd (gets (\<lambda>k. task_of k target))
                        (\<lambda>tt. case tt of
                           None \<Rightarrow> fail invalid_args
                         | Some t \<Rightarrow>
                             bnd (caller_has_qos_admin ev)
                               (\<lambda>privileged. bnd (gets (current_pid ev))
                                 (\<lambda>cur. bnd (ensure (target = cur \<or> privileged) denied)
                                   (\<lambda>_. bnd (ensure (qos_index q \<le> qos_index (t_qos t) \<or> privileged) denied)
                                     (\<lambda>_. try_op id (apply_qos target q))))))))
              else fail invalid_args))"

subsection \<open>Affinity and shares\<close>

definition set_affinity :: "pid \<Rightarrow> u8 \<Rightarrow> kernel \<Rightarrow> kernel" where
  "set_affinity target m k =
     (case task_of k target of
        None \<Rightarrow> k
      | Some t \<Rightarrow>
          set_home_cpu target (clamp_home_to_affinity m (t_home_cpu t) (sm_online (k_smp k)))
            (upd_task target (\<lambda>t. t\<lparr>t_affinity := m\<rparr>) k))"

definition clamp_shares :: "usize \<Rightarrow> u16" where
  "clamp_shares v = of_nat (min (max v 1) 1000)"

definition task_or_invalid :: "pid \<Rightarrow> (task \<Rightarrow> 'a) \<Rightarrow> 'a sys" where
  "task_or_invalid p f =
     bnd (gets (\<lambda>k. task_of k p)) (\<lambda>t. case t of None \<Rightarrow> fail invalid_args | Some t \<Rightarrow> ret (f t))"

definition sched_op :: "pid \<Rightarrow> usize \<Rightarrow> u64 \<Rightarrow> usize sys" where
  "sched_op target op v =
     (if op = 0 then task_or_invalid target (\<lambda>t. unat (t_affinity t))
      else if op = 1 then
        bnd (gets (\<lambda>k. sm_online (k_smp k)))
          (\<lambda>online. bnd (lift_res (\<lambda>_. invalid_args) (validate_affinity_mask v online))
            (\<lambda>m. bnd (task_or_invalid target (\<lambda>_. ()))
              (\<lambda>_. bnd (modify (set_affinity target m)) (\<lambda>_. ret 0))))
      else if op = 2 then task_or_invalid target (\<lambda>t. unat (t_shares t))
      else if op = 3 then
        bnd (task_or_invalid target (\<lambda>_. ()))
          (\<lambda>_. bnd (modify (upd_task target (\<lambda>t. t\<lparr>t_shares := clamp_shares (unat v)\<rparr>)))
            (\<lambda>_. ret (unat (clamp_shares (unat v)))))
      else fail invalid_args)"

definition sys_sched :: "env \<Rightarrow> u64 list \<Rightarrow> usize sys" where
  "sys_sched ev args =
     (let op = uarg args 0 in
      if op = 5 \<or> op = 4 then ret 0
      else bnd (ensure (uarg args 1 \<le> 0xFFFFFFFF) invalid_args)
        (\<lambda>_. bnd (gets (current_pid ev))
          (\<lambda>cur. let target = (if arg args 1 = 0 then cur else ucast (arg args 1)) in
            bnd (if target = cur then ret True else caller_has_qos_admin ev)
              (\<lambda>may. bnd (ensure may denied) (\<lambda>_. sched_op target op (arg args 2))))))"

subsection \<open>Yield, exit and wait\<close>

definition sys_spawn_last_error :: "env \<Rightarrow> usize sys" where
  "sys_spawn_last_error ev =
     bnd (gets (current_pid ev))
       (\<lambda>cur. bnd (call (take_last_spawn_fail_reason cur))
         (\<lambda>r. ret (unat (fail_reason_as_u8 (case r of None \<Rightarrow> FailUnknown | Some x \<Rightarrow> x)))))"

definition sys_yield :: "env \<Rightarrow> usize sys" where
  "sys_yield ev =
     bnd (modify (wake_expired_blocked ev))
       (\<lambda>_. bnd (modify (\<lambda>k. k\<lparr>k_sched := yield_current (ev_cpu ev) (k_sched k)\<rparr>))
         (\<lambda>_. bnd (call (on_sched (schedule_next (ev_cpu ev))))
           (\<lambda>picked. case picked of
              Some p \<Rightarrow> bnd (modify (set_current ev p)) (\<lambda>_. ret (unat p))
            | None \<Rightarrow> bnd (gets (current_pid ev)) (\<lambda>cur. ret (unat cur)))))"

text \<open>Switching to the next task on the way out of an exit.\<close>

definition activate_of :: "pid \<Rightarrow> unit sys" where
  "activate_of p =
     bnd (gets (\<lambda>k. case task_of k p of
                      None \<Rightarrow> Ok 0
                    | Some t \<Rightarrow> (case t_address_space t of None \<Rightarrow> Ok 0 | Some h \<Rightarrow> as_activate (k_spaces k) h)))
       (\<lambda>r. bnd (lift_res ErrAs r) (\<lambda>_. ret ()))"

definition sys_exit :: "env \<Rightarrow> u64 list \<Rightarrow> usize sys" where
  "sys_exit ev args =
     (let status = ucast (arg args 0) :: 32 word in
      bnd (gets (current_pid ev))
        (\<lambda>exiting. bnd (call (on_router (close_endpoints_for_owner exiting)))
          (\<lambda>waiters. bnd (modify (\<lambda>k. k\<lparr>k_router := remove_waiter_from_all exiting (k_router k)\<rparr>))
            (\<lambda>_. bnd (modify (exit_current_and_release ev status))
              (\<lambda>_. bnd (modify (wake_all ev waiters))
                (\<lambda>_. bnd (modify (wake_parent_waiter ev exiting))
                  (\<lambda>_. bnd (modify (\<lambda>k. k\<lparr>k_sched := finish_current (ev_cpu ev) (k_sched k)\<rparr>))
                    (\<lambda>_. bnd (call (on_sched (schedule_next (ev_cpu ev))))
                      (\<lambda>picked. case picked of
                         Some p \<Rightarrow>
                           bnd (modify (set_current ev p))
                             (\<lambda>_. bnd (activate_of p) (\<lambda>_. fail TaskExit))
                       | None \<Rightarrow> bnd (modify (set_current ev KERNEL_PID)) (\<lambda>_. fail TaskExit))))))))))"

text \<open>The exit status goes to register a1 of the caller.\<close>

definition set_a1 :: "env \<Rightarrow> u64 \<Rightarrow> kernel \<Rightarrow> kernel" where
  "set_a1 ev v k =
     upd_task (current_pid ev k) (\<lambda>t. t\<lparr>t_frame := (t_frame t)\<lparr>tf_x := (tf_x (t_frame t))[11 := v]\<rparr>\<rparr>) k"

definition wait_target :: "u64 \<Rightarrow> pid option" where
  "wait_target a = (if sint (ucast a :: 32 word) \<le> 0 then None else Some (ucast a))"

definition sys_wait :: "env \<Rightarrow> u64 list \<Rightarrow> usize sys" where
  "sys_wait ev args =
     bnd (call (reap_child ev (wait_target (arg args 0))))
       (\<lambda>r. case r of
          Inr ps \<Rightarrow> bnd (modify (set_a1 ev (scast (snd ps)))) (\<lambda>_. ret (unat (fst ps)))
        | Inl e \<Rightarrow>
            if e = WouldBlock then
              bnd (gets (current_pid ev))
                (\<lambda>cur. bnd (modify (block_current ev (BrWaitChild (wait_target (arg args 0)))))
                  (\<lambda>_. switch_or_retry ev cur id))
            else fail (ErrWait e))"

subsection \<open>Spawn and resume\<close>

definition sys_as_self :: "env \<Rightarrow> usize sys" where
  "sys_as_self ev =
     bnd (gets (\<lambda>k. case task_of k (current_pid ev k) of None \<Rightarrow> None | Some t \<Rightarrow> t_address_space t))
       (\<lambda>h. case h of None \<Rightarrow> fail (ErrAs InvalidHandle) | Some handle \<Rightarrow> ret (unat handle))"

definition opt_or :: "sys_error \<Rightarrow> 'a option \<Rightarrow> 'a sys" where
  "opt_or e x = (case x of None \<Rightarrow> fail e | Some a \<Rightarrow> ret a)"

definition sys_spawn :: "env \<Rightarrow> u64 list \<Rightarrow> usize sys" where
  "sys_spawn ev args =
     bnd (opt_or invalid_args (va_instr_aligned (ev_build ev) (arg args 0)))
       (\<lambda>entry. bnd (if arg args 1 = 0 then ret None
                     else bnd (opt_or invalid_args (va_new (arg args 1))) (\<lambda>va. ret (Some va)))
         (\<lambda>sp. let handle = handle_from_raw (ucast (arg args 2)) in
           bnd (ensure (handle \<noteq> None \<longrightarrow> sp \<noteq> None) invalid_args)
             (\<lambda>_. bnd (ensure (handle = None \<longrightarrow> sp = None) invalid_args)
               (\<lambda>_. bnd (gets (current_pid ev))
                 (\<lambda>parent. bnd (attempt (try_panic ErrSpawn
                                  (spawn ev parent entry sp handle (arg args 4) (uarg args 3))))
                   (\<lambda>r. case r of
                      Inl e \<Rightarrow>
                        bnd (modify (case e of
                               ErrSpawn se \<Rightarrow> set_last_spawn_fail_reason parent (spawn_fail_reason_of se)
                             | _ \<Rightarrow> id)) (\<lambda>_. fail e)
                    | Inr p \<Rightarrow>
                        bnd (if handle = None then bnd (call (resume_task ev p)) (\<lambda>_. ret ()) else ret ())
                          (\<lambda>_. ret (unat p))))))))"

definition sys_task_resume :: "env \<Rightarrow> u64 list \<Rightarrow> usize sys" where
  "sys_task_resume ev args =
     bnd (call (resume_task ev (ucast (arg args 0))))
       (\<lambda>out. if out = Resumed then ret 0
            else if out = ResumeRejected then fail ErrRunQueueFull else fail ErrInvalidTarget)"

subsection \<open>Small calls\<close>

definition sys_getpid :: "env \<Rightarrow> usize sys" where
  "sys_getpid ev = bnd (gets (current_pid ev)) (\<lambda>p. ret (unat p))"

definition sys_nsec :: "env \<Rightarrow> usize sys" where
  "sys_nsec ev = ret (unat (ev_now ev))"

definition sys_boot_mode :: "env \<Rightarrow> usize sys" where
  "sys_boot_mode ev = ret (if ev_fold_verdicts ev then 1 else 0)"

definition sys_boot_display_mode :: "env \<Rightarrow> usize sys" where
  "sys_boot_display_mode ev = ret (unat (ev_display_mode ev))"

definition sys_debug_putc :: "u64 list \<Rightarrow> usize sys" where
  "sys_debug_putc args = ret (unat (arg args 0 AND 0xff))"

definition sys_debug_write :: "env \<Rightarrow> u64 list \<Rightarrow> usize sys" where
  "sys_debug_write ev args =
     (let len = min (uarg args 1) 1024 in
      if len = 0 then ret 0
      else bnd (check_slice (uarg args 0) len)
        (\<lambda>_. bnd (copy_from_user ev (uarg args 0) len) (\<lambda>_. ret len)))"

end
