(* ===== verification/Sys_Mem.thy ===== *)
theory Sys_Mem
  imports Sys_Task
begin

text \<open>
  The memory system calls of \<open>syscall/api/vmo.rs\<close>: mapping VMO and device pages, device capabilities,
  VMO creation (in one piece and in the phases the trap handler runs), destruction, bounded reads and
  writes, and address spaces.  VMO memory is reached through the kernel's identity mapping.
\<close>

unbundle bit_operations_syntax

subsection \<open>Mapping\<close>

definition ALL_PAGE_FLAGS :: u64 where
  "ALL_PAGE_FLAGS = PF_VALID OR PF_READ OR PF_WRITE OR PF_EXECUTE OR PF_USER OR PF_GLOBAL OR PF_ACCESSED OR PF_DIRTY"

definition page_flags_from_bits :: "u64 \<Rightarrow> u64 option" where
  "page_flags_from_bits b = (if b AND NOT ALL_PAGE_FLAGS = 0 then Some b else None)"

abbreviation map_denied :: sys_error where
  "map_denied \<equiv> ErrAs (Mapping MapPermissionDenied)"

definition map_in :: "u32 \<Rightarrow> u64 \<Rightarrow> u64 \<Rightarrow> u64 \<Rightarrow> unit sys" where
  "map_in handle va pa flags = try_panic ErrAs (on_spaces (as_map_page handle va pa flags))"

definition own_space :: "env \<Rightarrow> u32 sys" where
  "own_space ev = bnd (cur_task ev t_address_space) (opt_or (ErrAs InvalidHandle))"

definition sys_map :: "env \<Rightarrow> u64 list \<Rightarrow> usize sys" where
  "sys_map ev args =
     bnd (opt_or invalid_args (va_page_aligned (arg args 1)))
       (\<lambda>va. bnd (opt_or invalid_args (page_flags_from_bits (arg args 3)))
         (\<lambda>flags. bnd (ensure (\<not> (flags_contain flags PF_WRITE \<and> flags_contain flags PF_EXECUTE)) map_denied)
           (\<lambda>_. bnd (caps_look ev (\<lambda>t. cap_derive t (uarg args 0) MAP))
             (\<lambda>cap. case kind cap of
                Vmo base len \<Rightarrow>
                  bnd (ensure (uarg args 2 < len) denied)
                    (\<lambda>_. bnd (own_space ev)
                      (\<lambda>handle. bnd (map_in handle va (of_nat (base + page_floor (uarg args 2))) flags)
                        (\<lambda>_. ret 0)))
              | _ \<Rightarrow> fail denied))))"

definition sys_mmio_map :: "env \<Rightarrow> u64 list \<Rightarrow> usize sys" where
  "sys_mmio_map ev args =
     bnd (opt_or invalid_args (va_page_aligned (arg args 1)))
       (\<lambda>va. bnd (caps_look ev (\<lambda>t. cap_derive t (uarg args 0) MAP))
         (\<lambda>cap. case kind cap of
            DeviceMmio base len \<Rightarrow>
              bnd (ensure (uarg args 2 < len) denied)
                (\<lambda>_. bnd (ensure (uarg args 2 mod PAGE_SIZE = 0) denied)
                  (\<lambda>_. bnd (own_space ev)
                    (\<lambda>handle. bnd (opt_or invalid_args (checked_add base (page_floor (uarg args 2))))
                      (\<lambda>pa. bnd (map_in handle va (of_nat pa) RW_USER) (\<lambda>_. ret 0)))))
          | _ \<Rightarrow> fail denied))"

subsection \<open>Device capabilities\<close>

text \<open>Installing a fresh capability in a given slot, or in the first free one.\<close>

definition install_cap :: "env \<Rightarrow> u64 \<Rightarrow> capability \<Rightarrow> usize sys" where
  "install_cap ev slot_raw cap =
     (if slot_raw = -1 then caps_try ev (cap_allocate cap)
      else bnd (caps_try ev (cap_set (unat slot_raw) cap)) (\<lambda>_. ret (unat slot_raw)))"

definition sys_device_cap_create :: "env \<Rightarrow> u64 list \<Rightarrow> usize sys" where
  "sys_device_cap_create ev args =
     (let base = uarg args 0; len = uarg args 1 in
      bnd (ensure (len \<noteq> 0) invalid_args)
        (\<lambda>_. bnd (ensure (base mod PAGE_SIZE = 0 \<and> len mod PAGE_SIZE = 0) invalid_args)
          (\<lambda>_. bnd (opt_or invalid_args (checked_add base len))
            (\<lambda>e. bnd (ensure (base < e) invalid_args)
              (\<lambda>_. bnd (attempt (caps_look ev (\<lambda>t. cap_get t 1)))
                (\<lambda>r. case r of
                   Inl _ \<Rightarrow> fail denied
                 | Inr f \<Rightarrow>
                     bnd (ensure (kind f = EndpointFactory \<and> flags_contain (rights f) MANAGE) denied)
                       (\<lambda>_. install_cap ev (arg args 2) \<lparr>kind = DeviceMmio base len, rights = MAP\<rparr>)))))))"

subsection \<open>Virtual memory objects\<close>

definition vmo_cap :: "usize \<Rightarrow> usize \<Rightarrow> capability" where
  "vmo_cap base len = \<lparr>kind = Vmo base len, rights = MAP\<rparr>"

definition pool_reserve :: "usize \<Rightarrow> vmo_pool \<Rightarrow> memory \<Rightarrow> (cap_error + usize \<times> usize \<times> bool) \<times> vmo_pool \<times> memory" where
  "pool_reserve len p mem = (case pool_allocate_nozero len p of (r, p') \<Rightarrow> (r, p', mem))"

definition vmo_create_reserve :: "u64 list \<Rightarrow> (usize \<times> usize \<times> bool) sys" where
  "vmo_create_reserve args =
     bnd (ensure (uarg args 1 \<noteq> 0) denied)
       (\<lambda>_. try_op ErrCap (on_pool (pool_reserve (uarg args 1))))"

definition vmo_create_finish :: "env \<Rightarrow> usize \<Rightarrow> usize \<Rightarrow> u64 \<Rightarrow> usize sys" where
  "vmo_create_finish ev base aligned slot_raw =
     bnd (attempt (install_cap ev slot_raw (vmo_cap base aligned)))
       (\<lambda>r. case r of
          Inr slot \<Rightarrow> ret slot
        | Inl e \<Rightarrow> bnd (call (on_pool (pool_free base aligned))) (\<lambda>_. fail e))"

definition sys_vmo_create :: "env \<Rightarrow> u64 list \<Rightarrow> usize sys" where
  "sys_vmo_create ev args =
     bnd (ensure (uarg args 1 \<noteq> 0) denied)
       (\<lambda>_. bnd (try_op ErrCap (on_pool (pool_allocate (uarg args 1))))
         (\<lambda>range. install_cap ev (arg args 0) (vmo_cap (fst range) (snd range))))"

definition vmo_references :: "usize \<Rightarrow> usize \<Rightarrow> kernel \<Rightarrow> nat" where
  "vmo_references base len k = sum_list (map (\<lambda>t. vmo_overlap_count base len (t_caps t)) (tt_tasks (k_tt k)))"

definition sys_vmo_destroy :: "env \<Rightarrow> u64 list \<Rightarrow> usize sys" where
  "sys_vmo_destroy ev args =
     bnd (caps_look ev (\<lambda>t. cap_get t (uarg args 0)))
       (\<lambda>cap. case kind cap of
          Vmo base len \<Rightarrow>
            bnd (gets (vmo_references base len))
              (\<lambda>refs. bnd (ensure (refs = 1) denied)
                (\<lambda>_. bnd (caps_try ev (cap_take (uarg args 0)))
                  (\<lambda>_. bnd (try_op ErrCap (on_pool (pool_free base len))) (\<lambda>_. ret 0))))
        | _ \<Rightarrow> fail denied)"

text \<open>The VMO span of a bounded copy.\<close>

definition vmo_span :: "env \<Rightarrow> u64 list \<Rightarrow> usize sys" where
  "vmo_span ev args =
     bnd (caps_look ev (\<lambda>t. cap_derive t (uarg args 0) MAP))
       (\<lambda>cap. case kind cap of
          Vmo base vmo_len \<Rightarrow>
            bnd (opt_or denied (checked_add (uarg args 1) (uarg args 3)))
              (\<lambda>span_end. bnd (ensure (span_end \<le> vmo_len) denied)
                (\<lambda>_. bnd (check_slice (uarg args 2) (uarg args 3)) (\<lambda>_. ret (base + uarg args 1))))
        | _ \<Rightarrow> fail denied)"

definition sys_vmo_read :: "env \<Rightarrow> u64 list \<Rightarrow> usize sys" where
  "sys_vmo_read ev args =
     bnd (vmo_span ev args)
       (\<lambda>pa. bnd (gets (\<lambda>k. map (k_mem k) [pa..<pa + uarg args 3]))
         (\<lambda>bs. bnd (copy_to_user ev (uarg args 2) bs) (\<lambda>_. ret (uarg args 3))))"

definition sys_vmo_write :: "env \<Rightarrow> u64 list \<Rightarrow> usize sys" where
  "sys_vmo_write ev args =
     bnd (vmo_span ev args)
       (\<lambda>pa. bnd (copy_from_user ev (uarg args 2) (uarg args 3))
         (\<lambda>bs. bnd (modify (\<lambda>k. k\<lparr>k_mem := write_bytes (zip [pa..<pa + length bs] bs) (k_mem k)\<rparr>))
           (\<lambda>_. ret (uarg args 3))))"

subsection \<open>Address spaces\<close>

definition PROT_READ :: u32 where "PROT_READ = 1"
definition PROT_WRITE :: u32 where "PROT_WRITE = 2"
definition PROT_EXEC :: u32 where "PROT_EXEC = 4"
definition MAP_FLAG_USER :: u32 where "MAP_FLAG_USER = 1"

definition sys_as_create :: "env \<Rightarrow> usize sys" where
  "sys_as_create ev =
     bnd (try_panic ErrAs (on_spaces (as_create (ev_build ev) (ev_shoot ev)))) (\<lambda>h. ret (unat h))"

definition prot_flags :: "u32 \<Rightarrow> u32 \<Rightarrow> u64" where
  "prot_flags prot fl =
     PF_VALID OR (if prot AND PROT_READ \<noteq> 0 then PF_READ else 0)
     OR (if prot AND PROT_WRITE \<noteq> 0 then PF_WRITE else 0)
     OR (if prot AND PROT_EXEC \<noteq> 0 then PF_EXECUTE else 0)
     OR (if fl AND MAP_FLAG_USER \<noteq> 0 then PF_USER else 0)"

text \<open>Mapping consecutive pages; shared by \<open>as_map\<close> and the program loaders.\<close>

definition map_pages :: "u32 \<Rightarrow> usize \<Rightarrow> usize \<Rightarrow> u64 \<Rightarrow> nat \<Rightarrow> unit sys" where
  "map_pages handle va pa flags pages =
     each (\<lambda>page. bnd (opt_or invalid_args (checked_add va (page * PAGE_SIZE)))
                    (\<lambda>v. bnd (opt_or invalid_args (checked_add pa (page * PAGE_SIZE)))
                      (\<lambda>p. map_in handle (of_nat v) (of_nat p) flags)))
       [0..<pages]"

definition sys_as_map :: "env \<Rightarrow> u64 list \<Rightarrow> usize sys" where
  "sys_as_map ev args =
     bnd (opt_or (ErrAs InvalidHandle) (handle_from_raw (ucast (arg args 0))))
       (\<lambda>handle. bnd (opt_or invalid_args (va_page_aligned (arg args 2)))
         (\<lambda>va. bnd (opt_or invalid_args (page_len (arg args 3)))
           (\<lambda>len. let prot = ucast (arg args 4) :: u32; flags = prot_flags prot (ucast (arg args 5)) in
             bnd (ensure (len \<noteq> 0) invalid_args)
               (\<lambda>_. bnd (ensure (\<not> (prot AND PROT_WRITE \<noteq> 0 \<and> prot AND PROT_EXEC \<noteq> 0)) map_denied)
                 (\<lambda>_. bnd (opt_or invalid_args (checked_add (unat va) len))
                   (\<lambda>_. bnd (caps_look ev (\<lambda>t. cap_derive t (uarg args 1) MAP))
                     (\<lambda>cap. case kind cap of
                        Vmo base vmo_len \<Rightarrow>
                          (let map_bytes = min len vmo_len; pages = map_bytes div PAGE_SIZE in
                           bnd (ensure (pages \<noteq> 0) invalid_args)
                             (\<lambda>_. bnd (opt_or invalid_args (checked_mul pages PAGE_SIZE))
                               (\<lambda>span. bnd (opt_or invalid_args (checked_add (unat va) span))
                                 (\<lambda>_. bnd (ensure (\<not> (flags_contain flags PF_WRITE \<and> flags_contain flags PF_EXECUTE))
                                             map_denied)
                                   (\<lambda>_. bnd (map_pages handle (unat va) base flags pages) (\<lambda>_. ret 0))))))
                      | _ \<Rightarrow> fail denied)))))))"

end
