(* ===== verification/Sys_Exec.thy ===== *)
theory Sys_Exec
  imports Sys_Mem
begin

text \<open>
  The program loaders of \<open>syscall/api/exec.rs\<close>: \<open>exec\<close> and \<open>exec_v2\<close> read an ELF64 image from the
  caller's memory, map its loadable segments and a guarded stack into a fresh address space, stage the
  byte copies in a bounded plan and spawn the child.  The mutable variables of the loaders are the
  record \<open>loader\<close>; \<open>exec_v2\<close> needs their values also after an error, to give everything back.
\<close>

unbundle bit_operations_syntax

subsection \<open>Copy plan\<close>

definition MAX_COPY_OPS :: usize where "MAX_COPY_OPS = 24"

text \<open>\<open>co_src = usize_max\<close> is a pure zero operation.\<close>

record copy_op =
  co_src :: usize
  co_dst :: usize
  co_len :: usize

record load_range =
  lr_start :: usize
  lr_end :: usize
  lr_writable :: bool

record loader =
  ld_plan :: "copy_op list"
  ld_image :: image_allocs
  ld_first_rw :: "usize option"
  ld_max_end :: usize
  ld_ranges :: "load_range list"

definition loader_new :: loader where
  "loader_new = \<lparr>ld_plan = [], ld_image = image_new, ld_first_rw = None, ld_max_end = 0, ld_ranges = []\<rparr>"

text \<open>A loader step: its result and the variables, whatever the result.\<close>

type_synonym 'a ld = "loader \<Rightarrow> ((sys_error + 'a) \<times> loader) sys"

definition ld_bnd :: "'a ld \<Rightarrow> ('a \<Rightarrow> 'b ld) \<Rightarrow> 'b ld" where
  "ld_bnd m f l =
     bnd (m l) (\<lambda>rl. case fst rl of Inl e \<Rightarrow> ret (Err e, snd rl) | Inr a \<Rightarrow> f a (snd rl))"

definition ld_lift :: "'a sys \<Rightarrow> 'a ld" where
  "ld_lift m l = bnd (attempt m) (\<lambda>r. ret (r, l))"

definition ld_ret :: "'a \<Rightarrow> 'a ld" where
  "ld_ret a l = ret (Ok a, l)"

definition ld_modify :: "(loader \<Rightarrow> loader) \<Rightarrow> unit ld" where
  "ld_modify f l = ret (Ok (), f l)"

definition ld_get :: "(loader \<Rightarrow> 'a) \<Rightarrow> 'a ld" where
  "ld_get f l = ret (Ok (f l), l)"

fun ld_each :: "('x \<Rightarrow> unit ld) \<Rightarrow> 'x list \<Rightarrow> unit ld" where
  "ld_each f [] = ld_ret ()"
| "ld_each f (x # xs) = ld_bnd (f x) (\<lambda>_. ld_each f xs)"

definition plan_push :: "copy_op \<Rightarrow> unit ld" where
  "plan_push op l =
     (if MAX_COPY_OPS \<le> length (ld_plan l) then ret (Err invalid_args, l)
      else ret (Ok (), l\<lparr>ld_plan := ld_plan l @ [op]\<rparr>))"

definition run_copy_op :: "env \<Rightarrow> copy_op \<Rightarrow> unit sys" where
  "run_copy_op ev op =
     (if co_len op = 0 then ret ()
      else if co_src op = usize_max
      then modify (\<lambda>k. k\<lparr>k_mem := write_zero (co_dst op) (co_len op) (k_mem k)\<rparr>)
      else bnd (copy_from_user ev (co_src op) (co_len op))
        (\<lambda>bs. modify (\<lambda>k. k\<lparr>k_mem := write_bytes (zip [co_dst op..<co_dst op + co_len op] bs) (k_mem k)\<rparr>)))"

definition run_copy_plan :: "env \<Rightarrow> copy_op list \<Rightarrow> unit sys" where
  "run_copy_plan ev plan = each (run_copy_op ev) plan"

subsection \<open>ELF header\<close>

record elf_file =
  ef_ptr :: usize
  ef_len :: usize

text \<open>Bytes of the image, read where they lie in the caller's memory.\<close>

definition elf_bytes :: "env \<Rightarrow> elf_file \<Rightarrow> usize \<Rightarrow> usize \<Rightarrow> u8 list sys" where
  "elf_bytes ev f off n =
     bnd (opt_or invalid_args (checked_add off n))
       (\<lambda>e. bnd (ensure (e \<le> ef_len f) invalid_args) (\<lambda>_. copy_from_user ev (ef_ptr f + off) n))"

definition elf_u16 :: "env \<Rightarrow> elf_file \<Rightarrow> usize \<Rightarrow> usize sys" where
  "elf_u16 ev f off = bnd (elf_bytes ev f off 2) (\<lambda>b. ret (unat (from_le b :: u16)))"

definition elf_u32 :: "env \<Rightarrow> elf_file \<Rightarrow> usize \<Rightarrow> u32 sys" where
  "elf_u32 ev f off = bnd (elf_bytes ev f off 4) (\<lambda>b. ret (from_le b))"

definition elf_u64 :: "env \<Rightarrow> elf_file \<Rightarrow> usize \<Rightarrow> usize sys" where
  "elf_u64 ev f off = bnd (elf_bytes ev f off 8) (\<lambda>b. ret (unat (from_le b :: u64)))"

record elf_header =
  eh_entry :: usize
  eh_phoff :: usize
  eh_phentsize :: usize
  eh_phnum :: usize

definition read_elf_header :: "env \<Rightarrow> elf_file \<Rightarrow> elf_header sys" where
  "read_elf_header ev f =
     bnd (ensure (64 \<le> ef_len f) invalid_args) (\<lambda>_.
     bnd (elf_bytes ev f 0 4) (\<lambda>magic.
     bnd (ensure (magic = [0x7F, 0x45, 0x4C, 0x46]) invalid_args) (\<lambda>_.
     bnd (elf_bytes ev f 4 2) (\<lambda>cls.
     bnd (ensure (cls = [2, 1]) invalid_args) (\<lambda>_.
     bnd (elf_u64 ev f 24) (\<lambda>entry.
     bnd (elf_u64 ev f 32) (\<lambda>phoff.
     bnd (elf_u16 ev f 54) (\<lambda>phentsize.
     bnd (elf_u16 ev f 56) (\<lambda>phnum.
     bnd (ensure (phoff < ef_len f) invalid_args) (\<lambda>_.
       ret \<lparr>eh_entry = entry, eh_phoff = phoff, eh_phentsize = phentsize, eh_phnum = phnum\<rparr>))))))))))"

subsection \<open>Segments\<close>

definition PT_LOAD :: u32 where "PT_LOAD = 1"
definition PF_R :: u32 where "PF_R = 4"
definition PF_W :: u32 where "PF_W = 2"
definition PF_X :: u32 where "PF_X = 1"

record phdr =
  ph_flags :: u32
  ph_offset :: usize
  ph_vaddr :: usize
  ph_filesz :: usize
  ph_memsz :: usize

text \<open>Program header \<open>i\<close>, if it is a load segment.\<close>

definition read_phdr :: "env \<Rightarrow> elf_file \<Rightarrow> elf_header \<Rightarrow> nat \<Rightarrow> phdr option sys" where
  "read_phdr ev f h i =
     bnd (opt_or invalid_args (checked_add (eh_phoff h) (i * eh_phentsize h))) (\<lambda>off.
     bnd (ensure (off + 56 \<le> ef_len f) invalid_args) (\<lambda>_.
     bnd (elf_u32 ev f off) (\<lambda>p_type.
     if p_type \<noteq> PT_LOAD then ret None
     else bnd (elf_u32 ev f (off + 4)) (\<lambda>fl.
       bnd (elf_u64 ev f (off + 8)) (\<lambda>offset.
       bnd (elf_u64 ev f (off + 16)) (\<lambda>vaddr.
       bnd (elf_u64 ev f (off + 32)) (\<lambda>filesz.
       bnd (elf_u64 ev f (off + 40)) (\<lambda>memsz.
         ret (Some \<lparr>ph_flags = fl, ph_offset = offset, ph_vaddr = vaddr, ph_filesz = filesz, ph_memsz = memsz\<rparr>)))))))))"

text \<open>The log line of \<open>exec\<close> reads four bytes at the segment's file offset before that offset is
  checked: the addition overflows, or wraps and indexes out of range.\<close>

definition log_first4 :: "env \<Rightarrow> elf_file \<Rightarrow> usize \<Rightarrow> unit sys" where
  "log_first4 ev f p_offset =
     (if usize_max < p_offset + 4 then panic
      else if p_offset + 4 \<le> ef_len f then bnd (elf_bytes ev f p_offset 4) (\<lambda>_. ret ())
      else ret ())"

definition seg_flags :: "u32 \<Rightarrow> u64" where
  "seg_flags fl =
     PF_VALID OR PF_USER OR (if fl AND PF_R \<noteq> 0 then PF_READ else 0)
     OR (if fl AND PF_W \<noteq> 0 then PF_WRITE else 0) OR (if fl AND PF_X \<noteq> 0 then PF_EXECUTE else 0)"

definition seg_check :: "elf_file \<Rightarrow> phdr \<Rightarrow> unit sys" where
  "seg_check f p =
     bnd (ensure (ph_filesz p \<le> ph_memsz p) invalid_args) (\<lambda>_.
     bnd (opt_or invalid_args (checked_add (ph_offset p) (ph_filesz p))) (\<lambda>e.
     bnd (ensure (e \<le> ef_len f) invalid_args) (\<lambda>_.
     ensure (\<not> (ph_flags p AND PF_W \<noteq> 0 \<and> ph_flags p AND PF_X \<noteq> 0)) map_denied)))"

definition page_off :: "phdr \<Rightarrow> usize" where
  "page_off p = ph_vaddr p mod PAGE_SIZE"

definition seg_alloc_len :: "phdr \<Rightarrow> usize option" where
  "seg_alloc_len p = (case checked_add (ph_memsz p) (page_off p) of None \<Rightarrow> None | Some n \<Rightarrow> align_len n)"

text \<open>Allocating, staging and mapping one segment; the value is its virtual range.\<close>

definition load_segment :: "elf_file \<Rightarrow> u32 \<Rightarrow> phdr \<Rightarrow> (usize \<times> usize) ld" where
  "load_segment f handle p =
     ld_bnd (ld_lift (seg_check f p)) (\<lambda>_.
     ld_bnd (ld_modify (\<lambda>l. if ld_first_rw l = None \<and> ph_flags p AND PF_W \<noteq> 0
                            then l\<lparr>ld_first_rw := Some (ph_vaddr p)\<rparr> else l)) (\<lambda>_.
     ld_bnd (ld_lift (opt_or invalid_args (seg_alloc_len p))) (\<lambda>want.
     ld_bnd (ld_lift (try_op ErrCap (on_pool (pool_reserve want)))) (\<lambda>res. case res of (base, len, needs_zero) \<Rightarrow>
     ld_bnd (ld_modify (\<lambda>l. l\<lparr>ld_image := image_push base len (ld_image l)\<rparr>)) (\<lambda>_.
     ld_bnd (if needs_zero then plan_push \<lparr>co_src = usize_max, co_dst = base, co_len = len\<rparr> else ld_ret ()) (\<lambda>_.
     ld_bnd (if ph_filesz p \<noteq> 0
             then plan_push \<lparr>co_src = ef_ptr f + ph_offset p, co_dst = base + page_off p, co_len = ph_filesz p\<rparr>
             else ld_ret ()) (\<lambda>_.
     ld_bnd (ld_lift (map_pages handle (ph_vaddr p - page_off p) base (seg_flags (ph_flags p)) (len div PAGE_SIZE)))
       (\<lambda>_. ld_ret (ph_vaddr p - page_off p, len)))))))))"

subsection \<open>Stack and global pointer\<close>

definition RISCV_GP_BIAS :: usize where "RISCV_GP_BIAS = 0x800"

definition choose_gp :: "usize \<Rightarrow> usize option \<Rightarrow> usize \<Rightarrow> usize" where
  "choose_gp given first_rw entry =
     (if given \<noteq> 0 then given
      else case (case first_rw of None \<Rightarrow> None | Some v \<Rightarrow> checked_add v RISCV_GP_BIAS) of
        Some v \<Rightarrow> v
      | None \<Rightarrow> (case checked_add entry RISCV_GP_BIAS of Some v \<Rightarrow> v | None \<Rightarrow> 0))"

definition PROCESS_STACK_TOP :: usize where "PROCESS_STACK_TOP = 0x20000000"

definition checked_sub :: "usize \<Rightarrow> usize \<Rightarrow> usize option" where
  "checked_sub a b = (if b \<le> a then Some (a - b) else None)"

definition map_process_stack :: "u32 \<Rightarrow> usize \<Rightarrow> (u64 \<times> usize) ld" where
  "map_process_stack handle stack_pages =
     ld_bnd (ld_lift (opt_or invalid_args (checked_add stack_pages 11))) (\<lambda>total_pages.
     ld_bnd (ld_lift (opt_or invalid_args (checked_mul total_pages PAGE_SIZE))) (\<lambda>bytes.
     ld_bnd (ld_lift (try_op ErrCap (on_pool (pool_reserve bytes)))) (\<lambda>res. case res of (base, len, needs_zero) \<Rightarrow>
     ld_bnd (ld_modify (\<lambda>l. l\<lparr>ld_image := image_push base len (ld_image l)\<rparr>)) (\<lambda>_.
     ld_bnd (if needs_zero then plan_push \<lparr>co_src = usize_max, co_dst = base, co_len = len\<rparr> else ld_ret ()) (\<lambda>_.
     let mapped_top = PROCESS_STACK_TOP + 10 * PAGE_SIZE in
     ld_bnd (ld_lift (opt_or invalid_args (checked_sub mapped_top len))) (\<lambda>bottom.
     ld_bnd (ld_lift (map_pages handle bottom base RW_USER total_pages)) (\<lambda>_.
     ld_bnd (ld_lift (opt_or invalid_args (va_new (of_nat ((mapped_top - 2 * PAGE_SIZE) div 16 * 16))))) (\<lambda>sp.
     ld_ret (sp, mapped_top)))))))))"

subsection \<open>exec\<close>

definition exec_decode :: "u64 list \<Rightarrow> elf_file sys" where
  "exec_decode args =
     bnd (ensure (uarg args 1 \<noteq> 0 \<and> uarg args 2 \<noteq> 0) invalid_args)
       (\<lambda>_. bnd (check_slice (uarg args 0) (uarg args 1))
         (\<lambda>_. ret \<lparr>ef_ptr = uarg args 0, ef_len = uarg args 1\<rparr>))"

text \<open>Only holders of a SEND right in slot 0 may exec.\<close>

definition exec_gate :: "env \<Rightarrow> unit sys" where
  "exec_gate ev =
     bnd (attempt (caps_look ev (\<lambda>t. cap_derive t 0 SEND)))
       (\<lambda>r. case r of Inl _ \<Rightarrow> fail denied | Inr _ \<Rightarrow> ret ())"

definition exec_segments :: "env \<Rightarrow> elf_file \<Rightarrow> elf_header \<Rightarrow> u32 \<Rightarrow> unit ld" where
  "exec_segments ev f h handle =
     ld_each (\<lambda>i. ld_bnd (ld_lift (read_phdr ev f h i)) (\<lambda>po. case po of
          None \<Rightarrow> ld_ret ()
        | Some p \<Rightarrow>
            ld_bnd (ld_lift (log_first4 ev f (ph_offset p))) (\<lambda>_.
            if ph_memsz p = 0 then ld_ret ()
            else ld_bnd (load_segment f handle p) (\<lambda>_. ld_ret ()))))
       [0..<eh_phnum h]"

definition spawn_child :: "env \<Rightarrow> elf_header \<Rightarrow> u64 \<Rightarrow> u32 \<Rightarrow> usize \<Rightarrow> pid sys" where
  "spawn_child ev h sp handle gp =
     bnd (opt_or invalid_args (va_instr_aligned (ev_build ev) (of_nat (eh_entry h))))
       (\<lambda>entry. bnd (gets (current_pid ev))
         (\<lambda>parent. try_panic ErrSpawn (spawn ev parent entry (Some sp) (Some handle) (of_nat gp) 0)))"

definition exec_body :: "env \<Rightarrow> u64 list \<Rightarrow> elf_file \<Rightarrow> elf_header \<Rightarrow> u32 \<Rightarrow> pid ld" where
  "exec_body ev args f h handle =
     ld_bnd (exec_segments ev f h handle) (\<lambda>_.
     ld_bnd (ld_get ld_first_rw) (\<lambda>rw.
     ld_bnd (map_process_stack handle (uarg args 2)) (\<lambda>st.
     ld_bnd (ld_lift (spawn_child ev h (fst st) handle (choose_gp (uarg args 3) rw (eh_entry h)))) (\<lambda>p.
     ld_bnd (ld_get ld_image) (\<lambda>img.
     ld_bnd (ld_lift (modify (set_image_allocs p img))) (\<lambda>_. ld_ret p))))))"

definition exec_phase_a :: "env \<Rightarrow> u64 list \<Rightarrow> (usize \<times> copy_op list) sys" where
  "exec_phase_a ev args =
     bnd (exec_decode args)
       (\<lambda>f. bnd (exec_gate ev)
         (\<lambda>_. bnd (read_elf_header ev f)
           (\<lambda>h. bnd (try_panic ErrAs (on_spaces (as_create (ev_build ev) (ev_shoot ev))))
             (\<lambda>handle. bnd (exec_body ev args f h handle loader_new)
               (\<lambda>rl. bnd (lift_res id (fst rl)) (\<lambda>p. ret (unat p, ld_plan (snd rl))))))))"

definition sys_exec :: "env \<Rightarrow> u64 list \<Rightarrow> usize sys" where
  "sys_exec ev args =
     bnd (exec_phase_a ev args) (\<lambda>r. bnd (run_copy_plan ev (snd r)) (\<lambda>_. ret (fst r)))"

subsection \<open>exec\_v2\<close>

definition exec_v2_check :: "u64 list \<Rightarrow> unit sys" where
  "exec_v2_check args =
     (if uarg args 5 = 0 then ret ()
      else bnd (ensure (uarg args 5 \<le> 64) invalid_args) (\<lambda>_. check_slice (uarg args 4) (uarg args 5)))"

definition exec_v2_segments :: "env \<Rightarrow> elf_file \<Rightarrow> elf_header \<Rightarrow> u32 \<Rightarrow> unit ld" where
  "exec_v2_segments ev f h handle =
     ld_each (\<lambda>i. ld_bnd (ld_lift (read_phdr ev f h i)) (\<lambda>po. case po of
          None \<Rightarrow> ld_ret ()
        | Some p \<Rightarrow>
            if ph_memsz p = 0 then ld_ret ()
            else ld_bnd (load_segment f handle p) (\<lambda>seg.
              ld_bnd (ld_lift (opt_or invalid_args (checked_add (fst seg) (snd seg)))) (\<lambda>seg_end.
              ld_modify (\<lambda>l. l\<lparr>ld_max_end := max (ld_max_end l) seg_end,
                ld_ranges := ld_ranges l @
                  [\<lparr>lr_start = fst seg, lr_end = seg_end, lr_writable = (ph_flags p AND PF_W \<noteq> 0)\<rparr>]\<rparr>)))))
       [0..<eh_phnum h]"

text \<open>The assertion that the page after a writable segment stays unmapped when there is a gap.\<close>

definition gap_violated :: "page_table \<Rightarrow> load_range \<Rightarrow> usize \<Rightarrow> bool" where
  "gap_violated pt r next_start \<longleftrightarrow>
     lr_writable r \<and> saturating_add (lr_end r) PAGE_SIZE \<le> next_start \<and> lr_end r < USER_VADDR_LIMIT
     \<and> pt_lookup pt (of_nat (lr_end r)) \<noteq> None"

definition gaps_violated :: "page_table \<Rightarrow> load_range list \<Rightarrow> bool" where
  "gaps_violated pt ranges =
     (let sorted = sort_key lr_start ranges in
      list_ex (\<lambda>idx. gap_violated pt (sorted ! idx)
                 (if Suc idx < length sorted then lr_start (sorted ! Suc idx) else usize_max))
        [0..<length sorted])"

definition assert_gaps :: "u32 \<Rightarrow> load_range list \<Rightarrow> unit sys" where
  "assert_gaps handle ranges =
     bnd (gets (\<lambda>k. as_get (k_spaces k) handle))
       (\<lambda>r. case r of
          Inl _ \<Rightarrow> ret ()
        | Inr s \<Rightarrow> if gaps_violated (as_page_table s) ranges then panic else ret ())"

definition RO_USER :: u64 where "RO_USER = PF_VALID OR PF_USER OR PF_READ"

definition write_phys :: "usize \<Rightarrow> u8 list \<Rightarrow> unit sys" where
  "write_phys pa bs = modify (\<lambda>k. k\<lparr>k_mem := write_bytes (zip [pa..<pa + length bs] bs) (k_mem k)\<rparr>)"

definition info_bytes :: "usize \<Rightarrow> usize \<Rightarrow> u64 \<Rightarrow> u8 list" where
  "info_bytes meta_va name_len sid =
     to_le 4 (2 :: u32) @ to_le 4 (0 :: u32) @ to_le 8 (of_nat meta_va :: u64)
     @ to_le 4 (of_nat name_len :: u32) @ to_le 4 (0 :: u32) @ to_le 8 sid"

text \<open>Writing the name page; the value is the service identity.\<close>

definition write_name :: "env \<Rightarrow> usize \<Rightarrow> usize \<Rightarrow> usize \<Rightarrow> u64 sys" where
  "write_name ev meta_pa name_ptr name_len =
     (if name_len = 0 then ret 0
      else bnd (copy_from_user ev name_ptr name_len)
        (\<lambda>name. bnd (write_phys meta_pa (name @ (if length name < PAGE_SIZE then [0] else [])))
          (\<lambda>_. ret (service_id_from_name name))))"

definition alloc_page_for :: "usize ld" where
  "alloc_page_for =
     ld_bnd (ld_lift (try_op ErrCap (on_pool (pool_allocate PAGE_SIZE)))) (\<lambda>r.
     ld_bnd (ld_modify (\<lambda>l. l\<lparr>ld_image := image_push (fst r) (snd r) (ld_image l)\<rparr>)) (\<lambda>_. ld_ret (fst r)))"

definition assert_pages :: "u32 \<Rightarrow> usize \<Rightarrow> usize \<Rightarrow> unit sys" where
  "assert_pages handle meta_va guard_va =
     bnd (gets (\<lambda>k. as_get (k_spaces k) handle))
       (\<lambda>r. case r of
          Inl _ \<Rightarrow> ret ()
        | Inr s \<Rightarrow>
            if guard_va < USER_VADDR_LIMIT \<and> pt_lookup (as_page_table s) (of_nat guard_va) \<noteq> None then panic
            else (case pt_lookup (as_page_table s) (of_nat meta_va) of
                    None \<Rightarrow> ret ()
                  | Some entry \<Rightarrow> if entry AND PF_WRITE \<noteq> 0 then panic else ret ()))"

text \<open>The name page and the bootstrap-info page above the stack; the value is the service identity.\<close>

definition map_identity_pages :: "env \<Rightarrow> u64 list \<Rightarrow> u32 \<Rightarrow> usize \<Rightarrow> u64 ld" where
  "map_identity_pages ev args handle mapped_top =
     (let meta_va = mapped_top + PAGE_SIZE; info_va = mapped_top + 2 * PAGE_SIZE in
      ld_bnd (ld_lift (ensure (info_va + PAGE_SIZE < USER_VADDR_LIMIT) invalid_args)) (\<lambda>_.
      ld_bnd (ld_get ld_max_end) (\<lambda>max_end.
      ld_bnd (ld_lift (ensure (\<not> (max_end \<noteq> 0 \<and> (meta_va < max_end \<or> info_va < max_end))) invalid_args)) (\<lambda>_.
      ld_bnd alloc_page_for (\<lambda>meta_pa.
      ld_bnd (ld_lift (write_name ev meta_pa (uarg args 4) (uarg args 5))) (\<lambda>sid.
      ld_bnd (ld_lift (map_in handle (of_nat meta_va) (of_nat meta_pa) RO_USER)) (\<lambda>_.
      ld_bnd alloc_page_for (\<lambda>info_pa.
      ld_bnd (ld_lift (write_phys info_pa (info_bytes meta_va (uarg args 5) sid))) (\<lambda>_.
      ld_bnd (ld_lift (map_in handle (of_nat info_va) (of_nat info_pa) RO_USER)) (\<lambda>_.
      ld_bnd (ld_lift (assert_pages handle meta_va (info_va + PAGE_SIZE))) (\<lambda>_. ld_ret sid)))))))))))"

definition set_identity :: "pid \<Rightarrow> u64 \<Rightarrow> kernel \<Rightarrow> kernel" where
  "set_identity p sid = upd_task p (\<lambda>t. t\<lparr>t_service_id := sid, t_qos := initial_qos_for sid\<rparr>)"

definition exec_v2_body :: "env \<Rightarrow> u64 list \<Rightarrow> elf_file \<Rightarrow> elf_header \<Rightarrow> u32 \<Rightarrow> pid ld" where
  "exec_v2_body ev args f h handle =
     ld_bnd (exec_v2_segments ev f h handle) (\<lambda>_.
     ld_bnd (ld_get ld_ranges) (\<lambda>ranges.
     ld_bnd (ld_lift (assert_gaps handle ranges)) (\<lambda>_.
     ld_bnd (ld_get ld_first_rw) (\<lambda>rw.
     ld_bnd (map_process_stack handle (uarg args 2)) (\<lambda>st.
     ld_bnd (map_identity_pages ev args handle (snd st)) (\<lambda>sid.
     ld_bnd (ld_lift (spawn_child ev h (fst st) handle (choose_gp (uarg args 3) rw (eh_entry h)))) (\<lambda>p.
     ld_bnd (ld_lift (modify (set_identity p sid))) (\<lambda>_.
     ld_bnd (ld_get ld_image) (\<lambda>img.
     ld_bnd (ld_lift (modify (set_image_allocs p img))) (\<lambda>_.
     ld_bnd (ld_modify (\<lambda>l. l\<lparr>ld_image := image_new\<rparr>)) (\<lambda>_. ld_ret p)))))))))))"

text \<open>After an error the address space and the recorded ranges go back.\<close>

definition exec_undo :: "u32 \<Rightarrow> image_allocs \<Rightarrow> kernel \<Rightarrow> kernel" where
  "exec_undo handle img k = snd (release_image img (k\<lparr>k_spaces := snd (as_destroy handle (k_spaces k))\<rparr>))"

definition exec_v2_phase_a :: "env \<Rightarrow> u64 list \<Rightarrow> (usize \<times> copy_op list) sys" where
  "exec_v2_phase_a ev args =
     bnd (exec_decode args)
       (\<lambda>f. bnd (exec_v2_check args)
         (\<lambda>_. bnd (exec_gate ev)
           (\<lambda>_. bnd (read_elf_header ev f)
             (\<lambda>h. bnd (try_panic ErrAs (on_spaces (as_create (ev_build ev) (ev_shoot ev))))
               (\<lambda>handle. bnd (exec_v2_body ev args f h handle loader_new)
                 (\<lambda>rl. case fst rl of
                    Inl e \<Rightarrow> bnd (modify (exec_undo handle (ld_image (snd rl)))) (\<lambda>_. fail e)
                  | Inr p \<Rightarrow> ret (unat p, ld_plan (snd rl))))))))"

definition sys_exec_v2 :: "env \<Rightarrow> u64 list \<Rightarrow> usize sys" where
  "sys_exec_v2 ev args =
     bnd (exec_v2_phase_a ev args) (\<lambda>r. bnd (run_copy_plan ev (snd r)) (\<lambda>_. ret (fst r)))"

end
