(* ===== verification/Trap.thy ===== *)
theory Trap
  imports Sys_Exec
begin

text \<open>
  From traps to handlers: the dispatch table of \<open>syscall/mod.rs\<close> and \<open>syscall/api/mod.rs\<close>, the ecall
  path, error encoding, preemption and fault teardown of \<open>core/trap/handler.rs\<close>, timer and deadline
  delivery of \<open>core/trap/runtime.rs\<close>, interrupt delivery of \<open>core/irq.rs\<close> and one pass of the per-CPU
  loop of \<open>core/cpu_main.rs\<close>.  Each entry runs under the kernel lock, so a history of the kernel is a
  sequence of entries on the CPUs.  Not modelled: logging and trap recording, the lock accounting,
  the liveness watchdog, hart stacks.
\<close>

unbundle bit_operations_syntax

subsection \<open>Dispatch\<close>

type_synonym handler = "env \<Rightarrow> u64 list \<Rightarrow> usize sys"

definition install_handlers :: "(nat \<times> handler) list" where
  "install_handlers =
     [(0, \<lambda>ev _. sys_yield ev), (1, \<lambda>ev _. sys_nsec ev), (2, sys_send), (3, sys_recv), (4, sys_map),
      (27, sys_mmio_map), (28, sys_cap_query), (30, sys_device_cap_create), (5, sys_vmo_create),
      (6, sys_vmo_write), (46, sys_vmo_destroy), (47, sys_vmo_read), (7, sys_spawn), (8, sys_cap_transfer),
      (31, sys_cap_transfer_to), (9, \<lambda>ev _. sys_as_create ev), (10, sys_as_map), (11, sys_exit), (12, sys_wait),
      (13, sys_exec), (14, sys_ipc_send_v1), (17, sys_exec_v2), (18, sys_ipc_recv_v1),
      (19, \<lambda>_ _. sys_ipc_endpoint_create), (20, sys_cap_close), (24, sys_cap_clone),
      (21, sys_ipc_endpoint_close), (22, sys_ipc_endpoint_create_v2), (23, sys_ipc_endpoint_create_for),
      (25, \<lambda>ev _. sys_getpid ev), (15, sys_task_qos), (48, sys_sched), (49, \<lambda>ev _. sys_as_self ev),
      (32, sys_task_resume), (33, sys_timer_create), (34, sys_timer_set), (35, sys_timer_cancel),
      (36, sys_irq_bind), (37, \<lambda>_. sys_irq_complete), (38, \<lambda>ev _. sys_waitset_create ev), (39, sys_waitset_add),
      (40, sys_waitset_wait), (41, \<lambda>ev _. sys_fence_create ev), (42, sys_fence_signal), (43, sys_fence_wait),
      (26, sys_ipc_recv_v2), (29, \<lambda>ev _. sys_spawn_last_error ev), (16, \<lambda>_. sys_debug_putc),
      (44, sys_debug_write), (45, \<lambda>ev _. sys_boot_mode ev), (50, \<lambda>ev _. sys_boot_display_mode ev)]"

definition dispatch_call :: "env \<Rightarrow> nat \<Rightarrow> u64 list \<Rightarrow> usize sys" where
  "dispatch_call ev number args =
     (case map_of install_handlers number of None \<Rightarrow> fail InvalidSyscall | Some h \<Rightarrow> h ev args)"

subsection \<open>Error codes\<close>

definition EPERM :: nat where "EPERM = 1"
definition ESRCH :: nat where "ESRCH = 3"
definition ECHILD :: nat where "ECHILD = 10"
definition EAGAIN :: nat where "EAGAIN = 11"
definition ENOMEM :: nat where "ENOMEM = 12"
definition EINVAL :: nat where "EINVAL = 22"
definition ENOSPC :: nat where "ENOSPC = 28"
definition ENOSYS :: nat where "ENOSYS = 38"
definition ETIMEDOUT :: nat where "ETIMEDOUT = 110"

definition errno :: "nat \<Rightarrow> u64" where
  "errno code = - of_nat code"

definition ipc_errno :: "ipc_error \<Rightarrow> u64" where
  "ipc_errno e =
     (case e of NoSuchEndpoint \<Rightarrow> errno ESRCH | QueueFull \<Rightarrow> errno EAGAIN | QueueEmpty \<Rightarrow> errno EAGAIN
      | IpcPermissionDenied \<Rightarrow> errno EPERM | TimedOut \<Rightarrow> errno ETIMEDOUT | IpcNoSpace \<Rightarrow> errno ENOSPC)"

definition address_space_errno :: "as_error \<Rightarrow> u64" where
  "address_space_errno e =
     (case e of InvalidHandle \<Rightarrow> errno EINVAL | AsInvalidArgs \<Rightarrow> errno EINVAL | AsidExhausted \<Rightarrow> errno ENOSPC
      | InUse \<Rightarrow> errno EPERM | AsUnsupported \<Rightarrow> errno ENOSYS
      | Mapping m \<Rightarrow> if m = MapPermissionDenied then errno EPERM else errno EINVAL)"

definition spawn_errno :: "spawn_error \<Rightarrow> u64" where
  "spawn_errno e =
     (case e of InvalidParent \<Rightarrow> errno EINVAL | InvalidEntryPoint \<Rightarrow> errno EINVAL
      | InvalidStackPointer \<Rightarrow> errno EINVAL | BootstrapNotEndpoint \<Rightarrow> errno EPERM | SpCapability _ \<Rightarrow> errno EPERM
      | SpIpc _ \<Rightarrow> errno EINVAL | SpAddressSpace a \<Rightarrow> address_space_errno a | StackExhausted \<Rightarrow> errno ENOMEM
      | SpRunQueueFull \<Rightarrow> errno EAGAIN)"

definition wait_errno :: "wait_error \<Rightarrow> u64" where
  "wait_errno e =
     (case e of NoChildren \<Rightarrow> errno ECHILD | NoSuchPid \<Rightarrow> errno ESRCH | InvalidTarget \<Rightarrow> errno EINVAL
      | WouldBlock \<Rightarrow> errno EINVAL)"

definition encode_error :: "sys_error \<Rightarrow> u64" where
  "encode_error e =
     (case e of
        InvalidSyscall \<Rightarrow> errno ENOSYS
      | ErrCap c \<Rightarrow> if c = NoSpace then errno ENOSPC else errno EPERM
      | ErrIpc i \<Rightarrow> ipc_errno i
      | ErrSpawn s \<Rightarrow> spawn_errno s
      | ErrTransfer _ \<Rightarrow> errno EPERM
      | ErrAs a \<Rightarrow> address_space_errno a
      | ErrWait w \<Rightarrow> wait_errno w
      | TaskExit \<Rightarrow> errno EINVAL
      | Reschedule \<Rightarrow> errno EAGAIN
      | ErrInvalidTarget \<Rightarrow> errno ESRCH
      | ErrRunQueueFull \<Rightarrow> errno ENOSPC)"

subsection \<open>The ecall path\<close>

definition frame_args :: "trap_frame \<Rightarrow> u64 list" where
  "frame_args f = map (\<lambda>i. tf_x f ! i) [10..<16]"

definition frame_number :: "trap_frame \<Rightarrow> nat" where
  "frame_number f = unat (tf_x f ! 17)"

definition save_frame :: "pid \<Rightarrow> trap_frame \<Rightarrow> kernel \<Rightarrow> kernel" where
  "save_frame p f = upd_task p (\<lambda>t. t\<lparr>t_frame := f\<rparr>)"

text \<open>Advancing the caller's PC and storing the result in its saved a0.\<close>

definition write_result :: "pid \<Rightarrow> u64 \<Rightarrow> kernel \<Rightarrow> kernel" where
  "write_result p v =
     upd_task p (\<lambda>t. t\<lparr>t_frame := (t_frame t)\<lparr>tf_sepc := tf_sepc (t_frame t) + 4,
                                              tf_x := (tf_x (t_frame t))[10 := v]\<rparr>\<rparr>)"

definition call_result :: "sys_error + usize \<Rightarrow> u64 option" where
  "call_result r =
     (case r of
        Inr v \<Rightarrow> Some (of_nat v)
      | Inl e \<Rightarrow> if e = TaskExit \<or> e = Reschedule then None else Some (encode_error e))"

definition finish_call :: "pid \<Rightarrow> sys_error + usize \<Rightarrow> kernel \<Rightarrow> kernel" where
  "finish_call p r k = (case call_result r of None \<Rightarrow> k | Some v \<Rightarrow> write_result p v k)"

definition space_active :: "kernel \<Rightarrow> pid \<Rightarrow> bool" where
  "space_active k p =
     (case task_of k p of
        None \<Rightarrow> True
      | Some t \<Rightarrow> (case t_address_space t of None \<Rightarrow> True | Some h \<Rightarrow> is_ok (as_activate (k_spaces k) h)))"

text \<open>Loading the next task's frame, with the fail-fast exit when its address space cannot be
  activated.\<close>

definition load_next :: "env \<Rightarrow> pid \<Rightarrow> trap_frame \<Rightarrow> kernel \<Rightarrow> trap_frame \<times> kernel" where
  "load_next ev old f k =
     (let new = current_pid ev k in
      case task_of k new of
        None \<Rightarrow> (f, k)
      | Some t \<Rightarrow>
          (t_frame t,
           if new \<noteq> old \<and> \<not> space_active k new then exit_current_and_release ev (-22) k else k))"

definition handle_ecall :: "env \<Rightarrow> trap_frame \<Rightarrow> kernel \<Rightarrow> (trap_frame \<times> kernel) option" where
  "handle_ecall ev f k0 =
     (let old = current_pid ev k0; k = save_frame old f (k0\<lparr>k_last_message := None\<rparr>) in
      case dispatch_call ev (frame_number f) (frame_args f) k of
        None \<Rightarrow> None
      | Some (r, k1) \<Rightarrow> Some (load_next ev old f (finish_call old r k1)))"

text \<open>The phased calls move bytes with the kernel lock dropped; the ranges they write are not yet
  visible to anyone, so each is one step here.\<close>

definition phased_vmo_create :: "env \<Rightarrow> u64 list \<Rightarrow> usize sys" where
  "phased_vmo_create ev args =
     bnd (vmo_create_reserve args)
       (\<lambda>res. case res of (base, len, needs_zero) \<Rightarrow>
          bnd (modify (\<lambda>k. if needs_zero then k\<lparr>k_mem := write_zero base len (k_mem k)\<rparr> else k))
            (\<lambda>_. vmo_create_finish ev base len (arg args 0)))"

definition phased_call :: "env \<Rightarrow> nat \<Rightarrow> u64 list \<Rightarrow> usize sys" where
  "phased_call ev nr args =
     (if nr = 13 then sys_exec ev args
      else if nr = 17 then sys_exec_v2 ev args else phased_vmo_create ev args)"

definition phased_syscall :: "env \<Rightarrow> trap_frame \<Rightarrow> kernel \<Rightarrow> kernel option" where
  "phased_syscall ev f k0 =
     (let p = current_pid ev k0; k = save_frame p f (k0\<lparr>k_last_message := None\<rparr>) in
      case phased_call ev (frame_number f) (frame_args f) k of
        None \<Rightarrow> None
      | Some (r, k1) \<Rightarrow>
          Some (write_result p (case r of Inr v \<Rightarrow> of_nat v | Inl e \<Rightarrow> encode_error e) k1))"

definition is_phased :: "nat \<Rightarrow> bool" where
  "is_phased nr \<longleftrightarrow> nr = 5 \<or> nr = 13 \<or> nr = 17"

definition from_user :: "trap_frame \<Rightarrow> bool" where
  "from_user f \<longleftrightarrow> tf_sstatus f AND SSTATUS_SPP = 0"

definition sepc_unmapped :: "env \<Rightarrow> trap_frame \<Rightarrow> kernel \<Rightarrow> bool" where
  "sepc_unmapped ev f k =
     (from_user f \<and>
      (case task_of k (current_pid ev k) of
         None \<Rightarrow> False
       | Some t \<Rightarrow>
           (case t_address_space t of
              None \<Rightarrow> False
            | Some h \<Rightarrow>
                (case as_get (k_spaces k) h of
                   Inl _ \<Rightarrow> False
                 | Inr s \<Rightarrow> pt_translate (as_page_table s) (tf_sepc f) = None))))"

text \<open>Where a trap returns to: a frame, or this hart's idle loop.\<close>

datatype trap_exit = Resume trap_frame | IdleLoop

definition current_frame :: "env \<Rightarrow> trap_frame \<Rightarrow> kernel \<Rightarrow> trap_frame" where
  "current_frame ev f k = (case task_of k (current_pid ev k) of None \<Rightarrow> f | Some t \<Rightarrow> t_frame t)"

definition valid_user_target :: "env \<Rightarrow> kernel \<Rightarrow> bool" where
  "valid_user_target ev k =
     (case task_of k (current_pid ev k) of
        None \<Rightarrow> False
      | Some t \<Rightarrow> t_address_space t \<noteq> None \<and> from_user (t_frame t) \<and> tf_sepc (t_frame t) < 0x80000000)"

definition ecall_exit :: "env \<Rightarrow> trap_frame \<times> kernel \<Rightarrow> trap_exit \<times> kernel" where
  "ecall_exit ev fk =
     (case fk of (f, k) \<Rightarrow>
        (if \<not> valid_user_target ev k \<and> sm_runtime_ready (k_smp k) then IdleLoop
         else Resume (current_frame ev f k), k))"

text \<open>The answer written to the live frame, without the task table.\<close>

definition answer :: "u64 \<Rightarrow> trap_frame \<Rightarrow> trap_frame" where
  "answer v f = f\<lparr>tf_x := (tf_x f)[10 := v], tf_sepc := tf_sepc f + 4\<rparr>"

definition count_ecall :: "u64 \<Rightarrow> kernel \<Rightarrow> kernel" where
  "count_ecall pc k =
     (if k_ecall_sepc k = pc then k\<lparr>k_ecall_same := k_ecall_same k + 1\<rparr>
      else k\<lparr>k_ecall_sepc := pc, k_ecall_same := 0\<rparr>)"

definition lockfree_syscall :: "env \<Rightarrow> nat \<Rightarrow> u64 option" where
  "lockfree_syscall ev nr = (if nr = 1 then Some (ev_now ev) else None)"

definition trap_ecall :: "env \<Rightarrow> trap_frame \<Rightarrow> kernel \<Rightarrow> (trap_exit \<times> kernel) option" where
  "trap_ecall ev f k0 =
     (let k = count_ecall (tf_sepc f) k0; nr = frame_number f in
      if 10000 < k_ecall_same k then Some (Resume (answer (errno EINVAL) f), k)
      else case lockfree_syscall ev nr of
        Some v \<Rightarrow> Some (Resume (answer v f), k)
      | None \<Rightarrow>
          (case (if is_phased nr then phased_syscall ev f k else Some k) of
             None \<Rightarrow> None
           | Some k1 \<Rightarrow>
               if sepc_unmapped ev f k1
               then Some (Resume (f\<lparr>tf_x := (tf_x f)[10 := errno EINVAL]\<rparr>), exit_current_and_release ev (-22) k1)
               else map_option (ecall_exit ev) (if is_phased nr then Some (f, k1) else handle_ecall ev f k1)))"

subsection \<open>Preemption and faults\<close>

definition preempt_current_user_task :: "env \<Rightarrow> trap_frame \<Rightarrow> kernel \<Rightarrow> trap_exit \<times> kernel" where
  "preempt_current_user_task ev f k =
     (let old = current_pid ev k in
      case schedule_next (ev_cpu ev) (yield_current (ev_cpu ev) (k_sched k)) of
        (None, s) \<Rightarrow> (Resume f, k\<lparr>k_sched := s\<rparr>)
      | (Some p, s) \<Rightarrow>
          if p = old then (Resume f, k\<lparr>k_sched := s\<rparr>)
          else (let k1 = set_current ev p (save_frame old f (k\<lparr>k_sched := s\<rparr>))
                in (Resume (current_frame ev f k1), k1)))"

definition kill_current :: "env \<Rightarrow> kernel \<Rightarrow> kernel" where
  "kill_current ev k =
     (let doomed = current_pid ev k; k1 = exit_current_and_release ev (-22) k
      in k1\<lparr>k_sched := finish_current (ev_cpu ev) (purge doomed (k_sched k1))\<rparr>)"

text \<open>Bounded attempts to find a task whose address space can be activated, else task 0.\<close>

fun pick_runnable :: "nat \<Rightarrow> env \<Rightarrow> kernel \<Rightarrow> kernel" where
  "pick_runnable 0 ev k = set_current ev KERNEL_PID k"
| "pick_runnable (Suc n) ev k =
     (case schedule_next (ev_cpu ev) (k_sched k) of
        (None, s) \<Rightarrow> set_current ev KERNEL_PID (k\<lparr>k_sched := s\<rparr>)
      | (Some p, s) \<Rightarrow>
          (let k1 = set_current ev p (k\<lparr>k_sched := s\<rparr>) in
           if \<not> space_active k1 p then pick_runnable n ev (kill_current ev k1)
           else if task_of k1 p \<noteq> None then k1 else pick_runnable n ev k1))"

definition user_page_fault :: "env \<Rightarrow> kernel \<Rightarrow> kernel" where
  "user_page_fault ev k =
     (let doomed = current_pid ev k in
      case on_router (close_endpoints_for_owner doomed) k of
        (waiters, k1) \<Rightarrow>
          (let k2 = wake_all ev waiters k1
           in pick_runnable 8 ev (kill_current ev (k2\<lparr>k_router := remove_waiter_from_all doomed (k_router k2)\<rparr>))))"

text \<open>Reads of the cycle, time and instret counters are emulated as zero.\<close>

definition is_csr_read :: "u32 \<Rightarrow> bool" where
  "is_csr_read inst \<longleftrightarrow> inst AND 0x7f = 0x73 \<and> drop_bit 12 inst AND 7 = 2"

definition csr_of :: "u32 \<Rightarrow> u32" where
  "csr_of inst = drop_bit 20 inst AND 0x0fff"

definition is_rdcycle_or_time :: "u32 \<Rightarrow> bool" where
  "is_rdcycle_or_time inst \<longleftrightarrow> is_csr_read inst \<and> (csr_of inst = 0xC00 \<or> csr_of inst = 0xC01)"

definition is_rdinstret :: "u32 \<Rightarrow> bool" where
  "is_rdinstret inst \<longleftrightarrow> is_csr_read inst \<and> csr_of inst = 0xC02"

definition trap_illegal :: "u32 \<Rightarrow> trap_frame \<Rightarrow> trap_frame option" where
  "trap_illegal inst f =
     (if is_rdcycle_or_time inst \<or> is_rdinstret inst
      then (let rd = unat (drop_bit 7 inst AND 0x1f)
            in Some (f\<lparr>tf_x := (if rd \<noteq> 0 then (tf_x f)[rd := 0] else tf_x f), tf_sepc := tf_sepc f + 4\<rparr>))
      else None)"

subsection \<open>Timers, deadlines and interrupts\<close>

definition OP_TIMER_FIRED :: u8 where "OP_TIMER_FIRED = 0x30"
definition OP_IRQ_FIRED :: u8 where "OP_IRQ_FIRED = 0x70"
definition DEFAULT_TICK_CYCLES :: u64 where "DEFAULT_TICK_CYCLES = 100000"

text \<open>Sending a kernel message and waking one receiver.\<close>

definition notify :: "env \<Rightarrow> endpoint_id \<Rightarrow> u8 \<Rightarrow> u8 list \<Rightarrow> kernel \<Rightarrow> kernel" where
  "notify ev ep op body k =
     (case on_router (router_send ep (message_new (header_new 0 ep (ucast op) 0 (of_nat (length body))) body None)) k of
        (Inl _, k1) \<Rightarrow> k1
      | (Inr _, k1) \<Rightarrow>
          (case on_router (pop_recv_waiter ep) k1 of
             (Inr (Some w), k2) \<Rightarrow> snd (wake ev w k2)
           | (_, k2) \<Rightarrow> k2))"

definition timer_body :: "u64 \<Rightarrow> u32 \<times> timer_state \<Rightarrow> u8 list" where
  "timer_body now ts =
     [OP_TIMER_FIRED] @ to_le 4 (fst ts) @ to_le 4 (tm_seq (snd ts) + 1) @ to_le 4 (tm_missed (snd ts))
     @ to_le 8 (tm_deadline_ns (snd ts)) @ to_le 8 now"

definition blocked_deadline :: "task \<Rightarrow> u64" where
  "blocked_deadline t =
     (if \<not> t_blocked t then 0
      else case t_block_reason t of
        Some (BrIpcRecv _ d) \<Rightarrow> d
      | Some (BrIpcSend _ d) \<Rightarrow> d
      | Some (BrWaitset _ d) \<Rightarrow> d
      | Some (BrFence _ _ d) \<Rightarrow> d
      | _ \<Rightarrow> 0)"

definition min_opt :: "u64 option \<Rightarrow> u64 \<Rightarrow> u64 option" where
  "min_opt e d = Some (case e of None \<Rightarrow> d | Some x \<Rightarrow> min x d)"

definition earliest_blocked_deadline :: "u64 \<Rightarrow> task list \<Rightarrow> u64 option" where
  "earliest_blocked_deadline now ts =
     fold (\<lambda>t e. if now < blocked_deadline t then min_opt e (blocked_deadline t) else e) ts None"

definition u64_saturating_add :: "u64 \<Rightarrow> u64 \<Rightarrow> u64" where
  "u64_saturating_add a b = (if a + b < a then -1 else a + b)"

definition rearm :: "env \<Rightarrow> kernel \<Rightarrow> kernel" where
  "rearm ev k0 =
     (let k = k0\<lparr>k_armed := (k_armed k0)[armed_slot ev := 0]\<rparr>;
          caps = timer_earliest_deadline (k_timers k);
          target = (case earliest_blocked_deadline (ev_now ev) (tt_tasks (k_tt k)) of
                      None \<Rightarrow> caps | Some d \<Rightarrow> min_opt caps d)
      in arm_wakeup ev
           (case target of Some d \<Rightarrow> d | None \<Rightarrow> u64_saturating_add (ev_now ev) (DEFAULT_TICK_CYCLES * 100)) k)"

definition process_expired_timers :: "env \<Rightarrow> kernel \<Rightarrow> kernel" where
  "process_expired_timers ev k =
     (case on_timers (timer_pop_expired (ev_now ev)) k of
        (expired, k1) \<Rightarrow>
          rearm ev
            (fold (\<lambda>ts. notify ev (tm_notify_ep (snd ts)) OP_TIMER_FIRED (timer_body (ev_now ev) ts)) expired k1))"

definition expire_ipc_one :: "env \<Rightarrow> pid \<Rightarrow> kernel \<Rightarrow> kernel" where
  "expire_ipc_one ev p k =
     (case task_of k p of
        None \<Rightarrow> k
      | Some t \<Rightarrow>
          if \<not> t_blocked t then k
          else (case t_block_reason t of
                  Some (BrIpcRecv ep d) \<Rightarrow>
                    if reached ev d then snd (wake ev p (snd (on_router (remove_recv_waiter ep p) k))) else k
                | Some (BrIpcSend ep d) \<Rightarrow>
                    if reached ev d then snd (wake ev p (snd (on_router (remove_send_waiter ep p) k))) else k
                | _ \<Rightarrow> k))"

definition wake_expired_ipc_deadlines :: "env \<Rightarrow> kernel \<Rightarrow> kernel" where
  "wake_expired_ipc_deadlines ev k = fold (expire_ipc_one ev) (all_pids k) k"

text \<open>\<open>claims\<close> are the interrupt sources the controller hands out, in order.\<close>

definition irq_binding :: "kernel \<Rightarrow> u32 \<Rightarrow> endpoint_id option" where
  "irq_binding k irq = (let ep = k_irq k ! unat irq in if ep = 0 then None else Some ep)"

definition dispatch_external :: "env \<Rightarrow> u32 list \<Rightarrow> kernel \<Rightarrow> kernel" where
  "dispatch_external ev claims k =
     fold (\<lambda>irq k. case irq_binding k irq of
             Some ep \<Rightarrow> notify ev ep OP_IRQ_FIRED (to_le 4 irq) k
           | None \<Rightarrow> k)
       (take (Suc (unat MAX_IRQ)) claims) k"

subsection \<open>Trap entries\<close>

definition slice_ticks_of :: "env \<Rightarrow> kernel \<Rightarrow> usize" where
  "slice_ticks_of ev k =
     (case task_of k (current_pid ev k) of
        None \<Rightarrow> 1
      | Some t \<Rightarrow> min (max (unat (t_shares t) div 100) 1) 10)"

definition deliver_all :: "env \<Rightarrow> u32 list \<Rightarrow> kernel \<Rightarrow> kernel" where
  "deliver_all ev claims k =
     wake_expired_ipc_deadlines ev (dispatch_external ev claims (process_expired_timers ev k))"

definition trap_timer :: "env \<Rightarrow> u32 list \<Rightarrow> trap_frame \<Rightarrow> kernel \<Rightarrow> trap_exit \<times> kernel" where
  "trap_timer ev claims f k0 =
     (let k = k0\<lparr>k_smp := snd (record_timer_tick (ev_cpu ev) (k_smp k0))\<rparr> in
      if \<not> from_user f then (Resume f, k)
      else
        (let k1 = deliver_all ev claims k in
         case preempt_tick_and_rotate (ev_cpu ev) (slice_ticks_of ev k1) (k_smp k1) of
           (turn, s) \<Rightarrow>
             (let k2 = k1\<lparr>k_smp := s\<rparr>
              in if turn then preempt_current_user_task ev f k2 else (Resume f, k2))))"

definition trap_soft :: "env \<Rightarrow> trap_frame \<Rightarrow> kernel \<Rightarrow> trap_exit \<times> kernel" where
  "trap_soft ev f k0 =
     (case handle_ssoft_resched (ev_cpu ev) (k_smp k0) of
        (outcome, s) \<Rightarrow>
          (let k = k0\<lparr>k_smp := s\<rparr>
           in if outcome = Acked \<and> from_user f then preempt_current_user_task ev f k else (Resume f, k)))"

definition trap_external :: "env \<Rightarrow> u32 list \<Rightarrow> trap_frame \<Rightarrow> kernel \<Rightarrow> trap_exit \<times> kernel" where
  "trap_external ev claims f k = (Resume f, if from_user f then dispatch_external ev claims k else k)"

definition trap_exception :: "env \<Rightarrow> u32 \<Rightarrow> nat \<Rightarrow> trap_frame \<Rightarrow> kernel \<Rightarrow> (trap_exit \<times> kernel) option" where
  "trap_exception ev inst exc f k =
     (if exc = 8 \<or> exc = 9 then trap_ecall ev f k
      else if exc = 2 then map_option (\<lambda>f'. (Resume f', k)) (trap_illegal inst f)
      else if exc \<in> {12, 13, 15}
      then (if from_user f then (let k1 = user_page_fault ev k in Some (Resume (current_frame ev f k1), k1))
            else None)
      else if from_user f then Some (Resume f, k) else None)"

text \<open>\<open>claims\<close> are the interrupts the controller hands out, \<open>inst\<close> the low half of \<open>stval\<close>.\<close>

definition trap_rust :: "env \<Rightarrow> u32 list \<Rightarrow> u32 \<Rightarrow> trap_frame \<Rightarrow> kernel \<Rightarrow> (trap_exit \<times> kernel) option" where
  "trap_rust ev claims inst f k =
     (let code = unat (tf_scause f AND NOT (push_bit 63 1)) in
      if bit (tf_scause f) 63
      then Some (if code = 1 then trap_soft ev f k
                 else if code = 5 then trap_timer ev claims f k
                 else if code = 9 then trap_external ev claims f k else (Resume f, k))
      else trap_exception ev inst code f k)"

subsection \<open>The per-CPU loop\<close>

definition STEAL_MIN_INTERVAL_NS :: u64 where "STEAL_MIN_INTERVAL_NS = 1000000"

definition may_run_on :: "env \<Rightarrow> kernel \<Rightarrow> pid \<Rightarrow> bool" where
  "may_run_on ev k p = (case task_of k p of None \<Rightarrow> False | Some t \<Rightarrow> affinity_allows t (ev_cpu ev))"

definition home_or_boot :: "kernel \<Rightarrow> pid \<Rightarrow> usize" where
  "home_or_boot k p = (case task_of k p of None \<Rightarrow> 0 | Some t \<Rightarrow> t_home_cpu t)"

definition steal_for :: "env \<Rightarrow> kernel \<Rightarrow> pid option \<times> kernel" where
  "steal_for ev k =
     (if count_ones (sm_online (k_smp k)) \<le> 1 then (None, k)
      else case steal_rate_gate (ev_cpu ev) (ev_now ev) STEAL_MIN_INTERVAL_NS (k_smp k) of
        (False, sm) \<Rightarrow> (None, k\<lparr>k_smp := sm\<rparr>)
      | (True, sm) \<Rightarrow>
          (case steal_into_current (ev_cpu ev) (sm_online sm) PerfBurst (may_run_on ev k) (home_or_boot k)
                  (k_sched k) of
             (None, s) \<Rightarrow> (None, k\<lparr>k_smp := sm, k_sched := s\<rparr>)
           | (Some p, s) \<Rightarrow> (Some p, set_home_cpu p (ev_cpu ev) (k\<lparr>k_smp := sm, k_sched := s\<rparr>))))"

definition cpu_pick :: "env \<Rightarrow> kernel \<Rightarrow> pid option \<times> kernel" where
  "cpu_pick ev k =
     (case on_sched (schedule_next (ev_cpu ev)) k of
        (Some p, k1) \<Rightarrow> (Some p, k1)
      | (None, k1) \<Rightarrow> steal_for ev k1)"

definition idle_backoff :: "env \<Rightarrow> kernel \<Rightarrow> kernel" where
  "idle_backoff ev k =
     (case (if sm_runtime_ready (k_smp k) then on_pool vmo_idle_zero_step k else (0, k)) of
        (zeroed, k1) \<Rightarrow>
          if 0 < zeroed \<or> ev_cpu ev = 0 then k1
          else k1\<lparr>k_smp := snd (take_wake_hint (ev_cpu ev) (k_smp k1))\<rparr>)"

text \<open>One pass of the loop: the frame it switches to, if any.\<close>

definition cpu_main_pass :: "env \<Rightarrow> u32 list \<Rightarrow> kernel \<Rightarrow> trap_frame option \<times> kernel" where
  "cpu_main_pass ev claims k =
     (case cpu_pick ev k of
        (None, k1) \<Rightarrow> (None, idle_backoff ev (if ev_cpu ev = 0 then deliver_all ev claims k1 else k1))
      | (Some p, k1) \<Rightarrow>
          (let k2 = set_current ev p k1 in
           case task_of k2 p of
             None \<Rightarrow> (None, k2)
           | Some t \<Rightarrow>
               if t_address_space t \<noteq> None \<and> from_user (t_frame t) \<and> tf_sepc (t_frame t) < 0x80000000
                  \<and> space_active k2 p
               then (Some (t_frame t), k2\<lparr>k_smp := record_user_dispatch (ev_cpu ev) (k_smp k2)\<rparr>)
               else (None, k2)))"

subsection \<open>Boot and histories\<close>

definition boot_caps :: cap_table where
  "boot_caps =
     snd (cap_set 2 \<lparr>kind = EndpointFactory, rights = MANAGE\<rparr>
       (snd (cap_set 1 \<lparr>kind = Vmo 0x80000000 0x100000, rights = MAP\<rparr>
         (snd (cap_set 0 \<lparr>kind = Endpoint 0, rights = SEND OR RECV\<rparr> cap_new)))))"

text \<open>\<open>KernelState::new\<close>; the page-table heap, memory and the time slice of the scheduler are given.\<close>

definition kernel_new :: "env \<Rightarrow> pt_heap \<Rightarrow> memory \<Rightarrow> u64 \<Rightarrow> kernel option" where
  "kernel_new ev heap mem quantum =
     (case as_create (ev_build ev) (ev_shoot ev) (manager_new heap) of
        Some (Inr kernel_as, m) \<Rightarrow>
          (let m1 = snd (as_attach kernel_as KERNEL_PID m) in
           if is_ok (as_activate m1 kernel_as)
           then (case enqueue (ev_cpu ev) KERNEL_PID Normal (sched_new quantum) of
                   (Enqueued, s) \<Rightarrow>
                     Some \<lparr>k_sched = s,
                           k_tt = task_table_new\<lparr>tt_tasks :=
                             [task_bootstrap\<lparr>t_caps := boot_caps, t_address_space := Some kernel_as\<rparr>]\<rparr>,
                           k_router = router_new 8, k_spaces = m1, k_timers = timers_new, k_waitsets = ws_new,
                           k_fences = fence_new, k_smp = smp_boot, k_stack_cursor = STACK_POOL_LIMIT,
                           k_pool = vmo_pool_new, k_mem = mem, k_armed = replicate MAX_CPUS 0,
                           k_irq = replicate (Suc (unat MAX_IRQ)) 0, k_last_message = None, k_ecall_sepc = 0,
                           k_ecall_same = 0\<rparr>
                 | _ \<Rightarrow> None)
           else None)
      | _ \<Rightarrow> None)"

datatype kernel_op =
    KTrap "u32 list" u32 trap_frame
  | KMain "u32 list"
  | KOnline usize
  | KReady

fun kernel_exec :: "env \<Rightarrow> kernel_op \<Rightarrow> kernel \<Rightarrow> kernel option" where
  "kernel_exec ev (KTrap claims inst f) k = map_option snd (trap_rust ev claims inst f k)"
| "kernel_exec ev (KMain claims) k = Some (snd (cpu_main_pass ev claims k))"
| "kernel_exec ev (KOnline c) k = Some (k\<lparr>k_smp := mark_cpu_online c (k_smp k)\<rparr>)"
| "kernel_exec ev KReady k = Some (k\<lparr>k_smp := mark_runtime_ready (k_smp k)\<rparr>)"

fun kernel_run :: "(env \<times> kernel_op) list \<Rightarrow> kernel \<Rightarrow> kernel option" where
  "kernel_run [] k = Some k"
| "kernel_run ((ev, op) # ops) k =
     (case kernel_exec ev op k of None \<Rightarrow> None | Some k1 \<Rightarrow> kernel_run ops k1)"

end
