(* ===== verification/Kernel_Inv.thy ===== *)
theory Kernel_Inv
  imports Trap Ipc_Correct Ktimer Sched_Correct As_Manager_Correct
begin

text \<open>
  The interface between the components and the composed kernel.  The locale \<open>kernel_inv\<close> fixes a
  property of the kernel state and assumes that each primitive operation of the components keeps it;
  every system call, trap entry and pass of the per-CPU loop then keeps it, and so does every history.
  A component invariant is lifted to the whole kernel by one interpretation.
\<close>

subsection \<open>Steps of the composed state as steps of a component\<close>

lemma on_router_step:
  "snd (on_router f k) = k\<lparr>k_router := snd (f (k_router k))\<rparr>"
  by (simp add: on_router_def split: prod.split)

lemma on_timers_step: "snd (on_timers f k) = k\<lparr>k_timers := snd (f (k_timers k))\<rparr>"
  by (simp add: on_timers_def split: prod.split)

lemma on_waitsets_step: "snd (on_waitsets f k) = k\<lparr>k_waitsets := snd (f (k_waitsets k))\<rparr>"
  by (simp add: on_waitsets_def split: prod.split)

lemma on_fences_step: "snd (on_fences f k) = k\<lparr>k_fences := snd (f (k_fences k))\<rparr>"
  by (simp add: on_fences_def split: prod.split)

lemma on_pool_step: "\<exists>p m. snd (on_pool f k) = k\<lparr>k_pool := p, k_mem := m\<rparr>"
  by (auto simp: on_pool_def split: prod.split)

lemma send_returning_step: "snd (send_returning_message i m r) = snd (router_send i m r)"
  by (simp add: router_send_def split: prod.split)

lemma flags_ok_mask_id:
  assumes "flags_ok f"
  shows "f AND 0xFF = f"
proof -
  have "f AND (0xFF OR NOT 0xFF) = f AND 0xFF"
    using assms by (simp only: bit.conj_disj_distrib flags_ok_def or.right_neutral)
  then show ?thesis by simp
qed

lemma set_current_upd_task: "set_current ev p (upd_task q f k) = upd_task q f (set_current ev p k)"
  by (auto simp: set_current_def upd_task_def upd_tt_def task_of_def split: option.split)

lemma task_of_set_current [simp]: "task_of (set_current ev p k) q = task_of k q"
  by (simp add: set_current_def upd_tt_def task_of_def)

text \<open>A task update that the scheduler cannot see.\<close>

definition run_same :: "(task \<Rightarrow> task) \<Rightarrow> bool" where
  "run_same f \<longleftrightarrow>
     (\<forall>t. t_blocked (f t) = t_blocked t \<and> t_state (f t) = t_state t \<and> t_address_space (f t) = t_address_space t)"

text \<open>The scheduler holds no task of the table as the current one of this CPU.\<close>

definition unclaimed :: "env \<Rightarrow> kernel \<Rightarrow> bool" where
  "unclaimed ev k \<longleftrightarrow>
     (let c = current_cpu_index (ev_cpu ev) in
      \<forall>t. c < length (cpus (k_sched k)) \<and> current (cpus (k_sched k) ! c) = Some t \<longrightarrow> task_of k (st_id t) = None)"

lemma unclaimed_finish: "unclaimed ev (k\<lparr>k_sched := finish_current (ev_cpu ev) s\<rparr>)"
  by (auto simp: unclaimed_def Let_def finish_current_def upd_cpu_def)

lemma unclaimed_none: "schedule_next (ev_cpu ev) s0 = (None, s) \<Longrightarrow> unclaimed ev (k\<lparr>k_sched := s\<rparr>)"
  by (auto simp: unclaimed_def Let_def schedule_next_def upd_cpu_def split: option.splits)

lemma unclaimed_unknown:
  "schedule_next (ev_cpu ev) s0 = (Some p, s) \<Longrightarrow> task_of k p = None \<Longrightarrow> unclaimed ev (set_current ev q (k\<lparr>k_sched := s\<rparr>))"
  by (auto simp: unclaimed_def Let_def schedule_next_def upd_cpu_def set_current_def upd_tt_def task_of_def
      split: option.splits)

lemma keeps_apply: "yields I m Q \<Longrightarrow> I k \<Longrightarrow> m k = Some (r, k') \<Longrightarrow> I k'"
  by (rule yieldsD)

lemma yields_k: "(\<And>k. yields I (m k) Q) \<Longrightarrow> yields I (\<lambda>k. m k k) Q"
  by (auto simp: yields_def)

lemma keeps_bnd_opt_or: "(\<And>a. x = Some a \<Longrightarrow> keeps I (f a)) \<Longrightarrow> keeps I (bnd (opt_or e x) f)"
  by (cases x) (auto simp: yields_def opt_or_def bnd_def ret_def fail_def)

lemma flags_ok_user_values [simp]:
  "flags_ok RW_USER" "flags_ok RO_USER" "flags_ok (seg_flags fl)" "flags_ok (prot_flags prot mf)"
  by (auto simp: flags_ok_def RW_USER_def RO_USER_def seg_flags_def prot_flags_def PF_VALID_def PF_READ_def
      PF_WRITE_def PF_EXECUTE_def PF_USER_def)

lemma flags_ok_from_bits: "page_flags_from_bits b = Some fl \<Longrightarrow> flags_ok fl"
proof -
  have "ALL_PAGE_FLAGS = 0xFF"
    by (simp add: ALL_PAGE_FLAGS_def PF_VALID_def PF_READ_def PF_WRITE_def PF_EXECUTE_def PF_USER_def PF_GLOBAL_def
        PF_ACCESSED_def PF_DIRTY_def)
  then show "page_flags_from_bits b = Some fl \<Longrightarrow> flags_ok fl"
    by (auto simp: page_flags_from_bits_def flags_ok_def split: if_splits)
qed

text \<open>Case distinctions over loader steps, which take the loader's variables as a further argument.\<close>

lemma ld_splits [yields_rules]:
  "(\<And>a b. x = (a, b) \<Longrightarrow> yields I (f a b l) Q) \<Longrightarrow> yields I ((case x of (a, b) \<Rightarrow> f a b) l) Q"
  "(c \<Longrightarrow> yields I (m l) Q) \<Longrightarrow> (\<not> c \<Longrightarrow> yields I (m' l) Q) \<Longrightarrow> yields I ((if c then m else m') l) Q"
  "(y = None \<Longrightarrow> yields I (m l) Q) \<Longrightarrow> (\<And>z. y = Some z \<Longrightarrow> yields I (g z l) Q) \<Longrightarrow>
   yields I ((case y of None \<Rightarrow> m | Some z \<Rightarrow> g z) l) Q"
  "yields I (h v l) Q \<Longrightarrow> yields I ((Let v h) l) Q"
  by (auto split: prod.splits option.splits)

lemma ld_keeps [yields_rules]:
  "(\<And>l. keeps I (m l)) \<Longrightarrow> (\<And>a l. keeps I (f a l)) \<Longrightarrow> keeps I (ld_bnd m f l)"
  "keeps I n \<Longrightarrow> keeps I (ld_lift n l)"
  "keeps I (ld_ret a l)" "keeps I (ld_modify g l)" "keeps I (ld_get h l)" "keeps I (plan_push op l)"
  unfolding ld_bnd_def ld_lift_def ld_ret_def ld_modify_def ld_get_def plan_push_def
  by (intro yields_rules TrueI; blast)+

lemma ld_each_keeps [yields_rules]: "(\<And>x l. keeps I (f x l)) \<Longrightarrow> keeps I (ld_each f xs l)"
  by (induction xs arbitrary: l) (auto intro!: yields_rules)

locale kernel_inv =
  fixes I :: "kernel \<Rightarrow> bool"
  assumes router: "I k \<Longrightarrow> I (k\<lparr>k_router := router_exec rop (k_router k)\<rparr>)"
    and timers: "I k \<Longrightarrow> I (k\<lparr>k_timers := timer_exec tmo (k_timers k)\<rparr>)"
    and waitsets: "I k \<Longrightarrow> I (k\<lparr>k_waitsets := ws\<rparr>)"
    and fences: "I k \<Longrightarrow> I (k\<lparr>k_fences := fs\<rparr>)"
    and spaces: "I k \<Longrightarrow> as_exec b shoot aop (k_spaces k) = Some m \<Longrightarrow> (\<forall>h p. aop \<noteq> ADetach h p) \<Longrightarrow>
           I (k\<lparr>k_spaces := m\<rparr>)"
    and smp: "I k \<Longrightarrow> I (k\<lparr>k_smp := smp_exec sop (k_smp k)\<rparr>)"
    and pool: "I k \<Longrightarrow> I (k\<lparr>k_pool := vp, k_mem := mem\<rparr>)"
    and stack: "I k \<Longrightarrow> I (k\<lparr>k_stack_cursor := c\<rparr>)"
    and armed: "I k \<Longrightarrow> I (k\<lparr>k_armed := ar\<rparr>)"
    and irq: "I k \<Longrightarrow> I (k\<lparr>k_irq := ir\<rparr>)"
    and last_message: "I k \<Longrightarrow> I (k\<lparr>k_last_message := lm\<rparr>)"
    and ecalls: "I k \<Longrightarrow> I (k\<lparr>k_ecall_sepc := es, k_ecall_same := en\<rparr>)"
    and task: "I k \<Longrightarrow> run_same f \<Longrightarrow> I (upd_task q f k)"
    and new_task: "I k \<Longrightarrow> t_state t = Suspended \<Longrightarrow> \<not> t_blocked t \<Longrightarrow> t_address_space t = Some h \<Longrightarrow>
           as_attach h (of_nat (length (tt_tasks (k_tt k)))) (k_spaces k) = (Ok (), m) \<Longrightarrow>
           I (upd_tt (\<lambda>tt. tt\<lparr>tt_tasks := tt_tasks tt @ [t]\<rparr>) (k\<lparr>k_spaces := m\<rparr>))"
    and reap: "I k \<Longrightarrow> I (reap_task q k)"
    and exit: "I k \<Longrightarrow> I (snd (exit_current ev st k))"
    and wake: "I k \<Longrightarrow> I (snd (wake ev q k))"
    and resume: "I k \<Longrightarrow> I (snd (resume_task ev q k))"
    and block: "I k \<Longrightarrow> I (block_current ev br k)"
    and set_qos: "I k \<Longrightarrow> I (k\<lparr>k_sched := snd (set_task_qos q cl (k_sched k))\<rparr>)"
    and yield: "I k \<Longrightarrow> I (k\<lparr>k_sched := yield_current cpu (k_sched k)\<rparr>)"
    and finish: "I k \<Longrightarrow> I (k\<lparr>k_sched := finish_current cpu (k_sched k)\<rparr>)"
    and purge: "I k \<Longrightarrow> I (k\<lparr>k_sched := purge q (k_sched k)\<rparr>)"
    and pick: "I k \<Longrightarrow> schedule_next (ev_cpu ev) (k_sched k) = (r, s) \<Longrightarrow> r = None \<or> r = Some (current_pid ev k) \<Longrightarrow>
           I (k\<lparr>k_sched := s\<rparr>)"
    and pick_current: "I k \<Longrightarrow> schedule_next (ev_cpu ev) (k_sched k) = (Some q, s) \<Longrightarrow>
           I (set_current ev q (k\<lparr>k_sched := s\<rparr>))"
    and steal: "I k \<Longrightarrow> steal_into_current (ev_cpu ev) online qm allow home (k_sched k) = (None, s) \<Longrightarrow>
           I (k\<lparr>k_sched := s\<rparr>)"
    and steal_current: "I k \<Longrightarrow> steal_into_current (ev_cpu ev) online qm allow home (k_sched k) = (Some q, s) \<Longrightarrow>
           I (set_current ev q (k\<lparr>k_sched := s\<rparr>))"
    and kernel_current: "I k \<Longrightarrow> unclaimed ev k \<Longrightarrow> I (set_current ev KERNEL_PID k)"
begin

subsubsection \<open>Derived steps\<close>

lemma memory: "I k \<Longrightarrow> I (k\<lparr>k_mem := mem\<rparr>)"
  using pool[where k = k and vp = "k_pool k" and mem = mem] by simp

lemma on_pool_keeps: "I k \<Longrightarrow> I (snd (on_pool f k))"
  using on_pool_step[of f k] pool by metis

lemma on_timers_keeps:
  assumes "I k"
  shows "I (snd (on_timers (timer_alloc p ep iv) k))" "I (snd (on_timers (timer_arm i d) k))"
    "I (snd (on_timers (timer_disarm i) k))" "I (snd (on_timers (timer_free i) k))"
    "I (snd (on_timers (timer_pop_expired now) k))"
  using timers[OF assms, of "OpAlloc p ep iv"] timers[OF assms, of "OpArm i d"] timers[OF assms, of "OpDisarm i"]
    timers[OF assms, of "OpFree i"] timers[OF assms, of "OpExpire now"]
  by (simp_all add: on_timers_step)

lemma on_waitsets_keeps: "I k \<Longrightarrow> I (snd (on_waitsets f k))"
  by (simp add: on_waitsets_step waitsets)

lemma on_fences_keeps: "I k \<Longrightarrow> I (snd (on_fences f k))"
  by (simp add: on_fences_step fences)

lemma on_router_keeps:
  assumes "I k"
  shows "I (snd (on_router (router_send ep m) k))" "I (snd (on_router (send_returning_message ep m) k))"
    "I (snd (on_router (router_recv ep) k))" "I (snd (on_router (requeue_front ep m) k))"
    "I (snd (on_router (register_recv_waiter ep p) k))" "I (snd (on_router (register_send_waiter ep p) k))"
    "I (snd (on_router (pop_recv_waiter ep) k))" "I (snd (on_router (pop_send_waiter ep) k))"
    "I (snd (on_router (remove_recv_waiter ep p) k))" "I (snd (on_router (remove_send_waiter ep p) k))"
    "I (snd (on_router (create_endpoint d ow) k))" "I (snd (on_router (close_endpoints_for_owner p) k))"
    "I (snd (on_router (close_endpoint ep) k))" "I (k\<lparr>k_router := remove_waiter_from_all p (k_router k)\<rparr>)"
  using router[OF assms, of "OpSend ep m"] router[OF assms, of "OpRecv ep"] router[OF assms, of "OpRequeue ep m"]
    router[OF assms, of "OpRegisterRecv ep p"] router[OF assms, of "OpRegisterSend ep p"]
    router[OF assms, of "OpPopRecv ep"] router[OF assms, of "OpPopSend ep"]
    router[OF assms, of "OpRemoveRecv ep p"] router[OF assms, of "OpRemoveSend ep p"]
    router[OF assms, of "OpCreate d ow"] router[OF assms, of "OpCloseOwner p"]
    router[OF assms, of "OpClose ep"] router[OF assms, of "OpRemoveFromAll p"]
  by (simp_all add: on_router_step send_returning_step)

lemma arm_keeps: "I k \<Longrightarrow> I (arm_wakeup ev d k)"
  by (simp add: arm_wakeup_def Let_def armed)

lemma fold_keeps: "(\<And>x k. I k \<Longrightarrow> I (f x k)) \<Longrightarrow> I k \<Longrightarrow> I (fold f xs k)"
  by (induction xs arbitrary: k) auto

lemma wake_all_keeps: "I k \<Longrightarrow> I (wake_all ev ps k)"
  by (simp add: wake_all_def fold_keeps wake)

lemma drop_recv_waiters_keeps: "I k \<Longrightarrow> I (drop_recv_waiters eps p k)"
  by (simp add: drop_recv_waiters_def fold_keeps on_router_keeps)

lemma register_on_all_keeps: "I k \<Longrightarrow> I (register_on_all eps p k)"
  by (simp add: register_on_all_def fold_keeps on_router_keeps)

lemma drop_fence_waiter_keeps: "I k \<Longrightarrow> I (drop_fence_waiter i p k)"
  by (simp add: drop_fence_waiter_def fences)

lemma expire_one_keeps: "I k \<Longrightarrow> I (expire_one ev p k)"
  by (simp add: expire_one_def wake on_router_keeps drop_recv_waiters_keeps fences
      split: option.split block_reason.split)

lemma wake_expired_keeps: "I k \<Longrightarrow> I (wake_expired_blocked ev k)"
  by (simp add: wake_expired_blocked_def fold_keeps expire_one_keeps)

lemma wake_parent_keeps: "I k \<Longrightarrow> I (wake_parent_waiter ev p k)"
  by (simp add: wake_parent_waiter_def wake split: option.split block_reason.split)

lemma release_range_keeps: "I (snd acc) \<Longrightarrow> I (snd (release_range r acc))"
  by (auto simp: release_range_def pool split: prod.split sum.split)

lemma release_image_keeps: "I k \<Longrightarrow> I (snd (release_image a k))"
proof -
  have "I (snd acc) \<Longrightarrow> I (snd (fold release_range rs acc))" for rs acc
    by (induction rs arbitrary: acc) (simp_all add: release_range_keeps)
  then show "I k \<Longrightarrow> I (snd (release_image a k))" by (simp add: release_image_def)
qed

lemma exit_release_keeps: "I k \<Longrightarrow> I (exit_current_and_release ev st k)"
  using exit[of k ev st] by (auto simp: exit_current_and_release_def release_image_keeps split: prod.split)

lemma task_steps:
  assumes "I k"
  shows "I (upd_task p (\<lambda>t. t\<lparr>t_caps := c t\<rparr>) k)" "I (upd_task p (\<lambda>t. t\<lparr>t_frame := fr t\<rparr>) k)"
    "I (upd_task p (\<lambda>t. t\<lparr>t_shares := sh\<rparr>) k)" "I (upd_task p (\<lambda>t. t\<lparr>t_qos := q\<rparr>) k)"
    "I (upd_task p (\<lambda>t. t\<lparr>t_children := ch t\<rparr>) k)" "I (upd_task p (\<lambda>t. t\<lparr>t_affinity := am\<rparr>) k)"
    "I (set_home_cpu p cpu k)" "I (set_last_spawn_fail_reason p r k)" "I (set_image_allocs p im k)"
    "I (set_identity p sid k)" "I (snd (take_last_spawn_fail_reason p k))" "I (set_affinity p am k)"
    "I (set_a1 ev v k)" "I (save_frame p fr0 k)" "I (write_result p v k)"
  using assms
  by (auto simp: set_home_cpu_def set_last_spawn_fail_reason_def set_image_allocs_def set_identity_def
      take_last_spawn_fail_reason_def set_affinity_def set_a1_def save_frame_def write_result_def run_same_def
      intro!: task split: option.split)

lemma kick_keeps: "I k \<Longrightarrow> I (kick ev c k)"
  using smp[of k "SmRequest (ev_ipi ev c) c"] by (simp add: kick_def)

lemma destroy_keeps: "I k \<Longrightarrow> I (k\<lparr>k_spaces := snd (as_destroy h (k_spaces k))\<rparr>)"
  using spaces[of k undefined undefined "ADestroy h"] by simp

lemma attach_keeps: "I k \<Longrightarrow> I (k\<lparr>k_spaces := snd (as_attach h p (k_spaces k))\<rparr>)"
  using spaces[of k undefined undefined "AAttach h p"] by simp

lemma create_keeps: "I k \<Longrightarrow> as_create b shoot (k_spaces k) = Some (r, m) \<Longrightarrow> I (k\<lparr>k_spaces := m\<rparr>)"
  using spaces[of k b shoot ACreate m] by simp

lemma map_page_keeps:
  "I k \<Longrightarrow> flags_ok fl \<Longrightarrow> as_map_page h va pa fl (k_spaces k) = Some (r, m) \<Longrightarrow> I (k\<lparr>k_spaces := m\<rparr>)"
  using spaces[of k undefined undefined "AMap h va pa fl" m] by (simp add: flags_ok_mask_id)

lemma reap_child_keeps: "I k \<Longrightarrow> I (snd (reap_child ev target k))"
  by (auto simp: reap_child_def Let_def intro!: reap task_steps split: option.split sum.split)

lemma transfer_keeps: "I k \<Longrightarrow> I (snd (transfer_cap_with_mode p q sl r mode k))"
  by (auto simp: transfer_cap_with_mode_def task_steps split: option.split sum.split transfer_mode.split prod.split)

lemma release_object_keeps: "I k \<Longrightarrow> I (release_object ev kd k)"
  by (simp add: release_object_def on_timers_keeps on_waitsets_keeps on_fences_keeps split: capability_kind.split)

lemma apply_qos_keeps: "I k \<Longrightarrow> I (snd (apply_qos p q k))"
  using set_qos[of k p q]
  by (auto simp: apply_qos_def task_steps split: prod.split set_qos_outcome.split option.split)

lemma irq_bind_keeps: "I k \<Longrightarrow> I (irq_bind i ep k)"
  by (simp add: irq_bind_def irq)

lemmas steps =
  memory on_pool_keeps on_timers_keeps on_waitsets_keeps on_fences_keeps on_router_keeps arm_keeps wake
  wake_all_keeps drop_recv_waiters_keeps register_on_all_keeps drop_fence_waiter_keeps wake_expired_keeps
  wake_parent_keeps exit_release_keeps task_steps reap_child_keeps transfer_keeps release_object_keeps
  apply_qos_keeps irq_bind_keeps last_message resume block yield finish

lemmas act_rules = TrueI keeps_modify keeps_call keeps_try_op

subsubsection \<open>Shared parts of the handlers\<close>

lemma caps_try_keeps [yields_rules]: "keeps I (caps_try ev f)"
  by (auto simp: yields_def caps_try_def task_steps split: option.splits prod.splits)

lemma copy_to_user_keeps [yields_rules]: "keeps I (copy_to_user ev p bs)"
  by (auto simp: yields_def copy_to_user_def memory)

lemma opt_or_keeps [yields_rules]: "keeps I (opt_or e x)"
  by (simp add: opt_or_def yields_rules split: option.split)

lemma dispatch_or_keeps:
  assumes "\<And>p. yields I (f p) Q"
    "\<And>k r k'. I k \<Longrightarrow> unclaimed ev k \<Longrightarrow> g k = Some (r, k') \<Longrightarrow> I k' \<and> (\<forall>a. r = Inr a \<longrightarrow> Q a)"
  shows "yields I (bnd (call (on_sched (schedule_next (ev_cpu ev))))
    (\<lambda>r. case r of Some p \<Rightarrow> bnd (modify (set_current ev p)) (\<lambda>_. f p) | None \<Rightarrow> g)) Q"
proof (rule yieldsI)
  fix k r k'
  assume k: "I k" and run: "bnd (call (on_sched (schedule_next (ev_cpu ev))))
    (\<lambda>r. case r of Some p \<Rightarrow> bnd (modify (set_current ev p)) (\<lambda>_. f p) | None \<Rightarrow> g) k = Some (r, k')"
  obtain r1 s where n: "schedule_next (ev_cpu ev) (k_sched k) = (r1, s)" by fastforce
  show "I k' \<and> (\<forall>a. r = Inr a \<longrightarrow> Q a)"
  proof (cases r1)
    case None
    with run n have g: "g (k\<lparr>k_sched := s\<rparr>) = Some (r, k')" by (simp add: bnd_def call_def on_sched_def)
    have "I (k\<lparr>k_sched := s\<rparr>)" using pick[OF k n] None by simp
    moreover have "unclaimed ev (k\<lparr>k_sched := s\<rparr>)" using unclaimed_none n None by simp
    ultimately show ?thesis using g by (rule assms(2))
  next
    case (Some p)
    with run n have "f p (set_current ev p (k\<lparr>k_sched := s\<rparr>)) = Some (r, k')"
      by (simp add: bnd_def call_def on_sched_def modify_def)
    then show ?thesis using assms(1)[of p] pick_current[OF k] n Some by (auto simp: yields_def)
  qed
qed

lemma dispatch_keeps:
  assumes "\<And>p. yields I (f p) Q" "yields I g Q"
  shows "yields I (bnd (call (on_sched (schedule_next (ev_cpu ev))))
    (\<lambda>r. case r of Some p \<Rightarrow> bnd (modify (set_current ev p)) (\<lambda>_. f p) | None \<Rightarrow> g)) Q"
  by (rule dispatch_or_keeps[OF assms(1)]) (use assms(2) in \<open>auto simp: yields_def\<close>)

lemma dispatch_exit_keeps:
  assumes "\<And>p. yields I (f p) Q" "yields I g Q"
  shows "yields I (bnd (call (on_sched (schedule_next (ev_cpu ev))))
    (\<lambda>r. case r of Some p \<Rightarrow> bnd (modify (set_current ev p)) (\<lambda>_. f p)
                 | None \<Rightarrow> bnd (modify (set_current ev KERNEL_PID)) (\<lambda>_. g))) Q"
  by (rule dispatch_or_keeps[OF assms(1)])
     (use assms(2) kernel_current[of _ ev] in \<open>auto simp: yields_def bnd_def modify_def\<close>)

lemma switch_or_retry_keeps: "(\<And>k. I k \<Longrightarrow> I (undo k)) \<Longrightarrow> keeps I (switch_or_retry ev cur undo)"
  unfolding switch_or_retry_def
  by (rule dispatch_keeps) (intro yields_rules act_rules; simp add: steps)+

lemma block_and_switch_keeps [yields_rules]:
  "(\<And>k. I k \<Longrightarrow> I (undo k)) \<Longrightarrow> keeps I (block_and_switch ev cur br undo)"
  unfolding block_and_switch_def
  by (intro yields_rules act_rules switch_or_retry_keeps) (simp_all add: steps)

lemma map_in_keeps: "flags_ok fl \<Longrightarrow> keeps I (map_in h va pa fl)"
  unfolding map_in_def
  by (rule keeps_try_panic) (auto simp: on_spaces_def map_page_keeps split: option.splits)

lemma map_pages_keeps: "flags_ok fl \<Longrightarrow> keeps I (map_pages h va pa fl n)"
  unfolding map_pages_def by (intro yields_rules act_rules map_in_keeps)

lemma as_create_keeps [yields_rules]: "keeps I (try_panic w (on_spaces (as_create b shoot)))"
  by (rule keeps_try_panic) (auto simp: on_spaces_def create_keeps split: option.splits)

subsubsection \<open>Message calls\<close>

lemma check_slice_keeps [yields_rules]: "keeps I (check_slice p n)"
  unfolding check_slice_def by (intro yields_rules act_rules)

lemma endpoint_of_slot_keeps [yields_rules]: "keeps I (endpoint_of_slot ev sl r)"
  unfolding endpoint_of_slot_def by (intro yields_rules act_rules)

lemma sys_send_keeps [yields_rules]: "keeps I (sys_send ev args)"
  unfolding sys_send_def by (intro yields_rules act_rules) (simp_all add: steps)

lemma sys_recv_keeps [yields_rules]: "keeps I (sys_recv ev args)"
  unfolding sys_recv_def by (intro yields_rules act_rules) (simp_all add: steps)

lemma moved_cap_keeps [yields_rules]:
  "keeps I (restore_cap ev sl c)" "keeps I (take_moved_cap ev so)" "keeps I (rollback_cap ev so m)"
  unfolding restore_cap_def take_moved_cap_def rollback_cap_def by (intro yields_rules act_rules)+

lemma wake_peer_keeps [yields_rules]: "keeps I (wake_receiver ev ep)" "keeps I (wake_sender ev ep)"
  unfolding wake_receiver_def wake_sender_def by (intro yields_rules act_rules; simp add: steps)+

lemma send_attempt_keeps [yields_rules]: "keeps I (send_attempt ev ep nb d so h body)"
  unfolding send_attempt_def by (intro yields_rules act_rules) (simp_all add: steps)

lemma sys_ipc_send_v1_keeps [yields_rules]: "keeps I (sys_ipc_send_v1 ev args)"
  unfolding sys_ipc_send_v1_def send_v1_check_def by (intro yields_rules act_rules) (simp_all add: steps)

lemma wait_message_keeps [yields_rules]: "keeps I (wait_message ev ep nb d)"
  unfolding wait_message_def by (intro yields_rules act_rules) (simp_all add: steps)

lemma accept_deliver_keeps [yields_rules]:
  "keeps I (accept_moved_cap ev ep m)" "keeps I (deliver_payload ev p mx tr m)"
  unfolding accept_moved_cap_def deliver_payload_def remember_def by (intro yields_rules act_rules; simp add: steps)+

lemma sys_ipc_recv_v1_keeps [yields_rules]: "keeps I (sys_ipc_recv_v1 ev args)"
  unfolding sys_ipc_recv_v1_def recv_v1_check_def by (intro yields_rules act_rules) (simp_all add: steps)

lemma sys_ipc_recv_v2_keeps [yields_rules]: "keeps I (sys_ipc_recv_v2 ev args)"
  unfolding sys_ipc_recv_v2_def read_desc_def recv_v2_check_def by (intro yields_rules act_rules) (simp_all add: steps)

subsubsection \<open>Objects and capabilities\<close>

lemma id_from_cap_keeps [yields_rules]:
  "keeps I (timer_id_from_cap ev sl)" "keeps I (waitset_id_from_cap ev sl)" "keeps I (fence_id_from_cap ev sl)"
  unfolding timer_id_from_cap_def waitset_id_from_cap_def fence_id_from_cap_def
  by (intro yields_rules act_rules)+

lemma timer_calls_keep [yields_rules]:
  "keeps I (sys_timer_create ev args)" "keeps I (sys_timer_set ev args)" "keeps I (sys_timer_cancel ev args)"
  unfolding sys_timer_create_def sys_timer_set_def sys_timer_cancel_def
  by (intro yields_rules act_rules; simp add: steps)+

lemma irq_calls_keep [yields_rules]: "keeps I (sys_irq_bind ev args)" "keeps I (sys_irq_complete args)"
  unfolding sys_irq_bind_def sys_irq_complete_def by (intro yields_rules act_rules; simp add: steps)+

lemma waitset_calls_keep [yields_rules]:
  "keeps I (sys_waitset_create ev)" "keeps I (sys_waitset_add ev args)" "keeps I (sys_waitset_wait ev args)"
  unfolding sys_waitset_create_def sys_waitset_add_def sys_waitset_wait_def
  by (intro yields_rules act_rules; simp add: steps)+

lemma fence_calls_keep [yields_rules]:
  "keeps I (sys_fence_create ev)" "keeps I (sys_fence_signal ev args)" "keeps I (sys_fence_wait ev args)"
  unfolding sys_fence_create_def sys_fence_signal_def sys_fence_wait_def
  by (intro yields_rules act_rules; simp add: steps)+

lemma endpoint_calls_keep [yields_rules]:
  "keeps I sys_ipc_endpoint_create" "keeps I (sys_ipc_endpoint_create_v2 ev args)"
  "keeps I (sys_ipc_endpoint_create_for ev args)" "keeps I (sys_ipc_endpoint_close ev args)"
  unfolding sys_ipc_endpoint_create_def sys_ipc_endpoint_create_v2_def sys_ipc_endpoint_create_for_def
    sys_ipc_endpoint_close_def has_factory_def
  by (intro yields_rules act_rules; simp add: steps)+

lemma cap_calls_keep [yields_rules]:
  "keeps I (sys_cap_close ev args)" "keeps I (sys_cap_clone ev args)" "keeps I (sys_cap_query ev args)"
  unfolding sys_cap_close_def sys_cap_clone_def sys_cap_query_def
  by (intro yields_rules act_rules; simp add: steps)+

lemma transfer_checked_keeps: "keeps I (transfer_checked ev ch sl bits mode)"
proof -
  have "transfer_cap_with_mode p ch sl r mode k = (x, k') \<Longrightarrow> I k \<Longrightarrow> I k'" for p r k x k'
    using transfer_keeps[of k p ch sl r mode] by simp
  then show ?thesis
    by (fastforce simp: yields_def transfer_checked_def fail_def try_op_def split: option.splits sum.splits prod.splits)
qed

lemma transfer_calls_keep [yields_rules]:
  "keeps I (sys_cap_transfer ev args)" "keeps I (sys_cap_transfer_to ev args)"
  unfolding sys_cap_transfer_def sys_cap_transfer_to_def by (rule transfer_checked_keeps)+

subsubsection \<open>Tasks\<close>

lemma qos_calls_keep [yields_rules]:
  "keeps I (caller_has_qos_admin ev)" "keeps I (sys_task_qos ev args)" "keeps I (sys_sched ev args)"
  unfolding caller_has_qos_admin_def sys_task_qos_def sys_sched_def sched_op_def task_or_invalid_def
  by (intro yields_rules act_rules; simp add: steps)+

lemma small_calls_keep [yields_rules]:
  "keeps I (sys_spawn_last_error ev)" "keeps I (sys_as_self ev)" "keeps I (sys_getpid ev)" "keeps I (sys_nsec ev)"
  "keeps I (sys_boot_mode ev)" "keeps I (sys_boot_display_mode ev)" "keeps I (sys_debug_putc args)"
  "keeps I (sys_debug_write ev args)" "keeps I (activate_of p)"
  unfolding sys_spawn_last_error_def sys_as_self_def sys_getpid_def sys_nsec_def sys_boot_mode_def
    sys_boot_display_mode_def sys_debug_putc_def sys_debug_write_def activate_of_def
  by (intro yields_rules act_rules; simp add: steps)+

lemma sys_yield_keeps [yields_rules]: "keeps I (sys_yield ev)"
  unfolding sys_yield_def
  by (intro keeps_bnd keeps_modify dispatch_keeps) (intro yields_rules act_rules | simp add: steps)+

lemma sys_exit_keeps [yields_rules]: "keeps I (sys_exit ev args)"
  unfolding sys_exit_def Let_def
  by (rule dispatch_exit_keeps keeps_bnd keeps_modify keeps_call keeps_gets | intro yields_rules act_rules
      | simp add: steps)+

lemma sys_wait_keeps [yields_rules]: "keeps I (sys_wait ev args)"
  unfolding sys_wait_def by (intro yields_rules act_rules switch_or_retry_keeps) (simp_all add: steps)

lemma stack_pages_keep:
  "I k \<Longrightarrow> map_stack_pages h phys ps (k_spaces k) = Some (r, m) \<Longrightarrow> I (k\<lparr>k_spaces := m\<rparr>)"
proof (induction ps arbitrary: k)
  case (Cons p ps)
  have step: "I (k\<lparr>k_spaces := m\<rparr>)" if "I (k\<lparr>k_spaces := n\<rparr>)" "map_stack_pages h phys ps n = Some (r, m)" for n
    using Cons.IH[OF that(1)] that(2) by simp
  from Cons.prems(2) show ?case
    using map_page_keeps[OF Cons.prems(1) flags_ok_user_values(1)] step
    by (auto simp: Let_def split: option.splits sum.splits prod.splits) blast
qed auto

lemma guarded_stack_keeps: "I k \<Longrightarrow> allocate_guarded_stack h k = Some (r, k') \<Longrightarrow> I k'"
  using stack_pages_keep[OF memory[OF stack]]
  by (auto simp: allocate_guarded_stack_def Let_def stack split: prod.splits option.splits sum.splits)

lemma spawn_space_keeps: "I k \<Longrightarrow> spawn_space ev sp h k = Some (r, k') \<Longrightarrow> I k'"
  by (auto simp: spawn_space_def split: option.splits if_splits prod.splits sum.splits
      intro: create_keeps guarded_stack_keeps[OF create_keeps])

lemma spawn_cpu_keeps: "I k \<Longrightarrow> assign_spawn_cpu c (k_smp k) = (cpu, s) \<Longrightarrow> I (k\<lparr>k_smp := s\<rparr>)"
  using smp[where k = k and sop = "SmSpawn c"] by simp

lemma upd_tt_spaces: "(upd_tt f k)\<lparr>k_spaces := m\<rparr> = upd_tt f (k\<lparr>k_spaces := m\<rparr>)"
  by (cases k) (simp add: upd_tt_def)

text \<open>A spawn that fails at the attachment leaves the task list as it was.\<close>

lemma spawn_undo:
  "upd_tt (\<lambda>tt. tt\<lparr>tt_tasks := butlast (tt_tasks tt)\<rparr>)
     ((upd_tt (\<lambda>tt. tt\<lparr>tt_tasks := tt_tasks tt @ [t]\<rparr>) k)\<lparr>k_spaces := m\<rparr>) = k\<lparr>k_spaces := m\<rparr>"
  by (simp add: upd_tt_def)

lemma spawn_keeps:
  assumes "I k" "spawn ev parent entry sp h gp sl k = Some (r, k')"
  shows "I k'"
proof -
  have refused: "I (k2\<lparr>k_spaces := m\<rparr>)" if "I k2" "as_attach c p (k_spaces k2) = (x, m)" for k2 c p x m
    using attach_keeps[OF that(1), of c p] that(2) by simp
  have added: "I (upd_task parent (\<lambda>t. t\<lparr>t_children := t_children t @ [p]\<rparr>)
        ((upd_tt (\<lambda>tt. tt\<lparr>tt_tasks := tt_tasks tt @ [t]\<rparr>) k2)\<lparr>k_spaces := m\<rparr>))"
    if "I k2" "as_attach c (of_nat (length (tt_tasks (k_tt k2)))) (k_spaces k2) = (Ok (), m)" "t_state t = Suspended"
      "\<not> t_blocked t" "t_address_space t = Some c" for k2 c p m t
    unfolding upd_tt_spaces by (rule task[OF new_task[OF that(1,3,4,5,2)]]) (simp add: run_same_def)
  have upd [simp]: "k_spaces (upd_tt g k2) = k_spaces k2" for g k2 by (simp add: upd_tt_def)
  show ?thesis
    using assms spawn_space_keeps[OF assms(1)]
    by (auto simp: spawn_def Let_def spawn_undo intro!: refused added spawn_cpu_keeps
          split: option.splits sum.splits prod.splits)
qed

lemma sys_spawn_keeps [yields_rules]: "keeps I (sys_spawn ev args)"
  unfolding sys_spawn_def
  by (intro yields_rules act_rules keeps_try_panic) (auto simp: steps spawn_keeps split: sys_error.splits)

lemma sys_task_resume_keeps [yields_rules]: "keeps I (sys_task_resume ev args)"
  unfolding sys_task_resume_def by (intro yields_rules act_rules) (simp_all add: steps)

subsubsection \<open>Memory calls\<close>

lemma own_space_keeps [yields_rules]: "keeps I (own_space ev)"
  unfolding own_space_def by (intro yields_rules act_rules)

lemma sys_map_keeps [yields_rules]: "keeps I (sys_map ev args)"
  unfolding sys_map_def
  by ((rule keeps_bnd_opt_or)+, intro yields_rules act_rules map_in_keeps) (simp add: flags_ok_from_bits)

lemma map_calls_keep [yields_rules]:
  "keeps I (sys_mmio_map ev args)" "keeps I (sys_as_map ev args)" "keeps I (sys_as_create ev)"
  unfolding sys_mmio_map_def sys_as_map_def sys_as_create_def
  by (intro yields_rules act_rules map_in_keeps map_pages_keeps; simp)+

lemma install_cap_keeps [yields_rules]: "keeps I (install_cap ev sl c)"
  unfolding install_cap_def by (intro yields_rules act_rules)

lemma vmo_calls_keep [yields_rules]:
  "keeps I (sys_device_cap_create ev args)" "keeps I (vmo_create_reserve args)"
  "keeps I (vmo_create_finish ev base len sl)" "keeps I (sys_vmo_create ev args)" "keeps I (sys_vmo_destroy ev args)"
  unfolding sys_device_cap_create_def vmo_create_reserve_def vmo_create_finish_def sys_vmo_create_def sys_vmo_destroy_def
  by (intro yields_rules act_rules; simp add: steps)+

lemma vmo_copy_calls_keep [yields_rules]:
  "keeps I (vmo_span ev args)" "keeps I (sys_vmo_read ev args)" "keeps I (sys_vmo_write ev args)"
  unfolding sys_vmo_read_def sys_vmo_write_def vmo_span_def
  by (intro yields_rules act_rules; simp add: steps)+

subsubsection \<open>Program loading\<close>

lemma elf_reads_keep [yields_rules]:
  "keeps I (elf_bytes ev f off n)" "keeps I (elf_u16 ev f off)" "keeps I (elf_u32 ev f off)" "keeps I (elf_u64 ev f off)"
  "keeps I (read_elf_header ev f)" "keeps I (read_phdr ev f h i)" "keeps I (log_first4 ev f off)" "keeps I (seg_check f p)"
  unfolding elf_u16_def elf_u32_def elf_u64_def read_elf_header_def read_phdr_def log_first4_def seg_check_def elf_bytes_def
  by (intro yields_rules act_rules)+

lemma load_segment_keeps [yields_rules]: "keeps I (load_segment f h p l)" "keeps I (map_process_stack h n l)"
  unfolding load_segment_def map_process_stack_def
  by (intro yields_rules act_rules map_pages_keeps; simp add: steps)+

lemma segments_keep [yields_rules]: "keeps I (exec_segments ev f h ah l)" "keeps I (exec_v2_segments ev f h ah l)"
  unfolding exec_segments_def exec_v2_segments_def by (intro yields_rules act_rules)+

lemma spawn_child_keeps [yields_rules]: "keeps I (spawn_child ev h sp ah gp)"
  unfolding spawn_child_def by (intro yields_rules act_rules keeps_try_panic) (rule spawn_keeps)

lemma identity_pages_keep [yields_rules]:
  "keeps I (write_phys pa bs)" "keeps I (write_name ev pa np nl)" "keeps I (alloc_page_for l)"
  "keeps I (assert_pages ah va gva)" "keeps I (assert_gaps ah rs)" "keeps I (map_identity_pages ev args ah mt l)"
  unfolding map_identity_pages_def write_name_def write_phys_def alloc_page_for_def assert_pages_def assert_gaps_def
  by (intro yields_rules act_rules map_in_keeps; simp add: steps)+

lemma run_copy_plan_keeps [yields_rules]: "keeps I (run_copy_plan ev plan)"
  unfolding run_copy_plan_def run_copy_op_def by (intro yields_rules act_rules) (simp_all add: steps)

lemma exec_undo_keeps: "I k \<Longrightarrow> I (exec_undo ah img k)"
  by (simp add: exec_undo_def release_image_keeps destroy_keeps)

lemma exec_phases_keep [yields_rules]: "keeps I (exec_phase_a ev args)" "keeps I (exec_v2_phase_a ev args)"
  unfolding exec_phase_a_def exec_v2_phase_a_def exec_decode_def exec_v2_check_def exec_gate_def exec_body_def
    exec_v2_body_def
  by (intro yields_rules act_rules; simp add: steps exec_undo_keeps)+

lemma exec_calls_keep [yields_rules]: "keeps I (sys_exec ev args)" "keeps I (sys_exec_v2 ev args)"
  unfolding sys_exec_def sys_exec_v2_def by (intro yields_rules act_rules)+

subsubsection \<open>Dispatch\<close>

lemma handler_keeps: "map_of install_handlers n = Some hnd \<Longrightarrow> keeps I (hnd ev args)"
proof -
  have "\<forall>x \<in> set install_handlers. keeps I (snd x ev args)"
    unfolding install_handlers_def list.set ball_simps by (intro conjI; simp only: snd_conv; intro yields_rules TrueI)
  then show "map_of install_handlers n = Some hnd \<Longrightarrow> keeps I (hnd ev args)"
    by (force dest!: map_of_SomeD)
qed

lemma dispatch_call_keeps: "keeps I (dispatch_call ev n args)"
  unfolding dispatch_call_def by (intro yields_rules handler_keeps)

subsubsection \<open>Trap entries\<close>

lemma load_next_keeps: "I k \<Longrightarrow> I (snd (load_next ev old f k))"
  by (simp add: load_next_def Let_def exit_release_keeps split: option.split)

lemma finish_call_keeps: "I k \<Longrightarrow> I (finish_call p r k)"
  by (simp add: finish_call_def task_steps split: option.split)

lemma entered_keeps: "I k \<Longrightarrow> I (save_frame p f (k\<lparr>k_last_message := None\<rparr>))"
  by (intro task_steps last_message)

lemma handle_ecall_keeps:
  assumes "I k" "handle_ecall ev f k = Some (f', k')"
  shows "I k'"
proof -
  let ?old = "current_pid ev k"
  from assms(2) obtain r k1 where
    d: "dispatch_call ev (frame_number f) (frame_args f) (save_frame ?old f (k\<lparr>k_last_message := None\<rparr>)) = Some (r, k1)"
    and k': "k' = snd (load_next ev ?old f (finish_call ?old r k1))"
    by (auto simp: handle_ecall_def Let_def split: option.splits)
  have "I k1" by (rule keeps_apply[OF dispatch_call_keeps entered_keeps[OF assms(1)] d])
  then show ?thesis unfolding k' by (intro load_next_keeps finish_call_keeps)
qed

lemma phased_call_keeps: "keeps I (phased_call ev nr args)"
  unfolding phased_call_def phased_vmo_create_def by (intro yields_rules act_rules) (simp_all add: steps)

lemma phased_syscall_keeps:
  assumes "I k" "phased_syscall ev f k = Some k'"
  shows "I k'"
proof -
  have "I k1" if "phased_call ev (frame_number f) (frame_args f)
      (save_frame (current_pid ev k) f (k\<lparr>k_last_message := None\<rparr>)) = Some (r, k1)" for r k1
    by (rule keeps_apply[OF phased_call_keeps entered_keeps[OF assms(1)] that])
  then show ?thesis
    using assms(2) by (auto simp: phased_syscall_def Let_def task_steps split: option.splits)
qed

lemma count_ecall_keeps: "I k \<Longrightarrow> I (count_ecall pc k)"
  using ecalls[where k = k and es = "k_ecall_sepc k"] ecalls[where k = k] by (simp add: count_ecall_def)

lemma trap_ecall_keeps:
  assumes "I k" "trap_ecall ev f k = Some (x, k')"
  shows "I k'"
proof -
  have "I (count_ecall (tf_sepc f) k)" by (rule count_ecall_keeps[OF assms(1)])
  moreover from this have "I k1" if "phased_syscall ev f (count_ecall (tf_sepc f) k) = Some k1" for k1
    using that by (rule phased_syscall_keeps)
  ultimately show ?thesis
    using assms(2)
    by (auto simp: trap_ecall_def Let_def ecall_exit_def intro: exit_release_keeps handle_ecall_keeps
        split: option.splits if_splits prod.splits)
qed

lemma preempt_keeps: "I k \<Longrightarrow> I (snd (preempt_current_user_task ev f k))"
  using pick[OF yield, of k ev "ev_cpu ev"] pick_current[OF yield, of k ev "ev_cpu ev"]
  by (auto simp: preempt_current_user_task_def Let_def save_frame_def set_current_upd_task run_same_def current_pid_def
      intro!: task split: prod.split option.split)

lemma kill_current_keeps: "I k \<Longrightarrow> I (kill_current ev k)"
  using finish[OF purge[OF exit_release_keeps], where cpu = "ev_cpu ev"] by (simp add: kill_current_def Let_def)

lemma unclaimed_kill: "unclaimed ev (kill_current ev k)"
  by (simp add: kill_current_def Let_def unclaimed_finish)

lemma pick_runnable_keeps: "I k \<Longrightarrow> unclaimed ev k \<Longrightarrow> I (pick_runnable n ev k)"
proof (induction n arbitrary: k)
  case (Suc n)
  obtain r s where n: "schedule_next (ev_cpu ev) (k_sched k) = (r, s)" by fastforce
  show ?case
  proof (cases r)
    case None
    have "I (k\<lparr>k_sched := s\<rparr>)" using pick[OF Suc.prems(1) n] None by simp
    then show ?thesis using n None unclaimed_none by (simp add: kernel_current)
  next
    case (Some p)
    let ?k1 = "set_current ev p (k\<lparr>k_sched := s\<rparr>)"
    have k1: "I ?k1" using pick_current[OF Suc.prems(1)] n Some by simp
    have "unclaimed ev ?k1" if "task_of ?k1 p = None"
      using that n Some by (intro unclaimed_unknown) (auto simp: task_of_def set_current_def upd_tt_def)
    then show ?thesis
      using k1 n Some kill_current_keeps[OF k1] unclaimed_kill Suc.IH by (simp add: Let_def)
  qed
qed (simp add: kernel_current)

lemma user_page_fault_keeps: "I k \<Longrightarrow> I (user_page_fault ev k)"
  by (simp add: user_page_fault_def Let_def split_beta pick_runnable_keeps kill_current_keeps unclaimed_kill steps)

lemma notify_keeps: "I k \<Longrightarrow> I (notify ev ep op body k)"
proof -
  assume k: "I k"
  define m where "m = message_new (header_new 0 ep (ucast op) 0 (of_nat (length body))) body None"
  have "I (snd (on_router (router_send ep m) k))"
    "I (snd (on_router (pop_recv_waiter ep) (snd (on_router (router_send ep m) k))))"
    by (simp_all add: steps k)
  then show ?thesis
    by (auto simp: notify_def m_def[symmetric] wake split: prod.splits sum.splits option.splits)
qed

lemma rearm_keeps: "I k \<Longrightarrow> I (rearm ev k)"
  by (simp add: rearm_def Let_def arm_keeps armed)

lemma process_expired_timers_keeps: "I k \<Longrightarrow> I (process_expired_timers ev k)"
  by (simp add: process_expired_timers_def split_beta rearm_keeps fold_keeps notify_keeps on_timers_keeps)

lemma expire_ipc_one_keeps: "I k \<Longrightarrow> I (expire_ipc_one ev p k)"
  by (simp add: expire_ipc_one_def steps split: option.split block_reason.split)

lemma dispatch_external_keeps: "I k \<Longrightarrow> I (dispatch_external ev claims k)"
  by (simp add: dispatch_external_def fold_keeps notify_keeps split: option.split)

lemma deliver_all_keeps: "I k \<Longrightarrow> I (deliver_all ev claims k)"
  by (simp add: deliver_all_def wake_expired_ipc_deadlines_def fold_keeps expire_ipc_one_keeps dispatch_external_keeps
      process_expired_timers_keeps)

lemma trap_timer_keeps: "I k \<Longrightarrow> I (snd (trap_timer ev claims f k))"
proof -
  assume "I k"
  then have t: "I (k\<lparr>k_smp := snd (record_timer_tick (ev_cpu ev) (k_smp k))\<rparr>)"
    using smp[of k "SmTick (ev_cpu ev)"] by simp
  have turn: "I (k1\<lparr>k_smp := snd (preempt_tick_and_rotate (ev_cpu ev) n (k_smp k1))\<rparr>)" if "I k1" for k1 n
    using smp[OF that, of "SmPreempt (ev_cpu ev) n"] by simp
  show ?thesis
    by (auto simp: trap_timer_def Let_def split_beta t intro!: preempt_keeps turn deliver_all_keeps)
qed

lemma trap_soft_keeps: "I k \<Longrightarrow> I (snd (trap_soft ev f k))"
  using smp[of k "SmSsoft (ev_cpu ev)"] by (auto simp: trap_soft_def Let_def split_beta intro!: preempt_keeps)

lemma trap_rust_keeps: "I k \<Longrightarrow> trap_rust ev claims inst f k = Some (x, k') \<Longrightarrow> I k'"
proof -
  assume k: "I k" and t: "trap_rust ev claims inst f k = Some (x, k')"
  have interrupt: "I k'" if "trap_soft ev f k = (x, k') \<or> trap_timer ev claims f k = (x, k') \<or>
      trap_external ev claims f k = (x, k')"
    using that trap_soft_keeps[OF k, of ev f] trap_timer_keeps[OF k, of ev claims f] dispatch_external_keeps[OF k] k
    by (auto simp: trap_external_def split: if_splits)
  have "I k'" if "trap_exception ev inst c f k = Some (x, k')" for c
    using that k user_page_fault_keeps[OF k] trap_ecall_keeps[OF k]
    by (auto simp: trap_exception_def Let_def split: if_splits)
  then show "I k'"
    using t k interrupt by (auto simp: trap_rust_def Let_def split: if_splits)
qed

subsubsection \<open>The per-CPU loop\<close>

lemma steal_keeps:
  "I k \<Longrightarrow> steal_for ev k = (r, k') \<Longrightarrow> case r of None \<Rightarrow> I k' | Some p \<Rightarrow> I (set_current ev p k')"
proof -
  assume "I k" and s: "steal_for ev k = (r, k')"
  then have g: "I (k\<lparr>k_smp := sm\<rparr>)"
    if "steal_rate_gate (ev_cpu ev) (ev_now ev) STEAL_MIN_INTERVAL_NS (k_smp k) = (b, sm)" for b sm
    using smp[of k "SmSteal (ev_cpu ev) (ev_now ev) STEAL_MIN_INTERVAL_NS"] that by simp
  show ?thesis
    using s \<open>I k\<close> steal[OF g] steal_current[OF g] task[where f = "\<lambda>t. t\<lparr>t_home_cpu := ev_cpu ev\<rparr>"] g
    by (auto simp: steal_for_def set_home_cpu_def set_current_upd_task run_same_def
        split: if_splits prod.splits bool.splits option.splits)
qed

lemma cpu_pick_keeps:
  assumes "I k" "cpu_pick ev k = (r, k')"
  shows "case r of None \<Rightarrow> I k' | Some p \<Rightarrow> I (set_current ev p k')"
proof (cases "schedule_next (ev_cpu ev) (k_sched k)")
  case (Pair q s)
  then show ?thesis
    using assms pick[OF assms(1) Pair] pick_current[OF assms(1)] steal_keeps[of "k\<lparr>k_sched := s\<rparr>" ev r k']
    by (auto simp: cpu_pick_def on_sched_def split: option.splits)
qed

lemma idle_backoff_keeps:
  assumes "I k"
  shows "I (idle_backoff ev k)"
proof -
  have hint: "I (k1\<lparr>k_smp := snd (take_wake_hint (ev_cpu ev) (k_smp k1))\<rparr>)" if "I k1" for k1
    using smp[OF that, of "SmTakeHint (ev_cpu ev)"] by simp
  have "I (snd (on_pool vmo_idle_zero_step k))" by (rule on_pool_keeps[OF assms])
  with assms show ?thesis by (simp add: idle_backoff_def split_beta hint)
qed

lemma cpu_main_pass_keeps:
  assumes "I k"
  shows "I (snd (cpu_main_pass ev claims k))"
proof (cases "cpu_pick ev k")
  case (Pair r k1)
  have dispatched: "I (k2\<lparr>k_smp := record_user_dispatch (ev_cpu ev) (k_smp k2)\<rparr>)" if "I k2" for k2
    using smp[OF that, of "SmDispatch (ev_cpu ev)"] by simp
  from cpu_pick_keeps[OF assms Pair] show ?thesis
    by (cases r) (simp_all add: cpu_main_pass_def Pair Let_def idle_backoff_keeps deliver_all_keeps dispatched
        split: option.split)
qed

subsubsection \<open>Histories\<close>

lemma kernel_exec_keeps: "I k \<Longrightarrow> kernel_exec ev op k = Some k' \<Longrightarrow> I k'"
  using cpu_main_pass_keeps[of k ev] smp[of k "SmOnline _"] smp[of k SmReady]
  by (cases op) (auto intro: trap_rust_keeps)

lemma kernel_run_keeps: "I k \<Longrightarrow> kernel_run ops k = Some k' \<Longrightarrow> I k'"
  by (induction ops k rule: kernel_run.induct) (auto intro: kernel_exec_keeps split: option.splits)

end

end
