(* ===== verification/Run_Sound.thy ===== *)
theory Run_Sound
  imports Kernel_Inv
begin

text \<open>
  The scheduler and the task table together.  The scheduler of \<open>sched/mod.rs\<close> holds task identities,
  the table of \<open>task/mod.rs\<close> the tasks and the current task of each CPU; \<open>run_sound\<close> is what the
  system calls and traps rely on across the two, and it is an instance of \<open>kernel_inv\<close>.
\<close>

subsection \<open>Identities in the scheduler\<close>

definition sched_ids :: "scheduler \<Rightarrow> pid multiset" where
  "sched_ids s = image_mset st_id (all_tasks s)"

definition cur_id :: "scheduler \<Rightarrow> usize \<Rightarrow> pid option" where
  "cur_id s c = map_option st_id (current (cpus s ! c))"

text \<open>No CPU runs a task it did not run before.\<close>

definition cur_less :: "scheduler \<Rightarrow> scheduler \<Rightarrow> bool" where
  "cur_less s' s \<longleftrightarrow> (\<forall>c < MAX_CPUS. cur_id s' c = None \<or> cur_id s' c = cur_id s c)"

lemma cur_less_refl [simp]: "cur_less s s"
  by (simp add: cur_less_def)

lemma cur_less_trans: "cur_less s2 s1 \<Longrightarrow> cur_less s1 s \<Longrightarrow> cur_less s2 s"
  unfolding cur_less_def by metis

lemma cur_id_upd [simp]:
  "c < length (cpus s) \<Longrightarrow>
     cur_id (upd_cpu c f s) d = (if d = c then map_option st_id (current (f (cpus s ! c))) else cur_id s d)"
  by (simp add: cur_id_def)

lemma wf_length: "sched_wf s \<Longrightarrow> length (cpus s) = MAX_CPUS"
  by (simp add: sched_wf_def)

lemma sched_ids_add: "all_tasks s' + X = all_tasks s \<Longrightarrow> sched_ids s' + image_mset st_id X = sched_ids s"
  by (metis image_mset_union sched_ids_def)

lemma sched_ids_sub: "all_tasks s' + X = all_tasks s \<Longrightarrow> sched_ids s' \<subseteq># sched_ids s"
  using sched_ids_add by (metis mset_subset_eq_add_left)

lemma cur_in_ids:
  assumes "sched_wf s" "c < MAX_CPUS" "cur_id s c = Some p"
  shows "p \<in># sched_ids s"
proof -
  obtain t where t: "current (cpus s ! c) = Some t" "st_id t = p" using assms(3) by (auto simp: cur_id_def)
  have "t \<in># rq_tasks (cpus s ! c)" using t by (simp add: rq_tasks_def)
  moreover have "cpus s ! c \<in> set (cpus s)" using assms by (simp add: wf_length)
  ultimately have "t \<in># all_tasks s"
    unfolding all_tasks_def by (induction "cpus s" arbitrary: s) (auto simp: sum_list_map_remove1 in_set_conv_decomp)
  then show ?thesis using t by (auto simp: sched_ids_def)
qed

lemma schedule_next_ids:
  assumes wf: "sched_wf s" and n: "schedule_next raw s = (r, s')"
  shows "sched_wf s'" "sched_ids s' \<subseteq># sched_ids s"
    "\<And>c. cur_id s' c = (if c = current_cpu_index raw then r else cur_id s c)"
proof -
  show "sched_wf s'" using schedule_next_wf(1)[OF wf, of raw] n by simp
  show "sched_ids s' \<subseteq># sched_ids s" using sched_ids_sub[OF schedule_next_tasks[OF wf, of raw]] n by simp
  have "current_cpu_index raw < length (cpus s)" using wf by (simp add: wf_length)
  then show "cur_id s' c = (if c = current_cpu_index raw then r else cur_id s c)" for c
    using n by (auto simp: schedule_next_def Let_def split: option.splits)
qed

lemma finish_ids:
  assumes wf: "sched_wf s"
  shows "sched_wf (finish_current raw s)" "sched_ids (finish_current raw s) \<subseteq># sched_ids s"
    "cur_less (finish_current raw s) s"
proof -
  let ?c = "current_cpu_index raw"
  have c: "?c < length (cpus s)" using wf by (simp add: wf_length)
  show "sched_wf (finish_current raw s)"
    unfolding finish_current_def using sched_wf_nth[OF wf, of ?c] by (intro sched_wf_upd[OF wf]) simp_all
  have "rq_tasks ((cpus s ! ?c)\<lparr>current := None\<rparr>) + cur_tasks s ?c = rq_tasks (cpus s ! ?c)"
    using rq_tasks_current[of None "cpus s ! ?c"] by (simp add: cur_tasks_def)
  from tasks_swap[OF all_tasks_upd[OF c, of "\<lambda>rq. rq\<lparr>current := None\<rparr>"] this]
  show "sched_ids (finish_current raw s) \<subseteq># sched_ids s"
    by (intro sched_ids_sub) (simp add: finish_current_def)
  show "cur_less (finish_current raw s) s" using c by (simp add: cur_less_def finish_current_def)
qed

lemma yield_ids:
  assumes wf: "sched_wf s"
  shows "sched_wf (yield_current raw s)" "sched_ids (yield_current raw s) = sched_ids s"
    "cur_less (yield_current raw s) s"
proof -
  show "sched_wf (yield_current raw s)" by (rule yield_current_wf(1)[OF wf])
  show "sched_ids (yield_current raw s) = sched_ids s" by (simp add: sched_ids_def yield_current_tasks[OF wf])
  show "cur_less (yield_current raw s) s"
  proof (cases "current (cpus s ! current_cpu_index raw)")
    case (Some t)
    then show ?thesis using wf by (simp add: yield_current_cases[OF wf Some] cur_less_def wf_length)
  qed (simp add: yield_current_def cur_less_def)
qed

lemma purge_ids:
  assumes wf: "sched_wf s"
  shows "sched_wf (purge p s)" "sched_ids (purge p s) = filter_mset (\<lambda>q. q \<noteq> p) (sched_ids s)" "cur_less (purge p s) s"
proof -
  show "sched_wf (purge p s)" by (rule purge_wf(1)[OF wf])
  have queue: "image_mset st_id (sum_list (map (mset \<circ> filter (\<lambda>t. st_id t \<noteq> p)) qs)) =
      filter_mset (\<lambda>q. q \<noteq> p) (image_mset st_id (sum_list (map mset qs)))" for qs
    by (induction qs) (simp_all add: filter_mset_image_mset)
  have "image_mset st_id (sum_list (map (\<lambda>rq. rq_tasks (rq\<lparr>queues := map (filter (\<lambda>t. st_id t \<noteq> p)) (queues rq),
         current := (case current rq of Some t \<Rightarrow> if st_id t = p then None else Some t | None \<Rightarrow> None)\<rparr>)) cs)) =
      filter_mset (\<lambda>q. q \<noteq> p) (image_mset st_id (sum_list (map rq_tasks cs)))" for cs
    by (induction cs) (simp_all add: rq_tasks_def queue comp_def[symmetric] split: option.split)
  then show "sched_ids (purge p s) = filter_mset (\<lambda>q. q \<noteq> p) (sched_ids s)"
    by (simp add: sched_ids_def all_tasks_def purge_def comp_def)
  show "cur_less (purge p s) s"
    using wf by (auto simp: cur_less_def purge_def cur_id_def wf_length split: option.split)
qed

lemma enqueue_ids:
  assumes wf: "sched_wf s" and e: "enqueue_on_cpu c p q s = (r, s')"
  shows "sched_wf s'" "sched_ids s' = (if r = Enqueued then add_mset p (sched_ids s) else sched_ids s)"
    "cur_less s' s"
proof -
  have "sched_wf s' \<and> sched_ids s' = (if r = Enqueued then add_mset p (sched_ids s) else sched_ids s) \<and> cur_less s' s"
  proof (cases "MAX_CPUS \<le> c")
    case True
    then show ?thesis using e wf by (auto simp: enqueue_on_cpu_def cur_less_def)
  next
    case False
    then have c: "c < MAX_CPUS" "c < length (cpus s)" using wf by (simp_all add: wf_length)
    let ?f = "\<lambda>rq. put_queue q (queue_mut rq q @ [\<lparr>st_id = p, st_qos = q\<rparr>]) rq"
    have push: "push_on c p q (runtime_queue_capacity_for q) s = (r, s')" using e False by (simp add: enqueue_on_cpu_def)
    have l4: "length (queues (cpus s ! c)) = 4" using sched_wf_nth[OF wf c(1)] by (simp add: rq_wf_def)
    have "rq_tasks (?f (cpus s ! c)) = rq_tasks (cpus s ! c) + {#\<lparr>st_id = p, st_qos = q\<rparr>#}"
      using rq_tasks_put[OF l4, of q "queue_mut (cpus s ! c) q @ [\<lparr>st_id = p, st_qos = q\<rparr>]"] by simp
    with all_tasks_upd[OF c(2), of ?f] have "all_tasks (upd_cpu c ?f s) = all_tasks s + {#\<lparr>st_id = p, st_qos = q\<rparr>#}"
      by (simp add: union_assoc[symmetric])
    then show ?thesis
      using push_on_cases[OF wf c(1) push] c(2)
      by (auto simp: sched_ids_def cur_less_def cur_id_def[symmetric] split: if_splits)
  qed
  then show "sched_wf s'" "sched_ids s' = (if r = Enqueued then add_mset p (sched_ids s) else sched_ids s)"
    "cur_less s' s" by auto
qed

lemma set_task_qos_ids:
  assumes wf: "sched_wf s"
  shows "sched_wf (snd (set_task_qos i q s))" "sched_ids (snd (set_task_qos i q s)) = sched_ids s"
    "cur_less (snd (set_task_qos i q s)) s"
proof -
  let ?s' = "snd (set_task_qos i q s)"
  have keep: "sched_wf (upd_cpu c f s) \<and> sched_ids (upd_cpu c f s) = sched_ids s \<and> cur_less (upd_cpu c f s) s"
    if "c < MAX_CPUS" "rq_wf (f (cpus s ! c))"
      "image_mset st_id (rq_tasks (f (cpus s ! c))) = image_mset st_id (rq_tasks (cpus s ! c))"
      "map_option st_id (current (f (cpus s ! c))) = cur_id s c" for c f
    using that ids_upd[of c s f] wf by (simp add: sched_wf_upd sched_ids_def cur_less_def wf_length)
  have "sched_wf ?s' \<and> sched_ids ?s' = sched_ids s \<and> cur_less ?s' s"
  proof (cases "find_index (\<lambda>rq. case current rq of None \<Rightarrow> False | Some t \<Rightarrow> st_id t = i) (cpus s)")
    case (Some c)
    then have c: "c < MAX_CPUS" using wf by (simp add: find_index_Some sched_wf_def)
    let ?f = "\<lambda>rq. rq\<lparr>current := map_option (\<lambda>t. t\<lparr>st_qos := q\<rparr>) (current rq)\<rparr>"
    have "image_mset st_id (rq_tasks (?f (cpus s ! c))) = image_mset st_id (rq_tasks (cpus s ! c))"
      by (simp add: rq_tasks_def split: option.split)
    then have "sched_wf (upd_cpu c ?f s) \<and> sched_ids (upd_cpu c ?f s) = sched_ids s \<and> cur_less (upd_cpu c ?f s) s"
      using sched_wf_nth[OF wf c] by (intro keep[OF c]) (simp_all add: cur_id_def option.map_comp comp_def)
    then show ?thesis using Some by (simp add: set_task_qos_def)
  next
    case none: None
    show ?thesis
    proof (cases "find_queued i s")
      case None
      then show ?thesis using none wf by (simp add: set_task_qos_def cur_less_def)
    next
      case (Some x)
      obtain c j p where x: "x = (c, j, p)" by (cases x)
      note f = find_queued_Some[OF wf Some[unfolded x]]
      obtain q0 where q0: "qos_index q0 = j" using ex_qos_index[OF f(2)] by blast
      have p: "p < length (queue_mut (cpus s ! c) q0)" using f q0 by (simp add: queue_mut_def)
      note mv = move_task_facts[OF sched_wf_nth[OF wf f(1)] p, of q]
      have "sched_wf (upd_cpu c (move_task q0 p q) s) \<and> sched_ids (upd_cpu c (move_task q0 p q) s) = sched_ids s \<and>
          cur_less (upd_cpu c (move_task q0 p q) s) s"
        by (rule keep[of c "move_task q0 p q", OF f(1) mv(1,2)]) (simp add: move_task_def Let_def cur_id_def)
      then show ?thesis
        using set_task_qos_queued[OF wf none Some[unfolded x] q0, of q] wf by (simp add: cur_less_def)
    qed
  qed
  then show "sched_wf ?s'" "sched_ids ?s' = sched_ids s" "cur_less ?s' s" by auto
qed

lemma tasks_exchange:
  fixes A A' R R' C X :: "'a multiset"
  assumes "A' + R = A + R'" "R' + C = R + X"
  shows "A' + C = A + X"
proof -
  have "(A' + C) + R = (A' + R) + C" by (simp add: ac_simps)
  also have "\<dots> = A + (R' + C)" unfolding assms(1) by (simp add: ac_simps)
  also have "\<dots> = (A + X) + R" unfolding assms(2) by (simp add: ac_simps)
  finally show ?thesis by simp
qed

lemma steal_ids:
  assumes wf: "sched_wf s" and st: "steal_into_current raw online m allow home s = (r, s')"
  shows "sched_wf s'" "sched_ids s' \<subseteq># sched_ids s"
    "\<And>c. cur_id s' c = (if c = current_cpu_index raw \<and> r \<noteq> None then r else cur_id s c)"
proof -
  let ?c = "current_cpu_index raw"
  obtain ot s1 where ts: "selftest_try_steal online ?c m s = (ot, s1)" by fastforce
  have "sched_wf s' \<and> sched_ids s' \<subseteq># sched_ids s \<and>
      (\<forall>c. cur_id s' c = (if c = ?c \<and> r \<noteq> None then r else cur_id s c))"
  proof (cases ot)
    case None
    then have "s1 = s" using ts by (auto simp: selftest_try_steal_def split: option.splits)
    then show ?thesis using st ts None wf by (auto simp: steal_into_current_def Let_def)
  next
    case (Some t)
    note T = try_steal_Some[OF wf ts[unfolded Some]]
    have cur: "cur_id s1 c = cur_id s c" for c by (simp add: cur_id_def T(5))
    define h where "h = min (home (st_id t)) (MAX_CPUS - 1)"
    have h: "h < MAX_CPUS" by (simp add: h_def MAX_CPUS_def)
    have l: "?c < length (cpus s1)" "h < length (cpus s1)" using T(2) h by (simp_all add: wf_length)
    let ?f = "\<lambda>rq. rq\<lparr>current := Some t\<rparr>" and ?g = "\<lambda>rq. put_queue (st_qos t) (t # queue_mut rq (st_qos t)) rq"
    have s': "(r, s') = (if allow (st_id t) then (Some (st_id t), upd_cpu ?c ?f s1) else (None, upd_cpu h ?g s1))"
      using st ts Some by (auto simp: steal_into_current_def Let_def h_def)
    have "rq_tasks (?f (cpus s1 ! ?c)) + cur_tasks s1 ?c = rq_tasks (cpus s1 ! ?c) + {#t#}"
      using rq_tasks_current[of "Some t" "cpus s1 ! ?c"] by (simp add: cur_tasks_def)
    from tasks_exchange[OF all_tasks_upd[OF l(1), of ?f] this]
    have a: "sched_ids (upd_cpu ?c ?f s1) \<subseteq># sched_ids s" using sched_ids_sub T(3) by simp
    have "rq_tasks (?g (cpus s1 ! h)) = rq_tasks (cpus s1 ! h) + {#t#}"
      using rq_tasks_put[of "cpus s1 ! h" "st_qos t" "t # queue_mut (cpus s1 ! h) (st_qos t)"] sched_wf_nth[OF T(2) h]
      by (simp add: rq_wf_def)
    with all_tasks_upd[OF l(2), of ?g] T(3) have b: "sched_ids (upd_cpu h ?g s1) = sched_ids s"
      by (simp add: sched_ids_def union_assoc[symmetric])
    have w: "sched_wf (upd_cpu ?c ?f s1)" "sched_wf (upd_cpu h ?g s1)"
      using sched_wf_nth[OF T(2), of ?c] sched_wf_nth[OF T(2) h] h
      by (auto intro!: sched_wf_upd[OF T(2)] rq_wf_put simp: rq_wf_def)
    show ?thesis
      using s' a b w l cur by (auto simp: cur_id_def[symmetric] split: if_splits)
  qed
  then show "sched_wf s'" "sched_ids s' \<subseteq># sched_ids s"
    "\<And>c. cur_id s' c = (if c = ?c \<and> r \<noteq> None then r else cur_id s c)" by auto
qed

subsection \<open>The invariant\<close>

text \<open>\<open>run_view\<close> is the part of a task the scheduler's correctness depends on.\<close>

definition run_view :: "kernel \<Rightarrow> pid \<Rightarrow> (bool \<times> task_state) option" where
  "run_view k p = map_option (\<lambda>t. (t_blocked t, t_state t)) (task_of k p)"

definition runnable :: "kernel \<Rightarrow> pid \<Rightarrow> bool" where
  "runnable k p = (case task_of k p of None \<Rightarrow> False | Some t \<Rightarrow> \<not> t_blocked t \<and> t_state t \<noteq> Suspended)"

definition started :: "kernel \<Rightarrow> pid \<Rightarrow> bool" where
  "started k p = (case task_of k p of None \<Rightarrow> False | Some t \<Rightarrow> t_state t \<noteq> Suspended)"

text \<open>Every task is in at most one run queue or on one CPU; the tasks there exist, are started and not
  blocked; and what the scheduler takes for the current task of a CPU is the task table's.\<close>

definition run_sound :: "kernel \<Rightarrow> bool" where
  "run_sound k \<longleftrightarrow>
     sched_wf (k_sched k) \<and> (\<forall>p. count (sched_ids (k_sched k)) p \<le> 1) \<and>
     (\<forall>p \<in># sched_ids (k_sched k). runnable k p) \<and>
     length (tt_current (k_tt k)) = MAX_CPUS \<and>
     (\<forall>c < MAX_CPUS. \<forall>p. cur_id (k_sched k) c = Some p \<longrightarrow> tt_current (k_tt k) ! c = p) \<and>
     (\<forall>p \<in> set (tt_current (k_tt k)). started k p) \<and> started k KERNEL_PID \<and>
     (\<forall>p t. task_of k p = Some t \<and> t_blocked t \<longrightarrow> t_state t \<noteq> Suspended)"

lemma runnable_view: "runnable k p \<longleftrightarrow> (\<exists>s. run_view k p = Some (False, s) \<and> s \<noteq> Suspended)"
  by (auto simp: runnable_def run_view_def split: option.splits)

lemma started_view: "started k p \<longleftrightarrow> (\<exists>b s. run_view k p = Some (b, s) \<and> s \<noteq> Suspended)"
  by (auto simp: started_def run_view_def split: option.splits)

lemma blocked_view:
  "(\<forall>p t. task_of k p = Some t \<and> t_blocked t \<longrightarrow> t_state t \<noteq> Suspended) \<longleftrightarrow> (\<forall>p. run_view k p \<noteq> Some (True, Suspended))"
  by (fastforce simp: run_view_def)

lemmas run_sound_view = run_sound_def runnable_view started_view blocked_view

lemma run_sound_cong:
  "k_sched k' = k_sched k \<Longrightarrow> tt_current (k_tt k') = tt_current (k_tt k) \<Longrightarrow> run_view k' = run_view k \<Longrightarrow>
     run_sound k' = run_sound k"
  by (simp add: run_sound_view)

lemma task_of_upd: "task_of (upd_task q f k) p = (if p = q then map_option f (task_of k q) else task_of k p)"
  by (auto simp: upd_task_def task_of_def upd_tt_def vec_get_def nth_list_update word_unat_eq_iff split: option.splits)

lemma upd_task_frame [simp]:
  "k_sched (upd_task q f k) = k_sched k" "tt_current (k_tt (upd_task q f k)) = tt_current (k_tt k)"
  "k_smp (upd_task q f k) = k_smp k" "k_spaces (upd_task q f k) = k_spaces k"
  "k_router (upd_task q f k) = k_router k" "k_timers (upd_task q f k) = k_timers k"
  "length (tt_tasks (k_tt (upd_task q f k))) = length (tt_tasks (k_tt k))"
  by (simp_all add: upd_task_def upd_tt_def split: option.split)

lemma run_sound_upd:
  assumes k: "run_sound k"
    and f: "\<And>t. task_of k q = Some t \<Longrightarrow> (t_state t \<noteq> Suspended \<longrightarrow> t_state (f t) \<noteq> Suspended) \<and>
      (t_blocked (f t) \<longrightarrow> t_state (f t) \<noteq> Suspended \<and> q \<notin># sched_ids (k_sched k))"
  shows "run_sound (upd_task q f k)"
proof -
  let ?k = "upd_task q f k"
  have "runnable k p \<Longrightarrow> p \<in># sched_ids (k_sched k) \<Longrightarrow> runnable ?k p" "started k p \<Longrightarrow> started ?k p" for p
    using f by (auto simp: runnable_def started_def task_of_upd split: option.splits)
  moreover have "t_state t \<noteq> Suspended" if "task_of ?k p = Some t" "t_blocked t" for p t
    using that k f by (auto simp: task_of_upd run_sound_def split: if_splits)
  ultimately show ?thesis using k by (auto simp: run_sound_def)
qed

lemma blocked_unscheduled:
  "run_sound k \<Longrightarrow> task_of k q = Some t \<Longrightarrow> t_blocked t \<Longrightarrow> t_state t \<noteq> Suspended \<and> q \<notin># sched_ids (k_sched k)"
  by (auto simp: run_sound_def runnable_def)

lemma run_sound_task: "run_sound k \<Longrightarrow> run_same f \<Longrightarrow> run_sound (upd_task q f k)"
  by (rule run_sound_upd) (auto simp: run_same_def dest: blocked_unscheduled)

text \<open>Steps of the scheduler alone.\<close>

lemma run_sound_shrink:
  assumes "run_sound k" "sched_wf s" "sched_ids s \<subseteq># sched_ids (k_sched k)"
    "\<forall>c < MAX_CPUS. \<forall>p. cur_id s c = Some p \<longrightarrow> tt_current (k_tt k) ! c = p"
  shows "run_sound (k\<lparr>k_sched := s\<rparr>)"
proof -
  have "count (sched_ids s) p \<le> 1" for p
    using assms(1) mset_subset_eq_count[OF assms(3), of p] by (auto simp: run_sound_def intro: le_trans)
  moreover have "p \<in># sched_ids (k_sched k)" if "p \<in># sched_ids s" for p
    by (rule mset_subset_eqD[OF assms(3) that])
  ultimately show ?thesis
    using assms(1,2,4) by (auto simp: run_sound_def runnable_def started_def task_of_def)
qed

lemma run_sound_less:
  "run_sound k \<Longrightarrow> sched_wf s \<Longrightarrow> sched_ids s \<subseteq># sched_ids (k_sched k) \<Longrightarrow> cur_less s (k_sched k) \<Longrightarrow> run_sound (k\<lparr>k_sched := s\<rparr>)"
  by (rule run_sound_shrink) (auto simp: run_sound_def cur_less_def)

lemma run_sound_dispatch:
  assumes k: "run_sound k" and s: "sched_wf s" "sched_ids s \<subseteq># sched_ids (k_sched k)"
    and cur: "\<And>c. cur_id s c = (if c = current_cpu_index (ev_cpu ev) then Some p else cur_id (k_sched k) c)"
  shows "run_sound (set_current ev p (k\<lparr>k_sched := s\<rparr>))"
proof -
  let ?c = "current_cpu_index (ev_cpu ev)"
  let ?k = "k\<lparr>k_tt := (k_tt k)\<lparr>tt_current := (tt_current (k_tt k))[?c := p]\<rparr>\<rparr>"
  have "p \<in># sched_ids s" by (rule cur_in_ids[OF s(1), of ?c]) (simp_all add: cur)
  then have "p \<in># sched_ids (k_sched k)" by (rule mset_subset_eqD[OF s(2)])
  with k have p: "started k p" by (fastforce simp: run_sound_def runnable_def started_def split: option.splits)
  have "count (sched_ids s) q \<le> 1" for q
    using k mset_subset_eq_count[OF s(2), of q] by (auto simp: run_sound_def intro: le_trans)
  moreover have "\<forall>q \<in># sched_ids s. runnable k q"
    using k mset_subset_eqD[OF s(2)] by (auto simp: run_sound_def)
  moreover have "\<forall>q \<in> set ((tt_current (k_tt k))[?c := p]). started k q"
    using k p set_update_subset_insert[of "tt_current (k_tt k)" ?c p] by (auto simp: run_sound_def)
  moreover have "run_view (set_current ev p (k\<lparr>k_sched := s\<rparr>)) = run_view k"
    by (auto simp: run_view_def set_current_def upd_tt_def task_of_def)
  ultimately show ?thesis
    using k s(1) cur unfolding run_sound_view
    by (auto simp: set_current_def upd_tt_def nth_list_update)
qed

subsection \<open>Blocking, waking, spawning and exiting\<close>

lemma block_sound:
  assumes k: "run_sound k"
  shows "run_sound (block_current ev br k)"
proof -
  let ?p = "current_pid ev k" and ?c = "current_cpu_index (ev_cpu ev)"
  let ?s = "finish_current (ev_cpu ev) (purge ?p (k_sched k))"
  have wf: "sched_wf (k_sched k)" using k by (simp add: run_sound_def)
  note P = purge_ids[OF wf, of ?p] and F = finish_ids[OF purge_ids(1)[OF wf, of ?p], of "ev_cpu ev"]
  have less: "cur_less ?s (k_sched k)" using cur_less_trans[OF F(3) P(3)] .
  have sub: "sched_ids ?s \<subseteq># filter_mset (\<lambda>q. q \<noteq> ?p) (sched_ids (k_sched k))" using F(2) P(2) by simp
  have "run_sound (k\<lparr>k_sched := ?s\<rparr>)"
    by (rule run_sound_less[OF k F(1) _ less]) (meson multiset_filter_subset subset_mset.order_trans sub)
  moreover have "?p \<notin># sched_ids ?s" using mset_subset_eqD[OF sub] by auto
  moreover have "started k ?p" using k by (simp add: run_sound_def current_pid_def)
  moreover have "block_current ev br k = upd_task ?p (set_blocked br) (k\<lparr>k_sched := ?s\<rparr>)"
    by (simp add: block_current_def Let_def upd_task_def upd_tt_def task_of_def split: option.split)
  ultimately show ?thesis
    by (auto simp: set_blocked_def started_def task_of_def intro!: run_sound_upd split: option.splits)
qed

lemma kick_sound [simp]: "run_sound (kick ev c k) = run_sound k"
  by (rule run_sound_cong) (auto simp: kick_def run_view_def task_of_def)

lemma ids_enqueued:
  assumes k: "run_sound k" and e: "enqueue_on_cpu c p q s = (Enqueued, s')" and s: "sched_wf s" "cur_less s (k_sched k)"
    "sched_ids s \<subseteq># sched_ids (k_sched k)" "p \<notin># sched_ids s"
    and f: "task_of k p = Some t" "t_state (f t) \<noteq> Suspended" "\<not> t_blocked (f t)"
  shows "run_sound (upd_task p f (k\<lparr>k_sched := s'\<rparr>))"
proof -
  let ?k = "upd_task p f (k\<lparr>k_sched := s'\<rparr>)"
  note E = enqueue_ids[OF s(1) e]
  have n: "task_of ?k q = (if q = p then Some (f t) else task_of k q)" for q
    using f by (auto simp: task_of_upd) (auto simp: task_of_def)
  have c0: "count (sched_ids s) q \<le> count (sched_ids (k_sched k)) q" for q by (rule mset_subset_eq_count[OF s(3)])
  have "count (sched_ids s') q \<le> 1" for q
    using c0[of q] k s(4) E(2) by (cases "q = p") (auto simp: run_sound_def not_in_iff intro: le_trans)
  moreover have "runnable ?k q" if "q \<in># sched_ids s'" for q
    using that k E(2) f mset_subset_eqD[OF s(3), of q]
    by (cases "q = p") (auto simp: runnable_def n run_sound_def split: option.splits)
  moreover have "started ?k q" if "started k q" for q using that f by (simp add: started_def n)
  moreover have "cur_less s' (k_sched k)" using cur_less_trans[OF E(3) s(2)] .
  ultimately show ?thesis
    using k E(1) f by (auto simp: run_sound_def n cur_less_def split: if_splits)
qed

lemma wake_sound:
  assumes k: "run_sound k"
  shows "run_sound (snd (wake ev p k))"
proof (cases "task_of k p")
  case (Some t)
  have wf: "sched_wf (k_sched k)" using k by (simp add: run_sound_def)
  note P = purge_ids[OF wf, of p]
  obtain r s where e: "enqueue_on_cpu (home_of t k) p (t_qos t) (purge p (k_sched k)) = (r, s)" by fastforce
  note E = enqueue_ids[OF P(1) e]
  have sub: "sched_ids (purge p (k_sched k)) \<subseteq># sched_ids (k_sched k)" using P(2) by simp
  have started: "t_blocked t \<Longrightarrow> t_state t \<noteq> Suspended" using k Some by (simp add: run_sound_def)
  have "run_sound (k\<lparr>k_sched := s\<rparr>)" if "r \<noteq> Enqueued"
    using run_sound_less[OF k E(1)] that E(2) sub cur_less_trans[OF E(3) P(3)] by simp
  moreover have "run_sound (upd_task p clear_blocked k)"
    by (rule run_sound_upd[OF k]) (simp add: clear_blocked_def)
  moreover have "run_sound (upd_task p clear_blocked (k\<lparr>k_sched := s\<rparr>))" if "r = Enqueued" "t_blocked t"
    using e that started by (intro ids_enqueued[OF k _ P(1,3) sub _ Some]) (auto simp: P(2) clear_blocked_def)
  ultimately show ?thesis
    using k Some e by (auto simp: wake_def split: enqueue_outcome.split)
qed (simp add: wake_def k)

lemma resume_sound:
  assumes k: "run_sound k"
  shows "run_sound (snd (resume_task ev p k))"
proof (cases "task_of k p")
  case (Some t)
  have wf: "sched_wf (k_sched k)" using k by (simp add: run_sound_def)
  obtain r s where e: "enqueue_on_cpu (home_of t k) p (t_qos t) (k_sched k) = (r, s)" by fastforce
  note E = enqueue_ids[OF wf e]
  have "p \<notin># sched_ids (k_sched k)" "\<not> t_blocked t" if "t_state t = Suspended"
    using k Some that by (auto simp: run_sound_def runnable_def)
  then have "run_sound (upd_task p (\<lambda>t. t\<lparr>t_state := Running\<rparr>) (k\<lparr>k_sched := s\<rparr>))"
    if "r = Enqueued" "t_state t = Suspended"
    using e that by (intro ids_enqueued[OF k _ wf _ _ _ Some]) (auto simp: cur_less_def)
  moreover have "run_sound (k\<lparr>k_sched := s\<rparr>)" if "r \<noteq> Enqueued"
    using run_sound_less[OF k E(1)] that E(2,3) by simp
  ultimately show ?thesis
    using k Some e by (auto simp: resume_task_def split: enqueue_outcome.split)
qed (simp add: resume_task_def k)

lemma exit_sound: "run_sound k \<Longrightarrow> run_sound (snd (exit_current ev st k))"
  by (auto simp: exit_current_def intro!: run_sound_upd split: option.split dest: blocked_unscheduled)

lemma frame_sound [simp]:
  "run_sound (k\<lparr>k_spaces := m\<rparr>) = run_sound k" "run_sound (k\<lparr>k_router := r\<rparr>) = run_sound k"
  "run_sound (k\<lparr>k_timers := tm\<rparr>) = run_sound k" "run_sound (k\<lparr>k_waitsets := ws\<rparr>) = run_sound k"
  "run_sound (k\<lparr>k_fences := fs\<rparr>) = run_sound k" "run_sound (k\<lparr>k_smp := sm\<rparr>) = run_sound k"
  "run_sound (k\<lparr>k_pool := vp, k_mem := mem\<rparr>) = run_sound k" "run_sound (k\<lparr>k_stack_cursor := c\<rparr>) = run_sound k"
  "run_sound (k\<lparr>k_armed := ar\<rparr>) = run_sound k" "run_sound (k\<lparr>k_irq := ir\<rparr>) = run_sound k"
  "run_sound (k\<lparr>k_last_message := lm\<rparr>) = run_sound k"
  "run_sound (k\<lparr>k_ecall_sepc := es, k_ecall_same := en\<rparr>) = run_sound k"
  by (simp_all add: run_sound_def runnable_def started_def task_of_def)

lemma reap_sound:
  assumes k: "run_sound k"
  shows "run_sound (reap_task q k)"
proof -
  have "run_sound (upd_task q (\<lambda>t. t\<lparr>t_exit_code := None, t_parent := None, t_caps := cap_new, t_bootstrap_slot := None,
      t_frame := frame_default, t_children := [], t_address_space := None\<rparr>) k)"
    by (rule run_sound_upd[OF k]) (auto dest: blocked_unscheduled[OF k])
  then show ?thesis using k by (auto simp: reap_task_def Let_def split: option.split)
qed

lemma new_task_sound:
  assumes k: "run_sound k" and t: "t_state t = Suspended" "\<not> t_blocked t"
  shows "run_sound (upd_tt (\<lambda>tt. tt\<lparr>tt_tasks := tt_tasks tt @ [t]\<rparr>) k)" (is "run_sound ?k")
proof -
  have n: "task_of k p = Some u \<Longrightarrow> task_of ?k p = Some u" "task_of ?k p = Some u \<Longrightarrow> task_of k p = Some u \<or> u = t" for p u
    by (auto simp: task_of_def upd_tt_def vec_get_def nth_append split: if_splits)
  have "runnable k p \<Longrightarrow> runnable ?k p" "started k p \<Longrightarrow> started ?k p" for p
    by (auto simp: runnable_def started_def n(1) split: option.splits)
  moreover have "t_state u \<noteq> Suspended" if "task_of ?k p = Some u" "t_blocked u" for p u
    using n(2)[OF that(1)] that(2) t(2) k by (auto simp: run_sound_def)
  ultimately show ?thesis using k unfolding run_sound_def by (auto simp: upd_tt_def)
qed

lemma kernel_current_sound:
  assumes k: "run_sound k" and u: "unclaimed ev k"
  shows "run_sound (set_current ev KERNEL_PID k)"
proof -
  let ?c = "current_cpu_index (ev_cpu ev)"
  have "cur_id (k_sched k) ?c = None"
  proof (rule ccontr)
    assume "cur_id (k_sched k) ?c \<noteq> None"
    then obtain t where t: "current (cpus (k_sched k) ! ?c) = Some t" by (auto simp: cur_id_def)
    then have "st_id t \<in># sched_ids (k_sched k)"
      using k by (intro cur_in_ids[of _ ?c]) (auto simp: run_sound_def cur_id_def)
    moreover have "task_of k (st_id t) = None" using u t k by (simp add: unclaimed_def Let_def run_sound_def wf_length)
    ultimately show False using k by (auto simp: run_sound_def runnable_def)
  qed
  moreover have "\<forall>q \<in> set ((tt_current (k_tt k))[?c := KERNEL_PID]). started k q"
    using k set_update_subset_insert[of "tt_current (k_tt k)" ?c KERNEL_PID] by (auto simp: run_sound_def)
  moreover have "run_view (set_current ev KERNEL_PID k) = run_view k"
    by (auto simp: run_view_def set_current_def upd_tt_def task_of_def)
  ultimately show ?thesis
    using k unfolding run_sound_view by (auto simp: set_current_def upd_tt_def nth_list_update)
qed

interpretation run: kernel_inv run_sound
proof unfold_locales
  fix k :: kernel and ev :: env and s and q p :: pid
  assume k: "run_sound k"
  then have wf: "sched_wf (k_sched k)" by (simp add: run_sound_def)
  show "run_sound (k\<lparr>k_sched := snd (set_task_qos q cl (k_sched k))\<rparr>)" for cl
    using run_sound_less[OF k set_task_qos_ids(1)[OF wf]] set_task_qos_ids(2,3)[OF wf] by simp
  show "run_sound (k\<lparr>k_sched := yield_current cpu (k_sched k)\<rparr>)" for cpu
    using run_sound_less[OF k yield_ids(1)[OF wf]] yield_ids(2,3)[OF wf] by simp
  show "run_sound (k\<lparr>k_sched := finish_current cpu (k_sched k)\<rparr>)" for cpu
    by (rule run_sound_less[OF k finish_ids[OF wf]])
  show "run_sound (k\<lparr>k_sched := purge q (k_sched k)\<rparr>)"
    using run_sound_less[OF k purge_ids(1)[OF wf]] purge_ids(2,3)[OF wf] by simp
  show "run_sound (k\<lparr>k_sched := s\<rparr>)" if n: "schedule_next (ev_cpu ev) (k_sched k) = (r, s)"
    and r: "r = None \<or> r = Some (current_pid ev k)" for r
    using k r schedule_next_ids(3)[OF wf n]
    by (intro run_sound_shrink[OF k schedule_next_ids(1,2)[OF wf n]]) (auto simp: run_sound_def current_pid_def split: if_splits)
  show "run_sound (set_current ev q (k\<lparr>k_sched := s\<rparr>))" if n: "schedule_next (ev_cpu ev) (k_sched k) = (Some q, s)"
    by (rule run_sound_dispatch[OF k schedule_next_ids[OF wf n]])
  show "run_sound (k\<lparr>k_sched := s\<rparr>)"
    if n: "steal_into_current (ev_cpu ev) online qm allow home (k_sched k) = (None, s)" for online qm allow home
    using k steal_ids(3)[OF wf n] by (intro run_sound_shrink[OF k steal_ids(1,2)[OF wf n]]) (auto simp: run_sound_def)
  show "run_sound (set_current ev q (k\<lparr>k_sched := s\<rparr>))"
    if n: "steal_into_current (ev_cpu ev) online qm allow home (k_sched k) = (Some q, s)" for online qm allow home
    using steal_ids(3)[OF wf n] by (intro run_sound_dispatch[OF k steal_ids(1,2)[OF wf n]]) simp
qed (auto simp: block_sound wake_sound resume_sound exit_sound reap_sound kernel_current_sound run_sound_task
    new_task_sound)

end
