(* ===== verification/Kernel_Correct.thy ===== *)
theory Kernel_Correct
  imports Run_Sound
begin

text \<open>
  Histories of the whole kernel: any sequence of traps, system calls and passes of the per-CPU loops,
  on any CPUs, from \<open>KernelState::new\<close>.  The invariants of the components and the ones between the
  components are instances of \<open>kernel_inv\<close>; the properties at the end hold of every kernel reached.
\<close>

subsection \<open>Components\<close>

text \<open>What the steps on tasks and run queues leave alone.\<close>

lemma set_current_frame [simp]:
  "k_sched (set_current ev p k) = k_sched k" "k_smp (set_current ev p k) = k_smp k"
  "k_spaces (set_current ev p k) = k_spaces k" "k_router (set_current ev p k) = k_router k"
  "k_timers (set_current ev p k) = k_timers k"
  by (simp_all add: set_current_def upd_tt_def)

lemma upd_tt_frame [simp]:
  "k_sched (upd_tt f k) = k_sched k" "k_smp (upd_tt f k) = k_smp k" "k_spaces (upd_tt f k) = k_spaces k"
  "k_router (upd_tt f k) = k_router k" "k_timers (upd_tt f k) = k_timers k"
  by (simp_all add: upd_tt_def)

definition component_wf :: "u64 list \<Rightarrow> kernel \<Rightarrow> bool" where
  "component_wf ps k \<longleftrightarrow>
     pages_ok ps \<and> router_wf (k_router k) \<and> timers_wf (k_timers k) \<and> smp_wf (k_smp k) \<and> as_inv ps (k_spaces k)"

lemma component_frame [simp]:
  "component_wf ps (k\<lparr>k_sched := s\<rparr>) = component_wf ps k" "component_wf ps (upd_task q f k) = component_wf ps k"
  "component_wf ps (upd_tt g k) = component_wf ps k" "component_wf ps (set_current ev q k) = component_wf ps k"
  by (simp_all add: component_wf_def)

lemma kick_component: "component_wf ps k \<Longrightarrow> component_wf ps (kick ev c k)"
proof -
  assume k: "component_wf ps k"
  then have "smp_wf (snd (request_resched (ev_ipi ev c) c (k_smp k)))"
    using smp_exec_wf[of "k_smp k" "SmRequest (ev_ipi ev c) c"] by (simp add: component_wf_def)
  then show ?thesis using k by (simp add: component_wf_def kick_def)
qed

lemma reap_component: "component_wf ps k \<Longrightarrow> component_wf ps (reap_task q k)"
proof -
  assume k: "component_wf ps k"
  have ps: "pages_ok ps" and inv: "as_inv ps (k_spaces k)" using k by (simp_all add: component_wf_def)
  have "as_inv ps (snd (as_detach h q (k_spaces k)))" for h
    by (rule as_exec_inv[OF inv ps, where op = "ADetach h q"]) simp
  then have "as_inv ps (snd (as_destroy h (snd (as_detach h q (k_spaces k)))))" for h
    by (rule as_exec_inv[OF _ ps, where op = "ADestroy h"]) simp
  then show ?thesis using k by (auto simp: reap_task_def Let_def component_wf_def split: option.split)
qed

interpretation comp: kernel_inv "component_wf ps" for ps
proof unfold_locales
  fix k :: kernel and ev :: env and q :: pid
  assume k: "component_wf ps k"
  show "component_wf ps (reap_task q k)" by (rule reap_component[OF k])
  show "component_wf ps (snd (wake ev q k))"
    using k by (auto simp: wake_def intro!: kick_component split: option.split enqueue_outcome.split prod.split)
  show "component_wf ps (snd (resume_task ev q k))"
    using k by (auto simp: resume_task_def intro!: kick_component split: option.split enqueue_outcome.split prod.split)
  show "component_wf ps (k\<lparr>k_spaces := m\<rparr>)" if "as_exec b shoot aop (k_spaces k) = Some m" for b shoot aop m
    using k as_exec_inv[OF _ _ that, of ps] by (simp add: component_wf_def)
  show "component_wf ps (upd_tt f (k\<lparr>k_spaces := m\<rparr>))" if "as_attach h p (k_spaces k) = (x, m)" for f h p x m
    using k as_exec_inv[of ps "k_spaces k" undefined undefined "AAttach h p" m] that by (simp add: component_wf_def)
qed (auto simp: component_wf_def router_exec_wf timer_exec_wf smp_exec_wf exit_current_def block_current_def Let_def
    split: option.split)

subsection \<open>Tasks and their address spaces\<close>

text \<open>Task \<open>p\<close> is an owner of the live address space behind handle \<open>h\<close>.\<close>

definition owns :: "as_manager \<Rightarrow> u32 \<Rightarrow> pid \<Rightarrow> bool" where
  "owns m h p \<longleftrightarrow> (case as_get m h of Inl _ \<Rightarrow> False | Inr s \<Rightarrow> p \<in> as_owners s)"

lemma as_get_Inr:
  "as_get m h = Inr s \<longleftrightarrow> handle_index h < length (am_spaces m) \<and> am_spaces m ! handle_index h = Some s"
  by (auto simp: as_get_def Let_def ok_or_def split: option.splits)

lemma owns_iff: "owns m h p \<longleftrightarrow>
    (\<exists>s. handle_index h < length (am_spaces m) \<and> am_spaces m ! handle_index h = Some s \<and> p \<in> as_owners s)"
  by (auto simp: owns_def as_get_def Let_def ok_or_def split: option.splits)

lemma owns_put:
  "as_get m h0 = Inr s0 \<Longrightarrow> as_owners s0 - X \<subseteq> as_owners s \<Longrightarrow> owns m h p \<Longrightarrow> p \<notin> X \<Longrightarrow> owns (put_space h0 s m) h p"
  by (auto simp: owns_iff as_get_Inr put_space_def nth_list_update)

lemma owns_frame [simp]:
  "owns (m\<lparr>am_heap := hp\<rparr>) h p = owns m h p" "owns (m\<lparr>am_asids := a\<rparr>) h p = owns m h p"
  "owns (m\<lparr>am_tlb := t\<rparr>) h p = owns m h p" "owns (m\<lparr>am_stats := st\<rparr>) h p = owns m h p"
  "as_get (m\<lparr>am_heap := hp\<rparr>) h = as_get m h"
  by (simp_all add: owns_iff as_get_def Let_def)

lemma owns_attach: "as_attach h p m = (Ok (), m') \<Longrightarrow> owns m' h p"
  by (auto simp: as_attach_def owns_iff as_get_Inr put_space_def split: sum.splits)

lemma owns_detach: "owns m h p \<Longrightarrow> p \<noteq> q \<Longrightarrow> owns (snd (as_detach h' q m)) h p"
  by (auto simp: as_detach_def intro: owns_put[where X = "{q}"] split: sum.split)

lemma owns_destroy: "owns m h p \<Longrightarrow> owns (snd (as_destroy h' m)) h p"
  by (auto simp: as_destroy_def owns_iff as_get_Inr refcount_def nth_list_update split: sum.split)

lemma owns_store: "owns m h p \<Longrightarrow> owns (snd (store_space s m)) h p"
  by (auto simp: store_space_def owns_iff nth_append nth_list_update find_index_Some split: option.split)

lemma owns_create: "as_create b shoot m = Some (r, m') \<Longrightarrow> owns m h p \<Longrightarrow> owns m' h p"
  by (auto simp: as_create_def Let_def split_beta intro!: owns_store
      split: option.splits sum.splits)

lemma owns_map: "as_map_page h0 va pa fl m = Some (r, m') \<Longrightarrow> owns m h p \<Longrightarrow> owns m' h p"
  by (auto simp: as_map_page_def Let_def intro!: owns_put[where X = "{}"] split: option.splits sum.splits)

lemma owns_exec:
  assumes "as_exec b shoot aop m = Some m'" "\<forall>h q. aop \<noteq> ADetach h q" "owns m h p"
  shows "owns m' h p"
proof (cases aop)
  case ACreate
  then show ?thesis using assms owns_create by auto
next
  case (AAttach h' q)
  then show ?thesis using assms
    by (auto simp: as_attach_def intro: owns_put[where X = "{}"] split: sum.splits)
next
  case (AMap h' va pa fl)
  then show ?thesis using assms owns_map by auto
next
  case (ASetFlags h' va fl)
  then show ?thesis using assms
    by (auto simp: as_set_leaf_flags_def intro: owns_put[where X = "{}"] split: sum.splits prod.splits)
qed (use assms owns_destroy in auto)

definition spaces_owned :: "kernel \<Rightarrow> bool" where
  "spaces_owned k \<longleftrightarrow>
     (\<forall>p t h. task_of k p = Some t \<and> t_address_space t = Some h \<longrightarrow> owns (k_spaces k) h p)"

lemma spaces_owned_upd:
  "spaces_owned k \<Longrightarrow> (\<And>t. t_address_space (f t) = t_address_space t \<or> t_address_space (f t) = None) \<Longrightarrow>
     spaces_owned (upd_task q f k)"
  unfolding spaces_owned_def task_of_upd by (auto split: if_splits) (metis option.distinct(1))

lemma spaces_owned_frame [simp]:
  "spaces_owned (k\<lparr>k_router := r\<rparr>) = spaces_owned k" "spaces_owned (k\<lparr>k_sched := sd\<rparr>) = spaces_owned k"
  "spaces_owned (k\<lparr>k_timers := tm\<rparr>) = spaces_owned k" "spaces_owned (k\<lparr>k_waitsets := ws\<rparr>) = spaces_owned k"
  "spaces_owned (k\<lparr>k_fences := fs\<rparr>) = spaces_owned k" "spaces_owned (k\<lparr>k_smp := sm\<rparr>) = spaces_owned k"
  "spaces_owned (k\<lparr>k_pool := vp, k_mem := mem\<rparr>) = spaces_owned k" "spaces_owned (k\<lparr>k_stack_cursor := c\<rparr>) = spaces_owned k"
  "spaces_owned (k\<lparr>k_armed := ar\<rparr>) = spaces_owned k" "spaces_owned (k\<lparr>k_irq := ir\<rparr>) = spaces_owned k"
  "spaces_owned (k\<lparr>k_last_message := lm\<rparr>) = spaces_owned k" "spaces_owned (set_current ev q k) = spaces_owned k"
  "spaces_owned (k\<lparr>k_ecall_sepc := es, k_ecall_same := en\<rparr>) = spaces_owned k"
  by (simp_all add: spaces_owned_def task_of_def set_current_def upd_tt_def)

lemma reap_owned:
  assumes k: "spaces_owned k"
  shows "spaces_owned (reap_task q k)"
proof (cases "task_of k q")
  case (Some t)
  let ?f = "\<lambda>t. t\<lparr>t_exit_code := None, t_parent := None, t_caps := cap_new, t_bootstrap_slot := None,
               t_frame := frame_default, t_children := [], t_address_space := None\<rparr>"
  have "owns (snd (as_destroy h (snd (as_detach h q (k_spaces k))))) h' p"
    if "task_of (upd_task q ?f k) p = Some u" "t_address_space u = Some h'" for p u h h'
  proof -
    have "p \<noteq> q" "task_of k p = Some u" using that Some by (auto simp: task_of_upd split: if_splits)
    then show ?thesis using k that(2) by (intro owns_destroy owns_detach) (auto simp: spaces_owned_def)
  qed
  then have "spaces_owned ((upd_task q ?f k)\<lparr>k_spaces := snd (as_destroy h (snd (as_detach h q (k_spaces k))))\<rparr>)" for h
    by (simp add: spaces_owned_def) (simp add: task_of_def)
  moreover have "spaces_owned (upd_task q ?f k)" by (rule spaces_owned_upd[OF k]) simp
  ultimately show ?thesis using Some by (auto simp: reap_task_def Let_def split: option.split)
qed (simp add: reap_task_def k)

lemma new_task_owned:
  assumes k: "spaces_owned k" and t: "t_address_space t = Some h"
    "as_attach h (of_nat (length (tt_tasks (k_tt k)))) (k_spaces k) = (Ok (), m)"
  shows "spaces_owned (upd_tt (\<lambda>tt. tt\<lparr>tt_tasks := tt_tasks tt @ [t]\<rparr>) (k\<lparr>k_spaces := m\<rparr>))" (is "spaces_owned ?k")
  unfolding spaces_owned_def
proof (intro allI impI)
  fix p u g
  assume u: "task_of ?k p = Some u \<and> t_address_space u = Some g"
  then consider "task_of k p = Some u" | "unat p = length (tt_tasks (k_tt k))" "u = t"
    by (auto simp: task_of_def upd_tt_def vec_get_def nth_append split: if_splits)
  then show "owns (k_spaces ?k) g p"
  proof cases
    case 1
    then have "owns (k_spaces k) g p" using k u by (auto simp: spaces_owned_def)
    then show ?thesis
      using owns_exec[of undefined undefined "AAttach h (of_nat (length (tt_tasks (k_tt k))))" "k_spaces k" m] t(2)
      by simp
  next
    case 2
    then have "of_nat (length (tt_tasks (k_tt k))) = p" by (metis of_nat_unat ucast_id)
    then show ?thesis using owns_attach[OF t(2)] 2 t(1) u by simp
  qed
qed

interpretation own: kernel_inv spaces_owned
proof unfold_locales
  fix k :: kernel and ev :: env and q :: pid
  assume k: "spaces_owned k"
  have kick: "spaces_owned (kick ev c x) = spaces_owned x" for c x by (simp add: kick_def)
  show "spaces_owned (snd (wake ev q k))"
    using k by (auto simp: wake_def kick clear_blocked_def intro!: spaces_owned_upd split: option.split enqueue_outcome.split prod.split)
  show "spaces_owned (snd (resume_task ev q k))"
    using k by (auto simp: resume_task_def kick intro!: spaces_owned_upd split: option.split enqueue_outcome.split prod.split)
  show "spaces_owned (block_current ev br k)" for br
    using k by (auto simp: block_current_def Let_def set_blocked_def intro!: spaces_owned_upd)
  show "spaces_owned (snd (exit_current ev st k))" for st
    using k by (auto simp: exit_current_def intro!: spaces_owned_upd split: option.split)
  show "spaces_owned (k\<lparr>k_spaces := m\<rparr>)"
    if "as_exec b shoot aop (k_spaces k) = Some m" "\<forall>h p. aop \<noteq> ADetach h p" for b shoot aop m
    using k owns_exec[OF that] by (simp add: spaces_owned_def task_of_def)
  show "spaces_owned (upd_task q f k)" if "run_same f" for f
    using that by (intro spaces_owned_upd[OF k]) (simp add: run_same_def)
qed (auto simp: reap_owned intro: new_task_owned)

subsection \<open>Boot\<close>

lemma kernel_newE:
  assumes "kernel_new ev heap mem quantum = Some k"
  obtains h m s where "as_create (ev_build ev) (ev_shoot ev) (manager_new heap) = Some (Ok h, m)"
    "as_attach h KERNEL_PID m = (Ok (), k_spaces k)" "enqueue (ev_cpu ev) KERNEL_PID Normal (sched_new quantum) = (Enqueued, s)"
    "k_sched k = s"
    "k_tt k = task_table_new\<lparr>tt_tasks := [task_bootstrap\<lparr>t_caps := boot_caps, t_address_space := Some h\<rparr>]\<rparr>"
    "k_router k = router_new 8" "k_timers k = timers_new" "k_smp k = smp_boot"
proof -
  have attach: "as_attach h p m = (Ok (), snd (as_attach h p m))" if "is_ok (as_activate (snd (as_attach h p m)) h)" for h p m
    using that by (auto simp: as_attach_def as_activate_def is_ok_def split: sum.splits)
  from assms show thesis
    by (auto simp: kernel_new_def Let_def split: option.splits sum.splits prod.splits if_splits enqueue_outcome.splits
        intro!: that dest: attach)
qed

lemma boot_task: "kernel_new ev heap mem quantum = Some k \<Longrightarrow> task_of k p =
    (if p = KERNEL_PID then Some (hd (tt_tasks (k_tt k))) else None)"
  by (erule kernel_newE) (auto simp: task_of_def vec_get_def KERNEL_PID_def unat_eq_zero)

lemma boot_sound:
  assumes "kernel_new ev heap mem quantum = Some k"
  shows "run_sound k"
proof (rule kernel_newE[OF assms])
  fix h m s
  assume e: "enqueue (ev_cpu ev) KERNEL_PID Normal (sched_new quantum) = (Enqueued, s)" and s: "k_sched k = s"
    and tt: "k_tt k = task_table_new\<lparr>tt_tasks := [task_bootstrap\<lparr>t_caps := boot_caps, t_address_space := Some h\<rparr>]\<rparr>"
  have e': "enqueue_on_cpu (current_cpu_index (ev_cpu ev)) KERNEL_PID Normal (sched_new quantum) = (Enqueued, s)"
    using e by (simp add: enqueue_def try_enqueue_def enqueue_on_cpu_def not_le[symmetric] current_cpu_index_less[unfolded not_le[symmetric]])
  note E = enqueue_ids[OF sched_new_wf(1) e']
  have new: "sched_ids (sched_new quantum) = {#}" "c < MAX_CPUS \<Longrightarrow> cur_id (sched_new quantum) c = None" for c
    by (simp add: sched_ids_def all_tasks_def sched_new_def rq_tasks_def run_queues_new_def MAX_CPUS_def numeral_eq_Suc)
      (simp add: sched_new_def run_queues_new_def cur_id_def)
  have t: "task_of k p = (if p = KERNEL_PID then Some (task_bootstrap\<lparr>t_caps := boot_caps, t_address_space := Some h\<rparr>) else None)" for p
    using boot_task[OF assms, of p] tt by simp
  have "\<forall>c < MAX_CPUS. cur_id s c = None" using E(3) new(2) by (auto simp: cur_less_def)
  then show "run_sound k"
    using E(1,2) new(1) s tt
    by (auto simp: run_sound_def runnable_def started_def t task_bootstrap_def task_table_new_def)
qed

lemma boot_component:
  assumes "kernel_new ev heap mem quantum = Some k" "heap_ok heap" "ph_live heap = 0"
  shows "component_wf (ph_free heap) k"
proof (rule kernel_newE[OF assms(1)])
  fix h m
  assume c: "as_create (ev_build ev) (ev_shoot ev) (manager_new heap) = Some (Ok h, m)"
    and a: "as_attach h KERNEL_PID m = (Ok (), k_spaces k)"
    and r: "k_router k = router_new 8" "k_timers k = timers_new" "k_smp k = smp_boot"
  have ps: "pages_ok (ph_free heap)" using assms(2) by (simp add: heap_ok_def pages_ok_def)
  have "as_inv (ph_free heap) m"
    by (rule as_exec_inv[OF manager_new_inv[OF assms(3)] ps, of "ev_build ev" "ev_shoot ev" ACreate]) (simp add: c)
  then have "as_inv (ph_free heap) (k_spaces k)"
    by (rule as_exec_inv[OF _ ps, of _ undefined undefined "AAttach h KERNEL_PID"]) (simp add: a)
  then show ?thesis
    using ps r router_new_wf[of 8] by (simp add: component_wf_def MAX_ENDPOINTS_def smp_wf_def smp_boot_def per_cpu_def)
qed

lemma boot_owned:
  assumes "kernel_new ev heap mem quantum = Some k"
  shows "spaces_owned k"
proof (rule kernel_newE[OF assms])
  fix h m
  assume a: "as_attach h KERNEL_PID m = (Ok (), k_spaces k)"
    and tt: "k_tt k = task_table_new\<lparr>tt_tasks := [task_bootstrap\<lparr>t_caps := boot_caps, t_address_space := Some h\<rparr>]\<rparr>"
  show ?thesis
    using owns_attach[OF a] tt by (auto simp: spaces_owned_def boot_task[OF assms])
qed

subsection \<open>Properties of every reachable kernel\<close>

lemma cur_distinct:
  assumes wf: "sched_wf s" and one: "\<forall>p. count (sched_ids s) p \<le> 1"
    and c: "c < MAX_CPUS" "d < MAX_CPUS" "c \<noteq> d" "cur_id s c = Some p"
  shows "cur_id s d \<noteq> Some p"
proof
  assume d: "cur_id s d = Some p"
  let ?s = "finish_current c s"
  have cc: "current_cpu_index c = c" "c < length (cpus s)" using c wf by (simp_all add: current_cpu_index_def wf_length)
  obtain t where t: "current (cpus s ! c) = Some t" "st_id t = p" using c(4) by (auto simp: cur_id_def)
  have "rq_tasks ((cpus s ! c)\<lparr>current := None\<rparr>) + {#t#} = rq_tasks (cpus s ! c)"
    using rq_tasks_current[of None "cpus s ! c"] t by simp
  from tasks_swap[OF all_tasks_upd[OF cc(2), of "\<lambda>rq. rq\<lparr>current := None\<rparr>"] this]
  have "sched_ids ?s + {#p#} = sched_ids s" using sched_ids_add[of ?s "{#t#}" s] t cc by (simp add: finish_current_def)
  moreover have "p \<in># sched_ids ?s"
    using c d cc by (intro cur_in_ids[OF finish_ids(1)[OF wf] c(2)]) (simp add: finish_current_def)
  ultimately have "2 \<le> count (sched_ids s) p"
    by (metis Suc_leI add_mset_add_single count_add_mset count_greater_zero_iff not_less_eq_eq numeral_2_eq_2)
  with one show False by (metis not_less_eq_eq numeral_2_eq_2 One_nat_def)
qed

text \<open>C1: Scheduling is sound over every history of the kernel: whatever traps, system calls, wake-ups,
  steals and exits happen on the CPUs, a task is never twice in the run queues and running slots of
  the scheduler, so no two CPUs hold the same task as current; every task in them exists, has been
  resumed and is not blocked; the task the scheduler runs on a CPU is the task table's current task of
  that CPU; and that current task always exists and has been resumed.\<close>

theorem dispatch_sound:
  assumes "kernel_new ev heap mem quantum = Some k0" "kernel_run ops k0 = Some k"
  shows "(\<forall>p. count (sched_ids (k_sched k)) p \<le> 1) \<and>
    (\<forall>c d p. c < MAX_CPUS \<and> d < MAX_CPUS \<and> c \<noteq> d \<and> cur_id (k_sched k) c = Some p \<longrightarrow> cur_id (k_sched k) d \<noteq> Some p) \<and>
    (\<forall>p \<in># sched_ids (k_sched k). \<exists>t. task_of k p = Some t \<and> \<not> t_blocked t \<and> t_state t \<noteq> Suspended) \<and>
    (\<forall>c < MAX_CPUS. (\<forall>p. cur_id (k_sched k) c = Some p \<longrightarrow> tt_current (k_tt k) ! c = p) \<and>
       (\<exists>t. task_of k (tt_current (k_tt k) ! c) = Some t \<and> t_state t \<noteq> Suspended))"
proof -
  have s: "run_sound k" by (rule run.kernel_run_keeps[OF boot_sound[OF assms(1)] assms(2)])
  then have "started k (tt_current (k_tt k) ! c)" if "c < MAX_CPUS" for c
    using that by (simp add: run_sound_def)
  then have "\<exists>t. task_of k (tt_current (k_tt k) ! c) = Some t \<and> t_state t \<noteq> Suspended" if "c < MAX_CPUS" for c
    using that by (fastforce simp: started_def split: option.splits)
  moreover have "runnable k p" if "p \<in># sched_ids (k_sched k)" for p
    using s that by (simp add: run_sound_def)
  then have "\<exists>t. task_of k p = Some t \<and> \<not> t_blocked t \<and> t_state t \<noteq> Suspended" if "p \<in># sched_ids (k_sched k)" for p
    using that by (fastforce simp: runnable_def split: option.splits)
  moreover have S: "sched_wf (k_sched k)" "\<forall>p. count (sched_ids (k_sched k)) p \<le> 1"
    "\<forall>c < MAX_CPUS. \<forall>p. cur_id (k_sched k) c = Some p \<longrightarrow> tt_current (k_tt k) ! c = p"
    using s unfolding run_sound_def by blast+
  ultimately show ?thesis using cur_distinct[OF S(1,2)] by blast
qed

text \<open>C3: Over every history of the kernel each task that has an address space is an owner of a live one,
  so its handle never dangles: a space is destroyed only after its last task has been reaped, and
  activating the space of any task succeeds.  The fail-fast exits of the trap handler for a task
  whose space cannot be activated are never taken.\<close>

theorem task_spaces_live:
  assumes "kernel_new ev heap mem quantum = Some k0" "kernel_run ops k0 = Some k"
  shows "(\<forall>p. space_active k p) \<and>
    (\<forall>p t h. task_of k p = Some t \<and> t_address_space t = Some h \<longrightarrow>
       (\<exists>s. as_get (k_spaces k) h = Inr s \<and> p \<in> as_owners s))"
proof -
  have "spaces_owned k" by (rule own.kernel_run_keeps[OF boot_owned[OF assms(1)] assms(2)])
  then have own: "owns (k_spaces k) h p" if "task_of k p = Some t" "t_address_space t = Some h" for p t h
    using that by (auto simp: spaces_owned_def)
  have get: "\<exists>s. as_get (k_spaces k) h = Inr s \<and> p \<in> as_owners s" if "owns (k_spaces k) h p" for h p
    using that by (auto simp: owns_def split: sum.splits)
  have "space_active k p" for p
    using get[OF own[of p]] by (force simp: space_active_def as_activate_def is_ok_def split: option.split)
  then show ?thesis using own get by blast
qed

text \<open>C2: Isolation over every history of the kernel: two live address spaces have different ASIDs and share no
  page-table page, no page-table page of a live space is on the free list, and no live space has a
  mapping that is writable and executable, whatever system calls the tasks make.\<close>

theorem kernel_isolation:
  assumes "kernel_new ev heap mem quantum = Some k0" "kernel_run ops k0 = Some k" "heap_ok heap" "ph_live heap = 0"
  shows "(\<forall>i j s t. i < length (am_spaces (k_spaces k)) \<and> j < length (am_spaces (k_spaces k)) \<and> i \<noteq> j \<and>
       am_spaces (k_spaces k) ! i = Some s \<and> am_spaces (k_spaces k) ! j = Some t \<longrightarrow>
       as_asid s \<noteq> as_asid t \<and> set (pt_owned (as_page_table s)) \<inter> set (pt_owned (as_page_table t)) = {}) \<and>
    (\<forall>s. Some s \<in> set (am_spaces (k_spaces k)) \<longrightarrow>
       set (pt_owned (as_page_table s)) \<inter> set (ph_free (am_heap (k_spaces k))) = {} \<and>
       pt_verify 3 (as_page_table s) = Some (Inr ()))"
proof -
  have "component_wf (ph_free heap) k"
    by (rule comp.kernel_run_keeps[OF boot_component[OF assms(1,3,4)] assms(2)])
  then have "as_inv (ph_free heap) (k_spaces k)" "pages_ok (ph_free heap)" by (simp_all add: component_wf_def)
  from as_inv_isolated[OF this] show ?thesis by blast
qed

text \<open>A concrete history: boot on a host build, the secondary CPU comes online, the boot CPU dispatches.\<close>

definition ex_env :: env where
  "ex_env = \<lparr>ev_cpu = 0, ev_ipi = \<lambda>_. True, ev_build = Host, ev_shoot = Some, ev_now = 1000,
     ev_fold_verdicts = False, ev_display_mode = 0\<rparr>"

definition ex_history :: "(env \<times> kernel_op) list" where
  "ex_history = [(ex_env, KOnline 1), (ex_env, KReady), (ex_env, KMain [])]"

definition ex_run_queues :: cpu_run_queues where
  "ex_run_queues = run_queues_new\<lparr>queues := [[], [\<lparr>st_id = 0, st_qos = Normal\<rparr>], [], []]\<rparr>"

lemma ex_boot:
  obtains k0 where "kernel_new ex_env ex_heap (\<lambda>_. 0) 0 = Some k0"
    "cpus (k_sched k0) = [ex_run_queues, run_queues_new, run_queues_new, run_queues_new]"
    "am_spaces (k_spaces k0) = [Some ((ex_space 0x1000 1)\<lparr>as_owners := {0}\<rparr>)]"
    "tt_tasks (k_tt k0) = [task_bootstrap\<lparr>t_caps := boot_caps, t_address_space := Some 1\<rparr>]"
proof -
  obtain m where c: "as_create Host Some (manager_new ex_heap) = Some (Ok 1, m)" and m: "am_spaces m = [Some (ex_space 0x1000 1)]"
    by (simp add: as_create_def asid_allocate_def manager_new_def try_allocate_new address_space_new_def pt_new_def
        alloc_page_def ex_heap_def record_heap_page_alloc_def store_space_def Let_def handle_from_index_def ex_space_def)
  let ?s = "(ex_space 0x1000 1)\<lparr>as_owners := {0}\<rparr>"
  have a: "as_attach 1 0 m = (Ok (), put_space 1 ?s m)"
    by (simp add: as_attach_def as_get_def handle_index_def m ok_or_def ex_space_def)
  have p: "am_spaces (put_space 1 ?s m) = [Some ?s]" by (simp add: put_space_def handle_index_def m)
  have v: "is_ok (as_activate (put_space 1 ?s m) 1)"
    by (simp add: as_activate_def as_get_def handle_index_def p ok_or_def is_ok_def)
  have e: "enqueue 0 0 Normal (sched_new 0) =
      (Enqueued, \<lparr>cpus = [ex_run_queues, run_queues_new, run_queues_new, run_queues_new], timeslice_ns = 0\<rparr>)"
    by (simp add: enqueue_def try_enqueue_def push_on_def bounded_push_def current_cpu_index_def MAX_CPUS_def sched_new_def
        cpu_queue_def queue_mut_def qos_index_def upd_cpu_def put_queue_def run_queues_new_def ex_run_queues_def
        runtime_queue_capacity_for_def RUNTIME_QOS_QUEUE_CAPACITY_def numeral_eq_Suc)
  show thesis
    by (rule that) (simp add: kernel_new_def ex_env_def c a v e p KERNEL_PID_def Let_def task_table_new_def)+
qed

lemma ex_reached:
  obtains k0 k where "kernel_new ex_env ex_heap (\<lambda>_. 0) 0 = Some k0" "kernel_run ex_history k0 = Some k"
    "cur_id (k_sched k) 0 = Some 0" "tt_tasks (k_tt k) = [task_bootstrap\<lparr>t_caps := boot_caps, t_address_space := Some 1\<rparr>]"
    "am_spaces (k_spaces k) = [Some ((ex_space 0x1000 1)\<lparr>as_owners := {0}\<rparr>)]"
proof (rule ex_boot)
  fix k0
  assume k0: "kernel_new ex_env ex_heap (\<lambda>_. 0) 0 = Some k0"
    "cpus (k_sched k0) = [ex_run_queues, run_queues_new, run_queues_new, run_queues_new]"
    "am_spaces (k_spaces k0) = [Some ((ex_space 0x1000 1)\<lparr>as_owners := {0}\<rparr>)]"
    "tt_tasks (k_tt k0) = [task_bootstrap\<lparr>t_caps := boot_caps, t_address_space := Some 1\<rparr>]"
  let ?k1 = "k0\<lparr>k_smp := mark_runtime_ready (mark_cpu_online 1 (k_smp k0))\<rparr>"
  have find: "List.find (\<lambda>q. cpu_queue (k_sched k0) 0 q \<noteq> []) class_order = Some Normal"
    by (simp add: class_order_def cpu_queue_def queue_mut_def qos_index_def k0(2) ex_run_queues_def)
  have q: "cpu_queue (k_sched k0) 0 Normal = [\<lparr>st_id = 0, st_qos = Normal\<rparr>]"
    by (simp add: cpu_queue_def queue_mut_def qos_index_def k0(2) ex_run_queues_def)
  obtain s where n: "schedule_next 0 (k_sched k0) = (Some 0, s)" and c: "cur_id s 0 = Some 0"
    using find q by (simp add: schedule_next_def Let_def current_cpu_index_def MAX_CPUS_def k0(2))
  have t: "task_of (set_current ex_env 0 (?k1\<lparr>k_sched := s\<rparr>)) 0 = Some (task_bootstrap\<lparr>t_caps := boot_caps, t_address_space := Some 1\<rparr>)"
    using k0(4) by (simp add: task_of_def vec_get_def set_current_def upd_tt_def)
  have "\<not> from_user (t_frame task_bootstrap)"
    by (simp add: from_user_def task_bootstrap_def frame_default_def SSTATUS_SPP_def SSTATUS_SPIE_def SSTATUS_SUM_def)
  then have "kernel_run ex_history k0 = Some (set_current ex_env 0 (?k1\<lparr>k_sched := s\<rparr>))"
    using n t by (simp add: ex_history_def cpu_main_pass_def cpu_pick_def on_sched_def ex_env_def Let_def)
  then show thesis using that[OF k0(1)] k0 c by (simp add: set_current_def upd_tt_def)
qed

theorem dispatch_sound_witness:
  "\<exists>k0 k. kernel_new ex_env ex_heap (\<lambda>_. 0) 0 = Some k0 \<and> kernel_run ex_history k0 = Some k \<and>
     cur_id (k_sched k) 0 = Some 0 \<and> tt_current (k_tt k) ! 0 = 0 \<and> cur_id (k_sched k) 1 \<noteq> Some 0"
proof (rule ex_reached)
  fix k0 k
  assume r: "kernel_new ex_env ex_heap (\<lambda>_. 0) 0 = Some k0" "kernel_run ex_history k0 = Some k" and c: "cur_id (k_sched k) 0 = Some 0"
  have "0 < MAX_CPUS" "1 < MAX_CPUS" "(0 :: usize) \<noteq> 1" by (simp_all add: MAX_CPUS_def)
  with dispatch_sound[OF r] c have "tt_current (k_tt k) ! 0 = 0" "cur_id (k_sched k) 1 \<noteq> Some 0" by blast+
  with r c show ?thesis by blast
qed

theorem task_spaces_live_witness:
  "\<exists>k0 k. kernel_new ex_env ex_heap (\<lambda>_. 0) 0 = Some k0 \<and> kernel_run ex_history k0 = Some k \<and> space_active k 0 \<and>
     (\<exists>s. as_get (k_spaces k) 1 = Inr s \<and> 0 \<in> as_owners s)"
proof (rule ex_reached)
  fix k0 k
  assume r: "kernel_new ex_env ex_heap (\<lambda>_. 0) 0 = Some k0" "kernel_run ex_history k0 = Some k"
    and t: "tt_tasks (k_tt k) = [task_bootstrap\<lparr>t_caps := boot_caps, t_address_space := Some 1\<rparr>]"
  have "task_of k 0 = Some (task_bootstrap\<lparr>t_caps := boot_caps, t_address_space := Some 1\<rparr>)"
    using t by (simp add: task_of_def vec_get_def)
  with task_spaces_live[OF r] have "\<exists>s. as_get (k_spaces k) 1 = Inr s \<and> 0 \<in> as_owners s" by force
  with task_spaces_live[OF r] r show ?thesis by blast
qed

theorem kernel_isolation_witness:
  "\<exists>k0 k s. kernel_new ex_env ex_heap (\<lambda>_. 0) 0 = Some k0 \<and> kernel_run ex_history k0 = Some k \<and>
     am_spaces (k_spaces k) = [Some s] \<and> pt_verify 3 (as_page_table s) = Some (Inr ())"
proof (rule ex_reached)
  fix k0 k
  assume r: "kernel_new ex_env ex_heap (\<lambda>_. 0) 0 = Some k0" "kernel_run ex_history k0 = Some k"
    and m: "am_spaces (k_spaces k) = [Some ((ex_space 0x1000 1)\<lparr>as_owners := {0}\<rparr>)]"
  have "ph_live ex_heap = 0" by (simp add: ex_heap_def)
  from kernel_isolation[OF r ex_heap_ok this] m
  have "pt_verify 3 (as_page_table ((ex_space 0x1000 1)\<lparr>as_owners := {0}\<rparr>)) = Some (Inr ())" by simp
  with r m show ?thesis by blast
qed

end
