(* ===== verification/Bytes.thy ===== *)
theory Bytes
  imports Prelude
begin

text \<open>
  Byte strings of the user-space storage stack: sub-slices and \<open>copy_from_slice\<close>, the string
  predicates of \<open>str\<close>, UTF-8 validation as \<open>core::str::from_utf8\<close> does it, and the bitwise CRC
  loop that \<open>statefs\<close> and \<open>storage::gpt\<close> share up to the polynomial.  A \<open>str\<close> is its UTF-8 bytes.
\<close>

unbundle bit_operations_syntax

subsection \<open>Slices\<close>

text \<open>\<open>buf[a..a + bs.len()].copy_from_slice(bs)\<close>, for a range inside the buffer.\<close>

definition copy_at :: "nat \<Rightarrow> 'a list \<Rightarrow> 'a list \<Rightarrow> 'a list" where
  "copy_at a bs xs = take a xs @ bs @ drop (a + length bs) xs"

lemma length_slice [simp]: "b \<le> length xs \<Longrightarrow> length (slice a b xs) = b - a"
  by (simp add: slice_def)

lemma length_copy_at [simp]: "a + length bs \<le> length xs \<Longrightarrow> length (copy_at a bs xs) = length xs"
  by (simp add: copy_at_def)

lemma nth_slice: "a + i < b \<Longrightarrow> b \<le> length xs \<Longrightarrow> slice a b xs ! i = xs ! (a + i)"
  by (simp add: slice_def)

lemma nth_copy_at:
  "a + length bs \<le> length xs \<Longrightarrow> i < length xs \<Longrightarrow>
     copy_at a bs xs ! i = (if a \<le> i \<and> i < a + length bs then bs ! (i - a) else xs ! i)"
  by (auto simp: copy_at_def nth_append)

lemma slice_copy_same: "a + length bs \<le> length xs \<Longrightarrow> b = a + length bs \<Longrightarrow> slice a b (copy_at a bs xs) = bs"
  by (simp add: slice_def copy_at_def)

lemma slice_copy_other:
  assumes "a + length bs \<le> length xs" "d \<le> length xs" "d \<le> a \<or> a + length bs \<le> c"
  shows "slice c d (copy_at a bs xs) = slice c d xs"
  using assms by (intro nth_equalityI) (auto simp: nth_slice nth_copy_at)

lemma slice_copy_inside:
  assumes "a + length bs \<le> length xs" "a \<le> c" "d \<le> a + length bs"
  shows "slice c d (copy_at a bs xs) = slice (c - a) (d - a) bs"
  using assms by (intro nth_equalityI) (auto simp: nth_slice nth_copy_at)

lemma unat_of_nat_len: "n < 2 ^ LENGTH('a) \<Longrightarrow> unat (of_nat n :: 'a::len word) = n"
  by (simp add: unat_of_nat take_bit_nat_eq_self)

lemma copy_at_append: "a + length r1 + length r2 \<le> length xs \<Longrightarrow>
    copy_at (a + length r1) r2 (copy_at a r1 xs) = copy_at a (r1 @ r2) xs"
  by (simp add: copy_at_def ac_simps)

lemma copy_at_Nil [simp]: "copy_at a [] xs = xs"
  by (simp add: copy_at_def)

lemma copy_at_window:
  assumes "w + length r \<le> n" "a + n \<le> length xs"
  shows "copy_at a (copy_at w r (slice a (a + n) xs)) xs = copy_at (a + w) r xs"
  using assms by (intro nth_equalityI) (auto simp: nth_copy_at nth_slice)

lemma length_blocks: "\<forall>b \<in> set xs. length b = n \<Longrightarrow> length (concat xs) = length xs * n"
  by (induction xs) auto

lemma nth_block: "\<forall>b \<in> set xs. length b = n \<Longrightarrow> i < length xs \<Longrightarrow> xs ! i = slice (i * n) (i * n + n) (concat xs)"
proof (induction xs arbitrary: i)
  case (Cons x xs)
  then show ?case by (cases i) (auto simp: slice_simps slice_def)
qed simp

lemma concat_update:
  "\<forall>b \<in> set xs. length b = n \<Longrightarrow> length y = n \<Longrightarrow> i < length xs \<Longrightarrow>
     concat (xs[i := y]) = copy_at (i * n) y (concat xs)"
proof (induction xs arbitrary: i)
  case (Cons x xs)
  then show ?case by (cases i) (auto simp: copy_at_def add.commute)
qed simp

subsection \<open>Rounding up\<close>

text \<open>\<open>usize::div_ceil\<close>.\<close>

definition div_ceil :: "usize \<Rightarrow> usize \<Rightarrow> usize" where
  "div_ceil a b = a div b + (if a mod b = 0 then 0 else 1)"

lemma div_ceil_bounds:
  assumes "0 < b"
  shows "a \<le> div_ceil a b * b" "0 < a \<Longrightarrow> (div_ceil a b - 1) * b < a" "0 < a \<Longrightarrow> 0 < div_ceil a b"
proof -
  obtain q r where a: "a = q * b + r" and r: "r < b" using assms by (metis div_mult_mod_eq mod_less_divisor)
  have eq: "div_ceil a b = q + (if r = 0 then 0 else 1)" using r by (simp add: div_ceil_def a)
  show "a \<le> div_ceil a b * b" using r unfolding eq by (simp add: a)
  show "(div_ceil a b - 1) * b < a" "0 < div_ceil a b" if "0 < a"
    using that assms unfolding eq by (auto simp: a diff_mult_distrib)
qed

lemma less_div_ceil:
  assumes "0 < b" "0 < a"
  shows "m < div_ceil a b \<longleftrightarrow> m * b < a"
proof
  assume "m < div_ceil a b"
  then have "m * b \<le> (div_ceil a b - 1) * b" by (intro mult_right_mono) auto
  then show "m * b < a" using div_ceil_bounds(2)[OF assms] by linarith
next
  assume "m * b < a"
  then have "m * b < div_ceil a b * b" using div_ceil_bounds(1)[OF assms(1), of a] by linarith
  then show "m < div_ceil a b" by simp
qed

subsection \<open>Strings\<close>

definition starts_with :: "u8 list \<Rightarrow> u8 list \<Rightarrow> bool" where
  "starts_with s p \<longleftrightarrow> take (length p) s = p"

definition ends_with :: "u8 list \<Rightarrow> u8 list \<Rightarrow> bool" where
  "ends_with s p \<longleftrightarrow> length p \<le> length s \<and> drop (length s - length p) s = p"

definition str_contains :: "u8 list \<Rightarrow> u8 list \<Rightarrow> bool" where
  "str_contains s p \<longleftrightarrow> list_ex (\<lambda>i. starts_with (drop i s) p) [0..<Suc (length s)]"

text \<open>The number of bytes of the first character, if the bytes start with a well-formed one.\<close>

definition is_cont :: "u8 \<Rightarrow> bool" where
  "is_cont b \<longleftrightarrow> 0x80 \<le> b \<and> b \<le> 0xBF"

fun utf8_char :: "u8 list \<Rightarrow> nat option" where
  "utf8_char [] = None"
| "utf8_char (b0 # bs) =
     (if b0 < 0x80 then Some 1
      else case bs of
        [] \<Rightarrow> None
      | b1 # bs1 \<Rightarrow>
          if 0xC2 \<le> b0 \<and> b0 \<le> 0xDF then (if is_cont b1 then Some 2 else None)
          else case bs1 of
            [] \<Rightarrow> None
          | b2 # bs2 \<Rightarrow>
              if 0xE0 \<le> b0 \<and> b0 \<le> 0xEF
              then (if (if b0 = 0xE0 then 0xA0 \<le> b1 \<and> b1 \<le> 0xBF
                        else if b0 = 0xED then 0x80 \<le> b1 \<and> b1 \<le> 0x9F else is_cont b1) \<and> is_cont b2
                    then Some 3 else None)
              else case bs2 of
                [] \<Rightarrow> None
              | b3 # _ \<Rightarrow>
                  if 0xF0 \<le> b0 \<and> b0 \<le> 0xF4 \<and>
                     (if b0 = 0xF0 then 0x90 \<le> b1 \<and> b1 \<le> 0xBF
                      else if b0 = 0xF4 then 0x80 \<le> b1 \<and> b1 \<le> 0x8F else is_cont b1) \<and> is_cont b2 \<and> is_cont b3
                  then Some 4 else None)"

lemma utf8_char_pos: "utf8_char bs = Some n \<Longrightarrow> 0 < n"
  by (cases bs) (auto split: if_splits list.splits)

function utf8_valid :: "u8 list \<Rightarrow> bool" where
  "utf8_valid bs =
     (if bs = [] then True
      else case utf8_char bs of None \<Rightarrow> False | Some n \<Rightarrow> utf8_valid (drop n bs))"
  by pat_completeness auto
termination
  by (relation "measure length") (auto dest: utf8_char_pos)

declare utf8_valid.simps [simp del]

lemma utf8_valid_Nil [simp]: "utf8_valid []"
  by (simp add: utf8_valid.simps)

lemma utf8_valid_ascii: "\<forall>b \<in> set bs. b < 0x80 \<Longrightarrow> utf8_valid bs"
  by (induction bs) (simp_all add: utf8_valid.simps)

subsection \<open>CRC\<close>

text \<open>One byte of the loop: eight shifts, subtracting the polynomial when a bit falls out.\<close>

definition crc_bit :: "u32 \<Rightarrow> u32 \<Rightarrow> u32" where
  "crc_bit poly crc = drop_bit 1 crc XOR (poly AND (- (crc AND 1)))"

definition crc_byte :: "u32 \<Rightarrow> u8 \<Rightarrow> u32 \<Rightarrow> u32" where
  "crc_byte poly b crc = ((crc_bit poly) ^^ 8) (crc XOR ucast b)"

definition crc32_of :: "u32 \<Rightarrow> u8 list \<Rightarrow> u32" where
  "crc32_of poly bs = NOT (fold (crc_byte poly) bs 0xFFFFFFFF)"

text \<open>Rules that evaluate checksums and encoded integers on literals.\<close>

lemma crc_byte_unfold:
  "crc_byte p b c = crc_bit p (crc_bit p (crc_bit p (crc_bit p (crc_bit p (crc_bit p (crc_bit p (crc_bit p (c XOR ucast b))))))))"
  by (simp add: crc_byte_def eval_nat_numeral)

lemma to_le_numeral:
  "to_le 0 w = []" "to_le (Suc 0) w = [ucast w]"
  "to_le (numeral n) w = ucast w # to_le (pred_numeral n) (drop_bit 8 w)"
  using to_le_Suc[of "pred_numeral n" w] by (simp_all add: to_le_def flip: numeral_eq_Suc)

lemmas crc_eval = crc32_of_def crc_byte_unfold crc_bit_def

end
