(* ===== verification/Block_Device.thy ===== *)
theory Block_Device
  imports Bytes
begin

text \<open>
  Block devices, \<open>userspace/storage/src/lib.rs\<close> and the partition window of
  \<open>userspace/storage/src/gpt.rs\<close>.  The trait \<open>BlockDevice\<close> is a record of its methods, so a generic
  client takes one as an argument; \<open>block_store\<close> is the contract of a device whose blocks read back
  as written.  The in-memory device meets it, and so does a partition view of a device that does.
\<close>

subsection \<open>The trait\<close>

datatype block_error = BlockIo | BlockOutOfRange

text \<open>\<open>read_block\<close> fills the caller's buffer; block counts and indices are \<open>u64\<close>.\<close>

record 'd block_device =
  block_size :: "'d \<Rightarrow> usize"
  block_count :: "'d \<Rightarrow> nat"
  read_block :: "'d \<Rightarrow> nat \<Rightarrow> u8 list \<Rightarrow> block_error + u8 list"
  write_block :: "nat \<Rightarrow> u8 list \<Rightarrow> 'd \<Rightarrow> (block_error + unit) \<times> 'd"
  sync_device :: "'d \<Rightarrow> (block_error + unit) \<times> 'd"

subsection \<open>The in-memory device\<close>

record mem_block_device =
  mb_block_size :: usize
  mb_blocks :: "u8 list list"

definition mem_device_new :: "usize \<Rightarrow> nat \<Rightarrow> mem_block_device" where
  "mem_device_new bs n = \<lparr>mb_block_size = bs, mb_blocks = replicate n (replicate bs 0)\<rparr>"

definition mem_read_block :: "mem_block_device \<Rightarrow> nat \<Rightarrow> u8 list \<Rightarrow> block_error + u8 list" where
  "mem_read_block d idx buf =
     (if length (mb_blocks d) \<le> idx then Err BlockOutOfRange
      else if length buf < mb_block_size d then Err BlockIo
      else Ok (copy_at 0 (mb_blocks d ! idx) buf))"

definition mem_write_block :: "nat \<Rightarrow> u8 list \<Rightarrow> mem_block_device \<Rightarrow> (block_error + unit) \<times> mem_block_device" where
  "mem_write_block idx buf d =
     (if length (mb_blocks d) \<le> idx then (Err BlockOutOfRange, d)
      else if length buf < mb_block_size d then (Err BlockIo, d)
      else (Ok (), d\<lparr>mb_blocks := (mb_blocks d)[idx := take (mb_block_size d) buf]\<rparr>))"

definition mem_device :: "mem_block_device block_device" where
  "mem_device =
     \<lparr>block_size = mb_block_size, block_count = (\<lambda>d. length (mb_blocks d)), read_block = mem_read_block,
      write_block = mem_write_block, sync_device = (\<lambda>d. (Ok (), d))\<rparr>"

subsection \<open>Partition views\<close>

record partition =
  type_guid :: "u8 list"
  first_lba :: nat
  last_lba :: nat
  part_name :: "u8 list"

datatype gpt_error = GptIo | NoGpt | GptInvalid

record 'd partition_view =
  pv_inner :: 'd
  pv_first_lba :: nat
  pv_blocks :: nat

definition view_new :: "'d block_device \<Rightarrow> 'd \<Rightarrow> partition \<Rightarrow> gpt_error + 'd partition_view" where
  "view_new B inner p =
     (if block_count B inner \<le> last_lba p \<or> last_lba p < first_lba p then Err GptInvalid
      else Ok \<lparr>pv_inner = inner, pv_first_lba = first_lba p, pv_blocks = last_lba p - first_lba p + 1\<rparr>)"

definition view_read_block :: "'d block_device \<Rightarrow> 'd partition_view \<Rightarrow> nat \<Rightarrow> u8 list \<Rightarrow> block_error + u8 list" where
  "view_read_block B v idx buf =
     (if pv_blocks v \<le> idx then Err BlockOutOfRange else read_block B (pv_inner v) (pv_first_lba v + idx) buf)"

definition view_write_block ::
  "'d block_device \<Rightarrow> nat \<Rightarrow> u8 list \<Rightarrow> 'd partition_view \<Rightarrow> (block_error + unit) \<times> 'd partition_view" where
  "view_write_block B idx buf v =
     (if pv_blocks v \<le> idx then (Err BlockOutOfRange, v)
      else case write_block B (pv_first_lba v + idx) buf (pv_inner v) of (r, d) \<Rightarrow> (r, v\<lparr>pv_inner := d\<rparr>))"

definition view_sync :: "'d block_device \<Rightarrow> 'd partition_view \<Rightarrow> (block_error + unit) \<times> 'd partition_view" where
  "view_sync B v = (case sync_device B (pv_inner v) of (r, d) \<Rightarrow> (r, v\<lparr>pv_inner := d\<rparr>))"

definition view_device :: "'d block_device \<Rightarrow> 'd partition_view block_device" where
  "view_device B =
     \<lparr>block_size = (\<lambda>v. block_size B (pv_inner v)), block_count = pv_blocks, read_block = view_read_block B,
      write_block = view_write_block B, sync_device = view_sync B\<rparr>"

subsection \<open>The contract\<close>

text \<open>\<open>contents\<close> is what the blocks of a device hold.  Whole-block reads and writes in range succeed,
  out of range they fail without an effect.\<close>

locale block_store =
  fixes B :: "'d block_device" and dev_ok :: "'d \<Rightarrow> bool" and contents :: "'d \<Rightarrow> u8 list list"
  assumes size_pos: "dev_ok d \<Longrightarrow> 0 < block_size B d"
    and shape: "dev_ok d \<Longrightarrow> length (contents d) = block_count B d \<and> (\<forall>b \<in> set (contents d). length b = block_size B d)"
    and read: "dev_ok d \<Longrightarrow> i < block_count B d \<Longrightarrow> length buf = block_size B d \<Longrightarrow> read_block B d i buf = Ok (contents d ! i)"
    and read_range: "dev_ok d \<Longrightarrow> block_count B d \<le> i \<Longrightarrow> \<exists>e. read_block B d i buf = Err e"
    and write_result: "dev_ok d \<Longrightarrow> length buf = block_size B d \<Longrightarrow>
      is_ok (fst (write_block B i buf d)) \<longleftrightarrow> i < block_count B d"
    and write_effect: "dev_ok d \<Longrightarrow> length buf = block_size B d \<Longrightarrow>
      dev_ok (snd (write_block B i buf d)) \<and> contents (snd (write_block B i buf d)) = (contents d)[i := buf] \<and>
      block_size B (snd (write_block B i buf d)) = block_size B d"
    and sync_effect: "dev_ok d \<Longrightarrow> fst (sync_device B d) = Ok () \<and> dev_ok (snd (sync_device B d)) \<and>
      contents (snd (sync_device B d)) = contents d \<and> block_size B (snd (sync_device B d)) = block_size B d"
begin

text \<open>The device as one string of bytes.\<close>

lemma block_length: "dev_ok d \<Longrightarrow> i < block_count B d \<Longrightarrow> length (contents d ! i) = block_size B d"
  using shape[of d] by (simp add: nth_mem)

lemma write_count: "dev_ok d \<Longrightarrow> length buf = block_size B d \<Longrightarrow> block_count B (snd (write_block B i buf d)) = block_count B d"
  using shape[of d] shape[of "snd (write_block B i buf d)"] write_effect[of d buf i] by simp

lemma sync_count: "dev_ok d \<Longrightarrow> block_count B (snd (sync_device B d)) = block_count B d"
  using shape[of d] shape[of "snd (sync_device B d)"] sync_effect[of d] by simp

text \<open>A read after a write.\<close>

lemma read_write:
  "dev_ok d \<Longrightarrow> i < block_count B d \<Longrightarrow> j < block_count B d \<Longrightarrow> length buf = block_size B d \<Longrightarrow>
     length buf' = block_size B d \<Longrightarrow>
     read_block B (snd (write_block B i buf d)) j buf' = (if i = j then Ok buf else read_block B d j buf')"
  using shape[of d] by (simp add: read write_effect write_count)

end

text \<open>A partition view of a lawful device is a lawful device.\<close>

definition view_ok :: "'d block_device \<Rightarrow> ('d \<Rightarrow> bool) \<Rightarrow> 'd partition_view \<Rightarrow> bool" where
  "view_ok B dev_ok v \<longleftrightarrow> dev_ok (pv_inner v) \<and> pv_first_lba v + pv_blocks v \<le> block_count B (pv_inner v)"

definition view_contents :: "('d \<Rightarrow> u8 list list) \<Rightarrow> 'd partition_view \<Rightarrow> u8 list list" where
  "view_contents contents v = take (pv_blocks v) (drop (pv_first_lba v) (contents (pv_inner v)))"

lemma view_new_ok: "view_new B d p = Ok v \<Longrightarrow> dev_ok d \<Longrightarrow> view_ok B dev_ok v"
  by (auto simp: view_new_def view_ok_def split: if_splits)

lemma window_update:
  "i < n \<Longrightarrow> take n (drop a (xs[a + i := y])) = (take n (drop a xs))[i := y]"
  by (simp add: drop_update_swap take_update_swap)

context block_store
begin

lemma view_write:
  assumes v: "view_ok B dev_ok v" and buf: "length buf = block_size B (pv_inner v)" and i: "i < pv_blocks v"
  shows "fst (view_write_block B i buf v) = Ok ()" "view_ok B dev_ok (snd (view_write_block B i buf v))"
    "contents (pv_inner (snd (view_write_block B i buf v))) = (contents (pv_inner v))[pv_first_lba v + i := buf]"
    "block_size B (pv_inner (snd (view_write_block B i buf v))) = block_size B (pv_inner v)"
    "pv_first_lba (snd (view_write_block B i buf v)) = pv_first_lba v" "pv_blocks (snd (view_write_block B i buf v)) = pv_blocks v"
proof -
  have d: "dev_ok (pv_inner v)" and r: "pv_first_lba v + i < block_count B (pv_inner v)" using v i by (auto simp: view_ok_def)
  have eq: "view_write_block B i buf v = (fst (write_block B (pv_first_lba v + i) buf (pv_inner v)),
      v\<lparr>pv_inner := snd (write_block B (pv_first_lba v + i) buf (pv_inner v))\<rparr>)"
    using i by (simp add: view_write_block_def split_beta)
  have "is_ok (fst (write_block B (pv_first_lba v + i) buf (pv_inner v)))" using write_result[OF d buf] r by simp
  then show "fst (view_write_block B i buf v) = Ok ()" by (auto simp: eq is_ok_def split: sum.splits)
  show "view_ok B dev_ok (snd (view_write_block B i buf v))"
    using v write_effect[OF d buf] write_count[OF d buf] by (simp add: eq view_ok_def)
qed (use write_effect[of "pv_inner v" buf "pv_first_lba v + i"] v buf i in
      \<open>simp_all add: view_write_block_def view_ok_def split_beta\<close>)

lemma view_store: "block_store (view_device B) (view_ok B dev_ok) (view_contents contents)"
proof unfold_locales
  fix v :: "'d partition_view" and i buf
  assume v: "view_ok B dev_ok v"
  then have d: "dev_ok (pv_inner v)" and r: "pv_first_lba v + pv_blocks v \<le> block_count B (pv_inner v)"
    by (auto simp: view_ok_def)
  show "0 < block_size (view_device B) v" using size_pos[OF d] by (simp add: view_device_def)
  show "length (view_contents contents v) = block_count (view_device B) v \<and>
      (\<forall>b \<in> set (view_contents contents v). length b = block_size (view_device B) v)"
    using shape[OF d] r by (auto simp: view_contents_def view_device_def dest!: in_set_takeD in_set_dropD)
  show "read_block (view_device B) v i buf = Ok (view_contents contents v ! i)"
    if "i < block_count (view_device B) v" "length buf = block_size (view_device B) v"
    using that read[OF d] r shape[OF d] by (simp add: view_device_def view_read_block_def view_contents_def)
  show "\<exists>e. read_block (view_device B) v i buf = Err e" if "block_count (view_device B) v \<le> i"
    using that by (simp add: view_device_def view_read_block_def)
  show "is_ok (fst (write_block (view_device B) i buf v)) \<longleftrightarrow> i < block_count (view_device B) v"
    if "length buf = block_size (view_device B) v"
    using that view_write[OF v, of buf i] by (auto simp: view_device_def) (auto simp: view_write_block_def split: if_splits)
  show "view_ok B dev_ok (snd (write_block (view_device B) i buf v)) \<and>
      view_contents contents (snd (write_block (view_device B) i buf v)) = (view_contents contents v)[i := buf] \<and>
      block_size (view_device B) (snd (write_block (view_device B) i buf v)) = block_size (view_device B) v"
    if "length buf = block_size (view_device B) v"
  proof (cases "i < pv_blocks v")
    case True
    then show ?thesis
      using that view_write[OF v, of buf i] by (simp add: view_device_def view_contents_def window_update)
  next
    case False
    then show ?thesis
      using v shape[OF d] by (simp add: view_device_def view_write_block_def view_contents_def list_update_beyond)
  qed
  show "fst (sync_device (view_device B) v) = Ok () \<and> view_ok B dev_ok (snd (sync_device (view_device B) v)) \<and>
      view_contents contents (snd (sync_device (view_device B) v)) = view_contents contents v \<and>
      block_size (view_device B) (snd (sync_device (view_device B) v)) = block_size (view_device B) v"
    using v sync_effect[OF d] sync_count[OF d]
    by (simp add: view_device_def view_sync_def split_beta view_ok_def view_contents_def)
qed

end

definition mem_ok :: "mem_block_device \<Rightarrow> bool" where
  "mem_ok d \<longleftrightarrow> 0 < mb_block_size d \<and> (\<forall>b \<in> set (mb_blocks d). length b = mb_block_size d)"

interpretation mb: block_store mem_device mem_ok mb_blocks
proof unfold_locales
  fix d :: mem_block_device and i buf
  assume d: "mem_ok d"
  show "read_block mem_device d i buf = Ok (mb_blocks d ! i)"
    if "i < block_count mem_device d" "length buf = block_size mem_device d"
    using d that by (simp add: mem_device_def mem_read_block_def mem_ok_def copy_at_def nth_mem)
  show "mem_ok (snd (write_block mem_device i buf d)) \<and> mb_blocks (snd (write_block mem_device i buf d)) = (mb_blocks d)[i := buf] \<and>
      block_size mem_device (snd (write_block mem_device i buf d)) = block_size mem_device d"
    if "length buf = block_size mem_device d"
    using d that set_update_subset_insert[of "mb_blocks d" i buf]
    by (auto simp: mem_device_def mem_write_block_def mem_ok_def list_update_beyond)
qed (auto simp: mem_device_def mem_ok_def mem_read_block_def mem_write_block_def)

interpretation pv: block_store "view_device mem_device" "view_ok mem_device mem_ok" "view_contents mb_blocks"
  by (rule mb.view_store)

lemma mem_device_new_ok: "0 < bs \<Longrightarrow> mem_ok (mem_device_new bs n)"
  by (auto simp: mem_ok_def mem_device_new_def)

end
