(* ===== verification/Gpt.thy ===== *)
theory Gpt
  imports Block_Device
begin

text \<open>
  The partition table of \<open>userspace/storage/src/gpt.rs\<close>: \<open>parse_gpt\<close>, \<open>find_partition\<close> and \<open>write_gpt\<close> over
  any block device.  The addition \<open>entries_lba + i\<close> is the wrapping one of a release build (a debug
  build panics there).
\<close>

subsection \<open>Parsing\<close>

definition GUID_NEXUS_STATE :: "u8 list" where "GUID_NEXUS_STATE = ascii ''NEXUS-STATE-v1'' @ [0, 0]"
definition GUID_NEXUS_DATA :: "u8 list" where "GUID_NEXUS_DATA = ascii ''NEXUS-DATA-v1'' @ [0, 0, 0]"
definition GPT_SIGNATURE :: "u8 list" where "GPT_SIGNATURE = ascii ''EFI PART''"
definition HEADER_LBA :: nat where "HEADER_LBA = 1"
definition MAX_ENTRIES :: u32 where "MAX_ENTRIES = 128"
definition ENTRY_SIZE :: usize where "ENTRY_SIZE = 128"

definition crc32_ieee :: "u8 list \<Rightarrow> u32" where
  "crc32_ieee bs = crc32_of 0xEDB88320 bs"

text \<open>The UTF-16LE name, read up to the first zero.\<close>

fun decode_name :: "u8 list \<Rightarrow> u8 list" where
  "decode_name (a # b # bs) =
     (let code = from_le [a, b] :: u16 in
      if code = 0 then []
      else (if 0x20 \<le> code \<and> code < 0x7F then ucast code else 0x3F) # decode_name bs)"
| "decode_name _ = []"

definition parse_entry :: "nat \<Rightarrow> u8 list \<Rightarrow> gpt_error + partition option" where
  "parse_entry device_blocks entry =
     (let guid = slice 0 16 entry in
      if guid = replicate 16 0 then Ok None
      else
        (let first = unat (from_le (slice 32 40 entry) :: u64);
             final = unat (from_le (slice 40 48 entry) :: u64)
         in if first = 0 \<or> final < first \<or> device_blocks \<le> final then Err GptInvalid
            else Ok (Some \<lparr>type_guid = guid, first_lba = first, last_lba = final,
                           part_name = decode_name (slice 56 128 entry)\<rparr>)))"

fun parse_entries :: "nat \<Rightarrow> u8 list list \<Rightarrow> gpt_error + partition list" where
  "parse_entries device_blocks [] = Ok []"
| "parse_entries device_blocks (entry # entries) =
     (case parse_entry device_blocks entry of
        Inl e \<Rightarrow> Err e
      | Inr None \<Rightarrow> parse_entries device_blocks entries
      | Inr (Some p) \<Rightarrow>
          (case parse_entries device_blocks entries of Inl e \<Rightarrow> Err e | Inr ps \<Rightarrow> Ok (p # ps)))"

text \<open>The entry array, block by block.\<close>

fun read_table :: "'d block_device \<Rightarrow> 'd \<Rightarrow> u64 \<Rightarrow> usize \<Rightarrow> nat list \<Rightarrow> gpt_error + u8 list" where
  "read_table B d lba sector [] = Ok []"
| "read_table B d lba sector (i # is) =
     (case read_block B d (unat (lba + of_nat i)) (replicate sector 0) of
        Inl _ \<Rightarrow> Err GptIo
      | Inr blk \<Rightarrow> (case read_table B d lba sector is of Inl e \<Rightarrow> Err e | Inr rest \<Rightarrow> Ok (blk @ rest)))"

definition parse_gpt :: "'d block_device \<Rightarrow> 'd \<Rightarrow> gpt_error + partition list" where
  "parse_gpt B d =
     (let sector = block_size B d in
      if sector < 92 then Err GptInvalid
      else case read_block B d HEADER_LBA (replicate sector 0) of
        Inl _ \<Rightarrow> Err GptIo
      | Inr header \<Rightarrow>
          if slice 0 8 header \<noteq> GPT_SIGNATURE then Err NoGpt
          else
            (let header_size = unat (from_le (slice 12 16 header) :: u32) in
             if \<not> (92 \<le> header_size \<and> header_size \<le> sector) then Err GptInvalid
             else if crc32_ieee (copy_at 16 [0, 0, 0, 0] (take header_size header)) \<noteq> from_le (slice 16 20 header)
             then Err GptInvalid
             else
               (let entries_lba = from_le (slice 72 80 header);
                    entry_count = from_le (slice 80 84 header) :: u32;
                    entry_size = unat (from_le (slice 84 88 header) :: u32);
                    entries_crc = from_le (slice 88 92 header)
                in if entry_size \<noteq> ENTRY_SIZE \<or> entry_count = 0 \<or> MAX_ENTRIES < entry_count then Err GptInvalid
                   else
                     (let table_bytes = unat entry_count * entry_size in
                      case read_table B d entries_lba sector [0..<div_ceil table_bytes sector] of
                        Inl e \<Rightarrow> Err e
                      | Inr table \<Rightarrow>
                          if crc32_ieee (take table_bytes table) \<noteq> entries_crc then Err GptInvalid
                          else parse_entries (block_count B d)
                                 (map (\<lambda>idx. slice (idx * entry_size) ((idx + 1) * entry_size) table) [0..<unat entry_count])))))"

definition find_partition :: "partition list \<Rightarrow> u8 list \<Rightarrow> partition option" where
  "find_partition partitions guid = find (\<lambda>p. type_guid p = guid) partitions"

subsection \<open>Formatting\<close>

text \<open>An entry of the array, 128 bytes; the name is put at the even bytes of the zeroed field.\<close>

definition entry_bytes :: "partition \<Rightarrow> u8 list" where
  "entry_bytes p =
     (let name = concat (map (\<lambda>ch. [ch, 0]) (take 35 (part_name p))) in
      type_guid p @ type_guid p @ to_le 8 (of_nat (first_lba p) :: u64) @ to_le 8 (of_nat (last_lba p) :: u64)
      @ replicate 8 0 @ name @ replicate (72 - length name) 0)"

text \<open>The header block with its checksum field set to \<open>crc\<close>.\<close>

definition header_bytes :: "u32 \<Rightarrow> u32 \<Rightarrow> usize \<Rightarrow> u8 list" where
  "header_bytes crc entries_crc sector =
     GPT_SIGNATURE @ to_le 4 (0x10000 :: u32) @ to_le 4 (92 :: u32) @ to_le 4 crc @ replicate 4 0
     @ to_le 8 (of_nat HEADER_LBA :: u64) @ replicate 40 0 @ to_le 8 (2 :: u64) @ to_le 4 (128 :: u32)
     @ to_le 4 (of_nat ENTRY_SIZE :: u32) @ to_le 4 entries_crc @ replicate (sector - 92) 0"

fun write_table :: "'d block_device \<Rightarrow> usize \<Rightarrow> u8 list \<Rightarrow> nat list \<Rightarrow> 'd \<Rightarrow> (gpt_error + unit) \<times> 'd" where
  "write_table B sector padded [] d = (Ok (), d)"
| "write_table B sector padded (i # is) d =
     (case write_block B (2 + i) (slice (i * sector) (i * sector + sector) padded) d of
        (Inl _, d1) \<Rightarrow> (Err GptIo, d1)
      | (Inr _, d1) \<Rightarrow> write_table B sector padded is d1)"

definition write_gpt :: "'d block_device \<Rightarrow> partition list \<Rightarrow> 'd \<Rightarrow> (gpt_error + unit) \<times> 'd" where
  "write_gpt B partitions d =
     (let sector = block_size B d in
      if sector < 128 \<or> unat MAX_ENTRIES < length partitions then (Err GptInvalid, d)
      else
        (let table_bytes = 128 * ENTRY_SIZE;
             table = concat (map entry_bytes partitions) @ replicate (table_bytes - length partitions * ENTRY_SIZE) 0;
             entries_crc = crc32_ieee table;
             crc = crc32_ieee (take 92 (header_bytes 0 entries_crc sector))
         in case write_block B HEADER_LBA (header_bytes crc entries_crc sector) d of
              (Inl _, d1) \<Rightarrow> (Err GptIo, d1)
            | (Inr _, d1) \<Rightarrow>
                (let table_blocks = div_ceil table_bytes sector;
                     padded = table @ replicate (table_blocks * sector - table_bytes) 0
                 in case write_table B sector padded [0..<table_blocks] d1 of
                      (Inl e, d2) \<Rightarrow> (Err e, d2)
                    | (Inr _, d2) \<Rightarrow>
                        (case sync_device B d2 of (r, d3) \<Rightarrow> (map_err (\<lambda>_. GptIo) r, d3)))))"

end
