(* ===== verification/Gpt_Correct.thy ===== *)
theory Gpt_Correct
  imports Gpt
begin

text \<open>
  Correctness of the partition table: the round trip of formatting and parsing on every lawful block
  device, and the bounds of whatever a parse yields.
\<close>

subsection \<open>Entries\<close>

text \<open>A partition that the table can represent on a device of \<open>blocks\<close> blocks.\<close>

definition partition_ok :: "nat \<Rightarrow> partition \<Rightarrow> bool" where
  "partition_ok blocks p \<longleftrightarrow>
     length (type_guid p) = 16 \<and> type_guid p \<noteq> replicate 16 0 \<and>
     0 < first_lba p \<and> first_lba p \<le> last_lba p \<and> last_lba p < blocks \<and>
     length (part_name p) \<le> 35 \<and> list_all (\<lambda>c. 0x20 \<le> c \<and> c < 0x7F) (part_name p)"

lemma decode_char: "0x20 \<le> c \<Longrightarrow> c < 0x7F \<Longrightarrow> decode_name (c # 0 # bs) = c # decode_name bs"
proof -
  assume c: "0x20 \<le> c" "c < 0x7F"
  have "unat c < 2 ^ 8" using unsigned_less[of c] by simp
  then have u: "unat (ucast c :: u16) = unat c" by (simp add: unsigned_ucast_eq take_bit_nat_eq_self)
  have "(0x20 :: u16) \<le> ucast c" "(ucast c :: u16) < 0x7F" "(ucast c :: u16) \<noteq> 0"
    using c by (auto simp: word_le_nat_alt word_less_nat_alt u unat_eq_0[symmetric])
  moreover have "ucast (ucast c :: u16) = c" by (rule bit_word_eqI) (simp add: bit_ucast_iff)
  ultimately show ?thesis by simp
qed

lemma decode_encode:
  "list_all (\<lambda>c. 0x20 \<le> c \<and> c < 0x7F) cs \<Longrightarrow>
     decode_name (concat (map (\<lambda>ch. [ch, 0]) cs) @ replicate (Suc (Suc n)) 0) = cs"
  by (induction cs) (simp_all add: decode_char del: decode_name.simps(1) replicate.simps, simp)

lemma length_name: "length (concat (map (\<lambda>ch. [ch, 0]) cs)) = 2 * length cs"
  by (induction cs) auto

lemma length_entry_bytes: "partition_ok n p \<Longrightarrow> length (entry_bytes p) = 128"
  by (simp add: entry_bytes_def partition_ok_def length_name Let_def)

lemma parse_entry_bytes:
  assumes p: "partition_ok n p" and n: "n < 2 ^ 64"
  shows "parse_entry n (entry_bytes p) = Ok (Some p)"
proof -
  let ?name = "concat (map (\<lambda>ch. [ch, 0]) (part_name p))"
  have len: "length (type_guid p) = 16" "length (part_name p) \<le> 35" using p by (simp_all add: partition_ok_def)
  have e: "entry_bytes p = type_guid p @ type_guid p @ to_le 8 (of_nat (first_lba p) :: u64)
      @ to_le 8 (of_nat (last_lba p) :: u64) @ replicate 8 0 @ ?name @ replicate (72 - length ?name) 0"
    using len by (simp add: entry_bytes_def Let_def)
  have fields: "slice 0 16 (entry_bytes p) = type_guid p"
    "from_le (slice 32 40 (entry_bytes p)) = (of_nat (first_lba p) :: u64)"
    "from_le (slice 40 48 (entry_bytes p)) = (of_nat (last_lba p) :: u64)"
    "slice 56 128 (entry_bytes p) = ?name @ replicate (72 - length ?name) 0"
    using len by (simp_all add: e slice_simps length_name)
  obtain m where "72 - length ?name = Suc (Suc m)" using len(2) by (intro that[of "70 - length ?name"]) (simp add: length_name)
  then have "decode_name (slice 56 128 (entry_bytes p)) = part_name p"
    using p by (simp add: fields decode_encode partition_ok_def del: replicate.simps)
  then show ?thesis
    using p n by (simp add: parse_entry_def Let_def fields partition_ok_def unat_of_nat_len)
qed

lemma parse_empty_entry: "parse_entry n (replicate 128 0) = Ok None"
  by (simp add: parse_entry_def slice_def min_def Let_def)

lemma parse_entries_append:
  "parse_entries n (xs @ ys) =
     (case parse_entries n xs of Inl e \<Rightarrow> Err e
      | Inr ps \<Rightarrow> (case parse_entries n ys of Inl e \<Rightarrow> Err e | Inr qs \<Rightarrow> Ok (ps @ qs)))"
  by (induction xs) (auto split: sum.split option.split)

lemma parse_entries_empty: "parse_entries n (replicate k (replicate 128 0)) = Ok []"
  by (induction k) (simp_all add: parse_empty_entry)

lemma parse_entries_bytes: "list_all (partition_ok n) ps \<Longrightarrow> n < 2 ^ 64 \<Longrightarrow> parse_entries n (map entry_bytes ps) = Ok ps"
  by (induction ps) (simp_all add: parse_entry_bytes)

text \<open>Cutting a table into entries.\<close>

lemma chunks_concat:
  assumes "\<forall>e \<in> set es. length e = n"
  shows "map (\<lambda>i. slice (i * n) ((i + 1) * n) (concat es @ pad)) [0..<length es] = es"
proof (rule nth_equalityI)
  fix i assume "i < length (map (\<lambda>i. slice (i * n) ((i + 1) * n) (concat es @ pad)) [0..<length es])"
  then have i: "i < length es" by simp
  then have "(i + 1) * n \<le> length es * n" by (intro mult_right_mono) auto
  then have "(i + 1) * n \<le> length (concat es)" using length_blocks[OF assms] by simp
  then show "map (\<lambda>i. slice (i * n) ((i + 1) * n) (concat es @ pad)) [0..<length es] ! i = es ! i"
    using nth_block[OF assms i] i by (simp add: add.commute)
qed simp

lemma concat_chunks: "length xs = n * s \<Longrightarrow> concat (map (\<lambda>i. slice (i * s) (i * s + s) xs) [0..<n]) = xs"
proof (induction n arbitrary: xs)
  case (Suc n)
  have eq: "map (\<lambda>i. slice (i * s) (i * s + s) xs) [0..<n] = map (\<lambda>i. slice (i * s) (i * s + s) (take (n * s) xs)) [0..<n]"
  proof (rule map_cong[OF refl])
    fix i assume "i \<in> set [0..<n]"
    then have "(i + 1) * s \<le> n * s" by (intro mult_right_mono) auto
    then show "slice (i * s) (i * s + s) xs = slice (i * s) (i * s + s) (take (n * s) xs)"
      by (simp add: slice_def drop_take min_def)
  qed
  have "concat (map (\<lambda>i. slice (i * s) (i * s + s) xs) [0..<n]) = take (n * s) xs"
    unfolding eq by (rule Suc.IH) (use Suc.prems in simp)
  then show ?case using Suc.prems by (simp add: slice_def)
qed simp

subsection \<open>The round trip\<close>

lemma header_fields:
  assumes "92 \<le> s"
  shows "length (header_bytes c ec s) = s" "slice 0 8 (header_bytes c ec s) = GPT_SIGNATURE"
    "from_le (slice 12 16 (header_bytes c ec s)) = (92 :: u32)" "from_le (slice 16 20 (header_bytes c ec s)) = c"
    "from_le (slice 72 80 (header_bytes c ec s)) = (2 :: u64)" "from_le (slice 80 84 (header_bytes c ec s)) = (128 :: u32)"
    "from_le (slice 84 88 (header_bytes c ec s)) = (of_nat ENTRY_SIZE :: u32)" "from_le (slice 88 92 (header_bytes c ec s)) = ec"
    "copy_at 16 [0, 0, 0, 0] (take 92 (header_bytes c ec s)) = take 92 (header_bytes 0 ec s)"
proof -
  have sig: "length GPT_SIGNATURE = 8" by (simp add: GPT_SIGNATURE_def ascii_def)
  have z: "to_le 4 (0 :: u32) = [0, 0, 0, 0]" by (simp add: to_le_numeral)
  show "copy_at 16 [0, 0, 0, 0] (take 92 (header_bytes c ec s)) = take 92 (header_bytes 0 ec s)"
    by (simp add: header_bytes_def copy_at_def sig z)
qed (use assms in \<open>simp_all add: header_bytes_def GPT_SIGNATURE_def ascii_def slice_simps slice_def\<close>)

context block_store
begin

lemma write_ok:
  assumes "dev_ok d" "length buf = block_size B d" "i < block_count B d"
  obtains d' where "write_block B i buf d = (Ok (), d')" "dev_ok d'" "contents d' = (contents d)[i := buf]"
    "block_size B d' = block_size B d" "block_count B d' = block_count B d"
proof -
  have "is_ok (fst (write_block B i buf d))" using write_result assms by simp
  then have "write_block B i buf d = (Ok (), snd (write_block B i buf d))"
    by (cases "write_block B i buf d"; cases "fst (write_block B i buf d)") simp_all
  then show ?thesis using write_effect[of d buf i] write_count[of d buf i] assms that by blast
qed

lemma write_table_effect:
  assumes "dev_ok d" "s = block_size B d" "length padded = n * s" "2 + n \<le> block_count B d" "k \<le> n"
  shows "\<exists>d'. write_table B s padded [k..<n] d = (Ok (), d') \<and> dev_ok d' \<and> block_size B d' = s \<and>
    block_count B d' = block_count B d \<and>
    (\<forall>j. contents d' ! j = (if 2 + k \<le> j \<and> j < 2 + n then slice ((j - 2) * s) ((j - 2) * s + s) padded else contents d ! j))"
  using assms
proof (induction "n - k" arbitrary: k d)
  case (Suc m)
  have k: "k < n" using Suc.hyps(2) by simp
  then have "(k + 1) * s \<le> n * s" by (intro mult_right_mono) auto
  then have len: "length (slice (k * s) (k * s + s) padded) = block_size B d" using Suc.prems(2,3) by simp
  have kc: "2 + k < block_count B d" using Suc.prems(4) k by simp
  obtain d1 where d1: "write_block B (2 + k) (slice (k * s) (k * s + s) padded) d = (Ok (), d1)" "dev_ok d1"
      "contents d1 = (contents d)[2 + k := slice (k * s) (k * s + s) padded]"
      "block_size B d1 = block_size B d" "block_count B d1 = block_count B d"
    by (rule write_ok[OF Suc.prems(1) len kc])
  have upd: "contents d1 ! j = (if j = 2 + k then slice (k * s) (k * s + s) padded else contents d ! j)" for j
    using kc shape[OF Suc.prems(1)] by (simp add: d1(3) nth_list_update)
  have "\<exists>d'. write_table B s padded [k + 1..<n] d1 = (Ok (), d') \<and> dev_ok d' \<and> block_size B d' = s \<and>
      block_count B d' = block_count B d1 \<and>
      (\<forall>j. contents d' ! j = (if 2 + (k + 1) \<le> j \<and> j < 2 + n then slice ((j - 2) * s) ((j - 2) * s + s) padded else contents d1 ! j))"
    by (rule Suc.hyps(1)) (use Suc.hyps(2) Suc.prems k d1 in simp_all)
  then obtain d' where d': "write_table B s padded [k + 1..<n] d1 = (Ok (), d')" "dev_ok d'" "block_size B d' = s"
      "block_count B d' = block_count B d1"
      "\<And>j. contents d' ! j = (if 2 + (k + 1) \<le> j \<and> j < 2 + n then slice ((j - 2) * s) ((j - 2) * s + s) padded else contents d1 ! j)"
    by blast
  have "write_table B s padded [k..<n] d = (Ok (), d')" using d'(1) d1(1) by (simp add: upt_conv_Cons[OF k])
  moreover have "contents d' ! j = (if 2 + k \<le> j \<and> j < 2 + n then slice ((j - 2) * s) ((j - 2) * s + s) padded else contents d ! j)" for j
    unfolding d'(5) upd using k by (cases "j = 2 + k") auto
  ultimately show ?case using d' d1(5) by auto
qed auto

lemma read_table_effect:
  assumes d: "dev_ok d" and s: "s = block_size B d" and n: "2 + n \<le> block_count B d" "block_count B d < 2 ^ 64"
    and c: "\<And>i. i < n \<Longrightarrow> contents d ! (2 + i) = f i"
  shows "\<forall>i \<in> set is. i < n \<Longrightarrow> read_table B d 2 s is = Ok (concat (map f is))"
proof (induction "is")
  case (Cons i "is")
  then have i: "i < n" by simp
  have "unat (2 + of_nat i :: u64) = 2 + i" using i n unat_of_nat_len[of "2 + i", where 'a = 64] by simp
  then show ?case using Cons read[OF d, of "2 + i"] i n s c[OF i] by simp
qed simp

lemma gpt_roundtrip:
  assumes d: "dev_ok d" and s: "128 \<le> block_size B d" and ps: "list_all (partition_ok (block_count B d)) ps" "length ps \<le> 128"
    and n: "2 + div_ceil 16384 (block_size B d) \<le> block_count B d" "block_count B d < 2 ^ 64"
  shows "\<exists>d'. write_gpt B ps d = (Ok (), d') \<and> parse_gpt B d' = Ok ps \<and> dev_ok d' \<and> block_count B d' = block_count B d"
proof -
  let ?s = "block_size B d" and ?n = "div_ceil 16384 (block_size B d)"
  let ?es = "map entry_bytes ps @ replicate (128 - length ps) (replicate 128 0)"
  have es: "\<forall>e \<in> set ?es. length e = 128" "length ?es = 128"
    using ps length_entry_bytes by (auto simp: list_all_iff)
  define table where "table = concat (map entry_bytes ps) @ replicate (16384 - length ps * 128) 0"
  define c where "c = crc32_ieee (take 92 (header_bytes 0 (crc32_ieee table) ?s))"
  define padded where "padded = table @ replicate (?n * ?s - 16384) 0"
  have zeros: "concat (replicate k (replicate 128 (0 :: u8))) = replicate (k * 128) 0" for k
    by (induction k) (simp_all add: replicate_add)
  have table: "table = concat ?es" "length table = 16384"
    using length_blocks[OF es(1)] es(2) ps(2) by (simp_all add: table_def zeros diff_mult_distrib)
  have "16384 \<le> ?n * ?s" using s by (intro div_ceil_bounds(1)) simp
  then have padded: "length padded = ?n * ?s" using table by (simp add: padded_def)
  have "length (header_bytes c (crc32_ieee table) ?s) = ?s" "1 < block_count B d" using s n by (simp_all add: header_fields)
  then obtain d1 where d1: "write_block B 1 (header_bytes c (crc32_ieee table) ?s) d = (Ok (), d1)" "dev_ok d1"
      "contents d1 = (contents d)[1 := header_bytes c (crc32_ieee table) ?s]" "block_size B d1 = ?s" "block_count B d1 = block_count B d"
    by (rule write_ok[OF d])
  obtain d2 where d2: "write_table B ?s padded [0..<?n] d1 = (Ok (), d2)" "dev_ok d2" "block_size B d2 = ?s"
      "block_count B d2 = block_count B d" "\<And>j. contents d2 ! j = (if 2 \<le> j \<and> j < 2 + ?n then slice ((j - 2) * ?s) ((j - 2) * ?s + ?s) padded else contents d1 ! j)"
    using write_table_effect[OF d1(2) d1(4)[symmetric] padded, of 0] n d1(5) by auto
  obtain d3 where d3: "sync_device B d2 = (Ok (), d3)" "dev_ok d3" "contents d3 = contents d2" "block_size B d3 = ?s" "block_count B d3 = block_count B d"
    using sync_effect[OF d2(2)] sync_count[OF d2(2)] d2 by (metis prod.collapse)
  have "write_gpt B ps d = (Ok (), d3)"
    using d1(1) d2(1) d3(1) s ps(2)
    by (simp add: write_gpt_def Let_def HEADER_LBA_def ENTRY_SIZE_def MAX_ENTRIES_def c_def padded_def table_def)
  moreover have "parse_gpt B d3 = Ok ps"
  proof -
    have hd: "read_block B d3 HEADER_LBA (replicate ?s 0) = Ok (header_bytes c (crc32_ieee table) ?s)"
      using read[OF d3(2), of 1] d3 d2(5)[of 1] d1(3) shape[OF d] n by (simp add: HEADER_LBA_def)
    have "read_table B d3 2 ?s [0..<?n] = Ok (concat (map (\<lambda>i. slice (i * ?s) (i * ?s + ?s) padded) [0..<?n]))"
      by (rule read_table_effect[where n = ?n]) (use d3 d2(5) n in simp_all)
    then have rt: "read_table B d3 2 ?s [0..<?n] = Ok padded" by (simp add: concat_chunks[OF padded])
    have cut: "map (\<lambda>idx. slice (idx * 128) ((idx + 1) * 128) padded) [0..<128] = ?es"
      using chunks_concat[OF es(1)] es(2) table(1) by (simp add: padded_def)
    have "parse_entries (block_count B d) ?es = Ok ps"
      using parse_entries_bytes[OF ps(1) n(2)] by (simp add: parse_entries_append parse_entries_empty)
    moreover have "take 16384 padded = table" using table(2) by (simp add: padded_def)
    ultimately show ?thesis
      using s by (simp add: parse_gpt_def Let_def hd header_fields c_def rt d3(4,5) ENTRY_SIZE_def MAX_ENTRIES_def cut[simplified] del: upt_Suc)
  qed
  ultimately show ?thesis using d3 by blast
qed

end

lemma nexus_guids:
  "length GUID_NEXUS_STATE = 16" "GUID_NEXUS_STATE \<noteq> replicate 16 0" "length GUID_NEXUS_DATA = 16" "GUID_NEXUS_DATA \<noteq> replicate 16 0"
proof -
  have z: "replicate 16 (0 :: u8) = 0 # replicate 15 0" by (simp add: eval_nat_numeral)
  show "GUID_NEXUS_STATE \<noteq> replicate 16 0" "GUID_NEXUS_DATA \<noteq> replicate 16 0"
    unfolding z by (simp_all add: GUID_NEXUS_STATE_def GUID_NEXUS_DATA_def ascii_def)
qed (simp_all add: GUID_NEXUS_STATE_def GUID_NEXUS_DATA_def ascii_def)

text \<open>C24: Formatting and parsing are inverse.  On an in-memory device with blocks of at least 128 bytes and
  room for the header and the entry array, writing a table of at most 128 representable partitions
  succeeds, and parsing the device then yields exactly these partitions, in order.\<close>

theorem write_parse_gpt:
  assumes "mem_ok d" "128 \<le> mb_block_size d" "list_all (partition_ok (length (mb_blocks d))) ps" "length ps \<le> 128"
    and "2 + div_ceil 16384 (mb_block_size d) \<le> length (mb_blocks d)" "length (mb_blocks d) < 2 ^ 64"
  shows "\<exists>d'. write_gpt mem_device ps d = (Ok (), d') \<and> parse_gpt mem_device d' = Ok ps"
  using mb.gpt_roundtrip[OF assms(1), of ps] assms(2-) by (auto simp: mem_device_def)

theorem write_parse_gpt_witness:
  "\<exists>d'. write_gpt mem_device [\<lparr>type_guid = GUID_NEXUS_STATE, first_lba = 64, last_lba = 99, part_name = ascii ''state''\<rparr>]
        (mem_device_new 512 128) = (Ok (), d') \<and>
      parse_gpt mem_device d' = Ok [\<lparr>type_guid = GUID_NEXUS_STATE, first_lba = 64, last_lba = 99, part_name = ascii ''state''\<rparr>]"
  by (rule write_parse_gpt)
    (simp_all add: mem_ok_def mem_device_new_def partition_ok_def nexus_guids ascii_def div_ceil_def)

subsection \<open>What a parse yields\<close>

lemma parse_entries_mem:
  "parse_entries n es = Ok ps \<Longrightarrow> p \<in> set ps \<Longrightarrow> \<exists>e \<in> set es. parse_entry n e = Ok (Some p)"
  by (induction es arbitrary: ps) (fastforce split: sum.splits option.splits)+

lemma length_parse_entries: "parse_entries n es = Ok ps \<Longrightarrow> length ps \<le> length es"
  by (induction es arbitrary: ps) (fastforce split: sum.splits option.splits)+

lemma decode_name_type: "list_all (\<lambda>c. 0x20 \<le> c \<and> c < 0x7F) (decode_name bs) \<and> 2 * length (decode_name bs) \<le> length bs"
proof (induction bs rule: decode_name.induct)
  case (1 a b bs)
  have "0x20 \<le> (ucast c :: u8) \<and> (ucast c :: u8) < 0x7F" if "0x20 \<le> c" "c < 0x7F" for c :: u16
    using that by (simp add: word_le_nat_alt word_less_nat_alt unsigned_ucast_eq take_bit_nat_eq_self)
  then show ?case using 1 by (auto simp: Let_def)
qed simp_all

lemma parse_entry_type:
  "parse_entry n e = Ok (Some p) \<Longrightarrow>
     0 < first_lba p \<and> first_lba p \<le> last_lba p \<and> last_lba p < n \<and> type_guid p \<noteq> replicate 16 0 \<and>
     list_all (\<lambda>c. 0x20 \<le> c \<and> c < 0x7F) (part_name p) \<and> length (part_name p) \<le> 36"
  using decode_name_type[of "slice 56 128 e"]
  by (auto simp: parse_entry_def Let_def slice_def split: if_splits)

lemma parse_gpt_entries:
  assumes "parse_gpt B d = Ok ps"
  obtains es where "parse_entries (block_count B d) es = Ok ps" "length es \<le> 128"
proof -
  have "\<exists>es. parse_entries (block_count B d) es = Ok ps \<and> length es \<le> 128"
    using assms by (auto simp: parse_gpt_def Let_def MAX_ENTRIES_def word_less_nat_alt split: sum.splits if_splits intro!: exI)
  then show ?thesis using that by blast
qed

text \<open>C33: Whatever an in-memory device holds, every partition that a successful parse yields lies inside
  the device behind block 0, so that opening a view of it succeeds and the view is a lawful device;
  there are at most 128 of them, none has the zero type, and the names are printable.\<close>

theorem parse_gpt_windows:
  assumes "mem_ok d" "parse_gpt mem_device d = Ok ps"
  shows "length ps \<le> 128 \<and>
    (\<forall>p \<in> set ps. 0 < first_lba p \<and> first_lba p \<le> last_lba p \<and> last_lba p < length (mb_blocks d) \<and>
       type_guid p \<noteq> replicate 16 0 \<and> list_all (\<lambda>c. 0x20 \<le> c \<and> c < 0x7F) (part_name p) \<and> length (part_name p) \<le> 36 \<and>
       (\<exists>v. view_new mem_device d p = Ok v \<and> view_ok mem_device mem_ok v))"
proof -
  obtain es where es: "parse_entries (length (mb_blocks d)) es = Ok ps" "length es \<le> 128"
    using parse_gpt_entries[OF assms(2)] by (auto simp: mem_device_def)
  have "0 < first_lba p \<and> first_lba p \<le> last_lba p \<and> last_lba p < length (mb_blocks d) \<and> type_guid p \<noteq> replicate 16 0 \<and>
      list_all (\<lambda>c. 0x20 \<le> c \<and> c < 0x7F) (part_name p) \<and> length (part_name p) \<le> 36" if "p \<in> set ps" for p
    using parse_entries_mem[OF es(1) that] parse_entry_type by blast
  moreover from this have "\<exists>v. view_new mem_device d p = Ok v \<and> view_ok mem_device mem_ok v" if "p \<in> set ps" for p
    using that assms(1) by (force simp: view_new_def mem_device_def view_ok_def)
  moreover have "length ps \<le> 128" using length_parse_entries[OF es(1)] es(2) by simp
  ultimately show ?thesis by blast
qed

theorem parse_gpt_windows_witness:
  "\<exists>d'. write_gpt mem_device [\<lparr>type_guid = GUID_NEXUS_DATA, first_lba = 64, last_lba = 99, part_name = ascii ''data''\<rparr>]
        (mem_device_new 512 128) = (Ok (), d') \<and>
      (\<exists>v. view_new mem_device d' \<lparr>type_guid = GUID_NEXUS_DATA, first_lba = 64, last_lba = 99, part_name = ascii ''data''\<rparr> = Ok v
        \<and> view_ok mem_device mem_ok v)"
proof -
  let ?p = "\<lparr>type_guid = GUID_NEXUS_DATA, first_lba = 64, last_lba = 99, part_name = ascii ''data''\<rparr>"
  have "mem_ok (mem_device_new 512 128)" by (simp add: mem_device_new_ok)
  then have "\<exists>d'. write_gpt mem_device [?p] (mem_device_new 512 128) = (Ok (), d') \<and> parse_gpt mem_device d' = Ok [?p] \<and>
      mem_ok d' \<and> block_count mem_device d' = block_count mem_device (mem_device_new 512 128)"
    by (rule mb.gpt_roundtrip)
      (simp_all add: mem_device_def mem_device_new_def partition_ok_def nexus_guids ascii_def div_ceil_def)
  then obtain d' where d': "write_gpt mem_device [?p] (mem_device_new 512 128) = (Ok (), d')"
    "parse_gpt mem_device d' = Ok [?p]" "mem_ok d'" by blast
  show ?thesis using parse_gpt_windows[OF d'(3,2)] d'(1) by simp
qed

end
