(* ===== verification/Wire.thy ===== *)
theory Wire
  imports Bytes
begin

text \<open>
  The byte-frame codec of \<open>source/libs/nexus-wire/src\<close>: the bounds-checked \<open>Writer\<close> and \<open>Reader\<close> of
  \<open>codec.rs\<close>, and the frame language of the macro \<open>frames!\<close> in \<open>frames.rs\<close>.  A declaration is the list of
  its field kinds; the encoder and decoder the macro generates from it are \<open>encode_frame\<close> and
  \<open>decode_frame\<close>.
\<close>

unbundle bit_operations_syntax

subsection \<open>The writer\<close>

definition REPLY_BIT :: u8 where "REPLY_BIT = 0x80"

record writer =
  wr_buf :: "u8 list"
  wr_pos :: usize

definition writer_new :: "u8 list \<Rightarrow> writer" where
  "writer_new buf = \<lparr>wr_buf = buf, wr_pos = 0\<rparr>"

definition put_u8 :: "u8 \<Rightarrow> writer \<Rightarrow> writer option" where
  "put_u8 v w =
     (if wr_pos w < length (wr_buf w) then Some (w\<lparr>wr_buf := (wr_buf w)[wr_pos w := v], wr_pos := wr_pos w + 1\<rparr>) else None)"

definition put_nz_u8 :: "u8 \<Rightarrow> writer \<Rightarrow> writer option" where
  "put_nz_u8 v w = (if v = 0 then None else put_u8 v w)"

definition put_bytes :: "u8 list \<Rightarrow> writer \<Rightarrow> writer option" where
  "put_bytes bs w =
     (case checked_add (wr_pos w) (length bs) of
        None \<Rightarrow> None
      | Some e \<Rightarrow> if length (wr_buf w) < e then None
                  else Some (w\<lparr>wr_buf := copy_at (wr_pos w) bs (wr_buf w), wr_pos := e\<rparr>))"

definition put_u16le :: "u16 \<Rightarrow> writer \<Rightarrow> writer option" where "put_u16le v = put_bytes (to_le 2 v)"
definition put_u32le :: "u32 \<Rightarrow> writer \<Rightarrow> writer option" where "put_u32le v = put_bytes (to_le 4 v)"
definition put_u64le :: "u64 \<Rightarrow> writer \<Rightarrow> writer option" where "put_u64le v = put_bytes (to_le 8 v)"

definition put_pad :: "usize \<Rightarrow> writer \<Rightarrow> writer option" where
  "put_pad n = put_bytes (replicate n 0)"

definition put_len8_bytes :: "u8 list \<Rightarrow> usize \<Rightarrow> usize \<Rightarrow> writer \<Rightarrow> writer option" where
  "put_len8_bytes bs mn mx w =
     (if length bs < mn \<or> mx < length bs \<or> 0xFF < length bs then None
      else Option.bind (put_u8 (of_nat (length bs)) w) (put_bytes bs))"

definition put_len16_bytes :: "u8 list \<Rightarrow> usize \<Rightarrow> usize \<Rightarrow> writer \<Rightarrow> writer option" where
  "put_len16_bytes bs mn mx w =
     (if length bs < mn \<or> mx < length bs \<or> 0xFFFF < length bs then None
      else Option.bind (put_u16le (of_nat (length bs)) w) (put_bytes bs))"

definition put_len32_bytes :: "u8 list \<Rightarrow> usize \<Rightarrow> usize \<Rightarrow> writer \<Rightarrow> writer option" where
  "put_len32_bytes bs mn mx w =
     (if length bs < mn \<or> mx < length bs \<or> 0xFFFFFFFF < length bs then None
      else Option.bind (put_u32le (of_nat (length bs)) w) (put_bytes bs))"

definition put_hdr :: "u8 \<Rightarrow> u8 \<Rightarrow> u8 \<Rightarrow> u8 \<Rightarrow> writer \<Rightarrow> writer option" where
  "put_hdr m0 m1 version op w =
     Option.bind (put_u8 m0 w) (\<lambda>w. Option.bind (put_u8 m1 w) (\<lambda>w. Option.bind (put_u8 version w) (put_u8 op)))"

subsection \<open>The reader\<close>

record reader =
  rd_buf :: "u8 list"
  rd_pos :: usize

definition reader_new :: "u8 list \<Rightarrow> reader" where
  "reader_new buf = \<lparr>rd_buf = buf, rd_pos = 0\<rparr>"

definition take_bytes :: "usize \<Rightarrow> reader \<Rightarrow> (u8 list \<times> reader) option" where
  "take_bytes n r =
     (case checked_add (rd_pos r) n of
        None \<Rightarrow> None
      | Some e \<Rightarrow> if length (rd_buf r) < e then None else Some (slice (rd_pos r) e (rd_buf r), r\<lparr>rd_pos := e\<rparr>))"

definition take_u8 :: "reader \<Rightarrow> (u8 \<times> reader) option" where
  "take_u8 r = (if rd_pos r < length (rd_buf r) then Some (rd_buf r ! rd_pos r, r\<lparr>rd_pos := rd_pos r + 1\<rparr>) else None)"

definition take_nz_u8 :: "reader \<Rightarrow> (u8 \<times> reader) option" where
  "take_nz_u8 r = (case take_u8 r of Some (v, r1) \<Rightarrow> if v = 0 then None else Some (v, r1) | None \<Rightarrow> None)"

definition expect_u8 :: "u8 \<Rightarrow> reader \<Rightarrow> reader option" where
  "expect_u8 v r = (case take_u8 r of Some (x, r1) \<Rightarrow> if x = v then Some r1 else None | None \<Rightarrow> None)"

definition take_u16le :: "reader \<Rightarrow> (u16 \<times> reader) option" where
  "take_u16le r = map_option (\<lambda>(bs, r1). (from_le bs, r1)) (take_bytes 2 r)"

definition take_u32le :: "reader \<Rightarrow> (u32 \<times> reader) option" where
  "take_u32le r = map_option (\<lambda>(bs, r1). (from_le bs, r1)) (take_bytes 4 r)"

definition take_u64le :: "reader \<Rightarrow> (u64 \<times> reader) option" where
  "take_u64le r = map_option (\<lambda>(bs, r1). (from_le bs, r1)) (take_bytes 8 r)"

definition skip :: "usize \<Rightarrow> reader \<Rightarrow> reader option" where
  "skip n r = map_option snd (take_bytes n r)"

definition take_len8_bytes :: "usize \<Rightarrow> usize \<Rightarrow> reader \<Rightarrow> (u8 list \<times> reader) option" where
  "take_len8_bytes mn mx r =
     Option.bind (take_u8 r) (\<lambda>(v, r1). let n = unat v in if n < mn \<or> mx < n then None else take_bytes n r1)"

definition take_len8_str :: "usize \<Rightarrow> usize \<Rightarrow> reader \<Rightarrow> (u8 list \<times> reader) option" where
  "take_len8_str mn mx r =
     Option.bind (take_len8_bytes mn mx r) (\<lambda>(s, r1). if utf8_valid s then Some (s, r1) else None)"

definition take_len16_bytes :: "usize \<Rightarrow> usize \<Rightarrow> reader \<Rightarrow> (u8 list \<times> reader) option" where
  "take_len16_bytes mn mx r =
     Option.bind (take_u16le r) (\<lambda>(v, r1). let n = unat v in if n < mn \<or> mx < n then None else take_bytes n r1)"

definition take_len32_bytes :: "usize \<Rightarrow> usize \<Rightarrow> reader \<Rightarrow> (u8 list \<times> reader) option" where
  "take_len32_bytes mn mx r =
     Option.bind (take_u32le r) (\<lambda>(v, r1). let n = unat v in if n < mn \<or> mx < n then None else take_bytes n r1)"

definition finish_exact :: "reader \<Rightarrow> unit option" where
  "finish_exact r = (if rd_pos r = length (rd_buf r) then Some () else None)"

definition check_hdr :: "u8 \<Rightarrow> u8 \<Rightarrow> u8 \<Rightarrow> u8 \<Rightarrow> reader \<Rightarrow> reader option" where
  "check_hdr m0 m1 version op r =
     Option.bind (expect_u8 m0 r) (\<lambda>r. Option.bind (expect_u8 m1 r) (\<lambda>r. Option.bind (expect_u8 version r) (expect_u8 op)))"

definition wire_request_op :: "u8 \<Rightarrow> u8 \<Rightarrow> u8 \<Rightarrow> u8 list \<Rightarrow> u8 option" where
  "wire_request_op m0 m1 version frame =
     Option.bind (expect_u8 m0 (reader_new frame)) (\<lambda>r. Option.bind (expect_u8 m1 r)
       (\<lambda>r. Option.bind (expect_u8 version r) (\<lambda>r. map_option fst (take_u8 r))))"

subsection \<open>Frame declarations\<close>

datatype field_kind =
    KU8 | KNzU8 | KU16le | KU32le | KU64le
  | KLit u8
  | KPad usize
  | KStr8 usize usize
  | KBytes8 usize usize
  | KBytes16 usize usize
  | KBytes32 usize usize

datatype field_val = VU8 u8 | VU16 u16 | VU32 u32 | VU64 u64 | VStr "u8 list" | VBytes "u8 list"

text \<open>The statement a field contributes to the encoder; literals and padding take no argument.\<close>

definition put_field :: "field_kind \<Rightarrow> field_val list \<Rightarrow> writer \<Rightarrow> (field_val list \<times> writer) option" where
  "put_field k vs w =
     (case k of
        KLit b \<Rightarrow> map_option (Pair vs) (put_u8 b w)
      | KPad n \<Rightarrow> map_option (Pair vs) (put_pad n w)
      | KU8 \<Rightarrow> (case vs of VU8 v # vs1 \<Rightarrow> map_option (Pair vs1) (put_u8 v w) | _ \<Rightarrow> None)
      | KNzU8 \<Rightarrow> (case vs of VU8 v # vs1 \<Rightarrow> map_option (Pair vs1) (put_nz_u8 v w) | _ \<Rightarrow> None)
      | KU16le \<Rightarrow> (case vs of VU16 v # vs1 \<Rightarrow> map_option (Pair vs1) (put_u16le v w) | _ \<Rightarrow> None)
      | KU32le \<Rightarrow> (case vs of VU32 v # vs1 \<Rightarrow> map_option (Pair vs1) (put_u32le v w) | _ \<Rightarrow> None)
      | KU64le \<Rightarrow> (case vs of VU64 v # vs1 \<Rightarrow> map_option (Pair vs1) (put_u64le v w) | _ \<Rightarrow> None)
      | KStr8 mn mx \<Rightarrow> (case vs of VStr s # vs1 \<Rightarrow> map_option (Pair vs1) (put_len8_bytes s mn mx w) | _ \<Rightarrow> None)
      | KBytes8 mn mx \<Rightarrow> (case vs of VBytes s # vs1 \<Rightarrow> map_option (Pair vs1) (put_len8_bytes s mn mx w) | _ \<Rightarrow> None)
      | KBytes16 mn mx \<Rightarrow> (case vs of VBytes s # vs1 \<Rightarrow> map_option (Pair vs1) (put_len16_bytes s mn mx w) | _ \<Rightarrow> None)
      | KBytes32 mn mx \<Rightarrow> (case vs of VBytes s # vs1 \<Rightarrow> map_option (Pair vs1) (put_len32_bytes s mn mx w) | _ \<Rightarrow> None))"

fun put_fields :: "field_kind list \<Rightarrow> field_val list \<Rightarrow> writer \<Rightarrow> writer option" where
  "put_fields [] vs w = (if vs = [] then Some w else None)"
| "put_fields (k # ks) vs w = (case put_field k vs w of None \<Rightarrow> None | Some (vs1, w1) \<Rightarrow> put_fields ks vs1 w1)"

text \<open>The statement a field contributes to the decoder.\<close>

definition take_field :: "field_kind \<Rightarrow> reader \<Rightarrow> (field_val list \<times> reader) option" where
  "take_field k r =
     (case k of
        KU8 \<Rightarrow> map_option (\<lambda>(v, r). ([VU8 v], r)) (take_u8 r)
      | KNzU8 \<Rightarrow> map_option (\<lambda>(v, r). ([VU8 v], r)) (take_nz_u8 r)
      | KU16le \<Rightarrow> map_option (\<lambda>(v, r). ([VU16 v], r)) (take_u16le r)
      | KU32le \<Rightarrow> map_option (\<lambda>(v, r). ([VU32 v], r)) (take_u32le r)
      | KU64le \<Rightarrow> map_option (\<lambda>(v, r). ([VU64 v], r)) (take_u64le r)
      | KLit b \<Rightarrow> map_option (Pair []) (expect_u8 b r)
      | KPad n \<Rightarrow> map_option (Pair []) (skip n r)
      | KStr8 mn mx \<Rightarrow> map_option (\<lambda>(s, r). ([VStr s], r)) (take_len8_str mn mx r)
      | KBytes8 mn mx \<Rightarrow> map_option (\<lambda>(s, r). ([VBytes s], r)) (take_len8_bytes mn mx r)
      | KBytes16 mn mx \<Rightarrow> map_option (\<lambda>(s, r). ([VBytes s], r)) (take_len16_bytes mn mx r)
      | KBytes32 mn mx \<Rightarrow> map_option (\<lambda>(s, r). ([VBytes s], r)) (take_len32_bytes mn mx r))"

fun take_fields :: "field_kind list \<Rightarrow> reader \<Rightarrow> (field_val list \<times> reader) option" where
  "take_fields [] r = Some ([], r)"
| "take_fields (k # ks) r =
     (case take_field k r of
        None \<Rightarrow> None
      | Some (vs, r1) \<Rightarrow> (case take_fields ks r1 of None \<Rightarrow> None | Some (vs', r2) \<Rightarrow> Some (vs @ vs', r2)))"

definition encode_frame :: "u8 \<Rightarrow> u8 \<Rightarrow> u8 \<Rightarrow> u8 \<Rightarrow> field_kind list \<Rightarrow> field_val list \<Rightarrow> u8 list \<Rightarrow> (usize \<times> u8 list) option" where
  "encode_frame m0 m1 version op ks vs out =
     map_option (\<lambda>w. (wr_pos w, wr_buf w))
       (Option.bind (put_hdr m0 m1 version op (writer_new out)) (put_fields ks vs))"

definition decode_frame :: "u8 \<Rightarrow> u8 \<Rightarrow> u8 \<Rightarrow> u8 \<Rightarrow> field_kind list \<Rightarrow> u8 list \<Rightarrow> field_val list option" where
  "decode_frame m0 m1 version op ks frame =
     Option.bind (check_hdr m0 m1 version op (reader_new frame))
       (\<lambda>r. Option.bind (take_fields ks r) (\<lambda>(vs, r1). map_option (\<lambda>_. vs) (finish_exact r1)))"

end
