(* ===== verification/Wire_Correct.thy ===== *)
theory Wire_Correct
  imports Wire
begin

text \<open>
  Correctness of the frame codec for every declaration: the bytes a field stands for
  (\<open>field_bytes\<close>) are what the writer puts and what the reader takes.
\<close>

subsection \<open>Fields as bytes\<close>

definition field_bytes :: "field_kind \<Rightarrow> field_val list \<Rightarrow> u8 list option" where
  "field_bytes k vs =
     (case k of
        KLit b \<Rightarrow> if vs = [] then Some [b] else None
      | KPad n \<Rightarrow> if vs = [] then Some (replicate n 0) else None
      | KU8 \<Rightarrow> (case vs of [VU8 v] \<Rightarrow> Some [v] | _ \<Rightarrow> None)
      | KNzU8 \<Rightarrow> (case vs of [VU8 v] \<Rightarrow> if v = 0 then None else Some [v] | _ \<Rightarrow> None)
      | KU16le \<Rightarrow> (case vs of [VU16 v] \<Rightarrow> Some (to_le 2 v) | _ \<Rightarrow> None)
      | KU32le \<Rightarrow> (case vs of [VU32 v] \<Rightarrow> Some (to_le 4 v) | _ \<Rightarrow> None)
      | KU64le \<Rightarrow> (case vs of [VU64 v] \<Rightarrow> Some (to_le 8 v) | _ \<Rightarrow> None)
      | KStr8 mn mx \<Rightarrow> (case vs of [VStr s] \<Rightarrow> if mn \<le> length s \<and> length s \<le> mx \<and> length s \<le> 0xFF then Some (to_le 1 (of_nat (length s) :: u8) @ s) else None | _ \<Rightarrow> None)
      | KBytes8 mn mx \<Rightarrow> (case vs of [VBytes s] \<Rightarrow> if mn \<le> length s \<and> length s \<le> mx \<and> length s \<le> 0xFF then Some (to_le 1 (of_nat (length s) :: u8) @ s) else None | _ \<Rightarrow> None)
      | KBytes16 mn mx \<Rightarrow> (case vs of [VBytes s] \<Rightarrow> if mn \<le> length s \<and> length s \<le> mx \<and> length s \<le> 0xFFFF then Some (to_le 2 (of_nat (length s) :: u16) @ s) else None | _ \<Rightarrow> None)
      | KBytes32 mn mx \<Rightarrow> (case vs of [VBytes s] \<Rightarrow> if mn \<le> length s \<and> length s \<le> mx \<and> length s \<le> 0xFFFFFFFF then Some (to_le 4 (of_nat (length s) :: u32) @ s) else None | _ \<Rightarrow> None))"

text \<open>A \<open>&str\<close> argument is UTF-8.\<close>

fun val_ok :: "field_val \<Rightarrow> bool" where
  "val_ok (VStr s) = utf8_valid s"
| "val_ok _ = True"

definition wrote :: "writer \<Rightarrow> u8 list \<Rightarrow> writer \<Rightarrow> bool" where
  "wrote w bs w' \<longleftrightarrow>
     wr_pos w' = wr_pos w + length bs \<and> wr_pos w' \<le> length (wr_buf w') \<and> length (wr_buf w') = length (wr_buf w) \<and>
     take (wr_pos w') (wr_buf w') = take (wr_pos w) (wr_buf w) @ bs"

lemma wrote_trans: "wrote w a w1 \<Longrightarrow> wrote w1 b w2 \<Longrightarrow> wrote w (a @ b) w2"
  by (auto simp: wrote_def)

lemma wrote_Cons: "wrote w [a] w1 \<Longrightarrow> wrote w1 b w2 \<Longrightarrow> wrote w (a # b) w2"
  using wrote_trans[of w "[a]"] by simp

lemma put_u8_wrote: "put_u8 v w = Some w' \<Longrightarrow> wrote w [v] w'"
  by (auto simp: put_u8_def wrote_def take_Suc_conv_app_nth split: if_splits)

lemma put_bytes_wrote: "put_bytes bs w = Some w' \<Longrightarrow> wrote w bs w'"
  by (auto simp: put_bytes_def wrote_def checked_add_def copy_at_def split: if_splits)

lemma to_le_1: "to_le 1 (v :: u8) = [v]" "to_le (Suc 0) (v :: u8) = [v]"
  by (simp_all add: to_le_def)

lemma put_len_wrote:
  "put_len8_bytes s mn mx w = Some w' \<Longrightarrow> wrote w (to_le 1 (of_nat (length s) :: u8) @ s) w' \<and> mn \<le> length s \<and> length s \<le> mx \<and> length s \<le> 0xFF"
  "put_len16_bytes s mn mx w = Some w' \<Longrightarrow> wrote w (to_le 2 (of_nat (length s) :: u16) @ s) w' \<and> mn \<le> length s \<and> length s \<le> mx \<and> length s \<le> 0xFFFF"
  "put_len32_bytes s mn mx w = Some w' \<Longrightarrow> wrote w (to_le 4 (of_nat (length s) :: u32) @ s) w' \<and> mn \<le> length s \<and> length s \<le> mx \<and> length s \<le> 0xFFFFFFFF"
  unfolding to_le_1
  by (auto simp: put_len8_bytes_def put_len16_bytes_def put_len32_bytes_def put_u16le_def put_u32le_def bind_eq_Some_conv
      split: if_splits dest!: put_u8_wrote put_bytes_wrote intro: wrote_trans wrote_Cons)

lemma put_field_wrote:
  assumes "put_field k vs w = Some (vs', w')"
  shows "\<exists>us bs. vs = us @ vs' \<and> field_bytes k us = Some bs \<and> wrote w bs w'"
proof -
  have one: "\<exists>us bs. v # vs' = us @ vs' \<and> field_bytes k us = Some bs \<and> wrote w bs w'"
    if "field_bytes k [v] = Some bs" "wrote w bs w'" for v bs
    using that by (intro exI[of _ "[v]"] exI[of _ bs]) simp
  have none: "\<exists>us bs. vs' = us @ vs' \<and> field_bytes k us = Some bs \<and> wrote w bs w'"
    if "field_bytes k [] = Some bs" "wrote w bs w'" for bs
    using that by (intro exI[of _ "[]"] exI[of _ bs]) simp
  show ?thesis
    using assms
    by (cases k)
      (auto simp: put_field_def put_nz_u8_def put_pad_def put_u16le_def put_u32le_def put_u64le_def
        split: list.splits field_val.splits if_splits
        dest!: put_u8_wrote put_bytes_wrote put_len_wrote intro!: one none, simp_all add: field_bytes_def)
qed

subsection \<open>Reading back\<close>

text \<open>The reader stands before the bytes \<open>bs\<close>.\<close>

definition before :: "reader \<Rightarrow> u8 list \<Rightarrow> bool" where
  "before r bs \<longleftrightarrow> length (rd_buf r) \<le> usize_max \<and> (\<exists>pre t. rd_buf r = pre @ bs @ t \<and> rd_pos r = length pre)"

abbreviation advance :: "nat \<Rightarrow> reader \<Rightarrow> reader" where
  "advance n r \<equiv> r\<lparr>rd_pos := rd_pos r + n\<rparr>"

lemma before_append: "before r (a @ b) \<longleftrightarrow> before r a \<and> before (advance (length a) r) b"
proof
  assume "before r (a @ b)"
  then obtain pre t where "rd_buf r = pre @ (a @ b) @ t" "rd_pos r = length pre" "length (rd_buf r) \<le> usize_max"
    by (auto simp: before_def)
  then show "before r a \<and> before (advance (length a) r) b"
    by (auto simp: before_def intro: exI[of _ pre] exI[of _ "pre @ a"])
next
  assume a: "before r a \<and> before (advance (length a) r) b"
  then obtain pre t pre' t' where "rd_buf r = pre @ a @ t" "rd_pos r = length pre" "rd_buf r = pre' @ b @ t'" "rd_pos r + length a = length pre'"
    by (auto simp: before_def)
  moreover from this have "pre' = pre @ a" by (metis append.assoc append_eq_append_conv length_append)
  ultimately show "before r (a @ b)" using a by (auto simp: before_def)
qed

lemma take_bytes_before: "before r bs \<Longrightarrow> take_bytes (length bs) r = Some (bs, advance (length bs) r)"
  by (auto simp: before_def take_bytes_def checked_add_def slice_def)

lemma take_u8_before: "before r [v] \<Longrightarrow> take_u8 r = Some (v, advance 1 r)"
  by (auto simp: before_def take_u8_def)

lemma take_le_before:
  "before r (to_le 2 v2) \<Longrightarrow> take_u16le r = Some (v2, advance 2 r)"
  "before r (to_le 4 v4) \<Longrightarrow> take_u32le r = Some (v4, advance 4 r)"
  "before r (to_le 8 v8) \<Longrightarrow> take_u64le r = Some (v8, advance 8 r)"
  using take_bytes_before[of r "to_le 2 v2"] take_bytes_before[of r "to_le 4 v4"] take_bytes_before[of r "to_le 8 v8"]
  by (simp_all add: take_u16le_def take_u32le_def take_u64le_def)

lemma take_len_before:
  assumes "mn \<le> length s" "length s \<le> mx"
  shows "length s \<le> 0xFF \<Longrightarrow> before r (to_le 1 (of_nat (length s) :: u8) @ s) \<Longrightarrow> take_len8_bytes mn mx r = Some (s, advance (1 + length s) r)"
    "length s \<le> 0xFFFF \<Longrightarrow> before r (to_le 2 (of_nat (length s) :: u16) @ s) \<Longrightarrow> take_len16_bytes mn mx r = Some (s, advance (2 + length s) r)"
    "length s \<le> 0xFFFFFFFF \<Longrightarrow> before r (to_le 4 (of_nat (length s) :: u32) @ s) \<Longrightarrow> take_len32_bytes mn mx r = Some (s, advance (4 + length s) r)"
  unfolding before_append using assms take_bytes_before[of _ s]
  by (auto simp: take_len8_bytes_def take_len16_bytes_def take_len32_bytes_def take_le_before to_le_1 take_u8_before unat_of_nat_len Let_def add.assoc)

lemma take_field_before:
  assumes "field_bytes k us = Some bs" "list_all val_ok us" "before r bs"
  shows "take_field k r = Some (us, advance (length bs) r)"
  using assms take_bytes_before[of r bs]
  by (cases k)
    (auto simp: field_bytes_def take_field_def take_le_before take_u8_before take_len_before take_nz_u8_def expect_u8_def skip_def
      take_len8_str_def split: list.splits field_val.splits if_splits)

lemma put_fields_take:
  "put_fields ks vs w = Some w' \<Longrightarrow> list_all val_ok vs \<Longrightarrow> wr_pos w \<le> length (wr_buf w) \<Longrightarrow>
     \<exists>bs. wrote w bs w' \<and> (\<forall>r. before r bs \<longrightarrow> take_fields ks r = Some (vs, advance (length bs) r))"
proof (induction ks arbitrary: vs w)
  case Nil
  then show ?case by (intro exI[of _ "[]"]) (auto simp: wrote_def split: if_splits)
next
  case (Cons k ks)
  from Cons.prems(1) obtain vs1 w1 where f: "put_field k vs w = Some (vs1, w1)" and rest: "put_fields ks vs1 w1 = Some w'"
    by (auto split: option.splits)
  obtain us a where us: "vs = us @ vs1" "field_bytes k us = Some a" "wrote w a w1" using put_field_wrote[OF f] by blast
  obtain b where b: "wrote w1 b w'" "\<And>r. before r b \<Longrightarrow> take_fields ks r = Some (vs1, advance (length b) r)"
    using Cons.IH[OF rest] Cons.prems(2) us(1,3) by (auto simp: wrote_def)
  have "take_fields (k # ks) r = Some (vs, advance (length (a @ b)) r)" if "before r (a @ b)" for r
    using that take_field_before[OF us(2), of r] b(2)[of "advance (length a) r"] Cons.prems(2) us(1)
    by (simp add: before_append add.assoc)
  then show ?case using wrote_trans[OF us(3) b(1)] by blast
qed

lemma put_hdr_wrote: "put_hdr m0 m1 v op w = Some w' \<Longrightarrow> wrote w [m0, m1, v, op] w'"
  by (auto simp: put_hdr_def bind_eq_Some_conv dest!: put_u8_wrote intro: wrote_Cons)

lemma expect_u8_before: "before r [v] \<Longrightarrow> expect_u8 v r = Some (advance 1 r)"
  using take_u8_before[of r v] by (simp add: expect_u8_def)

lemma check_hdr_before: "before r [m0, m1, v, op] \<Longrightarrow> check_hdr m0 m1 v op r = Some (advance 4 r)"
proof -
  assume "before r [m0, m1, v, op]"
  then have "before r ([m0] @ [m1] @ [v] @ [op])" by simp
  then show ?thesis
    unfolding before_append by (simp add: check_hdr_def expect_u8_before eval_nat_numeral)
qed

text \<open>C25: The frame codec is invertible for every declaration.  Whatever field kinds a frame declares, if
  the generated encoder accepts the arguments and the buffer, the generated decoder of the same
  declaration yields exactly the arguments from the bytes written.\<close>

theorem frame_roundtrip:
  assumes "encode_frame m0 m1 v op ks vs out = Some (n, out')" "list_all val_ok vs" "length out \<le> usize_max"
  shows "n \<le> length out' \<and> length out' = length out \<and> decode_frame m0 m1 v op ks (take n out') = Some vs"
proof -
  obtain w1 w2 where h: "put_hdr m0 m1 v op (writer_new out) = Some w1" and f: "put_fields ks vs w1 = Some w2"
    and n: "n = wr_pos w2" "out' = wr_buf w2"
    using assms(1) by (auto simp: encode_frame_def bind_eq_Some_conv)
  have w1: "wrote (writer_new out) [m0, m1, v, op] w1" by (rule put_hdr_wrote[OF h])
  then obtain bs where bs: "wrote w1 bs w2" "\<And>r. before r bs \<Longrightarrow> take_fields ks r = Some (vs, advance (length bs) r)"
    using put_fields_take[OF f assms(2)] by (auto simp: wrote_def)
  have w2: "wrote (writer_new out) ([m0, m1, v, op] @ bs) w2" by (rule wrote_trans[OF w1 bs(1)])
  then have frame: "take n out' = [m0, m1, v, op] @ bs" and le: "n \<le> length out'" "length out' = length out" "n = 4 + length bs"
    by (auto simp: wrote_def writer_new_def n)
  let ?r = "reader_new ([m0, m1, v, op] @ bs)"
  have "before ?r ([m0, m1, v, op] @ bs)" using le assms(3) by (auto simp: before_def reader_new_def)
  then have r: "before ?r [m0, m1, v, op]" "before (advance 4 ?r) bs" unfolding before_append by (simp_all add: eval_nat_numeral)
  then show ?thesis
    using le check_hdr_before[OF r(1)] bs(2)[OF r(2)] unfolding frame decode_frame_def
    by (simp add: finish_exact_def reader_new_def)
qed

theorem frame_roundtrip_witness:
  "\<exists>n out'. encode_frame 0x55 0x44 1 2 [KU16le, KLit 7, KBytes8 1 4] [VU16 513, VBytes [9, 8]] [0, 0, 0, 0, 0, 0, 0, 0, 0, 0, 0, 0] = Some (n, out') \<and>
     decode_frame 0x55 0x44 1 2 [KU16le, KLit 7, KBytes8 1 4] (take n out') = Some [VU16 513, VBytes [9, 8]]"
proof -
  have "encode_frame 0x55 0x44 1 2 [KU16le, KLit 7, KBytes8 1 4] [VU16 513, VBytes [9, 8]] [0, 0, 0, 0, 0, 0, 0, 0, 0, 0, 0, 0] \<noteq> None"
    by (simp add: encode_frame_def put_hdr_def writer_new_def put_u8_def put_field_def put_u16le_def put_bytes_def
        put_len8_bytes_def checked_add_def usize_max_def copy_at_def)
  then obtain n out' where e: "encode_frame 0x55 0x44 1 2 [KU16le, KLit 7, KBytes8 1 4] [VU16 513, VBytes [9, 8]] [0, 0, 0, 0, 0, 0, 0, 0, 0, 0, 0, 0] = Some (n, out')"
    by auto
  then show ?thesis using frame_roundtrip[OF e] by (simp add: usize_max_def)
qed

end
