(* ===== verification/Statefs.thy ===== *)
theory Statefs
  imports Block_Device Handles "HOL-Library.List_Lexorder"
begin

text \<open>
  The journaled key-value store of \<open>userspace/statefs/src/lib.rs\<close>: the record format, the engine over
  a block device (replay, append, put, get, delete, list, sync, reopen).  Keys are the UTF-8 bytes
  of a \<open>str\<close>, ordered as Rust orders strings, so the \<open>BTreeMap\<close> is the ordered map of \<open>Handles\<close>.
  Devices have a positive block size; with a block size of zero \<open>append_record\<close> divides by zero.
\<close>

subsection \<open>Records\<close>

definition JOURNAL_MAGIC :: u32 where "JOURNAL_MAGIC = 0x4E585346"
definition MAX_KEY_LEN :: usize where "MAX_KEY_LEN = 255"
definition MAX_VALUE_SIZE :: usize where "MAX_VALUE_SIZE = 65536"
definition MAX_REPLAY_RECORDS :: usize where "MAX_REPLAY_RECORDS = 100000"
definition RECORD_HEADER_SIZE :: usize where "RECORD_HEADER_SIZE = 15"

datatype statefs_error =
    SfNotFound
  | SfAccessDenied
  | SfValueTooLarge
  | SfKeyTooLong
  | SfIoError
  | SfCorrupted
  | SfInvalidKey
  | SfReplayLimitExceeded

datatype journal_op = JPut | JDelete | JCheckpoint

definition journal_op_byte :: "journal_op \<Rightarrow> u8" where
  "journal_op_byte p = (case p of JPut \<Rightarrow> 1 | JDelete \<Rightarrow> 2 | JCheckpoint \<Rightarrow> 3)"

definition journal_op_from_u8 :: "u8 \<Rightarrow> journal_op option" where
  "journal_op_from_u8 v =
     (if v = 1 then Some JPut else if v = 2 then Some JDelete else if v = 3 then Some JCheckpoint else None)"

record journal_record =
  jr_op :: journal_op
  jr_key :: "u8 list"
  jr_value :: "u8 list"

definition crc32c :: "u8 list \<Rightarrow> u32" where
  "crc32c bs = crc32_of 0x82F63B78 bs"

text \<open>The part of a record its checksum covers.\<close>

definition record_body :: "journal_op \<Rightarrow> u8 list \<Rightarrow> u8 list \<Rightarrow> u8 list" where
  "record_body p key val =
     to_le 4 JOURNAL_MAGIC @ [journal_op_byte p] @ to_le 2 (of_nat (length key) :: u16)
     @ to_le 4 (of_nat (length val) :: u32) @ key @ val"

definition serialize_record :: "journal_op \<Rightarrow> u8 list \<Rightarrow> u8 list \<Rightarrow> u8 list" where
  "serialize_record p key val =
     (let body = record_body p key val in body @ to_le 4 (crc32c body))"

definition rec_key_len :: "u8 list \<Rightarrow> usize" where
  "rec_key_len bs = unat (from_le (slice 5 7 bs) :: u16)"

definition rec_value_len :: "u8 list \<Rightarrow> usize" where
  "rec_value_len bs = unat (from_le (slice 7 11 bs) :: u32)"

definition parse_record :: "u8 list \<Rightarrow> statefs_error + (journal_record \<times> usize) option" where
  "parse_record bs =
     (if length bs < RECORD_HEADER_SIZE then Ok None
      else if from_le (take 4 bs) \<noteq> JOURNAL_MAGIC then Ok None
      else case journal_op_from_u8 (bs ! 4) of
        None \<Rightarrow> Err SfCorrupted
      | Some p \<Rightarrow>
          (let key_len = rec_key_len bs; value_len = rec_value_len bs in
           if MAX_KEY_LEN < key_len then Err SfCorrupted
           else if MAX_VALUE_SIZE < value_len then Err SfCorrupted
           else
             (let total_len = RECORD_HEADER_SIZE + key_len + value_len in
              if length bs < total_len then Ok None
              else
                (let key_end = 11 + key_len; value_end = key_end + value_len in
                 if length bs < value_end + 4 then Ok None
                 else if from_le (slice value_end (value_end + 4) bs) \<noteq> crc32c (take value_end bs)
                 then Err SfCorrupted
                 else if \<not> utf8_valid (slice 11 key_end bs) then Err SfCorrupted
                 else Ok (Some (\<lparr>jr_op = p, jr_key = slice 11 key_end bs,
                                 jr_value = slice key_end value_end bs\<rparr>, total_len))))))"

subsection \<open>The engine\<close>

type_synonym kv_map = "(u8 list, u8 list) btree"

record 'd journal_engine =
  je_device :: 'd
  je_kv :: kv_map
  je_write_pos :: usize
  je_record_count :: usize

definition apply_record :: "journal_record \<Rightarrow> kv_map \<Rightarrow> kv_map" where
  "apply_record r kv =
     (case jr_op r of
        JPut \<Rightarrow> bt_insert (jr_key r) (jr_value r) kv
      | JDelete \<Rightarrow> bt_remove (jr_key r) kv
      | JCheckpoint \<Rightarrow> kv)"

text \<open>The variables of the replay loop; \<open>rp_buf\<close> holds the bytes read and not yet consumed.\<close>

record replay_state =
  rp_buf :: "u8 list"
  rp_kv :: kv_map
  rp_file_pos :: usize
  rp_count :: usize
  rp_done :: bool

text \<open>Whether the buffer starts with a record that is not complete yet.\<close>

definition incomplete_record :: "u8 list \<Rightarrow> bool" where
  "incomplete_record bs \<longleftrightarrow>
     take 4 bs = to_le 4 JOURNAL_MAGIC \<and> length bs < RECORD_HEADER_SIZE + rec_key_len bs + rec_value_len bs"

lemma parse_record_consumes: "parse_record bs = Ok (Some (r, n)) \<Longrightarrow> 0 < n \<and> n \<le> length bs"
  by (auto simp: parse_record_def Let_def RECORD_HEADER_SIZE_def split: if_splits option.splits)

function replay_buf :: "replay_state \<Rightarrow> (statefs_error + unit) \<times> replay_state" where
  "replay_buf st =
     (if rp_buf st = [] \<or> MAX_REPLAY_RECORDS \<le> rp_count st then (Ok (), st)
      else if length (rp_buf st) < RECORD_HEADER_SIZE then (Ok (), st)
      else if incomplete_record (rp_buf st) then (Ok (), st)
      else case parse_record (rp_buf st) of
        Inr (Some (r, consumed)) \<Rightarrow>
          replay_buf (st\<lparr>rp_buf := drop consumed (rp_buf st), rp_kv := apply_record r (rp_kv st),
                         rp_file_pos := saturating_add (rp_file_pos st) consumed, rp_count := rp_count st + 1\<rparr>)
      | Inr None \<Rightarrow> (Ok (), st\<lparr>rp_done := True\<rparr>)
      | Inl e \<Rightarrow> if e = SfCorrupted then (Ok (), st\<lparr>rp_done := True\<rparr>) else (Err e, st))"
  by pat_completeness auto
termination
  by (relation "measure (\<lambda>st. length (rp_buf st))") (auto dest!: parse_record_consumes)

declare replay_buf.simps [simp del]

text \<open>One block after the other; \<open>blk\<close> is the block buffer, reused for every read.\<close>

fun replay_blocks ::
  "'d block_device \<Rightarrow> 'd \<Rightarrow> nat list \<Rightarrow> u8 list \<Rightarrow> replay_state \<Rightarrow> (statefs_error + unit) \<times> replay_state" where
  "replay_blocks B d [] blk st = (Ok (), st)"
| "replay_blocks B d (i # is) blk st =
     (case read_block B d i blk of
        Inl _ \<Rightarrow> (Err SfIoError, st)
      | Inr blk' \<Rightarrow>
          (case replay_buf (st\<lparr>rp_buf := rp_buf st @ blk'\<rparr>) of
             (Inl e, st1) \<Rightarrow> (Err e, st1)
           | (Inr _, st1) \<Rightarrow> if rp_done st1 then (Ok (), st1) else replay_blocks B d is blk' st1))"

definition replay :: "'d block_device \<Rightarrow> 'd journal_engine \<Rightarrow> (statefs_error + unit) \<times> 'd journal_engine" where
  "replay B e =
     (case replay_blocks B (je_device e) [0..<block_count B (je_device e)] (replicate (block_size B (je_device e)) 0)
             \<lparr>rp_buf = [], rp_kv = je_kv e, rp_file_pos = 0, rp_count = je_record_count e, rp_done = False\<rparr> of
        (r, st) \<Rightarrow>
          (let e1 = e\<lparr>je_kv := rp_kv st, je_record_count := rp_count st\<rparr> in
           case r of
             Inl x \<Rightarrow> (Err x, e1)
           | Inr _ \<Rightarrow>
               if MAX_REPLAY_RECORDS \<le> rp_count st then (Err SfReplayLimitExceeded, e1)
               else (Ok (), e1\<lparr>je_write_pos := rp_file_pos st\<rparr>)))"

definition open_engine :: "'d block_device \<Rightarrow> 'd \<Rightarrow> statefs_error + 'd journal_engine" where
  "open_engine B d =
     (case replay B \<lparr>je_device = d, je_kv = [], je_write_pos = 0, je_record_count = 0\<rparr> of
        (Inl x, _) \<Rightarrow> Err x
      | (Inr _, e) \<Rightarrow> Ok e)"

definition validate_key :: "u8 list \<Rightarrow> statefs_error + unit" where
  "validate_key key =
     (if MAX_KEY_LEN < length key then Err SfKeyTooLong
      else if \<not> starts_with key (ascii ''/state/'') then Err SfInvalidKey
      else if str_contains key (ascii ''/../'') \<or> str_contains key (ascii ''/./'')
              \<or> ends_with key (ascii ''/..'') \<or> ends_with key (ascii ''/.'')
      then Err SfInvalidKey
      else Ok ())"

text \<open>The read-modify-write loop of \<open>append_record\<close>: the record \<open>rec\<close> goes to the bytes from \<open>wp\<close> on,
  \<open>off\<close> of its bytes are written already.\<close>

fun append_blocks ::
  "'d block_device \<Rightarrow> usize \<Rightarrow> usize \<Rightarrow> u8 list \<Rightarrow> nat list \<Rightarrow> u8 list \<Rightarrow> usize \<Rightarrow> 'd \<Rightarrow> (statefs_error + unit) \<times> 'd" where
  "append_blocks B bs wp rec [] buf off d = (Ok (), d)"
| "append_blocks B bs wp rec (i # is) buf off d =
     (case read_block B d i buf of
        Inl _ \<Rightarrow> (Err SfIoError, d)
      | Inr buf1 \<Rightarrow>
          (let end_byte = wp + length rec;
               block_start = i * bs;
               write_start = saturating_sub wp block_start;
               write_end = (if end_byte < block_start + bs then end_byte - block_start else bs);
               chunk = write_end - write_start;
               buf2 = copy_at write_start (slice off (off + chunk) rec) buf1
           in case write_block B i buf2 d of
                (Inl _, d1) \<Rightarrow> (Err SfIoError, d1)
              | (Inr _, d1) \<Rightarrow> append_blocks B bs wp rec is buf2 (off + chunk) d1))"

definition append_record ::
  "'d block_device \<Rightarrow> journal_op \<Rightarrow> u8 list \<Rightarrow> u8 list \<Rightarrow> 'd journal_engine \<Rightarrow> (statefs_error + unit) \<times> 'd journal_engine" where
  "append_record B p key val e =
     (let rec = serialize_record p key val;
          bs = block_size B (je_device e);
          start_block = je_write_pos e div bs;
          end_byte = je_write_pos e + length rec;
          end_block = div_ceil end_byte bs
      in if block_count B (je_device e) < end_block then (Err SfIoError, e)
         else case append_blocks B bs (je_write_pos e) rec [start_block..<end_block] (replicate bs 0) 0 (je_device e) of
           (Inl x, d) \<Rightarrow> (Err x, e\<lparr>je_device := d\<rparr>)
         | (Inr _, d) \<Rightarrow>
             (Ok (), e\<lparr>je_device := d, je_write_pos := end_byte, je_record_count := je_record_count e + 1\<rparr>))"

definition sf_put ::
  "'d block_device \<Rightarrow> u8 list \<Rightarrow> u8 list \<Rightarrow> 'd journal_engine \<Rightarrow> (statefs_error + unit) \<times> 'd journal_engine" where
  "sf_put B key val e =
     (case validate_key key of
        Inl x \<Rightarrow> (Err x, e)
      | Inr _ \<Rightarrow>
          if MAX_VALUE_SIZE < length val then (Err SfValueTooLarge, e)
          else case append_record B JPut key val e of
            (Inl x, e1) \<Rightarrow> (Err x, e1)
          | (Inr _, e1) \<Rightarrow> (Ok (), e1\<lparr>je_kv := bt_insert key val (je_kv e1)\<rparr>))"

definition sf_get :: "'d journal_engine \<Rightarrow> u8 list \<Rightarrow> statefs_error + u8 list" where
  "sf_get e key =
     (case validate_key key of Inl x \<Rightarrow> Err x | Inr _ \<Rightarrow> ok_or SfNotFound (bt_get (je_kv e) key))"

definition sf_delete ::
  "'d block_device \<Rightarrow> u8 list \<Rightarrow> 'd journal_engine \<Rightarrow> (statefs_error + unit) \<times> 'd journal_engine" where
  "sf_delete B key e =
     (case validate_key key of
        Inl x \<Rightarrow> (Err x, e)
      | Inr _ \<Rightarrow>
          if \<not> bt_contains (je_kv e) key then (Err SfNotFound, e)
          else case append_record B JDelete key [] e of
            (Inl x, e1) \<Rightarrow> (Err x, e1)
          | (Inr _, e1) \<Rightarrow> (Ok (), e1\<lparr>je_kv := bt_remove key (je_kv e1)\<rparr>))"

definition sf_list :: "'d journal_engine \<Rightarrow> u8 list \<Rightarrow> usize \<Rightarrow> statefs_error + u8 list list" where
  "sf_list e pre limit =
     (if \<not> starts_with pre (ascii ''/state/'') \<and> pre \<noteq> ascii ''/state'' then Err SfInvalidKey
      else Ok (take limit (filter (\<lambda>k. starts_with k pre) (bt_keys (je_kv e)))))"

definition sf_sync :: "'d block_device \<Rightarrow> 'd journal_engine \<Rightarrow> (statefs_error + unit) \<times> 'd journal_engine" where
  "sf_sync B e =
     (case sync_device B (je_device e) of (r, d) \<Rightarrow> (map_err (\<lambda>_. SfIoError) r, e\<lparr>je_device := d\<rparr>))"

definition sf_reopen :: "'d block_device \<Rightarrow> 'd journal_engine \<Rightarrow> (statefs_error + unit) \<times> 'd journal_engine" where
  "sf_reopen B e = replay B (e\<lparr>je_kv := [], je_write_pos := 0, je_record_count := 0\<rparr>)"

end
