(* ===== verification/Statefs_Proto.thy ===== *)
theory Statefs_Proto
  imports Statefs
begin

text \<open>
  The wire protocol of the store, module \<open>protocol\<close> of \<open>userspace/statefs/src/lib.rs\<close>: encoders and
  decoders of requests and responses, version 1 and version 2 (with a nonce), and the upgrade of a
  request to version 2 that the client does before it sends.  Every request and every list response
  decodes to what was encoded.
\<close>

unbundle bit_operations_syntax

subsection \<open>Constants\<close>

definition PROTO_MAGIC :: "u8 list" where "PROTO_MAGIC = [0x53, 0x46]"
definition PROTO_VERSION :: u8 where "PROTO_VERSION = 1"
definition PROTO_VERSION_V2 :: u8 where "PROTO_VERSION_V2 = 2"

definition OP_PUT :: u8 where "OP_PUT = 1"
definition OP_GET :: u8 where "OP_GET = 2"
definition OP_DEL :: u8 where "OP_DEL = 3"
definition OP_LIST :: u8 where "OP_LIST = 4"
definition OP_SYNC :: u8 where "OP_SYNC = 5"
definition OP_REOPEN :: u8 where "OP_REOPEN = 6"

lemmas op_defs = OP_PUT_def OP_GET_def OP_DEL_def OP_LIST_def OP_SYNC_def OP_REOPEN_def

definition STATUS_OK :: u8 where "STATUS_OK = 0"
definition STATUS_NOT_FOUND :: u8 where "STATUS_NOT_FOUND = 1"
definition STATUS_ACCESS_DENIED :: u8 where "STATUS_ACCESS_DENIED = 2"
definition STATUS_VALUE_TOO_LARGE :: u8 where "STATUS_VALUE_TOO_LARGE = 3"
definition STATUS_KEY_TOO_LONG :: u8 where "STATUS_KEY_TOO_LONG = 4"
definition STATUS_INVALID_KEY :: u8 where "STATUS_INVALID_KEY = 5"
definition STATUS_MALFORMED :: u8 where "STATUS_MALFORMED = 6"
definition STATUS_IO_ERROR :: u8 where "STATUS_IO_ERROR = 7"
definition STATUS_UNSUPPORTED :: u8 where "STATUS_UNSUPPORTED = 8"

lemmas status_defs = STATUS_OK_def STATUS_NOT_FOUND_def STATUS_ACCESS_DENIED_def STATUS_VALUE_TOO_LARGE_def
  STATUS_KEY_TOO_LONG_def STATUS_INVALID_KEY_def STATUS_MALFORMED_def STATUS_IO_ERROR_def STATUS_UNSUPPORTED_def

definition MAX_LIST_LIMIT :: u16 where "MAX_LIST_LIMIT = 256"

definition status_from_error :: "statefs_error \<Rightarrow> u8" where
  "status_from_error err =
     (case err of
        SfNotFound \<Rightarrow> STATUS_NOT_FOUND
      | SfAccessDenied \<Rightarrow> STATUS_ACCESS_DENIED
      | SfValueTooLarge \<Rightarrow> STATUS_VALUE_TOO_LARGE
      | SfKeyTooLong \<Rightarrow> STATUS_KEY_TOO_LONG
      | SfInvalidKey \<Rightarrow> STATUS_INVALID_KEY
      | SfIoError \<Rightarrow> STATUS_IO_ERROR
      | SfCorrupted \<Rightarrow> STATUS_MALFORMED
      | SfReplayLimitExceeded \<Rightarrow> STATUS_IO_ERROR)"

definition error_from_status :: "u8 \<Rightarrow> statefs_error" where
  "error_from_status status =
     (if status = STATUS_NOT_FOUND then SfNotFound
      else if status = STATUS_ACCESS_DENIED then SfAccessDenied
      else if status = STATUS_VALUE_TOO_LARGE then SfValueTooLarge
      else if status = STATUS_KEY_TOO_LONG then SfKeyTooLong
      else if status = STATUS_INVALID_KEY then SfInvalidKey
      else if status = STATUS_IO_ERROR then SfIoError
      else SfCorrupted)"

subsection \<open>Requests\<close>

datatype sf_request =
    ReqPut "u8 list" "u8 list"
  | ReqGet "u8 list"
  | ReqDelete "u8 list"
  | ReqList "u8 list" u16
  | ReqSync
  | ReqReopen

definition clamp_limit :: "u16 \<Rightarrow> u16" where
  "clamp_limit limit = (if limit = 0 then 1 else min limit MAX_LIST_LIMIT)"

definition decode_put_payload :: "u8 list \<Rightarrow> u8 + sf_request" where
  "decode_put_payload payload =
     (if length payload < 6 then Err STATUS_MALFORMED
      else
        (let key_len = unat (from_le (slice 0 2 payload) :: u16);
             val_len = unat (from_le (slice 2 6 payload) :: u32)
         in if key_len = 0 then Err STATUS_MALFORMED
            else if MAX_KEY_LEN < key_len then Err STATUS_KEY_TOO_LONG
            else if MAX_VALUE_SIZE < val_len then Err STATUS_VALUE_TOO_LARGE
            else
              (let expected = saturating_add (saturating_add 6 key_len) val_len in
               if length payload \<noteq> expected then Err STATUS_MALFORMED
               else if \<not> utf8_valid (slice 6 (6 + key_len) payload) then Err STATUS_MALFORMED
               else Ok (ReqPut (slice 6 (6 + key_len) payload) (slice (6 + key_len) expected payload)))))"

definition decode_key_only_payload :: "u8 list \<Rightarrow> u8 + u8 list" where
  "decode_key_only_payload payload =
     (if length payload < 2 then Err STATUS_MALFORMED
      else
        (let key_len = unat (from_le (slice 0 2 payload) :: u16) in
         if key_len = 0 then Err STATUS_MALFORMED
         else if MAX_KEY_LEN < key_len then Err STATUS_KEY_TOO_LONG
         else if length payload \<noteq> saturating_add 2 key_len then Err STATUS_MALFORMED
         else if \<not> utf8_valid (slice 2 (2 + key_len) payload) then Err STATUS_MALFORMED
         else Ok (slice 2 (2 + key_len) payload)))"

definition decode_list_payload :: "u8 list \<Rightarrow> u8 + sf_request" where
  "decode_list_payload payload =
     (if length payload < 4 then Err STATUS_MALFORMED
      else
        (let prefix_len = unat (from_le (slice 0 2 payload) :: u16); limit = from_le (slice 2 4 payload) in
         if MAX_KEY_LEN < prefix_len then Err STATUS_KEY_TOO_LONG
         else
           (let expected = saturating_add 4 prefix_len in
            if length payload \<noteq> expected then Err STATUS_MALFORMED
            else if \<not> utf8_valid (slice 4 expected payload) then Err STATUS_MALFORMED
            else Ok (ReqList (slice 4 expected payload) (clamp_limit limit)))))"

text \<open>The dispatch on the opcode, the same for both versions.\<close>

definition decode_op :: "u8 \<Rightarrow> u8 list \<Rightarrow> u8 + sf_request" where
  "decode_op op payload =
     (if op = OP_PUT then decode_put_payload payload
      else if op = OP_GET then (case decode_key_only_payload payload of Inl e \<Rightarrow> Err e | Inr k \<Rightarrow> Ok (ReqGet k))
      else if op = OP_DEL then (case decode_key_only_payload payload of Inl e \<Rightarrow> Err e | Inr k \<Rightarrow> Ok (ReqDelete k))
      else if op = OP_LIST then decode_list_payload payload
      else if op = OP_SYNC then (if payload \<noteq> [] then Err STATUS_MALFORMED else Ok ReqSync)
      else if op = OP_REOPEN then (if payload \<noteq> [] then Err STATUS_MALFORMED else Ok ReqReopen)
      else Err STATUS_UNSUPPORTED)"

definition decode_request_with_nonce :: "u8 list \<Rightarrow> u8 + (sf_request \<times> u64 option)" where
  "decode_request_with_nonce frame =
     (if length frame < 4 \<or> slice 0 2 frame \<noteq> PROTO_MAGIC then Err STATUS_MALFORMED
      else if frame ! 2 = PROTO_VERSION then
        (case decode_op (frame ! 3) (drop 4 frame) of Inl e \<Rightarrow> Err e | Inr r \<Rightarrow> Ok (r, None))
      else if frame ! 2 = PROTO_VERSION_V2 then
        (if length frame < 12 then Err STATUS_MALFORMED
         else case decode_op (frame ! 3) (drop 12 frame) of
                Inl e \<Rightarrow> Err e | Inr r \<Rightarrow> Ok (r, Some (from_le (slice 4 12 frame))))
      else Err STATUS_MALFORMED)"

definition request_header :: "u8 \<Rightarrow> u8 list" where
  "request_header op = PROTO_MAGIC @ [PROTO_VERSION, op]"

definition encode_put_request :: "u8 list \<Rightarrow> u8 list \<Rightarrow> statefs_error + u8 list" where
  "encode_put_request key val =
     (if MAX_KEY_LEN < length key then Err SfKeyTooLong
      else if MAX_VALUE_SIZE < length val then Err SfValueTooLarge
      else Ok (request_header OP_PUT @ to_le 2 (of_nat (length key) :: u16) @ to_le 4 (of_nat (length val) :: u32) @ key @ val))"

definition encode_key_only_request :: "u8 \<Rightarrow> u8 list \<Rightarrow> statefs_error + u8 list" where
  "encode_key_only_request op key =
     (if MAX_KEY_LEN < length key then Err SfKeyTooLong
      else Ok (request_header op @ to_le 2 (of_nat (length key) :: u16) @ key))"

definition encode_list_request :: "u8 list \<Rightarrow> u16 \<Rightarrow> statefs_error + u8 list" where
  "encode_list_request pre limit =
     (if MAX_KEY_LEN < length pre then Err SfKeyTooLong
      else Ok (request_header OP_LIST @ to_le 2 (of_nat (length pre) :: u16) @ to_le 2 (clamp_limit limit) @ pre))"

definition encode_sync_request :: "u8 list" where
  "encode_sync_request = request_header OP_SYNC"

definition encode_reopen_request :: "u8 list" where
  "encode_reopen_request = request_header OP_REOPEN"

text \<open>The client inserts its nonce after the header of a version 1 frame.\<close>

definition upgrade_v2 :: "u64 \<Rightarrow> u8 list \<Rightarrow> statefs_error + u8 list" where
  "upgrade_v2 nonce frame =
     (if length frame < 4 \<or> slice 0 2 frame \<noteq> PROTO_MAGIC \<or> frame ! 2 \<noteq> PROTO_VERSION then Err SfIoError
      else Ok ((take 4 frame)[2 := PROTO_VERSION_V2] @ to_le 8 nonce @ drop 4 frame))"

subsection \<open>Responses\<close>

definition response_header :: "u8 \<Rightarrow> u8 \<Rightarrow> u64 option \<Rightarrow> u8 list" where
  "response_header op status nonce =
     (case nonce of
        None \<Rightarrow> PROTO_MAGIC @ [PROTO_VERSION, op OR 0x80, status]
      | Some n \<Rightarrow> PROTO_MAGIC @ [PROTO_VERSION_V2, op OR 0x80, status] @ to_le 8 n)"

definition encode_status_response_with_nonce :: "u8 \<Rightarrow> u8 \<Rightarrow> u64 option \<Rightarrow> u8 list" where
  "encode_status_response_with_nonce op status nonce = response_header op status nonce"

definition encode_get_response_with_nonce :: "u8 \<Rightarrow> u8 list \<Rightarrow> u64 option \<Rightarrow> u8 list" where
  "encode_get_response_with_nonce status val nonce =
     response_header OP_GET status nonce @ to_le 4 (of_nat (length val) :: u32) @ val"

text \<open>The loop that adds keys to a list response while they fit.\<close>

fun push_keys :: "usize \<Rightarrow> u8 list list \<Rightarrow> u8 list \<Rightarrow> u16 \<Rightarrow> u8 list \<times> u16" where
  "push_keys max_bytes [] out cnt = (out, cnt)"
| "push_keys max_bytes (key # keys) out cnt =
     (if MAX_KEY_LEN < length key then push_keys max_bytes keys out cnt
      else if max_bytes < saturating_add (length out) (saturating_add 2 (length key)) then (out, cnt)
      else
        (let out1 = out @ to_le 2 (of_nat (length key) :: u16) @ key;
             cnt1 = (if cnt = 0xFFFF then cnt else cnt + 1)
         in if cnt1 = 0xFFFF then (out1, cnt1) else push_keys max_bytes keys out1 cnt1))"

definition encode_list_response_with_nonce :: "u8 \<Rightarrow> u8 list list \<Rightarrow> usize \<Rightarrow> u64 option \<Rightarrow> u8 list" where
  "encode_list_response_with_nonce status keys max_bytes nonce =
     (let hdr = response_header OP_LIST status nonce in
      case push_keys max_bytes keys (hdr @ to_le 2 (0 :: u16)) 0 of
        (out, cnt) \<Rightarrow> copy_at (length hdr) (to_le 2 cnt) out)"

definition decode_status_response :: "u8 \<Rightarrow> u8 list \<Rightarrow> statefs_error + u8" where
  "decode_status_response expected_op frame =
     (if length frame < 5 \<or> slice 0 2 frame \<noteq> PROTO_MAGIC then Err SfCorrupted
      else if frame ! 3 \<noteq> expected_op OR 0x80 then Err SfCorrupted
      else if frame ! 2 = PROTO_VERSION then Ok (frame ! 4)
      else if frame ! 2 = PROTO_VERSION_V2 then (if length frame < 13 then Err SfCorrupted else Ok (frame ! 4))
      else Err SfCorrupted)"

text \<open>The value of a get response, whose length field is at \<open>pos\<close>.\<close>

definition decode_value :: "usize \<Rightarrow> u8 list \<Rightarrow> statefs_error + u8 list" where
  "decode_value pos frame =
     (if length frame < pos + 4 then Err SfCorrupted
      else if frame ! 4 \<noteq> STATUS_OK then Err (error_from_status (frame ! 4))
      else
        (let val_len = unat (from_le (slice pos (pos + 4) frame) :: u32) in
         if MAX_VALUE_SIZE < val_len \<or> length frame \<noteq> pos + 4 + val_len then Err SfCorrupted
         else Ok (slice (pos + 4) (pos + 4 + val_len) frame)))"

definition decode_get_response :: "u8 list \<Rightarrow> statefs_error + u8 list" where
  "decode_get_response frame =
     (if length frame < 9 \<or> slice 0 2 frame \<noteq> PROTO_MAGIC then Err SfCorrupted
      else if frame ! 3 \<noteq> OP_GET OR 0x80 then Err SfCorrupted
      else if frame ! 2 = PROTO_VERSION then decode_value 5 frame
      else if frame ! 2 = PROTO_VERSION_V2 then decode_value 13 frame
      else Err SfCorrupted)"

primrec decode_keys :: "nat \<Rightarrow> usize \<Rightarrow> u8 list \<Rightarrow> statefs_error + u8 list list" where
  "decode_keys 0 pos frame = Ok []"
| "decode_keys (Suc n) pos frame =
     (if length frame < pos + 2 then Err SfCorrupted
      else
        (let key_len = unat (from_le (slice pos (pos + 2) frame) :: u16); pos1 = pos + 2 in
         if MAX_KEY_LEN < key_len \<or> length frame < pos1 + key_len then Err SfCorrupted
         else if \<not> utf8_valid (slice pos1 (pos1 + key_len) frame) then Err SfCorrupted
         else case decode_keys n (pos1 + key_len) frame of
                Inl e \<Rightarrow> Err e | Inr keys \<Rightarrow> Ok (slice pos1 (pos1 + key_len) frame # keys)))"

definition decode_list_response :: "u8 list \<Rightarrow> statefs_error + u8 list list" where
  "decode_list_response frame =
     (if length frame < 7 \<or> slice 0 2 frame \<noteq> PROTO_MAGIC then Err SfCorrupted
      else if frame ! 3 \<noteq> OP_LIST OR 0x80 then Err SfCorrupted
      else if frame ! 2 \<noteq> PROTO_VERSION \<and> frame ! 2 \<noteq> PROTO_VERSION_V2 then Err SfCorrupted
      else
        (let pos = (if frame ! 2 = PROTO_VERSION then 5 else 13) in
         if length frame < pos + 2 then Err SfCorrupted
         else if frame ! 4 \<noteq> STATUS_OK then Err (error_from_status (frame ! 4))
         else decode_keys (unat (from_le (slice pos (pos + 2) frame) :: u16)) (pos + 2) frame))"

subsection \<open>Round trips of requests\<close>

definition encode_request :: "sf_request \<Rightarrow> statefs_error + u8 list" where
  "encode_request r =
     (case r of
        ReqPut k v \<Rightarrow> encode_put_request k v
      | ReqGet k \<Rightarrow> encode_key_only_request OP_GET k
      | ReqDelete k \<Rightarrow> encode_key_only_request OP_DEL k
      | ReqList p l \<Rightarrow> encode_list_request p l
      | ReqSync \<Rightarrow> Ok encode_sync_request
      | ReqReopen \<Rightarrow> Ok encode_reopen_request)"

text \<open>Requests within the limits; a key is a non-empty string, a prefix may be empty.\<close>

definition request_ok :: "sf_request \<Rightarrow> bool" where
  "request_ok r =
     (case r of
        ReqPut k v \<Rightarrow> k \<noteq> [] \<and> length k \<le> MAX_KEY_LEN \<and> utf8_valid k \<and> length v \<le> MAX_VALUE_SIZE
      | ReqGet k \<Rightarrow> k \<noteq> [] \<and> length k \<le> MAX_KEY_LEN \<and> utf8_valid k
      | ReqDelete k \<Rightarrow> k \<noteq> [] \<and> length k \<le> MAX_KEY_LEN \<and> utf8_valid k
      | ReqList p l \<Rightarrow> length p \<le> MAX_KEY_LEN \<and> utf8_valid p
      | _ \<Rightarrow> True)"

definition request_norm :: "sf_request \<Rightarrow> sf_request" where
  "request_norm r = (case r of ReqList p l \<Rightarrow> ReqList p (clamp_limit l) | _ \<Rightarrow> r)"

definition request_op :: "sf_request \<Rightarrow> u8" where
  "request_op r =
     (case r of ReqPut _ _ \<Rightarrow> OP_PUT | ReqGet _ \<Rightarrow> OP_GET | ReqDelete _ \<Rightarrow> OP_DEL
      | ReqList _ _ \<Rightarrow> OP_LIST | ReqSync \<Rightarrow> OP_SYNC | ReqReopen \<Rightarrow> OP_REOPEN)"

lemma key_len_rt: "length k \<le> MAX_KEY_LEN \<Longrightarrow> unat (of_nat (length k) :: u16) = length k"
  by (simp add: unat_of_nat_len MAX_KEY_LEN_def)

lemma val_len_rt: "length v \<le> MAX_VALUE_SIZE \<Longrightarrow> unat (of_nat (length v) :: u32) = length v"
  by (simp add: unat_of_nat_len MAX_VALUE_SIZE_def)

lemma clamp_idem: "clamp_limit (clamp_limit l) = clamp_limit l"
  by (auto simp: clamp_limit_def MAX_LIST_LIMIT_def min_def)

lemma decode_put_bytes:
  assumes "k \<noteq> []" "length k \<le> MAX_KEY_LEN" "utf8_valid k" "length v \<le> MAX_VALUE_SIZE"
  shows "decode_put_payload (to_le 2 (of_nat (length k) :: u16) @ to_le 4 (of_nat (length v) :: u32) @ k @ v) = Ok (ReqPut k v)"
proof -
  have "6 + length k + length v \<le> usize_max" using assms by (simp add: MAX_KEY_LEN_def MAX_VALUE_SIZE_def usize_max_def)
  then show ?thesis
    using assms key_len_rt[of k] val_len_rt[of v]
    by (simp add: decode_put_payload_def Let_def slice_simps slice_def saturating_add_def)
qed

lemma decode_key_bytes:
  assumes "k \<noteq> []" "length k \<le> MAX_KEY_LEN" "utf8_valid k"
  shows "decode_key_only_payload (to_le 2 (of_nat (length k) :: u16) @ k) = Ok k"
proof -
  have "2 + length k \<le> usize_max" using assms by (simp add: MAX_KEY_LEN_def usize_max_def)
  then show ?thesis
    using assms key_len_rt[of k] by (simp add: decode_key_only_payload_def Let_def slice_simps slice_def saturating_add_def)
qed

lemma decode_list_bytes:
  assumes "length p \<le> MAX_KEY_LEN" "utf8_valid p"
  shows "decode_list_payload (to_le 2 (of_nat (length p) :: u16) @ to_le 2 l @ p) = Ok (ReqList p (clamp_limit l))"
proof -
  have "4 + length p \<le> usize_max" using assms by (simp add: MAX_KEY_LEN_def usize_max_def)
  then show ?thesis
    using assms key_len_rt[of p] by (simp add: decode_list_payload_def Let_def slice_simps slice_def saturating_add_def)
qed

lemma encode_request_bytes:
  assumes "request_ok r"
  shows "\<exists>payload. encode_request r = Ok (request_header (request_op r) @ payload) \<and>
    decode_op (request_op r) payload = Ok (request_norm r)"
proof (cases r)
  case (ReqPut k v)
  then show ?thesis using assms decode_put_bytes[of k v]
    by (simp add: encode_request_def request_ok_def encode_put_request_def request_op_def decode_op_def request_norm_def)
next
  case (ReqGet k)
  then show ?thesis using assms decode_key_bytes[of k]
    by (simp add: encode_request_def request_ok_def encode_key_only_request_def request_op_def decode_op_def request_norm_def op_defs)
next
  case (ReqDelete k)
  then show ?thesis using assms decode_key_bytes[of k]
    by (simp add: encode_request_def request_ok_def encode_key_only_request_def request_op_def decode_op_def request_norm_def op_defs)
next
  case (ReqList p l)
  then show ?thesis using assms decode_list_bytes[of p "clamp_limit l"]
    by (simp add: encode_request_def request_ok_def encode_list_request_def request_op_def decode_op_def request_norm_def op_defs clamp_idem)
qed (simp_all add: encode_request_def encode_sync_request_def encode_reopen_request_def request_op_def decode_op_def
      request_norm_def op_defs)

lemma decode_v1: "decode_request_with_nonce (request_header op @ payload) =
    (case decode_op op payload of Inl e \<Rightarrow> Err e | Inr r \<Rightarrow> Ok (r, None))"
  by (simp add: decode_request_with_nonce_def request_header_def PROTO_MAGIC_def slice_def)

lemma upgrade_bytes: "upgrade_v2 n (request_header op @ payload) = Ok (PROTO_MAGIC @ PROTO_VERSION_V2 # op # to_le 8 n @ payload)"
  by (simp add: upgrade_v2_def request_header_def PROTO_MAGIC_def slice_def)

lemma decode_v2: "decode_request_with_nonce (PROTO_MAGIC @ PROTO_VERSION_V2 # op # to_le 8 n @ payload) =
    (case decode_op op payload of Inl e \<Rightarrow> Err e | Inr r \<Rightarrow> Ok (r, Some n))"
  by (simp add: decode_request_with_nonce_def PROTO_MAGIC_def slice_def PROTO_VERSION_def PROTO_VERSION_V2_def split: sum.split)

text \<open>Every request within the limits survives the wire: its encoding decodes to the request itself,
  without a nonce, and the frame to which the client upgrades it decodes to the same request with
  the client's nonce.  (The limit of a list request is clamped to 1..256 by both sides.)\<close>

theorem request_roundtrip:
  assumes "request_ok r"
  shows "\<exists>frame frame2. encode_request r = Ok frame \<and> decode_request_with_nonce frame = Ok (request_norm r, None) \<and>
    upgrade_v2 n frame = Ok frame2 \<and> decode_request_with_nonce frame2 = Ok (request_norm r, Some n)"
proof -
  obtain payload where "encode_request r = Ok (request_header (request_op r) @ payload)"
    "decode_op (request_op r) payload = Ok (request_norm r)" using encode_request_bytes[OF assms] by blast
  then show ?thesis by (simp add: decode_v1 upgrade_bytes decode_v2)
qed

theorem request_roundtrip_witness:
  "\<exists>frame frame2. encode_request (ReqPut (ascii ''/state/a'') [1, 2]) = Ok frame \<and>
    decode_request_with_nonce frame = Ok (request_norm (ReqPut (ascii ''/state/a'') [1, 2]), None) \<and>
    upgrade_v2 9 frame = Ok frame2 \<and> decode_request_with_nonce frame2 = Ok (request_norm (ReqPut (ascii ''/state/a'') [1, 2]), Some 9)"
proof (rule request_roundtrip)
  have "utf8_valid (ascii ''/state/a'')" by code_simp
  then show "request_ok (ReqPut (ascii ''/state/a'') [1, 2])"
    by (simp add: request_ok_def ascii_def MAX_KEY_LEN_def MAX_VALUE_SIZE_def)
qed

subsection \<open>Round trips of responses\<close>

text \<open>What every decoder reads from a response, with \<open>pos\<close> the first byte behind the header.\<close>

lemma response_fields:
  fixes op st nonce rest
  defines "f \<equiv> response_header op st nonce @ rest" and "pos \<equiv> (case nonce of None \<Rightarrow> 5 | Some _ \<Rightarrow> 13)"
  shows "length f = pos + length rest \<and> length (response_header op st nonce) = pos \<and> slice 0 2 f = PROTO_MAGIC \<and>
    f ! 2 = (case nonce of None \<Rightarrow> PROTO_VERSION | Some _ \<Rightarrow> PROTO_VERSION_V2) \<and> f ! 3 = op OR 0x80 \<and> f ! 4 = st \<and>
    slice (pos + a) (pos + b) f = slice a b rest"
  by (auto simp: f_def pos_def response_header_def PROTO_MAGIC_def slice_def split: option.split)

lemma versions: "PROTO_VERSION \<noteq> PROTO_VERSION_V2"
  by (simp add: PROTO_VERSION_def PROTO_VERSION_V2_def)

lemma decode_status_encode: "decode_status_response op (encode_status_response_with_nonce op st nonce) = Ok st"
  using response_fields[where op = op and st = st and nonce = nonce and rest = "[]"]
  by (cases nonce) (simp_all add: decode_status_response_def encode_status_response_with_nonce_def versions)

lemma decode_get_encode:
  assumes "length v \<le> MAX_VALUE_SIZE"
  shows "decode_get_response (encode_get_response_with_nonce st v nonce) = (if st = STATUS_OK then Ok v else Err (error_from_status st))"
proof -
  let ?rest = "to_le 4 (of_nat (length v) :: u32) @ v"
  define F where "F = response_header OP_GET st nonce @ ?rest"
  note f = response_fields[where op = OP_GET and st = st and nonce = nonce and rest = ?rest and a = 0 and b = 4, folded F_def]
    response_fields[where op = OP_GET and st = st and nonce = nonce and rest = ?rest and a = 4 and b = "4 + length v", folded F_def]
  have "encode_get_response_with_nonce st v nonce = F" by (simp add: encode_get_response_with_nonce_def F_def)
  moreover have "slice 0 4 ?rest = to_le 4 (of_nat (length v) :: u32)" "slice 4 (4 + length v) ?rest = v"
    by (simp_all add: slice_def)
  ultimately show ?thesis
    using f val_len_rt[OF assms] assms
    by (cases nonce) (simp_all add: decode_get_response_def decode_value_def Let_def versions versions[symmetric])
qed

definition key_bytes :: "u8 list \<Rightarrow> u8 list" where
  "key_bytes k = to_le 2 (of_nat (length k) :: u16) @ k"

text \<open>The list response holds the keys up to the first one that does not fit.\<close>

lemma push_keys_prefix:
  "\<forall>k \<in> set keys. length k \<le> MAX_KEY_LEN \<Longrightarrow> push_keys mx keys out (of_nat c) = (out', c') \<Longrightarrow> c < 0xFFFF \<Longrightarrow>
     \<exists>m \<le> length keys. out' = out @ concat (map key_bytes (take m keys)) \<and> c' = of_nat (c + m) \<and> c + m \<le> 0xFFFF \<and>
       (length (out @ concat (map key_bytes keys)) \<le> mx \<and> c + length keys \<le> 0xFFFF \<longrightarrow> m = length keys)"
proof (induction keys arbitrary: out c)
  case (Cons k ks)
  have c: "(of_nat c :: u16) \<noteq> 0xFFFF" "(of_nat (c + 1) :: u16) = 0xFFFF \<longleftrightarrow> c + 1 = 0xFFFF"
    using Cons.prems(3) unat_of_nat_len[of c, where 'a = 16] unat_of_nat_len[of "c + 1", where 'a = 16]
    by (simp_all add: word_unat_eq_iff del: of_nat_add of_nat_Suc)
  show ?case
  proof (cases "mx < saturating_add (length out) (saturating_add 2 (length k))")
    case True
    then have "out' = out" "c' = of_nat c" using Cons.prems(1,2) by auto
    moreover have "\<not> length (out @ concat (map key_bytes (k # ks))) \<le> mx"
      using True by (auto simp: saturating_add_def key_bytes_def)
    ultimately show ?thesis using Cons.prems(3) by (intro exI[of _ 0]) simp
  next
    case fits: False
    show ?thesis
    proof (cases "c + 1 = 0xFFFF")
      case True
      then have "out' = out @ key_bytes k" "c' = of_nat (c + 1)"
        using Cons.prems(1,2) c fits by (auto simp: Let_def key_bytes_def add.commute)
      then show ?thesis using True by (intro exI[of _ 1]) simp
    next
      case False
      then have "push_keys mx ks (out @ key_bytes k) (of_nat (c + 1)) = (out', c')"
        using Cons.prems(1,2) c fits by (simp add: Let_def key_bytes_def add.commute)
      from Cons.IH[OF _ this] obtain m where
        "m \<le> length ks" "out' = (out @ key_bytes k) @ concat (map key_bytes (take m ks))" "c' = of_nat (c + 1 + m)" "c + 1 + m \<le> 0xFFFF"
        "length ((out @ key_bytes k) @ concat (map key_bytes ks)) \<le> mx \<and> c + 1 + length ks \<le> 0xFFFF \<longrightarrow> m = length ks"
        using Cons.prems(1,3) False by auto
      then show ?thesis by (intro exI[of _ "m + 1"]) auto
    qed
  qed
qed auto

lemma decode_keys_bytes:
  "\<forall>k \<in> set ks. length k \<le> MAX_KEY_LEN \<and> utf8_valid k \<Longrightarrow>
     decode_keys (length ks) (length pre) (pre @ concat (map key_bytes ks) @ rest) = Ok ks"
proof (induction ks arbitrary: pre)
  case (Cons k ks)
  have "decode_keys (length ks) (length (pre @ key_bytes k)) ((pre @ key_bytes k) @ concat (map key_bytes ks) @ rest) = Ok ks"
    by (rule Cons.IH) (use Cons.prems in simp)
  then show ?case
    using Cons.prems key_len_rt[of k] by (simp add: key_bytes_def[of k] Let_def slice_simps slice_def add.assoc)
qed simp

lemma decode_list_encode:
  assumes keys: "\<forall>k \<in> set keys. length k \<le> MAX_KEY_LEN \<and> utf8_valid k"
  shows "\<exists>m \<le> length keys. decode_list_response (encode_list_response_with_nonce STATUS_OK keys mx nonce) = Ok (take m keys) \<and>
    ((case nonce of None \<Rightarrow> 7 | Some _ \<Rightarrow> 15) + length (concat (map key_bytes keys)) \<le> mx \<and> length keys \<le> 0xFFFF \<longrightarrow> m = length keys)"
proof -
  let ?h = "response_header OP_LIST STATUS_OK nonce"
  obtain out c where run: "push_keys mx keys (?h @ to_le 2 (0 :: u16)) (of_nat 0) = (out, c)" by force
  obtain m where m: "m \<le> length keys" "out = (?h @ to_le 2 (0 :: u16)) @ concat (map key_bytes (take m keys))" "c = of_nat m" "m \<le> 0xFFFF"
    "length ((?h @ to_le 2 (0 :: u16)) @ concat (map key_bytes keys)) \<le> mx \<and> length keys \<le> 0xFFFF \<longrightarrow> m = length keys"
    using push_keys_prefix[OF _ run] keys by auto
  let ?rest = "to_le 2 c @ concat (map key_bytes (take m keys))"
  have enc: "encode_list_response_with_nonce STATUS_OK keys mx nonce = ?h @ ?rest"
    using run m(2) by (simp add: encode_list_response_with_nonce_def Let_def copy_at_def)
  have c: "unat c = length (take m keys)" using m(1,3,4) by (simp add: unat_of_nat_len min_def)
  have ks: "\<forall>k \<in> set (take m keys). length k \<le> MAX_KEY_LEN \<and> utf8_valid k" using keys by (meson in_set_takeD)
  have dec: "decode_keys (length (take m keys)) (length (?h @ to_le 2 c)) (?h @ ?rest) = Ok (take m keys)"
    using decode_keys_bytes[OF ks, of "?h @ to_le 2 c" "[]"] by simp
  define F where "F = ?h @ ?rest"
  note f = response_fields[where op = OP_LIST and st = STATUS_OK and nonce = nonce and rest = ?rest and a = 0 and b = 2, folded F_def]
  have "slice 0 2 ?rest = to_le 2 c" by (simp add: slice_def)
  then have "decode_list_response F = Ok (take m keys)"
    using f dec[folded F_def] c
    by (cases nonce) (simp_all add: decode_list_response_def Let_def versions versions[symmetric])
  then have "decode_list_response (encode_list_response_with_nonce STATUS_OK keys mx nonce) = Ok (take m keys)"
    unfolding enc F_def .
  then show ?thesis using m f by (cases nonce) auto
qed

end
