(* ===== verification/Statefs_Correct.thy ===== *)
theory Statefs_Correct
  imports Statefs
begin

text \<open>
  Correctness of the journaled store.  The block-by-block replay is equivalent to parsing the whole
  image (\<open>replay_flat\<close>); appending record by record keeps the image equal to the journal of the
  records followed by zeros (\<open>holds_journal\<close>), so opening the device gives the engine back.  Both are
  proved for every lawful block device and used for the in-memory device and its partitions.
\<close>

subsection \<open>Parsing\<close>

lemma magic_iff: "4 \<le> length bs \<Longrightarrow> from_le (take 4 bs) = JOURNAL_MAGIC \<longleftrightarrow> take 4 bs = to_le 4 JOURNAL_MAGIC"
  using from_le_inj[of "take 4 bs" JOURNAL_MAGIC] by (simp add: min_def)

lemma header_append [simp]:
  assumes "15 \<le> length bs"
  shows "take 4 (bs @ t) = take 4 bs" "(bs @ t) ! 4 = bs ! 4" "rec_key_len (bs @ t) = rec_key_len bs"
    "rec_value_len (bs @ t) = rec_value_len bs"
  using assms by (simp_all add: rec_key_len_def rec_value_len_def nth_append)

text \<open>Once a record is complete, what follows does not matter.\<close>

lemma parse_record_append:
  assumes "RECORD_HEADER_SIZE \<le> length bs" "\<not> incomplete_record bs"
  shows "parse_record (bs @ t) = parse_record bs"
proof (cases "from_le (take 4 bs) = JOURNAL_MAGIC")
  case True
  have l: "15 \<le> length bs" using assms(1) by (simp add: RECORD_HEADER_SIZE_def)
  have "15 + rec_key_len bs + rec_value_len bs \<le> length bs"
    using assms True l by (auto simp: incomplete_record_def magic_iff RECORD_HEADER_SIZE_def)
  then show ?thesis
    using l by (simp add: parse_record_def Let_def RECORD_HEADER_SIZE_def split: option.split)
qed (use assms in \<open>simp add: parse_record_def RECORD_HEADER_SIZE_def\<close>)

lemma parse_incomplete:
  assumes "incomplete_record bs"
  shows "parse_record bs \<noteq> Ok (Some x)"
  using assms by (auto simp: parse_record_def incomplete_record_def Let_def split: option.splits)

lemma parse_short: "length bs < RECORD_HEADER_SIZE \<Longrightarrow> parse_record bs = Ok None"
  by (simp add: parse_record_def)

lemma parse_error: "parse_record bs = Err e \<Longrightarrow> e = SfCorrupted"
  by (auto simp: parse_record_def Let_def split: if_splits option.splits)

subsection \<open>The reference replay\<close>

text \<open>Parsing records from the front of the whole image until one does not parse.\<close>

function replay_flat :: "u8 list \<Rightarrow> kv_map \<Rightarrow> usize \<Rightarrow> usize \<Rightarrow> kv_map \<times> usize \<times> usize" where
  "replay_flat bs kv pos n =
     (if MAX_REPLAY_RECORDS \<le> n then (kv, pos, n)
      else case parse_record bs of
        Inr (Some (r, c)) \<Rightarrow> replay_flat (drop c bs) (apply_record r kv) (saturating_add pos c) (n + 1)
      | _ \<Rightarrow> (kv, pos, n))"
  by pat_completeness auto
termination
  by (relation "measure (\<lambda>(bs, kv, pos, n). length bs)") (auto dest!: parse_record_consumes)

declare replay_flat.simps [simp del]

lemma replay_flat_stop:
  "(\<And>x. parse_record bs \<noteq> Ok (Some x)) \<Longrightarrow> replay_flat bs kv pos n = (kv, pos, n)"
  by (auto simp: replay_flat.simps split: sum.split option.split)

lemma replay_flat_limit: "MAX_REPLAY_RECORDS \<le> n \<Longrightarrow> replay_flat bs kv pos n = (kv, pos, n)"
  by (simp add: replay_flat.simps)

abbreviation flat_of :: "replay_state \<Rightarrow> u8 list \<Rightarrow> kv_map \<times> usize \<times> usize" where
  "flat_of st t \<equiv> replay_flat (rp_buf st @ t) (rp_kv st) (rp_file_pos st) (rp_count st)"

abbreviation outcome_of :: "replay_state \<Rightarrow> kv_map \<times> usize \<times> usize" where
  "outcome_of st \<equiv> (rp_kv st, rp_file_pos st, rp_count st)"

lemma replay_buf_flat:
  "replay_buf st = (r, st') \<Longrightarrow> \<not> rp_done st \<Longrightarrow>
     r = Ok () \<and> (\<forall>t. flat_of st t = flat_of st' t) \<and>
     (if rp_done st' then \<forall>t. flat_of st' t = outcome_of st' else flat_of st' [] = outcome_of st')"
proof (induction st arbitrary: r st' rule: replay_buf.induct)
  case (1 st)
  let ?b = "rp_buf st"
  consider (stop) "?b = [] \<or> MAX_REPLAY_RECORDS \<le> rp_count st \<or> length ?b < RECORD_HEADER_SIZE \<or> incomplete_record ?b"
    | (go) "?b \<noteq> []" "\<not> MAX_REPLAY_RECORDS \<le> rp_count st" "\<not> length ?b < RECORD_HEADER_SIZE" "\<not> incomplete_record ?b"
    by blast
  then show ?case
  proof cases
    case stop
    then have eq: "r = Ok ()" "st' = st" using 1(2) by (auto simp: replay_buf.simps[of st] split: if_splits)
    have "flat_of st [] = outcome_of st"
    proof (cases "MAX_REPLAY_RECORDS \<le> rp_count st")
      case False
      with stop have "parse_record ?b \<noteq> Ok (Some x)" for x
        using parse_incomplete[of ?b x] by (auto simp: parse_short RECORD_HEADER_SIZE_def)
      then show ?thesis by (simp add: replay_flat_stop)
    qed (simp add: replay_flat_limit)
    then show ?thesis using eq 1(3) by simp
  next
    case go
    then have app: "parse_record (?b @ t) = parse_record ?b" for t by (intro parse_record_append) auto
    show ?thesis
    proof (cases "\<exists>rec c. parse_record ?b = Ok (Some (rec, c))")
      case True
      then obtain rec c where p: "parse_record ?b = Ok (Some (rec, c))" by blast
      let ?st = "st\<lparr>rp_buf := drop c ?b, rp_kv := apply_record rec (rp_kv st),
         rp_file_pos := saturating_add (rp_file_pos st) c, rp_count := rp_count st + 1\<rparr>"
      have run: "replay_buf ?st = (r, st')" using 1(2) go p by (simp add: replay_buf.simps[of st])
      have "c \<le> length ?b" using parse_record_consumes[OF p] by simp
      then have "flat_of st t = flat_of ?st t" for t
        using go app[of t] p by (simp add: replay_flat.simps[of "?b @ t"])
      then show ?thesis using 1(1)[OF _ _ _ p refl refl, of r st'] go run 1(3) by (simp split: if_splits)
    next
      case False
      then have eq: "r = Ok ()" "st' = st\<lparr>rp_done := True\<rparr>"
        using 1(2) go parse_error[of ?b] by (auto simp: replay_buf.simps[of st] split: sum.splits option.splits)
      have "flat_of st t = outcome_of st" for t
        by (rule replay_flat_stop) (use False app[of t] in auto)
      then show ?thesis using eq by simp
    qed
  qed
qed

definition replay_result :: "kv_map \<times> usize \<times> usize \<Rightarrow> 'd journal_engine \<Rightarrow> (statefs_error + unit) \<times> 'd journal_engine" where
  "replay_result x e =
     (case x of (kv, pos, n) \<Rightarrow>
        if MAX_REPLAY_RECORDS \<le> n then (Err SfReplayLimitExceeded, e\<lparr>je_kv := kv, je_record_count := n\<rparr>)
        else (Ok (), e\<lparr>je_kv := kv, je_record_count := n, je_write_pos := pos\<rparr>))"

context block_store
begin

lemma replay_blocks_flat:
  assumes d: "dev_ok d"
  shows "replay_blocks B d is blk st = (r, st') \<Longrightarrow> \<forall>i \<in> set is. i < block_count B d \<Longrightarrow>
    length blk = block_size B d \<Longrightarrow> \<not> rp_done st \<Longrightarrow> flat_of st [] = outcome_of st \<Longrightarrow>
    r = Ok () \<and> outcome_of st' = flat_of st (concat (map ((!) (contents d)) is))"
proof (induction "is" arbitrary: blk st)
  case (Cons i "is")
  let ?st = "st\<lparr>rp_buf := rp_buf st @ contents d ! i\<rparr>"
  obtain r1 st1 where run: "replay_buf ?st = (r1, st1)" by force
  have rd: "read_block B d i blk = Ok (contents d ! i)" using read[OF d] Cons.prems by simp
  note inner = replay_buf_flat[OF run]
  have r1: "r1 = Ok ()" and eq: "flat_of st (contents d ! i @ t) = flat_of st1 t" for t
    using inner Cons.prems(4) by auto
  show ?case
  proof (cases "rp_done st1")
    case True
    then show ?thesis using inner Cons.prems r1 run rd eq by simp
  next
    case False
    have "replay_blocks B d is (contents d ! i) st1 = (r, st')" using Cons.prems(1) run rd r1 False by simp
    from Cons.IH[OF this] show ?thesis
      using inner Cons.prems False eq block_length[OF d] by simp
  qed
qed simp

lemma replay_flat_eq:
  assumes d: "dev_ok (je_device e)"
  shows "replay B e = replay_result (replay_flat (concat (contents (je_device e))) (je_kv e) 0 (je_record_count e)) e"
proof -
  let ?st = "\<lparr>rp_buf = [], rp_kv = je_kv e, rp_file_pos = 0, rp_count = je_record_count e, rp_done = False\<rparr>"
  let ?d = "je_device e"
  obtain r st where run: "replay_blocks B ?d [0..<block_count B ?d] (replicate (block_size B ?d) 0) ?st = (r, st)" by force
  have "flat_of ?st [] = outcome_of ?st" by (rule replay_flat_stop) (simp add: parse_short RECORD_HEADER_SIZE_def)
  then have "r = Ok () \<and> outcome_of st = flat_of ?st (concat (map ((!) (contents ?d)) [0..<block_count B ?d]))"
    by (intro replay_blocks_flat[OF d run]) simp_all
  moreover have "map ((!) (contents ?d)) [0..<block_count B ?d] = contents ?d"
    using shape[OF d] map_nth[of "contents ?d"] by simp
  ultimately have r: "r = Ok ()" and out: "replay_flat (concat (contents ?d)) (je_kv e) 0 (je_record_count e) = outcome_of st"
    by simp_all
  show ?thesis using run by (simp add: out r replay_def replay_result_def Let_def)
qed

end

subsection \<open>Journals\<close>

definition record_ok :: "journal_record \<Rightarrow> bool" where
  "record_ok r \<longleftrightarrow> length (jr_key r) \<le> MAX_KEY_LEN \<and> length (jr_value r) \<le> MAX_VALUE_SIZE \<and> utf8_valid (jr_key r)"

definition record_bytes :: "journal_record \<Rightarrow> u8 list" where
  "record_bytes r = serialize_record (jr_op r) (jr_key r) (jr_value r)"

definition journal :: "journal_record list \<Rightarrow> u8 list" where
  "journal rs = concat (map record_bytes rs)"

lemma length_record_body [simp]: "length (record_body p k v) = 11 + length k + length v"
  by (simp add: record_body_def)

lemma length_serialize [simp]: "length (serialize_record p k v) = 15 + length k + length v"
  by (simp add: serialize_record_def Let_def)

lemma journal_op_roundtrip [simp]: "journal_op_from_u8 (journal_op_byte p) = Some p"
  by (cases p) (simp_all add: journal_op_from_u8_def journal_op_byte_def)

lemma body_fields:
  fixes p k v t
  defines "bs \<equiv> record_body p k v @ t"
  assumes "length k < 2 ^ 16" "length v < 2 ^ 32"
  shows "from_le (take 4 bs) = JOURNAL_MAGIC" "bs ! 4 = journal_op_byte p" "rec_key_len bs = length k"
    "rec_value_len bs = length v" "take (11 + length k + length v) bs = record_body p k v"
    "slice 11 (11 + length k) bs = k" "slice (11 + length k) (11 + length k + length v) bs = v"
  using assms(2,3) unfolding bs_def
  by (simp_all add: record_body_def rec_key_len_def rec_value_len_def slice_simps slice_def nth_append
      unat_of_nat_len take_Cons' drop_Cons')

lemma parse_serialize:
  assumes "record_ok r"
  shows "parse_record (record_bytes r @ t) = Ok (Some (r, length (record_bytes r)))"
proof -
  let ?k = "jr_key r" and ?v = "jr_value r" and ?b = "record_body (jr_op r) (jr_key r) (jr_value r)"
  let ?bs = "?b @ to_le 4 (crc32c ?b) @ t"
  have bounds: "length ?k \<le> 255" "length ?v \<le> 65536" "utf8_valid ?k"
    using assms by (simp_all add: record_ok_def MAX_KEY_LEN_def MAX_VALUE_SIZE_def)
  then have small: "length ?k < 2 ^ 16" "length ?v < 2 ^ 32" by simp_all
  note f = body_fields[OF small, of "jr_op r" "to_le 4 (crc32c ?b) @ t"]
    and magic = body_fields(1)[OF small, of "jr_op r" "[]", simplified]
  have crc: "slice (11 + length ?k + length ?v) (11 + length ?k + length ?v + 4) ?bs = to_le 4 (crc32c ?b)"
    by (simp add: slice_simps slice_def)
  show ?thesis
    using bounds by (simp add: parse_record_def record_bytes_def serialize_record_def Let_def f magic crc
        RECORD_HEADER_SIZE_def MAX_KEY_LEN_def MAX_VALUE_SIZE_def)
qed

lemma length_record_bytes: "length (record_bytes r) = 15 + length (jr_key r) + length (jr_value r)"
  by (simp add: record_bytes_def)

lemma journal_simps [simp]:
  "journal [] = []" "journal (r # rs) = record_bytes r @ journal rs" "journal (rs @ rs') = journal rs @ journal rs'"
  by (simp_all add: journal_def)

lemma replay_journal:
  "\<forall>r \<in> set rs. record_ok r \<Longrightarrow> n + length rs \<le> MAX_REPLAY_RECORDS \<Longrightarrow> pos + length (journal rs) \<le> usize_max \<Longrightarrow>
     replay_flat (journal rs @ t) kv pos n = replay_flat t (fold apply_record rs kv) (pos + length (journal rs)) (n + length rs)"
proof (induction rs arbitrary: kv pos n)
  case (Cons r rs)
  then show ?case
    using parse_serialize[of r "journal rs @ t"]
    by (simp add: replay_flat.simps[of "record_bytes r @ journal rs @ t"] saturating_add_def min_def add.assoc)
qed simp

lemma parse_zeros: "parse_record (replicate k 0) = Ok None"
proof -
  have "from_le [0, 0, 0, 0] \<noteq> JOURNAL_MAGIC" by (simp add: JOURNAL_MAGIC_def)
  moreover have "replicate 4 (0 :: u8) = [0, 0, 0, 0]" by (simp add: eval_nat_numeral)
  ultimately show ?thesis by (simp add: parse_record_def RECORD_HEADER_SIZE_def min_def)
qed

lemma replay_zeros: "replay_flat (replicate k 0) kv pos n = (kv, pos, n)"
  by (rule replay_flat_stop) (simp add: parse_zeros)

subsection \<open>Appending\<close>

text \<open>How many bytes of the record are on the device once the blocks before \<open>k\<close> are written.\<close>

definition written :: "usize \<Rightarrow> usize \<Rightarrow> u8 list \<Rightarrow> nat \<Rightarrow> nat" where
  "written bs wp rec k = min (k * bs - wp) (length rec)"

lemma written_mono: "k \<le> m \<Longrightarrow> written bs wp rec k \<le> written bs wp rec m"
  using mult_le_mono1[of k m bs] by (simp add: written_def min_le_iff_disj diff_le_mono)

context block_store
begin

text \<open>One block of the loop overwrites its part of the image.\<close>

lemma append_step:
  fixes d k bs wp rec
  defines "X \<equiv> concat (contents d)" and "off \<equiv> min (k * bs - wp) (length rec)"
  defines "ws \<equiv> wp - k * bs" and "we \<equiv> (if wp + length rec < k * bs + bs then wp + length rec - k * bs else bs)"
  defines "b \<equiv> copy_at ws (slice off (off + (we - ws)) rec) (contents d ! k)"
  assumes d: "dev_ok d" and bs: "bs = block_size B d" and k: "k < block_count B d"
    and wp: "wp < k * bs + bs" and e: "k * bs < wp + length rec"
  shows "off + (we - ws) = min ((k + 1) * bs - wp) (length rec)" "length b = bs"
    "concat ((contents d)[k := b]) = copy_at (wp + off) (slice off (off + (we - ws)) rec) X"
proof -
  let ?r = "slice off (off + (we - ws)) rec"
  show off': "off + (we - ws) = min ((k + 1) * bs - wp) (length rec)"
    using wp e by (auto simp: off_def we_def ws_def min_def)
  then have "off + (we - ws) \<le> length rec" by simp
  then have len: "length ?r = we - ws" by simp
  have ws: "ws \<le> we" "we \<le> bs" using wp e by (auto simp: we_def ws_def)
  have blk: "\<forall>b \<in> set (contents d). length b = bs" "k < length (contents d)" using shape[OF d] bs k by auto
  then have ck: "contents d ! k = slice (k * bs) (k * bs + bs) X" unfolding X_def by (rule nth_block)
  have lX: "k * bs + bs \<le> length X"
  proof -
    have "(k + 1) * bs \<le> length (contents d) * bs" using blk(2) by (intro mult_right_mono) auto
    then show ?thesis using length_blocks[OF blk(1)] by (simp add: X_def)
  qed
  show b: "length b = bs" using blk len ws by (simp add: b_def nth_mem)
  have "concat ((contents d)[k := b]) = copy_at (k * bs) b X" unfolding X_def by (rule concat_update[OF blk(1) b blk(2)])
  also have "\<dots> = copy_at (k * bs + ws) ?r X"
    unfolding b_def ck using ws len lX by (intro copy_at_window) simp_all
  also have "k * bs + ws = wp + off" using e by (auto simp: ws_def off_def)
  finally show "concat ((contents d)[k := b]) = copy_at (wp + off) ?r X" .
qed

lemma append_one:
  assumes d: "dev_ok d" and bs: "bs = block_size B d" and buf: "length buf = bs" and k: "k < block_count B d" "k < m"
    and wp: "wp < k * bs + bs" and e: "k * bs < wp + length rec"
  shows "\<exists>b d1. append_blocks B bs wp rec [k..<m] buf (written bs wp rec k) d =
      append_blocks B bs wp rec [k + 1..<m] b (written bs wp rec (k + 1)) d1 \<and> length b = bs \<and> dev_ok d1 \<and>
      block_size B d1 = bs \<and> block_count B d1 = block_count B d \<and>
      concat (contents d1) = copy_at (wp + written bs wp rec k) (slice (written bs wp rec k) (written bs wp rec (k + 1)) rec) (concat (contents d))"
proof -
  define off where "off = written bs wp rec k"
  define ws where "ws = wp - k * bs"
  define we where "we = (if wp + length rec < k * bs + bs then wp + length rec - k * bs else bs)"
  define b where "b = copy_at ws (slice off (off + (we - ws)) rec) (contents d ! k)"
  define d1 where "d1 = snd (write_block B k b d)"
  note st = append_step[OF d bs k(1) wp e, folded written_def, folded off_def ws_def we_def, folded b_def]
  have w: "is_ok (fst (write_block B k b d))" and d1: "dev_ok d1" "contents d1 = (contents d)[k := b]"
      "block_size B d1 = bs" "block_count B d1 = block_count B d"
    using write_result[OF d, of b k] write_effect[OF d, of b k] write_count[OF d, of b k] st(2) bs k
    by (simp_all add: d1_def)
  have wr: "write_block B k b d = (Ok (), d1)"
    using w by (cases "write_block B k b d"; cases "fst (write_block B k b d)") (simp_all add: d1_def)
  have rd: "read_block B d k buf = Ok (contents d ! k)" using read[OF d k(1)] bs buf by simp
  have "append_blocks B bs wp rec [k..<m] buf off d = append_blocks B bs wp rec [k + 1..<m] b (off + (we - ws)) d1"
    unfolding upt_conv_Cons[OF k(2)] append_blocks.simps rd Let_def saturating_sub_def sum.case
      ws_def[symmetric] we_def[symmetric] b_def[symmetric] wr prod.case Suc_eq_plus1 by (rule refl)
  then show ?thesis using st d1 unfolding off_def[symmetric] by (intro exI[of _ b] exI[of _ d1]) simp
qed

text \<open>The blocks from \<open>k\<close> up to \<open>m\<close> of the loop; \<open>m\<close> may stop short of the last one.\<close>

lemma append_blocks_flat:
  assumes "dev_ok d" "bs = block_size B d" "length buf = bs" "m \<le> block_count B d" "k \<le> m"
    "wp < k * bs + bs" "(m - 1) * bs < wp + length rec" "wp + length rec \<le> length (concat (contents d))"
  shows "\<exists>d'. append_blocks B bs wp rec [k..<m] buf (written bs wp rec k) d = (Ok (), d') \<and> dev_ok d' \<and>
    concat (contents d') = copy_at (wp + written bs wp rec k) (slice (written bs wp rec k) (written bs wp rec m) rec) (concat (contents d))"
  using assms
proof (induction "m - k" arbitrary: k d buf)
  case 0
  then show ?case by (simp add: slice_def)
next
  case (Suc n)
  have km: "k < m" using Suc.hyps(2) by simp
  have "k * bs \<le> (m - 1) * bs" using km by (intro mult_right_mono) auto
  then have e: "k * bs < wp + length rec" using Suc.prems(7) by (rule le_less_trans)
  have kc: "k < block_count B d" using km Suc.prems(4) by simp
  let ?a = "written bs wp rec k" and ?b = "written bs wp rec (k + 1)" and ?c = "written bs wp rec m"
  have mono: "?a \<le> ?b" "?b \<le> ?c" "?c \<le> length rec" "wp + ?a + (?c - ?a) \<le> wp + length rec"
    using km by (simp_all add: written_mono) (simp_all add: written_def)
  obtain b d1 where st: "append_blocks B bs wp rec [k..<m] buf ?a d = append_blocks B bs wp rec [k + 1..<m] b ?b d1"
    and d1: "length b = bs" "dev_ok d1" "block_size B d1 = bs" "block_count B d1 = block_count B d"
      "concat (contents d1) = copy_at (wp + ?a) (slice ?a ?b rec) (concat (contents d))"
    using append_one[OF Suc.prems(1-3) kc km Suc.prems(6) e] by blast
  have len: "length (concat (contents d1)) = length (concat (contents d))"
    unfolding d1(5) using mono Suc.prems(8) by simp
  have "\<exists>d'. append_blocks B bs wp rec [k + 1..<m] b ?b d1 = (Ok (), d') \<and> dev_ok d' \<and>
      concat (contents d') = copy_at (wp + ?b) (slice ?b ?c rec) (concat (contents d1))"
    by (rule Suc.hyps(1)) (use Suc.hyps(2) Suc.prems km d1 len in simp_all)
  moreover have "copy_at (wp + ?b) (slice ?b ?c rec) (concat (contents d1)) = copy_at (wp + ?a) (slice ?a ?c rec) (concat (contents d))"
    using copy_at_append[of "wp + ?a" "slice ?a ?b rec" "slice ?b ?c rec" "concat (contents d)"] mono Suc.prems(8)
    by (simp add: d1(5) slice_concat)
  ultimately show ?case using st by simp
qed

lemma append_record_effect:
  assumes d: "dev_ok (je_device e)" and app: "append_record B p key val e = (r, e')"
  shows "(r = Err SfIoError \<and> e' = e \<and> length (concat (contents (je_device e))) < je_write_pos e + length (serialize_record p key val)) \<or>
    (\<exists>d'. r = Ok () \<and> dev_ok d' \<and>
       e' = e\<lparr>je_device := d', je_write_pos := je_write_pos e + length (serialize_record p key val),
              je_record_count := je_record_count e + 1\<rparr> \<and>
       je_write_pos e + length (serialize_record p key val) \<le> length (concat (contents (je_device e))) \<and>
       concat (contents d') = copy_at (je_write_pos e) (serialize_record p key val) (concat (contents (je_device e))))"
proof (cases "block_count B (je_device e) < div_ceil (je_write_pos e + length (serialize_record p key val)) (block_size B (je_device e))")
  case True
  then have "block_count B (je_device e) * block_size B (je_device e) < je_write_pos e + length (serialize_record p key val)"
    using less_div_ceil[OF size_pos[OF d]] by simp
  then show ?thesis
    using app True shape[OF d] by (simp add: append_record_def Let_def length_blocks[of _ "block_size B (je_device e)"])
next
  case False
  let ?d = "je_device e" and ?rec = "serialize_record p key val"
  let ?bs = "block_size B ?d" and ?wp = "je_write_pos e"
  let ?m = "div_ceil (?wp + length ?rec) ?bs"
  have bs: "0 < ?bs" by (rule size_pos[OF d])
  note m = div_ceil_bounds[OF bs, of "?wp + length ?rec"]
  have pos: "0 < ?wp + length ?rec" by simp
  have first: "?wp div ?bs * ?bs \<le> ?wp" "?wp < ?wp div ?bs * ?bs + ?bs"
    using bs dividend_less_div_times[of ?bs ?wp] by (simp_all add: algebra_simps)
  have "0 < length ?rec" by simp
  then have "?wp div ?bs * ?bs < ?m * ?bs" using first(1) m(1) by linarith
  then have le: "?wp div ?bs \<le> ?m" by simp
  have w: "written ?bs ?wp ?rec (?wp div ?bs) = 0" "written ?bs ?wp ?rec ?m = length ?rec"
    using first(1) m(1) by (simp_all add: written_def)
  have "?m * ?bs \<le> length (concat (contents ?d))"
    using shape[OF d] False by (subst length_blocks[of _ ?bs]) auto
  then have fit: "?wp + length ?rec \<le> length (concat (contents ?d))" using m(1) by simp
  have "\<exists>d'. append_blocks B ?bs ?wp ?rec [?wp div ?bs..<?m] (replicate ?bs 0) (written ?bs ?wp ?rec (?wp div ?bs)) ?d = (Ok (), d') \<and>
      dev_ok d' \<and> concat (contents d') = copy_at (?wp + written ?bs ?wp ?rec (?wp div ?bs))
        (slice (written ?bs ?wp ?rec (?wp div ?bs)) (written ?bs ?wp ?rec ?m) ?rec) (concat (contents ?d))"
    by (rule append_blocks_flat) (use d le first m pos False fit in simp_all)
  then obtain d' where run: "append_blocks B ?bs ?wp ?rec [?wp div ?bs..<?m] (replicate ?bs 0) 0 ?d = (Ok (), d')"
    and d': "dev_ok d'" "concat (contents d') = copy_at ?wp ?rec (concat (contents ?d))"
    unfolding w by (auto simp: slice_all)
  show ?thesis using app run d' fit False by (auto simp: append_record_def Let_def)
qed

end

subsection \<open>Histories\<close>

text \<open>The mutating operations of the engine, and the engine after a sequence of them with the
  results they returned.\<close>

datatype sf_op = SfPut "u8 list" "u8 list" | SfDelete "u8 list" | SfSync | SfReopen

definition sf_step :: "'d block_device \<Rightarrow> sf_op \<Rightarrow> 'd journal_engine \<Rightarrow> (statefs_error + unit) \<times> 'd journal_engine" where
  "sf_step B op e =
     (case op of
        SfPut k v \<Rightarrow> sf_put B k v e
      | SfDelete k \<Rightarrow> sf_delete B k e
      | SfSync \<Rightarrow> sf_sync B e
      | SfReopen \<Rightarrow> sf_reopen B e)"

primrec sf_run :: "'d block_device \<Rightarrow> sf_op list \<Rightarrow> 'd journal_engine \<Rightarrow> (statefs_error + unit) list \<times> 'd journal_engine" where
  "sf_run B [] e = ([], e)"
| "sf_run B (op # ops) e =
     (case sf_step B op e of (r, e1) \<Rightarrow> case sf_run B ops e1 of (rs, e2) \<Rightarrow> (r # rs, e2))"

text \<open>Keys are Rust strings.\<close>

definition op_str :: "sf_op \<Rightarrow> bool" where
  "op_str op = (case op of SfPut k v \<Rightarrow> utf8_valid k | SfDelete k \<Rightarrow> utf8_valid k | _ \<Rightarrow> True)"

text \<open>The abstract store: a map that an operation changes exactly when it succeeded.\<close>

definition op_spec :: "sf_op \<times> (statefs_error + unit) \<Rightarrow> (u8 list \<rightharpoonup> u8 list) \<Rightarrow> (u8 list \<rightharpoonup> u8 list)" where
  "op_spec x m =
     (if \<not> is_ok (snd x) then m
      else case fst x of SfPut k v \<Rightarrow> m(k \<mapsto> v) | SfDelete k \<Rightarrow> m(k := None) | _ \<Rightarrow> m)"

text \<open>The engine and the image \<open>X\<close> of its device agree with the journal \<open>rs\<close>; the rest of the image
  is zero.\<close>

definition holds_journal :: "journal_record list \<Rightarrow> u8 list \<Rightarrow> 'd journal_engine \<Rightarrow> bool" where
  "holds_journal rs X e \<longleftrightarrow>
     (\<forall>r \<in> set rs. record_ok r) \<and> length (journal rs) \<le> length X \<and> length X \<le> usize_max \<and>
     X = journal rs @ replicate (length X - length (journal rs)) 0 \<and>
     je_kv e = fold apply_record rs [] \<and> je_write_pos e = length (journal rs) \<and> je_record_count e = length rs"

lemma holds_journal_replay:
  assumes "holds_journal rs X e" "length rs < MAX_REPLAY_RECORDS"
  shows "replay_flat X [] 0 0 = (je_kv e, je_write_pos e, je_record_count e)"
proof -
  have X: "X = journal rs @ replicate (length X - length (journal rs)) 0" and le: "length (journal rs) \<le> usize_max"
    and ok: "\<forall>r \<in> set rs. record_ok r"
    using assms by (auto simp: holds_journal_def)
  have "replay_flat X [] 0 0 = (fold apply_record rs [], length (journal rs), length rs)"
    by (subst X) (use replay_journal[OF ok, of 0 0] le assms in \<open>simp add: replay_zeros\<close>)
  then show ?thesis using assms by (simp add: holds_journal_def)
qed

lemma holds_journal_append:
  assumes h: "holds_journal rs X e" and r: "record_ok r" and fit: "length (journal rs) + length (record_bytes r) \<le> length X"
  shows "holds_journal (rs @ [r]) (copy_at (je_write_pos e) (record_bytes r) X)
    (e\<lparr>je_device := d, je_write_pos := je_write_pos e + length (record_bytes r),
       je_record_count := je_record_count e + 1, je_kv := apply_record r (je_kv e)\<rparr>)"
proof -
  have X: "X = journal rs @ replicate (length X - length (journal rs)) 0" and wp: "je_write_pos e = length (journal rs)"
    using h by (auto simp: holds_journal_def)
  have "copy_at (je_write_pos e) (record_bytes r) X =
      journal rs @ record_bytes r @ replicate (length X - (length (journal rs) + length (record_bytes r))) 0"
    unfolding copy_at_def wp using fit by (subst (1 2) X) simp
  then show ?thesis using h r fit by (simp add: holds_journal_def)
qed

lemma validate_key_len: "validate_key k = Ok u \<Longrightarrow> length k \<le> MAX_KEY_LEN"
  by (simp add: validate_key_def split: if_splits)

lemma apply_record_simps [simp]:
  "apply_record \<lparr>jr_op = JPut, jr_key = k, jr_value = v\<rparr> kv = bt_insert k v kv"
  "apply_record \<lparr>jr_op = JDelete, jr_key = k, jr_value = v\<rparr> kv = bt_remove k kv"
  by (simp_all add: apply_record_def)

definition image_of :: "('d \<Rightarrow> u8 list list) \<Rightarrow> 'd journal_engine \<Rightarrow> u8 list" where
  "image_of contents e = concat (contents (je_device e))"

context block_store
begin

lemma open_flat:
  assumes "dev_ok d"
  shows "open_engine B d =
    (case replay_flat (concat (contents d)) [] 0 0 of (kv, pos, n) \<Rightarrow>
       if MAX_REPLAY_RECORDS \<le> n then Err SfReplayLimitExceeded
       else Ok \<lparr>je_device = d, je_kv = kv, je_write_pos = pos, je_record_count = n\<rparr>)"
  using replay_flat_eq[of "\<lparr>je_device = d, je_kv = [], je_write_pos = 0, je_record_count = 0\<rparr>"] assms
  by (simp add: open_engine_def replay_result_def split: prod.split)

lemma holds_open:
  assumes "dev_ok (je_device e)" "holds_journal rs (image_of contents e) e" "length rs < MAX_REPLAY_RECORDS"
  shows "open_engine B (je_device e) = Ok e"
  using assms holds_journal_replay[OF assms(2,3)] by (simp add: open_flat image_of_def holds_journal_def)

lemma append_journal:
  assumes d: "dev_ok (je_device e)" and h: "holds_journal rs (image_of contents e) e"
    and r: "record_ok \<lparr>jr_op = p, jr_key = k, jr_value = v\<rparr>" and app: "append_record B p k v e = (x, e1)"
  shows "x = Err SfIoError \<and> e1 = e \<or>
    x = Ok () \<and> je_kv e1 = je_kv e \<and> dev_ok (je_device e1) \<and> length (image_of contents e1) = length (image_of contents e) \<and>
      holds_journal (rs @ [\<lparr>jr_op = p, jr_key = k, jr_value = v\<rparr>]) (image_of contents e1)
        (e1\<lparr>je_kv := apply_record \<lparr>jr_op = p, jr_key = k, jr_value = v\<rparr> (je_kv e1)\<rparr>)"
proof -
  have b: "serialize_record p k v = record_bytes \<lparr>jr_op = p, jr_key = k, jr_value = v\<rparr>" (is "_ = record_bytes ?r")
    by (simp add: record_bytes_def)
  have wp: "je_write_pos e = length (journal rs)" using h by (simp add: holds_journal_def)
  from append_record_effect[OF d app] show ?thesis
  proof
    assume "\<exists>d'. x = Ok () \<and> dev_ok d' \<and>
       e1 = e\<lparr>je_device := d', je_write_pos := je_write_pos e + length (serialize_record p k v),
              je_record_count := je_record_count e + 1\<rparr> \<and>
       je_write_pos e + length (serialize_record p k v) \<le> length (concat (contents (je_device e))) \<and>
       concat (contents d') = copy_at (je_write_pos e) (serialize_record p k v) (concat (contents (je_device e)))"
    then obtain d' where d': "x = Ok ()" "dev_ok d'"
      "e1 = e\<lparr>je_device := d', je_write_pos := je_write_pos e + length (record_bytes ?r), je_record_count := je_record_count e + 1\<rparr>"
      "length (journal rs) + length (record_bytes ?r) \<le> length (image_of contents e)"
      "concat (contents d') = copy_at (je_write_pos e) (record_bytes ?r) (image_of contents e)"
      unfolding b wp image_of_def by blast
    show ?thesis
      using holds_journal_append[OF h r d'(4), of d'] d' wp by (simp add: image_of_def)
  qed simp
qed

lemma put_journal:
  assumes d: "dev_ok (je_device e)" and h: "holds_journal rs (image_of contents e) e" and k: "utf8_valid k"
    and run: "sf_put B k v e = (r, e')"
  shows "\<exists>rs'. length rs' \<le> Suc (length rs) \<and> dev_ok (je_device e') \<and> length (image_of contents e') = length (image_of contents e) \<and> holds_journal rs' (image_of contents e') e' \<and>
    bt_get (je_kv e') = op_spec (SfPut k v, r) (bt_get (je_kv e))"
proof (cases "is_ok (validate_key k) \<and> length v \<le> MAX_VALUE_SIZE")
  case True
  let ?r = "\<lparr>jr_op = JPut, jr_key = k, jr_value = v\<rparr>"
  obtain u where u: "validate_key k = Ok u" using True by (cases "validate_key k") auto
  then have r: "record_ok ?r" using validate_key_len k True by (simp add: record_ok_def)
  obtain x e1 where app: "append_record B JPut k v e = (x, e1)" by force
  have "(r, e') = (case x of Inl y \<Rightarrow> (Err y, e1) | Inr _ \<Rightarrow> (Ok (), e1\<lparr>je_kv := bt_insert k v (je_kv e1)\<rparr>))"
    using run u app True by (auto simp: sf_put_def split: sum.splits)
  then show ?thesis
    using append_journal[OF d h r app] d h
    by (cases x) (force simp: op_spec_def image_of_def intro: exI[of _ rs] exI[of _ "rs @ [?r]"])+
next
  case False
  then have "e' = e \<and> \<not> is_ok r" using run by (auto simp: sf_put_def is_ok_def split: sum.splits if_splits)
  then show ?thesis using d h by (auto simp: op_spec_def intro!: exI[of _ rs])
qed

lemma delete_journal:
  assumes d: "dev_ok (je_device e)" and h: "holds_journal rs (image_of contents e) e" and k: "utf8_valid k"
    and run: "sf_delete B k e = (r, e')"
  shows "\<exists>rs'. length rs' \<le> Suc (length rs) \<and> dev_ok (je_device e') \<and> length (image_of contents e') = length (image_of contents e) \<and> holds_journal rs' (image_of contents e') e' \<and>
    bt_get (je_kv e') = op_spec (SfDelete k, r) (bt_get (je_kv e))"
proof (cases "is_ok (validate_key k) \<and> bt_contains (je_kv e) k")
  case True
  let ?r = "\<lparr>jr_op = JDelete, jr_key = k, jr_value = []\<rparr>"
  obtain u where u: "validate_key k = Ok u" using True by (cases "validate_key k") auto
  then have r: "record_ok ?r" using validate_key_len k by (simp add: record_ok_def)
  obtain x e1 where app: "append_record B JDelete k [] e = (x, e1)" by force
  have "(r, e') = (case x of Inl y \<Rightarrow> (Err y, e1) | Inr _ \<Rightarrow> (Ok (), e1\<lparr>je_kv := bt_remove k (je_kv e1)\<rparr>))"
    using run u app True by (auto simp: sf_delete_def split: sum.splits)
  then show ?thesis
    using append_journal[OF d h r app] d h
    by (cases x) (force simp: op_spec_def image_of_def intro: exI[of _ rs] exI[of _ "rs @ [?r]"])+
next
  case False
  then have "e' = e \<and> \<not> is_ok r" using run by (auto simp: sf_delete_def is_ok_def split: sum.splits if_splits)
  then show ?thesis using d h by (auto simp: op_spec_def intro!: exI[of _ rs])
qed

lemma reopen_same:
  assumes d: "dev_ok (je_device e)" and h: "holds_journal rs (image_of contents e) e" and n: "length rs < MAX_REPLAY_RECORDS"
  shows "sf_reopen B e = (Ok (), e)"
proof -
  have "MAX_REPLAY_RECORDS > je_record_count e" using h n by (simp add: holds_journal_def)
  then show ?thesis
    using replay_flat_eq[of "e\<lparr>je_kv := [], je_write_pos := 0, je_record_count := 0\<rparr>"] d holds_journal_replay[OF h n]
    by (simp add: sf_reopen_def image_of_def replay_result_def)
qed

lemma step_journal:
  assumes d: "dev_ok (je_device e)" and h: "holds_journal rs (image_of contents e) e" and n: "length rs < MAX_REPLAY_RECORDS"
    and s: "op_str op" and run: "sf_step B op e = (r, e')"
  shows "\<exists>rs'. length rs' \<le> Suc (length rs) \<and> dev_ok (je_device e') \<and> length (image_of contents e') = length (image_of contents e) \<and> holds_journal rs' (image_of contents e') e' \<and>
    bt_get (je_kv e') = op_spec (op, r) (bt_get (je_kv e))"
proof (cases op)
  case (SfPut k v)
  then show ?thesis using put_journal[OF d h _, of k v r e'] s run by (simp add: op_str_def sf_step_def)
next
  case (SfDelete k)
  then show ?thesis using delete_journal[OF d h _, of k r e'] s run by (simp add: op_str_def sf_step_def)
next
  case SfSync
  then have "e' = e\<lparr>je_device := snd (sync_device B (je_device e))\<rparr>"
    using run by (auto simp: sf_step_def sf_sync_def split: prod.splits)
  then show ?thesis
    using sync_effect[OF d] h SfSync by (auto simp: image_of_def holds_journal_def op_spec_def intro!: exI[of _ rs])
next
  case SfReopen
  then have "e' = e" using run reopen_same[OF d h n] by (simp add: sf_step_def)
  then show ?thesis using d h SfReopen by (auto simp: op_spec_def intro!: exI[of _ rs])
qed

lemma run_journal:
  "dev_ok (je_device e) \<Longrightarrow> holds_journal rs (image_of contents e) e \<Longrightarrow> length rs + length ops < MAX_REPLAY_RECORDS \<Longrightarrow>
    list_all op_str ops \<Longrightarrow> sf_run B ops e = (xs, e') \<Longrightarrow>
    \<exists>rs'. length rs' \<le> length rs + length ops \<and> dev_ok (je_device e') \<and> length (image_of contents e') = length (image_of contents e) \<and> holds_journal rs' (image_of contents e') e' \<and>
      bt_get (je_kv e') = fold op_spec (zip ops xs) (bt_get (je_kv e))"
proof (induction ops arbitrary: e rs xs)
  case (Cons op ops)
  obtain r e1 ys where st: "sf_step B op e = (r, e1)" and rest: "sf_run B ops e1 = (ys, e')" and xs: "xs = r # ys"
    using Cons.prems(5) by (auto split: prod.splits)
  have "length rs < MAX_REPLAY_RECORDS" "op_str op" using Cons.prems by simp_all
  from step_journal[OF Cons.prems(1,2) this st] obtain rs1 where
    rs1: "length rs1 \<le> Suc (length rs)" "dev_ok (je_device e1)" "holds_journal rs1 (image_of contents e1) e1"
      "bt_get (je_kv e1) = op_spec (op, r) (bt_get (je_kv e))" "length (image_of contents e1) = length (image_of contents e)" by blast
  have "length rs1 + length ops < MAX_REPLAY_RECORDS" "list_all op_str ops" using Cons.prems rs1(1) by simp_all
  from Cons.IH[OF rs1(2,3) this rest] obtain rs' where
    "length rs' \<le> length rs1 + length ops" "dev_ok (je_device e')" "length (image_of contents e') = length (image_of contents e1)"
    "holds_journal rs' (image_of contents e') e'" "bt_get (je_kv e') = fold op_spec (zip ops ys) (bt_get (je_kv e1))" by blast
  then show ?case using rs1 by (intro exI[of _ rs']) (simp add: xs)
qed auto

text \<open>From a zeroed device on, the engine and what a fresh open finds agree.\<close>

lemma fresh_journal:
  assumes d: "dev_ok d" and z: "concat (contents d) = replicate n 0" and le: "n \<le> usize_max"
  shows "open_engine B d = Ok \<lparr>je_device = d, je_kv = [], je_write_pos = 0, je_record_count = 0\<rparr>"
    "holds_journal [] (concat (contents d)) \<lparr>je_device = d, je_kv = [], je_write_pos = 0, je_record_count = 0\<rparr>"
  using open_flat[OF d] le by (simp_all add: z replay_zeros MAX_REPLAY_RECORDS_def holds_journal_def)

lemma run_durable:
  assumes d: "dev_ok d" and z: "concat (contents d) = replicate n 0" and le: "n \<le> usize_max"
    and op: "open_engine B d = Ok e" and run: "sf_run B ops e = (xs, e')"
    and ops: "list_all op_str ops" "length ops < MAX_REPLAY_RECORDS"
  shows "open_engine B (je_device e') = Ok e'" "bt_get (je_kv e') = fold op_spec (zip ops xs) Map.empty"
proof -
  note f = fresh_journal[OF d z le]
  have e: "e = \<lparr>je_device = d, je_kv = [], je_write_pos = 0, je_record_count = 0\<rparr>" using f op by simp
  then have "dev_ok (je_device e)" "holds_journal [] (image_of contents e) e" "length [] + length ops < MAX_REPLAY_RECORDS"
    using d f ops by (simp_all add: image_of_def)
  from run_journal[OF this ops(1) run] obtain rs where
    rs: "length rs \<le> length ops" "dev_ok (je_device e')" "holds_journal rs (image_of contents e') e'"
      "bt_get (je_kv e') = fold op_spec (zip ops xs) (bt_get (je_kv e))" by auto
  moreover have "length rs < MAX_REPLAY_RECORDS" using rs(1) ops(2) by simp
  ultimately show "open_engine B (je_device e') = Ok e'" "bt_get (je_kv e') = fold op_spec (zip ops xs) Map.empty"
    using holds_open[OF rs(2,3)] by (simp_all add: e)
qed

lemma append_outcome:
  assumes d: "dev_ok (je_device e)"
  shows "fst (append_record B p k v e) =
    (if je_write_pos e + 15 + length k + length v \<le> length (image_of contents e) then Ok () else Err SfIoError)"
  using append_record_effect[OF d, of p k v "fst (append_record B p k v e)" "snd (append_record B p k v e)"]
  by (auto simp: image_of_def add.assoc)

text \<open>What a put returns, and what can be read after it.\<close>

lemma put_outcome:
  assumes d: "dev_ok (je_device e)" and run: "sf_put B k v e = (r, e')"
  shows "r = (if \<not> is_ok (validate_key k) then validate_key k
      else if MAX_VALUE_SIZE < length v then Err SfValueTooLarge
      else if length (image_of contents e) < je_write_pos e + 15 + length k + length v then Err SfIoError else Ok ())"
    "\<not> is_ok r \<Longrightarrow> e' = e" "is_ok r \<Longrightarrow> sf_get e' k = Ok v" "k' \<noteq> k \<Longrightarrow> sf_get e' k' = sf_get e k'"
proof -
  obtain x e1 where app: "append_record B JPut k v e = (x, e1)" by force
  note out = append_outcome[OF d, of JPut k v] and eff = append_record_effect[OF d app]
  show "r = (if \<not> is_ok (validate_key k) then validate_key k
      else if MAX_VALUE_SIZE < length v then Err SfValueTooLarge
      else if length (image_of contents e) < je_write_pos e + 15 + length k + length v then Err SfIoError else Ok ())"
    using run app out by (auto simp: sf_put_def is_ok_def split: sum.splits if_splits)
  show "e' = e" if "\<not> is_ok r"
    using run app eff that by (auto simp: sf_put_def is_ok_def split: sum.splits if_splits)
  show "sf_get e' k = Ok v" if "is_ok r"
    using run app eff that by (auto simp: sf_put_def sf_get_def is_ok_def split: sum.splits if_splits)
  show "sf_get e' k' = sf_get e k'" if "k' \<noteq> k"
    using run app eff that by (auto simp: sf_put_def sf_get_def is_ok_def split: sum.splits if_splits)
qed

end

subsection \<open>What replay can produce\<close>

definition kv_entry_ok :: "u8 list \<times> u8 list \<Rightarrow> bool" where
  "kv_entry_ok x \<longleftrightarrow> length (fst x) \<le> MAX_KEY_LEN \<and> length (snd x) \<le> MAX_VALUE_SIZE \<and> utf8_valid (fst x)"

lemma parse_record_ok: "parse_record bs = Ok (Some (r, c)) \<Longrightarrow> record_ok r"
  by (auto simp: parse_record_def Let_def record_ok_def RECORD_HEADER_SIZE_def split: if_splits option.splits)

lemma apply_record_kv:
  assumes "record_ok r" "bt_wf kv" "list_all kv_entry_ok kv"
  shows "bt_wf (apply_record r kv)" "list_all kv_entry_ok (apply_record r kv)"
proof -
  have set_insert: "set (bt_insert k v kv) \<subseteq> insert (k, v) (set kv)" for k v
    by (induction kv) (auto split: if_splits)
  show "bt_wf (apply_record r kv)" using assms by (simp add: apply_record_def split: journal_op.split)
  show "list_all kv_entry_ok (apply_record r kv)"
    using assms set_insert[of "jr_key r" "jr_value r"]
    by (auto simp: apply_record_def list_all_iff bt_remove_def kv_entry_ok_def record_ok_def split: journal_op.split)
qed

lemma replay_flat_type:
  "replay_flat bs kv pos n = (kv', pos', n') \<Longrightarrow> bt_wf kv \<Longrightarrow> list_all kv_entry_ok kv \<Longrightarrow>
     bt_wf kv' \<and> list_all kv_entry_ok kv' \<and> pos' \<le> pos + length bs"
proof (induction bs kv pos n rule: replay_flat.induct)
  case (1 bs kv pos n)
  show ?case
  proof (cases "\<not> MAX_REPLAY_RECORDS \<le> n \<and> (\<exists>r c. parse_record bs = Ok (Some (r, c)))")
    case True
    then obtain r c where n: "\<not> MAX_REPLAY_RECORDS \<le> n" and p: "parse_record bs = Ok (Some (r, c))" by blast
    have "replay_flat (drop c bs) (apply_record r kv) (saturating_add pos c) (n + 1) = (kv', pos', n')"
      using 1(2) n p by (simp add: replay_flat.simps[of bs])
    from 1(1)[OF n p refl refl this] show ?thesis
      using apply_record_kv[OF parse_record_ok[OF p] 1(3,4)] parse_record_consumes[OF p]
      by (auto simp: saturating_add_def)
  next
    case False
    then have "replay_flat bs kv pos n = (kv, pos, n)"
      using replay_flat_limit[of n] replay_flat_stop[of bs] by (cases "MAX_REPLAY_RECORDS \<le> n") auto
    then show ?thesis using 1 by simp
  qed
qed

subsection \<open>The store on the in-memory device\<close>

text \<open>C20: The block-wise replay is the reference parse of the whole device: for every content of the
  in-memory device, reading block by block into a growing buffer and consuming the complete records
  yields the map, write position and record count that parsing the concatenated blocks from the
  front yields, also when records cross block boundaries.\<close>

theorem replay_streaming_equiv:
  assumes "mem_ok (je_device e)"
  shows "replay mem_device e =
    replay_result (replay_flat (concat (mb_blocks (je_device e))) (je_kv e) 0 (je_record_count e)) e"
  by (rule mb.replay_flat_eq[OF assms])

theorem replay_streaming_equiv_witness:
  "replay mem_device \<lparr>je_device = \<lparr>mb_block_size = 2, mb_blocks = [[1, 2], [3, 4]]\<rparr>, je_kv = [], je_write_pos = 7, je_record_count = 0\<rparr> =
    (Ok (), \<lparr>je_device = \<lparr>mb_block_size = 2, mb_blocks = [[1, 2], [3, 4]]\<rparr>, je_kv = [], je_write_pos = 0, je_record_count = 0\<rparr>)"
proof -
  have "mem_ok (je_device \<lparr>je_device = \<lparr>mb_block_size = 2, mb_blocks = [[1, 2], [3, 4]]\<rparr>, je_kv = [], je_write_pos = 7, je_record_count = 0\<rparr>)"
    by (simp add: mem_ok_def)
  from replay_streaming_equiv[OF this] show ?thesis
    by (simp add: replay_result_def replay_flat.simps[of "[1, 2, 3, 4]"] parse_record_def RECORD_HEADER_SIZE_def MAX_REPLAY_RECORDS_def)
qed

lemma mem_device_new_zero: "concat (mb_blocks (mem_device_new bs n)) = replicate (n * bs) 0"
  by (induction n) (simp_all add: mem_device_new_def replicate_add)

lemma mem_sync [simp]: "sync_device mem_device d = (Ok (), d)"
  by (simp add: mem_device_def)

text \<open>C8: The store is durable and implements a map.  From a new in-memory device on, after any sequence
  of puts, deletes, syncs and reopens (fewer than the replay limit of 100000, with keys that are
  strings), opening the device again yields exactly the engine that wrote it: map, write position and
  record count.  Its map is the empty one changed by the operations that returned \<open>Ok\<close>, in order.\<close>

theorem statefs_durable:
  assumes "0 < bs" "n * bs \<le> usize_max" "open_engine mem_device (mem_device_new bs n) = Ok e"
    and "sf_run mem_device ops e = (xs, e')" "list_all op_str ops" "length ops < MAX_REPLAY_RECORDS"
  shows "open_engine mem_device (je_device e') = Ok e' \<and>
    bt_get (je_kv e') = fold op_spec (zip ops xs) Map.empty"
  using mb.run_durable[OF mem_device_new_ok[OF assms(1)] mem_device_new_zero assms(2-6)] by simp

theorem statefs_durable_witness:
  "case sf_run mem_device [SfPut (ascii ''/state/a'') [7], SfSync] \<lparr>je_device = mem_device_new 8 8, je_kv = [], je_write_pos = 0, je_record_count = 0\<rparr> of
     (xs, e') \<Rightarrow> xs = [Ok (), Ok ()] \<and> open_engine mem_device (je_device e') = Ok e' \<and> sf_get e' (ascii ''/state/a'') = Ok [7]"
proof -
  let ?e = "\<lparr>je_device = mem_device_new 8 8, je_kv = [], je_write_pos = 0, je_record_count = 0\<rparr>"
  let ?k = "ascii ''/state/a''"
  have k: "validate_key ?k = Ok ()" "utf8_valid ?k" by code_simp+
  obtain r e1 where put: "sf_put mem_device ?k [7] ?e = (r, e1)" by force
  have d: "mem_ok (je_device ?e)" by (simp add: mem_device_new_ok)
  have "length (image_of mb_blocks ?e) = 64" by (simp add: image_of_def mem_device_new_zero)
  then have r: "r = Ok ()" using mb.put_outcome(1)[OF d put] k by (simp add: MAX_VALUE_SIZE_def ascii_def)
  have run: "sf_run mem_device [SfPut ?k [7], SfSync] ?e = ([Ok (), Ok ()], e1)"
    by (simp add: sf_step_def put r sf_sync_def)
  have "open_engine mem_device (mem_device_new 8 8) = Ok ?e"
    by (rule mb.fresh_journal(1)[OF _ mem_device_new_zero]) (simp_all add: mem_device_new_ok usize_max_def)
  then have "open_engine mem_device (je_device e1) = Ok e1 \<and> bt_get (je_kv e1) = fold op_spec (zip [SfPut ?k [7], SfSync] [Ok (), Ok ()]) Map.empty"
    by (intro statefs_durable[OF _ _ _ run]) (simp_all add: usize_max_def op_str_def k MAX_REPLAY_RECORDS_def)
  then show ?thesis using k unfolding run by (simp add: op_spec_def sf_get_def)
qed

text \<open>C32: Whatever bytes an in-memory device holds, opening it fails only by the replay limit, and an
  engine it yields is well-formed: the keys are ordered, distinct UTF-8 strings of at most 255 bytes,
  the values have at most 65536 bytes, the write position is inside the device and the record count
  is below the limit.\<close>

theorem open_engine_type:
  assumes "mem_ok d"
  shows "case open_engine mem_device d of
      Inl x \<Rightarrow> x = SfReplayLimitExceeded
    | Inr e \<Rightarrow> je_device e = d \<and> bt_wf (je_kv e) \<and> list_all kv_entry_ok (je_kv e) \<and>
        je_write_pos e \<le> length (mb_blocks d) * mb_block_size d \<and> je_record_count e < MAX_REPLAY_RECORDS"
proof -
  obtain kv pos n where r: "replay_flat (concat (mb_blocks d)) [] 0 0 = (kv, pos, n)" by (metis prod_cases3)
  have "length (concat (mb_blocks d)) = length (mb_blocks d) * mb_block_size d"
    using assms by (intro length_blocks) (simp add: mem_ok_def)
  then show ?thesis
    using replay_flat_type[OF r] mb.open_flat[OF assms] by (simp add: r)
qed

theorem open_engine_type_witness:
  "case open_engine mem_device (mem_device_new 4 4) of
      Inl x \<Rightarrow> x = SfReplayLimitExceeded
    | Inr e \<Rightarrow> je_device e = mem_device_new 4 4 \<and> bt_wf (je_kv e) \<and> list_all kv_entry_ok (je_kv e) \<and>
        je_write_pos e \<le> length (mb_blocks (mem_device_new 4 4)) * mb_block_size (mem_device_new 4 4) \<and>
        je_record_count e < MAX_REPLAY_RECORDS"
  by (rule open_engine_type) (simp add: mem_device_new_ok)

text \<open>C31: What a put on the in-memory device does.  It returns the error of the key check, else
  \<open>ValueTooLarge\<close> above 65536 bytes, else \<open>IoError\<close> when the record does not fit behind the write
  position, else \<open>Ok\<close>; an error leaves the whole engine, device included, as it was; after \<open>Ok\<close> the
  key reads back the value, and every other key reads what it read before.\<close>

theorem sf_put_correct:
  assumes "mem_ok (je_device e)" "sf_put mem_device k v e = (r, e')"
  shows "r = (if \<not> is_ok (validate_key k) then validate_key k
      else if MAX_VALUE_SIZE < length v then Err SfValueTooLarge
      else if length (concat (mb_blocks (je_device e))) < je_write_pos e + 15 + length k + length v then Err SfIoError
      else Ok ()) \<and>
    (if is_ok r then sf_get e' k = Ok v else e' = e) \<and> (k' \<noteq> k \<longrightarrow> sf_get e' k' = sf_get e k')"
  using mb.put_outcome[OF assms] by (simp add: image_of_def)

theorem sf_put_correct_witness:
  "case sf_put mem_device (ascii ''/state/a'') [7] \<lparr>je_device = mem_device_new 8 8, je_kv = [], je_write_pos = 0, je_record_count = 0\<rparr> of
     (r, e') \<Rightarrow> r = Ok () \<and> sf_get e' (ascii ''/state/a'') = Ok [7] \<and> sf_get e' (ascii ''/state/b'') = Err SfNotFound"
proof -
  let ?e = "\<lparr>je_device = mem_device_new 8 8, je_kv = [], je_write_pos = 0, je_record_count = 0\<rparr>"
  obtain r e' where put: "sf_put mem_device (ascii ''/state/a'') [7] ?e = (r, e')" by force
  have k: "validate_key (ascii ''/state/a'') = Ok ()" "validate_key (ascii ''/state/b'') = Ok ()" by code_simp+
  have d: "mem_ok (je_device ?e)" by (simp add: mem_device_new_ok)
  show ?thesis
    using sf_put_correct[OF d put, of "ascii ''/state/b''"] k unfolding put
    by (simp add: mem_device_new_zero MAX_VALUE_SIZE_def ascii_def sf_get_def split: if_splits)
qed

subsection \<open>The store in a partition\<close>

text \<open>Every operation reaches the device through \<open>write_block\<close> and \<open>sync\<close> only.\<close>

lemma append_blocks_keeps:
  assumes "\<And>i b d. P d \<Longrightarrow> P (snd (write_block B i b d))"
  shows "append_blocks B bs wp rec is buf off d = (r, d') \<Longrightarrow> P d \<Longrightarrow> P d'"
proof (induction "is" arbitrary: buf off d)
  case (Cons i "is")
  have w: "P d1" if "write_block B i b d = (x, d1)" for x b d1 using assms[of d i b] Cons.prems(2) that by simp
  show ?case using Cons.prems(1) w Cons.prems(2)
    by (auto simp: Let_def split: sum.splits prod.splits intro: Cons.IH)
qed simp

lemma sf_run_keeps:
  assumes w: "\<And>i b d. P d \<Longrightarrow> P (snd (write_block B i b d))" and s: "\<And>d. P d \<Longrightarrow> P (snd (sync_device B d))"
  shows "sf_run B ops e = (xs, e') \<Longrightarrow> P (je_device e) \<Longrightarrow> P (je_device e')"
proof (induction ops arbitrary: e xs)
  case (Cons op ops)
  have app: "P (je_device e')" if "append_record B p k v e = (r, e')" "P (je_device e)" for p k v r e e'
    using that append_blocks_keeps[of P B, OF w]
    by (auto simp: append_record_def Let_def split: if_splits prod.splits sum.splits)
  obtain r e1 where st: "sf_step B op e = (r, e1)" by force
  have "P (je_device e1)"
  proof (cases op)
    case SfSync
    then show ?thesis using st s[OF Cons.prems(2)] by (auto simp: sf_step_def sf_sync_def split: prod.splits)
  next
    case SfReopen
    then show ?thesis using st Cons.prems(2)
      by (auto simp: sf_step_def sf_reopen_def replay_def Let_def split: prod.splits sum.splits if_splits)
  qed (use st Cons.prems(2) app in \<open>auto simp: sf_step_def sf_put_def sf_delete_def split: prod.splits sum.splits if_splits\<close>)
  then show ?case using Cons.IH[of e1] Cons.prems(1) st by (auto split: prod.splits)
qed simp

definition outside_kept :: "partition \<Rightarrow> mem_block_device \<Rightarrow> mem_block_device \<Rightarrow> bool" where
  "outside_kept p d d' \<longleftrightarrow>
     mb_block_size d' = mb_block_size d \<and> length (mb_blocks d') = length (mb_blocks d) \<and>
     (\<forall>i < length (mb_blocks d). (i < first_lba p \<or> last_lba p < i) \<longrightarrow> mb_blocks d' ! i = mb_blocks d ! i)"

lemma open_engine_device: "open_engine B d = Ok e \<Longrightarrow> je_device e = d"
  by (auto simp: open_engine_def replay_def Let_def split: prod.splits sum.splits if_splits)

text \<open>C19: A store opened in a partition of an in-memory device stays inside it: after any sequence of
  operations, every block outside the partition holds what it held before, whatever the device
  contained.  If the partition was zeroed (and the operations are within the replay limit), the
  store in it is durable as on a device of its own.\<close>

theorem partition_store_confined:
  assumes "mem_ok d" "view_new mem_device d p = Ok v" "open_engine (view_device mem_device) v = Ok e"
    and "sf_run (view_device mem_device) ops e = (xs, e')"
  shows "outside_kept p d (pv_inner (je_device e')) \<and>
    (concat (view_contents mb_blocks v) = replicate n 0 \<and> n \<le> usize_max \<and> list_all op_str ops \<and> length ops < MAX_REPLAY_RECORDS \<longrightarrow>
       open_engine (view_device mem_device) (je_device e') = Ok e' \<and>
       bt_get (je_kv e') = fold op_spec (zip ops xs) Map.empty)"
proof -
  let ?P = "\<lambda>w. pv_first_lba w = first_lba p \<and> pv_blocks w = last_lba p - first_lba p + 1 \<and> outside_kept p d (pv_inner w)"
  have v: "v = \<lparr>pv_inner = d, pv_first_lba = first_lba p, pv_blocks = last_lba p - first_lba p + 1\<rparr>"
    and le: "first_lba p \<le> last_lba p"
    using assms(2) by (auto simp: view_new_def split: if_splits)
  have "?P (je_device e')"
  proof (rule sf_run_keeps[OF _ _ assms(4)])
    show "?P (snd (write_block (view_device mem_device) i b w))" if "?P w" for i b w
      using that le
      by (auto simp: view_device_def mem_device_def view_write_block_def mem_write_block_def outside_kept_def split: prod.splits)
    show "?P (snd (sync_device (view_device mem_device) w))" if "?P w" for w
      using that by (simp add: view_device_def view_sync_def)
    show "?P (je_device e)" using open_engine_device[OF assms(3)] v by (simp add: outside_kept_def)
  qed
  moreover have "view_ok mem_device mem_ok v" using assms(1,2) by (rule view_new_ok[rotated])
  ultimately show ?thesis using pv.run_durable[OF _ _ _ assms(3,4)] by blast
qed

theorem partition_store_confined_witness:
  "let d = \<lparr>mb_block_size = 4, mb_blocks = [[1, 2, 3, 4], [0, 0, 0, 0], [0, 0, 0, 0], [5, 6, 7, 8]]\<rparr>;
       p = \<lparr>type_guid = [], first_lba = 1, last_lba = 2, part_name = []\<rparr>;
       v = \<lparr>pv_inner = d, pv_first_lba = 1, pv_blocks = 2\<rparr>;
       e = \<lparr>je_device = v, je_kv = [], je_write_pos = 0, je_record_count = 0\<rparr>
   in outside_kept p d (pv_inner (je_device (snd (sf_run (view_device mem_device) [SfSync, SfReopen] e)))) \<and>
      open_engine (view_device mem_device) (je_device (snd (sf_run (view_device mem_device) [SfSync, SfReopen] e)))
        = Ok (snd (sf_run (view_device mem_device) [SfSync, SfReopen] e))"
proof -
  let ?d = "\<lparr>mb_block_size = 4, mb_blocks = [[1, 2, 3, 4], [0, 0, 0, 0], [0, 0, 0, 0], [5, 6, 7, 8]]\<rparr>"
  let ?p = "\<lparr>type_guid = [], first_lba = 1, last_lba = 2, part_name = []\<rparr>"
  let ?v = "\<lparr>pv_inner = ?d, pv_first_lba = 1, pv_blocks = 2\<rparr>"
  let ?e = "\<lparr>je_device = ?v, je_kv = [], je_write_pos = 0, je_record_count = 0\<rparr>"
  have d: "mem_ok ?d" by (simp add: mem_ok_def)
  have v: "view_new mem_device ?d ?p = Ok ?v" by (simp add: view_new_def mem_device_def)
  have z: "concat (view_contents mb_blocks ?v) = replicate 8 0" by (simp add: view_contents_def eval_nat_numeral)
  have e: "open_engine (view_device mem_device) ?v = Ok ?e"
    by (rule pv.fresh_journal(1)[OF _ z]) (use d in \<open>simp_all add: view_ok_def mem_device_def usize_max_def\<close>)
  obtain xs e' where run: "sf_run (view_device mem_device) [SfSync, SfReopen] ?e = (xs, e')" by force
  show ?thesis
    using partition_store_confined[OF d v e run, of 8] z unfolding Let_def run
    by (simp add: usize_max_def MAX_REPLAY_RECORDS_def op_str_def)
qed

subsection \<open>Power loss during an append\<close>

text \<open>The device when power is lost after \<open>j\<close> blocks of the append loop have been written.\<close>

definition crash_append :: "'d block_device \<Rightarrow> nat \<Rightarrow> journal_op \<Rightarrow> u8 list \<Rightarrow> u8 list \<Rightarrow> 'd journal_engine \<Rightarrow> 'd" where
  "crash_append B j p key val e =
     (let rec = serialize_record p key val; bs = block_size B (je_device e); wp = je_write_pos e in
      snd (append_blocks B bs wp rec (take j [wp div bs..<div_ceil (wp + length rec) bs]) (replicate bs 0) 0 (je_device e)))"

text \<open>How many bytes of the record are there after each block write: the places where it can tear.\<close>

definition tear_points :: "'d block_device \<Rightarrow> journal_op \<Rightarrow> u8 list \<Rightarrow> u8 list \<Rightarrow> 'd journal_engine \<Rightarrow> nat list" where
  "tear_points B p key val e =
     (let rec = serialize_record p key val; bs = block_size B (je_device e); wp = je_write_pos e in
      map (written bs wp rec) [wp div bs..<Suc (div_ceil (wp + length rec) bs)])"

text \<open>The checksum tells a record of which only the first \<open>t\<close> bytes were written, and zeros follow,
  from a record (unless the missing bytes are zero anyway).\<close>

definition tear_detected :: "u8 list \<Rightarrow> usize \<Rightarrow> nat \<Rightarrow> bool" where
  "tear_detected rec room t \<longleftrightarrow>
     drop t rec = replicate (length rec - t) 0 \<or>
     (case parse_record (take t rec @ replicate (room - t) 0) of Inr (Some _) \<Rightarrow> False | _ \<Rightarrow> True)"

lemma holds_journal_torn:
  assumes h: "holds_journal rs X e" and n: "length rs + 1 < MAX_REPLAY_RECORDS" and r: "record_ok r"
    and fit: "length (journal rs) + length (record_bytes r) \<le> length X" and t: "t \<le> length (record_bytes r)"
    and det: "tear_detected (record_bytes r) (length X - length (journal rs)) t"
  shows "replay_flat (copy_at (je_write_pos e) (take t (record_bytes r)) X) [] 0 0 \<in>
    {(je_kv e, je_write_pos e, je_record_count e),
     (apply_record r (je_kv e), je_write_pos e + length (record_bytes r), je_record_count e + 1)}"
proof -
  let ?b = "record_bytes r" and ?room = "length X - length (journal rs)"
  have X: "X = journal rs @ replicate ?room 0" and wp: "je_write_pos e = length (journal rs)"
    and le: "length (journal rs) \<le> usize_max" and ok: "\<forall>r \<in> set rs. record_ok r"
    and e: "je_kv e = fold apply_record rs []" "je_record_count e = length rs"
    using h by (auto simp: holds_journal_def)
  have img: "copy_at (je_write_pos e) y X = journal rs @ y @ replicate (?room - length y) 0" for y
    unfolding copy_at_def wp by (subst (1 2) X) simp
  show ?thesis
  proof (cases "drop t ?b = replicate (length ?b - t) 0")
    case True
    have "take t ?b @ replicate (?room - t) 0 = take t ?b @ drop t ?b @ replicate (?room - length ?b) 0"
      unfolding True using fit t by (simp flip: replicate_add)
    then have "copy_at (je_write_pos e) (take t ?b) X = copy_at (je_write_pos e) ?b X"
      using t by (simp add: img min_absorb2)
    then show ?thesis
      using holds_journal_replay[OF holds_journal_append[OF h r fit, of "je_device e"]] n by simp
  next
    case False
    then have "parse_record (take t ?b @ replicate (?room - t) 0) \<noteq> Ok (Some x)" for x
      using det by (auto simp: tear_detected_def)
    then show ?thesis
      using replay_journal[OF ok, of 0 0 "take t ?b @ replicate (?room - t) 0" "[]"] le n t
      unfolding img by (simp add: replay_flat_stop wp e min_absorb2)
  qed
qed

context block_store
begin

lemma crash_append_image:
  assumes d: "dev_ok (je_device e)" and fit: "je_write_pos e + length (serialize_record p k v) \<le> length (image_of contents e)"
  shows "\<exists>t \<in> set (tear_points B p k v e). t \<le> length (serialize_record p k v) \<and> dev_ok (crash_append B j p k v e) \<and>
    concat (contents (crash_append B j p k v e)) = copy_at (je_write_pos e) (take t (serialize_record p k v)) (image_of contents e)"
proof -
  let ?d = "je_device e" and ?rec = "serialize_record p k v"
  let ?bs = "block_size B ?d" and ?wp = "je_write_pos e"
  let ?k = "?wp div ?bs" and ?m = "div_ceil (?wp + length ?rec) ?bs"
  let ?j = "min (?k + j) ?m"
  have bs: "0 < ?bs" by (rule size_pos[OF d])
  have pos: "0 < ?wp + length ?rec" "0 < length ?rec" by simp_all
  have first: "?k * ?bs \<le> ?wp" "?wp < ?k * ?bs + ?bs"
    using bs dividend_less_div_times[of ?bs ?wp] by (simp_all add: algebra_simps)
  then have km: "?k < ?m" unfolding less_div_ceil[OF bs pos(1)] using pos by linarith
  have "length (image_of contents e) = block_count B ?d * ?bs"
    using shape[OF d] by (simp add: image_of_def length_blocks[of _ ?bs])
  then have "\<not> block_count B ?d < ?m" unfolding less_div_ceil[OF bs pos(1)] using fit by simp
  moreover have "?j - 1 < ?m" using km by simp
  then have "(?j - 1) * ?bs < ?wp + length ?rec" unfolding less_div_ceil[OF bs pos(1)] .
  ultimately have "\<exists>d'. append_blocks B ?bs ?wp ?rec [?k..<?j] (replicate ?bs 0) (written ?bs ?wp ?rec ?k) ?d = (Ok (), d') \<and> dev_ok d' \<and>
      concat (contents d') = copy_at (?wp + written ?bs ?wp ?rec ?k) (slice (written ?bs ?wp ?rec ?k) (written ?bs ?wp ?rec ?j) ?rec) (concat (contents ?d))"
    by (intro append_blocks_flat) (use d first km fit in \<open>simp_all add: image_of_def\<close>)
  moreover have "written ?bs ?wp ?rec ?k = 0" using first(1) by (simp add: written_def)
  moreover have "take j [?k..<?m] = [?k..<?j]" by (simp add: min_def take_upt)
  moreover have "written ?bs ?wp ?rec ?j \<le> length ?rec" by (simp add: written_def)
  moreover have "?j \<in> set [?k..<Suc ?m]" using km by (auto simp: min_def)
  then have "written ?bs ?wp ?rec ?j \<in> set (tear_points B p k v e)" unfolding tear_points_def Let_def set_map by (rule imageI)
  ultimately show ?thesis by (intro bexI[of _ "written ?bs ?wp ?rec ?j"]) (auto simp: crash_append_def Let_def image_of_def slice_def)
qed

lemma crash_put:
  assumes d: "dev_ok (je_device e)" and h: "holds_journal rs (image_of contents e) e" and n: "length rs + 1 < MAX_REPLAY_RECORDS"
    and put: "sf_put B k v e = (Ok (), e')" and k: "utf8_valid k"
    and det: "\<And>t. t \<in> set (tear_points B JPut k v e) \<Longrightarrow>
      tear_detected (serialize_record JPut k v) (length (image_of contents e) - je_write_pos e) t"
  shows "open_engine B (crash_append B j JPut k v e) \<in>
    {Ok (e\<lparr>je_device := crash_append B j JPut k v e\<rparr>), Ok (e'\<lparr>je_device := crash_append B j JPut k v e\<rparr>)}"
proof -
  let ?r = "\<lparr>jr_op = JPut, jr_key = k, jr_value = v\<rparr>" and ?c = "crash_append B j JPut k v e"
  have b: "serialize_record JPut k v = record_bytes ?r" by (simp add: record_bytes_def)
  have wp: "je_write_pos e = length (journal rs)" using h by (simp add: holds_journal_def)
  have cnt: "je_record_count e = length rs" using h by (simp add: holds_journal_def)
  have ok: "is_ok (validate_key k)" "length v \<le> MAX_VALUE_SIZE"
    using put by (auto simp: sf_put_def split: sum.splits if_splits)
  then have r: "record_ok ?r" using k validate_key_len[of k] by (auto simp: record_ok_def is_ok_def split: sum.splits)
  obtain x e1 where app: "append_record B JPut k v e = (x, e1)" by force
  have x: "x = Ok ()" and e': "e' = e1\<lparr>je_kv := bt_insert k v (je_kv e1)\<rparr>"
    using put app by (auto simp: sf_put_def split: sum.splits if_splits)
  from append_record_effect[OF d app] x have
    e1: "e'\<lparr>je_device := ?c\<rparr> = e\<lparr>je_device := ?c, je_kv := apply_record ?r (je_kv e),
        je_write_pos := je_write_pos e + length (record_bytes ?r), je_record_count := je_record_count e + 1\<rparr>"
    and fit: "je_write_pos e + length (record_bytes ?r) \<le> length (image_of contents e)"
    unfolding e' b image_of_def by auto
  obtain t where t: "t \<le> length (record_bytes ?r)" and pt: "t \<in> set (tear_points B JPut k v e)" and c: "dev_ok ?c"
    "concat (contents ?c) = copy_at (je_write_pos e) (take t (record_bytes ?r)) (image_of contents e)"
    using crash_append_image[OF d, of JPut k v j] fit unfolding b by blast
  have "replay_flat (concat (contents ?c)) [] 0 0 \<in> {(je_kv e, je_write_pos e, je_record_count e),
      (apply_record ?r (je_kv e), je_write_pos e + length (record_bytes ?r), je_record_count e + 1)}"
    unfolding c(2) by (rule holds_journal_torn[OF h n r _ t]) (use fit det[unfolded b, OF pt] wp in simp_all)
  then show ?thesis using open_flat[OF c(1)] n unfolding e1 by (auto simp: cnt)
qed

end



end
