(* ===== verification/Statefsd.thy ===== *)
theory Statefsd
  imports Statefs_Proto Statefs_Correct
begin

text \<open>
  The store's service, \<open>source/services/statefsd/src\<close>: \<open>handle_frame\<close> with the policy checks in front of
  the engine, and the calls of the client of \<open>userspace/statefs/src/lib.rs\<close> on top of it.  The decision
  of the policy service (an IPC exchange with \<open>policyd\<close>) is the parameter \<open>allows\<close>; log lines are not
  modelled.  The request reaches the service and the reply the client as the kernel's endpoints
  deliver them; the client reads a reply into a buffer of 4096 bytes, truncating a longer one.
\<close>

unbundle bit_operations_syntax

subsection \<open>The service\<close>

definition MAX_LIST_RESPONSE_BYTES :: usize where "MAX_LIST_RESPONSE_BYTES = 512"
definition IPC_MAX_FRAME_BYTES :: usize where "IPC_MAX_FRAME_BYTES = 8 * 1024"
definition MAX_INLINE_VALUE_BYTES :: usize where "MAX_INLINE_VALUE_BYTES = IPC_MAX_FRAME_BYTES - 64"

definition CAP_READ :: "u8 list" where "CAP_READ = ascii ''statefs.read''"
definition CAP_WRITE :: "u8 list" where "CAP_WRITE = ascii ''statefs.write''"
definition CAP_KEYSTORE :: "u8 list" where "CAP_KEYSTORE = ascii ''statefs.keystore''"
definition CAP_BOOT :: "u8 list" where "CAP_BOOT = ascii ''statefs.boot''"

definition SID_METRICSD_ALT :: u64 where "SID_METRICSD_ALT = 0xed205ae1e47c393d"
definition TASK0018_CHILD_DUMP_PATH :: "u8 list" where
  "TASK0018_CHILD_DUMP_PATH = ascii ''/state/crash/child.demo.minidump.nmd''"

text \<open>\<open>nexus_abi::service_id_from_name\<close>: FNV-1a, 64 bit.\<close>

definition abi_service_id :: "u8 list \<Rightarrow> u64" where
  "abi_service_id name = fold (\<lambda>b h. (h XOR ucast b) * 0x100000001b3) name 0xcbf29ce484222325"

definition canonical_subject :: "u64 \<Rightarrow> u8 \<Rightarrow> u8 list \<Rightarrow> u64 \<Rightarrow> u64 \<Rightarrow> u64" where
  "canonical_subject subject op path selftest_sid metricsd_sid =
     (if subject = 0 \<and> op = OP_PUT \<and> path = TASK0018_CHILD_DUMP_PATH then selftest_sid
      else if subject = SID_METRICSD_ALT then metricsd_sid
      else subject)"

definition required_cap :: "u8 \<Rightarrow> u8 list \<Rightarrow> u8 list" where
  "required_cap op path =
     (if starts_with path (ascii ''/state/keystore/'') then CAP_KEYSTORE
      else if starts_with path (ascii ''/state/boot/'') then CAP_BOOT
      else if op \<in> {OP_PUT, OP_DEL, OP_SYNC, OP_REOPEN} then CAP_WRITE
      else CAP_READ)"

type_synonym policy = "u64 \<Rightarrow> u8 list \<Rightarrow> bool"

definition policy_allows :: "policy \<Rightarrow> u64 \<Rightarrow> u8 \<Rightarrow> u8 list \<Rightarrow> bool" where
  "policy_allows allows sender op path =
     (let cap = required_cap op path;
          selftest_sid = abi_service_id (ascii ''selftest-client'');
          metricsd_sid = abi_service_id (ascii ''metricsd'')
      in allows (canonical_subject sender op path selftest_sid metricsd_sid) cap)"

text \<open>The status a result of the engine is reported with.\<close>

definition status_of :: "statefs_error + unit \<Rightarrow> u8" where
  "status_of r = (case r of Inr _ \<Rightarrow> STATUS_OK | Inl err \<Rightarrow> status_from_error err)"

definition handle_request ::
  "'d block_device \<Rightarrow> policy \<Rightarrow> u64 \<Rightarrow> sf_request \<Rightarrow> u64 option \<Rightarrow> 'd journal_engine \<Rightarrow> u8 list \<times> 'd journal_engine" where
  "handle_request B allows sender req nonce e =
     (case req of
        ReqPut key val \<Rightarrow>
          if MAX_INLINE_VALUE_BYTES < length val
          then (encode_status_response_with_nonce OP_PUT STATUS_VALUE_TOO_LARGE nonce, e)
          else if \<not> policy_allows allows sender OP_PUT key
          then (encode_status_response_with_nonce OP_PUT STATUS_ACCESS_DENIED nonce, e)
          else (case sf_put B key val e of (r, e1) \<Rightarrow> (encode_status_response_with_nonce OP_PUT (status_of r) nonce, e1))
      | ReqGet key \<Rightarrow>
          if \<not> policy_allows allows sender OP_GET key
          then (encode_get_response_with_nonce STATUS_ACCESS_DENIED [] nonce, e)
          else (case sf_get e key of
                  Inr val \<Rightarrow>
                    if MAX_INLINE_VALUE_BYTES < length val
                    then (encode_get_response_with_nonce STATUS_VALUE_TOO_LARGE [] nonce, e)
                    else (encode_get_response_with_nonce STATUS_OK val nonce, e)
                | Inl err \<Rightarrow> (encode_get_response_with_nonce (status_from_error err) [] nonce, e))
      | ReqDelete key \<Rightarrow>
          if \<not> policy_allows allows sender OP_DEL key
          then (encode_status_response_with_nonce OP_DEL STATUS_ACCESS_DENIED nonce, e)
          else (case sf_delete B key e of (r, e1) \<Rightarrow> (encode_status_response_with_nonce OP_DEL (status_of r) nonce, e1))
      | ReqList pre limit \<Rightarrow>
          if \<not> policy_allows allows sender OP_LIST pre
          then (encode_list_response_with_nonce STATUS_ACCESS_DENIED [] MAX_LIST_RESPONSE_BYTES nonce, e)
          else (case sf_list e pre (unat limit) of
                  Inr keys \<Rightarrow> (encode_list_response_with_nonce STATUS_OK keys MAX_LIST_RESPONSE_BYTES nonce, e)
                | Inl err \<Rightarrow> (encode_list_response_with_nonce (status_from_error err) [] MAX_LIST_RESPONSE_BYTES nonce, e))
      | ReqSync \<Rightarrow>
          if \<not> (allows sender CAP_BOOT \<or> allows sender CAP_WRITE)
          then (encode_status_response_with_nonce OP_SYNC STATUS_ACCESS_DENIED nonce, e)
          else (case sf_sync B e of (r, e1) \<Rightarrow> (encode_status_response_with_nonce OP_SYNC (status_of r) nonce, e1))
      | ReqReopen \<Rightarrow>
          if \<not> (allows sender CAP_BOOT \<or> allows sender CAP_WRITE)
          then (encode_status_response_with_nonce OP_REOPEN STATUS_ACCESS_DENIED nonce, e)
          else (case sf_reopen B e of (r, e1) \<Rightarrow> (encode_status_response_with_nonce OP_REOPEN (status_of r) nonce, e1)))"

definition handle_frame ::
  "'d block_device \<Rightarrow> policy \<Rightarrow> u64 \<Rightarrow> u8 list \<Rightarrow> 'd journal_engine \<Rightarrow> u8 list \<times> 'd journal_engine" where
  "handle_frame B allows sender frame e =
     (let op_hint = (case vec_get frame 3 of Some b \<Rightarrow> b | None \<Rightarrow> OP_GET) in
      case decode_request_with_nonce frame of
        Inl status \<Rightarrow> (encode_status_response_with_nonce op_hint status None, e)
      | Inr (req, nonce) \<Rightarrow> handle_request B allows sender req nonce e)"

subsection \<open>The client\<close>

definition CLIENT_BUF :: usize where "CLIENT_BUF = 4096"

text \<open>Which replies the client takes for the answer to its request; it skips the others, and gives up
  with an I/O error at its deadline.\<close>

definition reply_matches :: "u8 \<Rightarrow> u64 \<Rightarrow> u8 list \<Rightarrow> bool" where
  "reply_matches expected_op nonce buf \<longleftrightarrow>
     13 \<le> length buf \<and> slice 0 2 buf = PROTO_MAGIC \<and> buf ! 2 = PROTO_VERSION_V2 \<and> buf ! 3 = expected_op OR 0x80 \<and>
     slice 5 13 buf = to_le 8 nonce"

definition send_and_recv_raw ::
  "'d block_device \<Rightarrow> policy \<Rightarrow> u64 \<Rightarrow> u64 \<Rightarrow> u8 list \<Rightarrow> u8 \<Rightarrow> 'd journal_engine \<Rightarrow> (statefs_error + u8 list) \<times> 'd journal_engine" where
  "send_and_recv_raw B allows sender nonce frame expected_op e =
     (case upgrade_v2 nonce frame of
        Inl err \<Rightarrow> (Err err, e)
      | Inr frame2 \<Rightarrow>
          (case handle_frame B allows sender frame2 e of
             (rsp, e1) \<Rightarrow>
               (let buf = take CLIENT_BUF rsp in
                if reply_matches expected_op nonce buf then (Ok buf, e1) else (Err SfIoError, e1))))"

definition send_and_recv ::
  "'d block_device \<Rightarrow> policy \<Rightarrow> u64 \<Rightarrow> u64 \<Rightarrow> u8 list \<Rightarrow> u8 \<Rightarrow> 'd journal_engine \<Rightarrow> (statefs_error + unit) \<times> 'd journal_engine" where
  "send_and_recv B allows sender nonce frame op e =
     (case send_and_recv_raw B allows sender nonce frame op e of
        (Inl err, e1) \<Rightarrow> (Err err, e1)
      | (Inr rsp, e1) \<Rightarrow>
          (case decode_status_response op rsp of
             Inl err \<Rightarrow> (Err err, e1)
           | Inr status \<Rightarrow> (if status = STATUS_OK then Ok () else Err (error_from_status status), e1)))"

definition client_put ::
  "'d block_device \<Rightarrow> policy \<Rightarrow> u64 \<Rightarrow> u64 \<Rightarrow> u8 list \<Rightarrow> u8 list \<Rightarrow> 'd journal_engine \<Rightarrow> (statefs_error + unit) \<times> 'd journal_engine" where
  "client_put B allows sender nonce key val e =
     (case encode_put_request key val of
        Inl err \<Rightarrow> (Err err, e)
      | Inr frame \<Rightarrow> send_and_recv B allows sender nonce frame OP_PUT e)"

definition client_get ::
  "'d block_device \<Rightarrow> policy \<Rightarrow> u64 \<Rightarrow> u64 \<Rightarrow> u8 list \<Rightarrow> 'd journal_engine \<Rightarrow> (statefs_error + u8 list) \<times> 'd journal_engine" where
  "client_get B allows sender nonce key e =
     (case encode_key_only_request OP_GET key of
        Inl err \<Rightarrow> (Err err, e)
      | Inr frame \<Rightarrow>
          (case send_and_recv_raw B allows sender nonce frame OP_GET e of
             (Inl err, e1) \<Rightarrow> (Err err, e1)
           | (Inr rsp, e1) \<Rightarrow> (decode_get_response rsp, e1)))"

definition client_delete ::
  "'d block_device \<Rightarrow> policy \<Rightarrow> u64 \<Rightarrow> u64 \<Rightarrow> u8 list \<Rightarrow> 'd journal_engine \<Rightarrow> (statefs_error + unit) \<times> 'd journal_engine" where
  "client_delete B allows sender nonce key e =
     (case encode_key_only_request OP_DEL key of
        Inl err \<Rightarrow> (Err err, e)
      | Inr frame \<Rightarrow> send_and_recv B allows sender nonce frame OP_DEL e)"

definition client_list ::
  "'d block_device \<Rightarrow> policy \<Rightarrow> u64 \<Rightarrow> u64 \<Rightarrow> u8 list \<Rightarrow> u16 \<Rightarrow> 'd journal_engine \<Rightarrow> (statefs_error + u8 list list) \<times> 'd journal_engine" where
  "client_list B allows sender nonce pre limit e =
     (case encode_list_request pre limit of
        Inl err \<Rightarrow> (Err err, e)
      | Inr frame \<Rightarrow>
          (case send_and_recv_raw B allows sender nonce frame OP_LIST e of
             (Inl err, e1) \<Rightarrow> (Err err, e1)
           | (Inr rsp, e1) \<Rightarrow> (decode_list_response rsp, e1)))"

definition client_sync ::
  "'d block_device \<Rightarrow> policy \<Rightarrow> u64 \<Rightarrow> u64 \<Rightarrow> 'd journal_engine \<Rightarrow> (statefs_error + unit) \<times> 'd journal_engine" where
  "client_sync B allows sender nonce e = send_and_recv B allows sender nonce encode_sync_request OP_SYNC e"

subsection \<open>Calls through the service\<close>

lemma reply_header:
  "length (response_header op st (Some n)) = 13" "take CLIENT_BUF (response_header op st (Some n)) = response_header op st (Some n)"
  by (simp_all add: response_header_def PROTO_MAGIC_def CLIENT_BUF_def)

lemma reply_header_matches: "reply_matches op n (response_header op st (Some n) @ rest)"
  by (simp add: reply_matches_def response_header_def PROTO_MAGIC_def slice_def)

lemma handle_encoded:
  assumes "request_ok r"
  obtains frame frame2 where "encode_request r = Ok frame" "upgrade_v2 n frame = Ok frame2"
    "handle_frame B allows s frame2 e = handle_request B allows s (request_norm r) (Some n) e"
proof -
  obtain payload where p: "encode_request r = Ok (request_header (request_op r) @ payload)"
    "decode_op (request_op r) payload = Ok (request_norm r)" using encode_request_bytes[OF assms] by blast
  show ?thesis by (rule that[OF p(1) upgrade_bytes]) (simp add: handle_frame_def decode_v2 p(2))
qed

text \<open>A reply that starts with the header of the request's opcode and nonce is accepted.\<close>

lemma send_raw_encoded:
  assumes "request_ok r" "encode_request r = Ok frame"
    and "handle_request B allows s (request_norm r) (Some n) e = (response_header op st (Some n) @ rest, e1)"
  shows "send_and_recv_raw B allows s n frame op e = (Ok (response_header op st (Some n) @ take (CLIENT_BUF - 13) rest), e1)"
proof -
  obtain frame2 where "upgrade_v2 n frame = Ok frame2"
    "handle_frame B allows s frame2 e = handle_request B allows s (request_norm r) (Some n) e"
    using handle_encoded[OF assms(1), of n B allows s e] assms(2) by auto
  then show ?thesis using assms(3) by (simp add: send_and_recv_raw_def Let_def reply_header reply_header_matches)
qed

lemma send_encoded:
  assumes "request_ok r" "encode_request r = Ok frame"
    and "handle_request B allows s (request_norm r) (Some n) e = (encode_status_response_with_nonce op st (Some n), e1)"
  shows "send_and_recv B allows s n frame op e = (if st = STATUS_OK then Ok () else Err (error_from_status st), e1)"
  using send_raw_encoded[OF assms(1,2), of B allows s n e op st "[]" e1] assms(3) decode_status_encode[of op st "Some n"]
  by (simp add: send_and_recv_def encode_status_response_with_nonce_def)

text \<open>The error the client sees for an error of the engine.\<close>

definition reported :: "statefs_error \<Rightarrow> statefs_error" where
  "reported err = error_from_status (status_from_error err)"

lemma reported_eq: "reported err = (if err = SfReplayLimitExceeded then SfIoError else err)"
  by (cases err) (simp_all add: reported_def error_from_status_def status_from_error_def status_defs)

lemma status_of_decoded:
  "(if status_of r = STATUS_OK then Ok () else Err (error_from_status (status_of r))) = map_err reported r"
proof (cases r)
  case (Inl err)
  have "status_from_error err \<noteq> STATUS_OK" by (cases err) (simp_all add: status_from_error_def status_defs)
  then show ?thesis using Inl by (simp add: status_of_def reported_def)
qed (simp add: status_of_def)

lemma decode_get_truncated:
  assumes "CLIENT_BUF < 17 + length v" "length v \<le> MAX_VALUE_SIZE"
  shows "decode_get_response (response_header OP_GET STATUS_OK (Some n) @ take (CLIENT_BUF - 13) (to_le 4 (of_nat (length v) :: u32) @ v)) = Err SfCorrupted"
proof -
  let ?rest = "take (CLIENT_BUF - 13) (to_le 4 (of_nat (length v) :: u32) @ v)"
  define F where "F = response_header OP_GET STATUS_OK (Some n) @ ?rest"
  have "slice 0 4 ?rest = to_le 4 (of_nat (length v) :: u32)" by (simp add: slice_def CLIENT_BUF_def)
  moreover have "length ?rest = CLIENT_BUF - 13" using assms(1) by (simp add: CLIENT_BUF_def)
  ultimately have "decode_get_response F = Err SfCorrupted"
    using response_fields[where op = OP_GET and st = STATUS_OK and nonce = "Some n" and rest = ?rest and a = 0 and b = 4, folded F_def]
      val_len_rt[OF assms(2)] assms(1)
    by (simp add: decode_get_response_def decode_value_def versions versions[symmetric] Let_def CLIENT_BUF_def)
  then show ?thesis by (simp add: F_def)
qed

lemma get_reply:
  assumes "length v \<le> MAX_VALUE_SIZE" "st \<noteq> STATUS_OK \<longrightarrow> v = []"
  shows "decode_get_response (response_header OP_GET st (Some n) @ take (CLIENT_BUF - 13) (to_le 4 (of_nat (length v) :: u32) @ v)) =
    (if st \<noteq> STATUS_OK then Err (error_from_status st) else if CLIENT_BUF < 17 + length v then Err SfCorrupted else Ok v)"
proof (cases "CLIENT_BUF < 17 + length v")
  case True
  then have "st = STATUS_OK" using assms(2) by (auto simp: CLIENT_BUF_def)
  then show ?thesis using decode_get_truncated[OF True assms(1)] True by simp
next
  case False
  then have "take (CLIENT_BUF - 13) (to_le 4 (of_nat (length v) :: u32) @ v) = to_le 4 (of_nat (length v) :: u32) @ v"
    by (simp add: CLIENT_BUF_def)
  then show ?thesis
    using decode_get_encode[OF assms(1), of st "Some n"] False by (simp add: encode_get_response_with_nonce_def)
qed

lemma statuses:
  "STATUS_VALUE_TOO_LARGE \<noteq> STATUS_OK" "STATUS_ACCESS_DENIED \<noteq> STATUS_OK" "status_from_error err \<noteq> STATUS_OK"
  "error_from_status STATUS_VALUE_TOO_LARGE = SfValueTooLarge" "error_from_status STATUS_ACCESS_DENIED = SfAccessDenied"
  by (simp_all add: error_from_status_def status_from_error_def status_defs split: statefs_error.split)

lemma inline_le_max: "MAX_INLINE_VALUE_BYTES \<le> MAX_VALUE_SIZE"
  by (simp add: MAX_INLINE_VALUE_BYTES_def IPC_MAX_FRAME_BYTES_def MAX_VALUE_SIZE_def)

lemma client_put_eq:
  assumes "k \<noteq> []" "length k \<le> MAX_KEY_LEN" "utf8_valid k"
  shows "client_put B allows s n k v e =
      (if MAX_INLINE_VALUE_BYTES < length v then (Err SfValueTooLarge, e)
       else if \<not> policy_allows allows s OP_PUT k then (Err SfAccessDenied, e)
       else case sf_put B k v e of (r, e1) \<Rightarrow> (map_err reported r, e1))"
proof (cases "length v \<le> MAX_VALUE_SIZE")
  case True
  then have ok: "request_ok (ReqPut k v)" using assms by (simp add: request_ok_def)
  obtain frame where enc: "encode_request (ReqPut k v) = Ok frame" by (rule handle_encoded[OF ok])
  obtain r e1 where put: "sf_put B k v e = (r, e1)" by force
  have "client_put B allows s n k v e = send_and_recv B allows s n frame OP_PUT e"
    using enc by (simp add: client_put_def encode_request_def)
  then show ?thesis
    using send_encoded[OF ok enc, of B allows s n e OP_PUT STATUS_VALUE_TOO_LARGE e]
      send_encoded[OF ok enc, of B allows s n e OP_PUT STATUS_ACCESS_DENIED e]
      send_encoded[OF ok enc, of B allows s n e OP_PUT "status_of r" e1] status_of_decoded[of r] put
    by (simp add: handle_request_def request_norm_def statuses split: if_splits)
next
  case False
  then show ?thesis using inline_le_max assms(2) by (simp add: client_put_def encode_put_request_def)
qed

lemma client_get_eq:
  assumes "k \<noteq> []" "length k \<le> MAX_KEY_LEN" "utf8_valid k"
  shows "client_get B allows s n k e =
      (if \<not> policy_allows allows s OP_GET k then Err SfAccessDenied
       else case sf_get e k of
         Inl err \<Rightarrow> Err (reported err)
       | Inr w \<Rightarrow> if MAX_INLINE_VALUE_BYTES < length w then Err SfValueTooLarge
                  else if CLIENT_BUF < 17 + length w then Err SfCorrupted else Ok w, e)"
proof -
  have ok: "request_ok (ReqGet k)" using assms by (simp add: request_ok_def)
  obtain frame where enc: "encode_request (ReqGet k) = Ok frame" by (rule handle_encoded[OF ok])
  have call: "client_get B allows s n k e =
      (if st \<noteq> STATUS_OK then Err (error_from_status st) else if CLIENT_BUF < 17 + length w then Err SfCorrupted else Ok w, e)"
    if "handle_request B allows s (ReqGet k) (Some n) e = (encode_get_response_with_nonce st w (Some n), e)"
      "length w \<le> MAX_VALUE_SIZE" "st \<noteq> STATUS_OK \<longrightarrow> w = []" for st w
    using send_raw_encoded[OF ok enc, of B allows s n e OP_GET st "to_le 4 (of_nat (length w) :: u32) @ w" e] that get_reply[OF that(2,3)] enc
    by (simp add: client_get_def encode_request_def request_norm_def encode_get_response_with_nonce_def)
  show ?thesis
  proof (cases "policy_allows allows s OP_GET k")
    case False
    then show ?thesis using call[of STATUS_ACCESS_DENIED "[]"] by (simp add: handle_request_def statuses)
  next
    case allowed: True
    show ?thesis
    proof (cases "sf_get e k")
      case (Inl err)
      then show ?thesis using call[of "status_from_error err" "[]"] allowed by (simp add: handle_request_def statuses reported_def)
    next
      case (Inr w)
      then show ?thesis
        using call[of STATUS_VALUE_TOO_LARGE "[]"] call[of STATUS_OK w] allowed inline_le_max
        by (cases "MAX_INLINE_VALUE_BYTES < length w") (simp_all add: handle_request_def statuses)
    qed
  qed
qed



subsection \<open>The keystore\<close>

abbreviation keystore_key :: "u8 list \<Rightarrow> bool" where
  "keystore_key k \<equiv> starts_with k (ascii ''/state/keystore/'')"

text \<open>The subject that the policy is asked about when \<open>sender\<close> wants to use a keystore key.\<close>

definition keystore_subject :: "u64 \<Rightarrow> u64" where
  "keystore_subject sender = (if sender = SID_METRICSD_ALT then abi_service_id (ascii ''metricsd'') else sender)"

lemma policy_keystore:
  assumes "keystore_key k"
  shows "policy_allows allows s op k = allows (keystore_subject s) CAP_KEYSTORE"
proof -
  have "\<not> keystore_key TASK0018_CHILD_DUMP_PATH" by (simp add: starts_with_def TASK0018_CHILD_DUMP_PATH_def ascii_def)
  then have "k \<noteq> TASK0018_CHILD_DUMP_PATH" using assms by metis
  then show ?thesis using assms by (simp add: policy_allows_def canonical_subject_def required_cap_def keystore_subject_def)
qed

text \<open>Two stores that agree on everything but the values of keystore keys.\<close>

definition same_but_keystore :: "mem_block_device journal_engine \<Rightarrow> mem_block_device journal_engine \<Rightarrow> bool" where
  "same_but_keystore e e' \<longleftrightarrow>
     bt_keys (je_kv e) = bt_keys (je_kv e') \<and> (\<forall>k. \<not> keystore_key k \<longrightarrow> bt_get (je_kv e) k = bt_get (je_kv e') k) \<and>
     je_write_pos e = je_write_pos e' \<and> mem_ok (je_device e) \<and> mem_ok (je_device e') \<and>
     length (concat (mb_blocks (je_device e))) = length (concat (mb_blocks (je_device e')))"

context block_store
begin

lemma delete_outcome:
  assumes d: "dev_ok (je_device e)" and run: "sf_delete B k e = (r, e')"
  shows "r = (if \<not> is_ok (validate_key k) then validate_key k
      else if \<not> bt_contains (je_kv e) k then Err SfNotFound
      else if length (image_of contents e) < je_write_pos e + 15 + length k then Err SfIoError else Ok ())"
    "k' \<noteq> k \<Longrightarrow> bt_get (je_kv e') k' = bt_get (je_kv e) k'"
proof -
  obtain x e1 where app: "append_record B JDelete k [] e = (x, e1)" by force
  note out = append_outcome[OF d, of JDelete k "[]"] and eff = append_record_effect[OF d app]
  show "r = (if \<not> is_ok (validate_key k) then validate_key k
      else if \<not> bt_contains (je_kv e) k then Err SfNotFound
      else if length (image_of contents e) < je_write_pos e + 15 + length k then Err SfIoError else Ok ())"
    using run app out by (auto simp: sf_delete_def is_ok_def split: sum.splits if_splits)
  show "bt_get (je_kv e') k' = bt_get (je_kv e) k'" if "k' \<noteq> k"
    using run app eff that by (auto simp: sf_delete_def is_ok_def split: sum.splits if_splits)
qed

lemma put_others:
  assumes d: "dev_ok (je_device e)" and run: "sf_put B k v e = (r, e')" and k: "k' \<noteq> k"
  shows "bt_get (je_kv e') k' = bt_get (je_kv e) k'"
proof -
  obtain x e1 where app: "append_record B JPut k v e = (x, e1)" by force
  then show ?thesis
    using run k append_record_effect[OF d app] by (auto simp: sf_put_def is_ok_def split: sum.splits if_splits)
qed

end

text \<open>Without the keystore capability, a request leaves the keystore alone ...\<close>

lemma request_keystore_kept:
  assumes deny: "\<not> allows (keystore_subject s) CAP_KEYSTORE" and e: "mem_ok (je_device e)" and r: "r \<noteq> ReqReopen"
    and k: "keystore_key k"
  shows "bt_get (je_kv (snd (handle_request mem_device allows s r n e))) k = bt_get (je_kv e) k"
proof (cases r)
  case (ReqPut k' v)
  obtain x e1 where put: "sf_put mem_device k' v e = (x, e1)" by force
  have "k \<noteq> k'" if "policy_allows allows s OP_PUT k'" using that deny k policy_keystore[of k'] by metis
  then show ?thesis using ReqPut put mb.put_others[OF e put] by (auto simp: handle_request_def)
next
  case (ReqDelete k')
  obtain x e1 where del: "sf_delete mem_device k' e = (x, e1)" by force
  have "k \<noteq> k'" if "policy_allows allows s OP_DEL k'" using that deny k policy_keystore[of k'] by metis
  then show ?thesis using ReqDelete del mb.delete_outcome(2)[OF e del] by (auto simp: handle_request_def)
qed (use r in \<open>auto simp: handle_request_def sf_sync_def split: sum.splits\<close>)

text \<open>... and its reply does not depend on what the keystore holds.\<close>

lemma request_keystore_secret:
  assumes deny: "\<not> allows (keystore_subject s) CAP_KEYSTORE" and same: "same_but_keystore e e'" and r: "r \<noteq> ReqReopen"
  shows "fst (handle_request mem_device allows s r n e) = fst (handle_request mem_device allows s r n e')"
proof -
  have d: "mem_ok (je_device e)" "mem_ok (je_device e')" and len: "length (image_of mb_blocks e) = length (image_of mb_blocks e')"
    and wp: "je_write_pos e = je_write_pos e'" and keys: "bt_keys (je_kv e) = bt_keys (je_kv e')"
    using same by (auto simp: same_but_keystore_def image_of_def)
  show ?thesis
  proof (cases r)
    case (ReqPut k v)
    have "fst (sf_put mem_device k v e) = fst (sf_put mem_device k v e')"
      using mb.put_outcome(1)[OF d(1) prod.collapse[symmetric]] mb.put_outcome(1)[OF d(2) prod.collapse[symmetric]] len wp by metis
    then show ?thesis using ReqPut by (auto simp: handle_request_def split: prod.splits)
  next
    case (ReqGet k)
    have "sf_get e k = sf_get e' k" if "policy_allows allows s OP_GET k"
    proof -
      have "\<not> keystore_key k" using that deny policy_keystore[of k] by metis
      then show ?thesis using same by (auto simp: sf_get_def same_but_keystore_def split: sum.split)
    qed
    then show ?thesis using ReqGet by (auto simp: handle_request_def split: sum.splits)
  next
    case (ReqDelete k)
    have "bt_contains (je_kv e) k = bt_contains (je_kv e') k" using keys unfolding bt_contains_def bt_get_None by simp
    then have "fst (sf_delete mem_device k e) = fst (sf_delete mem_device k e')"
      using mb.delete_outcome(1)[OF d(1) prod.collapse[symmetric]] mb.delete_outcome(1)[OF d(2) prod.collapse[symmetric]] len wp by metis
    then show ?thesis using ReqDelete by (auto simp: handle_request_def split: prod.splits)
  qed (use r keys in \<open>auto simp: handle_request_def sf_sync_def sf_list_def split: sum.splits\<close>)
qed

text \<open>C14: The keystore is protected by its capability.  If the policy does not grant the sender the
  capability \<open>statefs.keystore\<close>, then no frame it sends, whatever its bytes (other than a reopen, which
  reloads the journal), changes the value of any key under \<open>/state/keystore/\<close>, and no reply it gets
  depends on these values: two stores that differ only in them answer alike.\<close>

theorem keystore_protected:
  assumes "\<not> allows (keystore_subject s) CAP_KEYSTORE" "same_but_keystore e e'"
    and "\<And>n. decode_request_with_nonce frame \<noteq> Ok (ReqReopen, n)"
  shows "fst (handle_frame mem_device allows s frame e) = fst (handle_frame mem_device allows s frame e') \<and>
    (keystore_key k \<longrightarrow> bt_get (je_kv (snd (handle_frame mem_device allows s frame e))) k = bt_get (je_kv e) k)"
proof (cases "decode_request_with_nonce frame")
  case (Inr x)
  obtain r n where x: "x = (r, n)" by force
  have r: "r \<noteq> ReqReopen" using assms(3) Inr x by blast
  have "mem_ok (je_device e)" using assms(2) by (simp add: same_but_keystore_def)
  then show ?thesis
    using request_keystore_kept[of allows s e r k n] request_keystore_secret[of allows s e e' r n] assms(1,2) r Inr x by (simp add: handle_frame_def)
qed (simp add: handle_frame_def)

theorem keystore_protected_witness:
  "let e = (\<lambda>v. \<lparr>je_device = mem_device_new 512 64, je_kv = [(ascii ''/state/keystore/k'', v)], je_write_pos = 0, je_record_count = 0\<rparr>);
       frame = request_header OP_GET @ key_bytes (ascii ''/state/keystore/k'')
   in fst (handle_frame mem_device (\<lambda>_ c. c = CAP_READ) 9 frame (e [1])) = fst (handle_frame mem_device (\<lambda>_ c. c = CAP_READ) 9 frame (e [2]))"
proof -
  let ?k = "ascii ''/state/keystore/k''"
  let ?e = "\<lambda>v. \<lparr>je_device = mem_device_new 512 64, je_kv = [(?k, v)], je_write_pos = 0, je_record_count = 0\<rparr>"
  have k: "?k \<noteq> []" "length ?k \<le> MAX_KEY_LEN" "utf8_valid ?k" "keystore_key ?k"
    by (simp_all add: ascii_def MAX_KEY_LEN_def starts_with_def) code_simp
  have "\<not> (\<lambda>_ c. c = CAP_READ) (keystore_subject 9) CAP_KEYSTORE" by (simp add: CAP_READ_def CAP_KEYSTORE_def ascii_def)
  moreover have "same_but_keystore (?e [1]) (?e [2])"
    using k(4) by (auto simp: same_but_keystore_def bt_keys_def bt_get_def mem_device_new_ok)
  moreover have "decode_request_with_nonce (request_header OP_GET @ key_bytes ?k) \<noteq> Ok (ReqReopen, n)" for n
    using decode_key_bytes[OF k(1-3)] by (simp add: decode_v1 decode_op_def key_bytes_def op_defs)
  ultimately show ?thesis
    unfolding Let_def by (intro conjunct1[OF keystore_protected[of "\<lambda>_ c. c = CAP_READ" 9]]) simp_all
qed

end
