(* ===== verification/Boot_Ctrl.thy ===== *)
theory Boot_Ctrl
  imports Prelude
begin

text \<open>
  The A/B boot control of \<open>userspace/updates/src/bootctrl.rs\<close>: staging, switching, health commit, boot
  attempts and rollback.  The histories of a controller are a step relation; the invariant over them
  gives that an unconfirmed switch falls back to the slot it came from after the granted attempts.
\<close>

subsection \<open>The state machine\<close>

datatype slot = SlotA | SlotB

fun other :: "slot \<Rightarrow> slot" where
  "other SlotA = SlotB"
| "other SlotB = SlotA"

datatype boot_error = NotStaged | AlreadyPending | NotPending | NoRollbackTarget

record boot_ctrl =
  active_slot :: slot
  pending_slot :: "slot option"
  staged_slot :: "slot option"
  rollback_slot :: "slot option"
  tries_left :: u8
  health_ok :: bool

definition boot_new :: "slot \<Rightarrow> boot_ctrl" where
  "boot_new s =
     \<lparr>active_slot = s, pending_slot = None, staged_slot = None, rollback_slot = None, tries_left = 0, health_ok = False\<rparr>"

definition stage :: "boot_ctrl \<Rightarrow> slot \<times> boot_ctrl" where
  "stage c = (let standby = other (active_slot c) in (standby, c\<lparr>staged_slot := Some standby\<rparr>))"

definition switch :: "u8 \<Rightarrow> boot_ctrl \<Rightarrow> (boot_error + slot) \<times> boot_ctrl" where
  "switch n c =
     (if pending_slot c \<noteq> None then (Err AlreadyPending, c)
      else case staged_slot c of
        None \<Rightarrow> (Err NotStaged, c)
      | Some s \<Rightarrow>
          (Ok s, c\<lparr>staged_slot := None, active_slot := s, pending_slot := Some s,
                   rollback_slot := Some (active_slot c), tries_left := n, health_ok := False\<rparr>))"

definition commit_health :: "boot_ctrl \<Rightarrow> (boot_error + unit) \<times> boot_ctrl" where
  "commit_health c =
     (if pending_slot c = None then (Err NotPending, c)
      else (Ok (), c\<lparr>pending_slot := None, rollback_slot := None, tries_left := 0, health_ok := True\<rparr>))"

definition rollback :: "boot_ctrl \<Rightarrow> (boot_error + slot) \<times> boot_ctrl" where
  "rollback c =
     (case rollback_slot c of
        None \<Rightarrow> (Err NoRollbackTarget, c)
      | Some t \<Rightarrow>
          (Ok t, c\<lparr>active_slot := t, pending_slot := None, rollback_slot := None, staged_slot := None,
                   tries_left := 0, health_ok := False\<rparr>))"

definition tick_boot_attempt :: "boot_ctrl \<Rightarrow> (boot_error + slot option) \<times> boot_ctrl" where
  "tick_boot_attempt c =
     (if pending_slot c = None then (Ok None, c)
      else
        (let c1 = (if 0 < tries_left c then c\<lparr>tries_left := tries_left c - 1\<rparr> else c) in
         if tries_left c1 = 0
         then (case rollback c1 of (Inl e, c2) \<Rightarrow> (Err e, c2) | (Inr t, c2) \<Rightarrow> (Ok (Some t), c2))
         else (Ok None, c1)))"

subsection \<open>Histories\<close>

inductive boot_step :: "boot_ctrl \<Rightarrow> boot_ctrl \<Rightarrow> bool" where
  step_stage: "boot_step c (snd (stage c))"
| step_switch: "boot_step c (snd (switch n c))"
| step_commit: "boot_step c (snd (commit_health c))"
| step_tick: "boot_step c (snd (tick_boot_attempt c))"
| step_rollback: "boot_step c (snd (rollback c))"

inductive_cases boot_stepE: "boot_step c c'"

inductive boot_reach :: "boot_ctrl \<Rightarrow> bool" where
  reach_new: "boot_reach (boot_new s)"
| reach_step: "boot_reach c \<Longrightarrow> boot_step c c' \<Longrightarrow> boot_reach c'"

text \<open>A switch is pending exactly when there is a slot to fall back to: the other one; the staged slot
  is never the active one.\<close>

definition boot_inv :: "boot_ctrl \<Rightarrow> bool" where
  "boot_inv c \<longleftrightarrow>
     (case pending_slot c of
        None \<Rightarrow> rollback_slot c = None \<and> tries_left c = 0
      | Some s \<Rightarrow> s = active_slot c \<and> rollback_slot c = Some (other s) \<and> \<not> health_ok c) \<and>
     (\<forall>s. staged_slot c = Some s \<longrightarrow> s = other (active_slot c))"

lemmas boot_defs = stage_def switch_def commit_health_def rollback_def tick_boot_attempt_def

lemma other_other [simp]: "other (other s) = s"
  by (cases s) simp_all

lemma boot_inv_step: "boot_step c c' \<Longrightarrow> boot_inv c \<Longrightarrow> boot_inv c'"
  by (erule boot_stepE) (auto simp: boot_inv_def boot_defs Let_def split: option.splits)

lemma boot_reach_inv: "boot_reach c \<Longrightarrow> boot_inv c"
  by (induction rule: boot_reach.induct) (auto simp: boot_new_def intro: boot_inv_step, simp add: boot_inv_def)

definition boot_tick :: "boot_ctrl \<Rightarrow> boot_ctrl" where
  "boot_tick c = snd (tick_boot_attempt c)"

lemma tick_pending:
  assumes "pending_slot c \<noteq> None" "1 < unat (tries_left c)"
  shows "tick_boot_attempt c = (Ok None, c\<lparr>tries_left := tries_left c - 1\<rparr>)"
    "unat (tries_left (c\<lparr>tries_left := tries_left c - 1\<rparr>)) = unat (tries_left c) - 1"
proof -
  have "tries_left c \<noteq> 0" "tries_left c \<noteq> 1" using assms(2) by (metis less_numeral_extra(4) not_less_zero unat_0 unat_1)+
  then show "tick_boot_attempt c = (Ok None, c\<lparr>tries_left := tries_left c - 1\<rparr>)"
    using assms(1) by (auto simp: tick_boot_attempt_def word_greater_zero_iff)
  show "unat (tries_left (c\<lparr>tries_left := tries_left c - 1\<rparr>)) = unat (tries_left c) - 1"
    using \<open>tries_left c \<noteq> 0\<close> by (simp add: unat_minus_one)
qed

lemma tick_last:
  assumes "pending_slot c \<noteq> None" "unat (tries_left c) \<le> 1" "rollback_slot c = Some t"
  shows "fst (tick_boot_attempt c) = Ok (Some t)" "active_slot (boot_tick c) = t" "pending_slot (boot_tick c) = None"
proof -
  have "tries_left c = 0 \<or> tries_left c = 1" using assms(2) by (metis One_nat_def le_Suc_eq le_zero_eq unat_1 unat_eq_zero word_unat_eq_iff)
  then show "fst (tick_boot_attempt c) = Ok (Some t)" "active_slot (boot_tick c) = t" "pending_slot (boot_tick c) = None"
    using assms(1,3) by (auto simp: boot_tick_def tick_boot_attempt_def rollback_def)
qed

lemma ticks_pending:
  "pending_slot c \<noteq> None \<Longrightarrow> k < unat (tries_left c) \<Longrightarrow>
     \<exists>n. (boot_tick ^^ k) c = c\<lparr>tries_left := n\<rparr> \<and> unat n = unat (tries_left c) - k"
proof (induction k)
  case 0
  show ?case by (rule exI[of _ "tries_left c"]) simp
next
  case (Suc k)
  then obtain n where n: "(boot_tick ^^ k) c = c\<lparr>tries_left := n\<rparr>" "unat n = unat (tries_left c) - k" by auto
  have "pending_slot (c\<lparr>tries_left := n\<rparr>) \<noteq> None" "1 < unat (tries_left (c\<lparr>tries_left := n\<rparr>))"
    using Suc.prems n(2) by simp_all
  from tick_pending[OF this] show ?case
    using n by (intro exI[of _ "n - 1"]) (simp add: boot_tick_def[of "c\<lparr>tries_left := n\<rparr>"])
qed

text \<open>C23: An update that is not confirmed is undone, and one that is confirmed stays.  In every
  reachable state, a successful switch with \<open>n\<close> boot attempts makes the staged slot active; the first
  \<open>max 1 n - 1\<close> attempts without a health commit leave it active and pending, the next one returns to
  the slot that was active before and reports it; after a health commit no number of attempts
  changes the active slot.\<close>

theorem switch_falls_back:
  assumes "boot_reach c" "switch n c = (Ok s, c1)"
  shows "s = other (active_slot c) \<and>
    (\<forall>k < max 1 (unat n). active_slot ((boot_tick ^^ k) c1) = s \<and> pending_slot ((boot_tick ^^ k) c1) = Some s) \<and>
    fst (tick_boot_attempt ((boot_tick ^^ (max 1 (unat n) - 1)) c1)) = Ok (Some (active_slot c)) \<and>
    active_slot ((boot_tick ^^ max 1 (unat n)) c1) = active_slot c \<and>
    active_slot ((boot_tick ^^ k') (snd (commit_health c1))) = s"
proof -
  have inv: "boot_inv c" by (rule boot_reach_inv[OF assms(1)])
  have c1: "pending_slot c1 = Some s" "active_slot c1 = s" "rollback_slot c1 = Some (active_slot c)" "tries_left c1 = n"
    and s: "s = other (active_slot c)"
    using assms(2) inv by (auto simp: switch_def boot_inv_def split: if_splits option.splits)
  have ticks: "\<exists>m. (boot_tick ^^ k) c1 = c1\<lparr>tries_left := m\<rparr> \<and> unat m = unat n - k" if "k < max 1 (unat n)" for k
    using that ticks_pending[of c1 k] c1 by (cases k) (auto simp: max_def split: if_splits intro: exI[of _ n])
  obtain m where m: "(boot_tick ^^ (max 1 (unat n) - 1)) c1 = c1\<lparr>tries_left := m\<rparr>" "unat m = unat n - (max 1 (unat n) - 1)"
    using ticks[of "max 1 (unat n) - 1"] by auto
  have last: "pending_slot (c1\<lparr>tries_left := m\<rparr>) \<noteq> None" "unat (tries_left (c1\<lparr>tries_left := m\<rparr>)) \<le> 1"
      "rollback_slot (c1\<lparr>tries_left := m\<rparr>) = Some (active_slot c)"
    using c1 m(2) by (auto simp: max_def split: if_splits)
  have "boot_tick ^^ max 1 (unat n) = boot_tick \<circ> boot_tick ^^ (max 1 (unat n) - 1)"
    using funpow.simps(2)[of "max 1 (unat n) - 1" boot_tick] by simp
  then have fin: "active_slot ((boot_tick ^^ max 1 (unat n)) c1) = active_slot c" using tick_last(2)[OF last] m(1) by simp
  have "boot_tick (snd (commit_health c1)) = snd (commit_health c1)" using c1 by (simp add: boot_tick_def commit_health_def tick_boot_attempt_def)
  then have "(boot_tick ^^ k') (snd (commit_health c1)) = snd (commit_health c1)" by (induction k') simp_all
  then have "active_slot ((boot_tick ^^ k') (snd (commit_health c1))) = s" using c1 by (simp add: commit_health_def)
  moreover have "active_slot ((boot_tick ^^ k) c1) = s \<and> pending_slot ((boot_tick ^^ k) c1) = Some s" if "k < max 1 (unat n)" for k
    using ticks[OF that] c1 by auto
  ultimately show ?thesis using s fin tick_last(1)[OF last] m(1) by simp
qed

theorem switch_falls_back_witness:
  "\<exists>c c1. boot_reach c \<and> switch 2 c = (Ok SlotB, c1) \<and> active_slot ((boot_tick ^^ 2) c1) = SlotA"
proof -
  let ?c = "snd (stage (boot_new SlotA))"
  have r: "boot_reach ?c" by (intro reach_step[OF reach_new step_stage])
  obtain c1 where sw: "switch 2 ?c = (Ok SlotB, c1)" by (simp add: switch_def stage_def boot_new_def)
  have "active_slot ((boot_tick ^^ max 1 (unat (2 :: u8))) c1) = active_slot ?c"
    using switch_falls_back[OF r sw] by blast
  moreover have "max 1 (unat (2 :: u8)) = 2" "active_slot ?c = SlotA" by (simp_all add: stage_def boot_new_def)
  ultimately have "active_slot ((boot_tick ^^ 2) c1) = SlotA" by metis
  then show ?thesis using r sw by blast
qed

end
