(* ===== verification/Updated.thy ===== *)
theory Updated
  imports Wire Statefsd Boot_Ctrl
begin

text \<open>
  The update service, \<open>source/services/updated/src/os_lite.rs\<close>, with its frames
  (\<open>source/libs/nexus-wire/src/updated.rs\<close>): the handlers around the boot control, the persisted form
  of its state and its way through the store, and what the init process reads from the reply to a
  boot attempt.  Parameters: \<open>verify\<close>, whether the staged system set parses and its signature
  verifies; \<open>bnd\<close>, the bundle manager's answer to a request for an active slot, with its state; the
  policy of the store.  A \<open>None\<close> store is an unavailable statefs client.  Audit lines are not modelled.
\<close>

unbundle bit_operations_syntax

subsection \<open>Frames\<close>

definition UPD_MAGIC0 :: u8 where "UPD_MAGIC0 = 0x55"
definition UPD_MAGIC1 :: u8 where "UPD_MAGIC1 = 0x44"
definition UPD_VERSION :: u8 where "UPD_VERSION = 1"
definition UPD_OP_STAGE :: u8 where "UPD_OP_STAGE = 1"
definition UPD_OP_SWITCH :: u8 where "UPD_OP_SWITCH = 2"
definition UPD_OP_HEALTH_OK :: u8 where "UPD_OP_HEALTH_OK = 3"
definition UPD_OP_GET_STATUS :: u8 where "UPD_OP_GET_STATUS = 4"
definition UPD_OP_BOOT_ATTEMPT :: u8 where "UPD_OP_BOOT_ATTEMPT = 5"
definition UPD_OP_LOG_PROBE :: u8 where "UPD_OP_LOG_PROBE = 0x7f"
definition UPD_OK :: u8 where "UPD_OK = 0"
definition UPD_MALFORMED :: u8 where "UPD_MALFORMED = 1"
definition UPD_UNSUPPORTED :: u8 where "UPD_UNSUPPORTED = 2"
definition UPD_FAILED :: u8 where "UPD_FAILED = 3"
definition MAX_STAGE_BYTES :: usize where "MAX_STAGE_BYTES = 8 * 1024"
definition MAX_STAGE_FRAME :: usize where "MAX_STAGE_FRAME = MAX_STAGE_BYTES + 8"

definition upd_request_op :: "u8 list \<Rightarrow> u8 option" where
  "upd_request_op frame = wire_request_op UPD_MAGIC0 UPD_MAGIC1 UPD_VERSION frame"

definition decode_stage_req :: "u8 list \<Rightarrow> u8 list option" where
  "decode_stage_req frame =
     (case decode_frame UPD_MAGIC0 UPD_MAGIC1 UPD_VERSION UPD_OP_STAGE [KBytes32 1 MAX_STAGE_BYTES] frame of
        Some [VBytes bs] \<Rightarrow> Some bs | _ \<Rightarrow> None)"

definition decode_switch_req :: "u8 list \<Rightarrow> u8 option" where
  "decode_switch_req frame =
     (case decode_frame UPD_MAGIC0 UPD_MAGIC1 UPD_VERSION UPD_OP_SWITCH [KNzU8] frame of
        Some [VU8 v] \<Rightarrow> Some v | _ \<Rightarrow> None)"

definition decode_health_ok_req :: "u8 list \<Rightarrow> bool" where
  "decode_health_ok_req frame \<longleftrightarrow> length frame = 4 \<and> upd_request_op frame = Some UPD_OP_HEALTH_OK"

definition decode_boot_attempt_req :: "u8 list \<Rightarrow> bool" where
  "decode_boot_attempt_req frame \<longleftrightarrow> length frame = 4 \<and> upd_request_op frame = Some UPD_OP_BOOT_ATTEMPT"

definition decode_boot_attempt_rsp :: "u8 list \<Rightarrow> (u8 \<times> u8) option" where
  "decode_boot_attempt_rsp frame =
     (case decode_frame UPD_MAGIC0 UPD_MAGIC1 UPD_VERSION (UPD_OP_BOOT_ATTEMPT OR REPLY_BIT) [KU8, KU8, KPad 2] frame of
        Some [VU8 status, VU8 s] \<Rightarrow> Some (status, s) | _ \<Rightarrow> None)"

definition upd_rsp :: "u8 \<Rightarrow> u8 \<Rightarrow> u8 list \<Rightarrow> u8 list" where
  "upd_rsp op status payload =
     (let len = min (length payload) 0xFFFF in
      [UPD_MAGIC0, UPD_MAGIC1, UPD_VERSION, op OR 0x80, status] @ to_le 2 (of_nat len :: u16) @ take len payload)"

subsection \<open>The persisted state\<close>

definition BOOTCTRL_STATE_KEY :: "u8 list" where "BOOTCTRL_STATE_KEY = ascii ''/state/boot/bootctl.v1''"
definition BOOTCTRL_STATE_VERSION :: u8 where "BOOTCTRL_STATE_VERSION = 1"
definition SLOT_NONE :: u8 where "SLOT_NONE = 0xff"

definition encode_slot :: "slot \<Rightarrow> u8" where
  "encode_slot s = (case s of SlotA \<Rightarrow> 1 | SlotB \<Rightarrow> 2)"

definition decode_slot :: "u8 \<Rightarrow> statefs_error + slot option" where
  "decode_slot b =
     (if b = 1 then Ok (Some SlotA) else if b = 2 then Ok (Some SlotB)
      else if b = SLOT_NONE then Ok None else Err SfCorrupted)"

record boot_state =
  bs_active :: slot
  bs_pending :: "slot option"
  bs_staged :: "slot option"
  bs_tries_left :: u8
  bs_health_ok :: bool

definition from_bootctrl :: "boot_ctrl \<Rightarrow> boot_state" where
  "from_bootctrl c =
     \<lparr>bs_active = active_slot c, bs_pending = pending_slot c, bs_staged = staged_slot c,
      bs_tries_left = tries_left c, bs_health_ok = health_ok c\<rparr>"

definition encode_bootctrl_state :: "boot_ctrl \<Rightarrow> u8 list" where
  "encode_bootctrl_state c =
     (let st = from_bootctrl c; enc = (\<lambda>x. case x of Some s \<Rightarrow> encode_slot s | None \<Rightarrow> SLOT_NONE) in
      [BOOTCTRL_STATE_VERSION, encode_slot (bs_active st), enc (bs_pending st), enc (bs_staged st),
       bs_tries_left st, if bs_health_ok st then 1 else 0])"

definition decode_bootctrl_state :: "u8 list \<Rightarrow> statefs_error + boot_state" where
  "decode_bootctrl_state bs =
     (if length bs \<noteq> 6 \<or> bs ! 0 \<noteq> BOOTCTRL_STATE_VERSION then Err SfCorrupted
      else case decode_slot (bs ! 1) of
        Inl e \<Rightarrow> Err e
      | Inr None \<Rightarrow> Err SfCorrupted
      | Inr (Some active) \<Rightarrow>
          (case decode_slot (bs ! 2) of
             Inl e \<Rightarrow> Err e
           | Inr pending \<Rightarrow>
               (case decode_slot (bs ! 3) of
                  Inl e \<Rightarrow> Err e
                | Inr staged \<Rightarrow>
                    Ok \<lparr>bs_active = active, bs_pending = pending, bs_staged = staged, bs_tries_left = bs ! 4,
                        bs_health_ok = (bs ! 5 = 1)\<rparr>)))"

text \<open>The state is rebuilt by replaying operations of the boot control.\<close>

definition bootctrl_from_state :: "boot_state \<Rightarrow> boot_error + boot_ctrl" where
  "bootctrl_from_state st =
     (if bs_pending st \<noteq> None then
        (case switch (bs_tries_left st) (snd (stage (boot_new (other (bs_active st))))) of
           (Inl e, _) \<Rightarrow> Err e | (Inr _, c) \<Rightarrow> Ok c)
      else if bs_health_ok st then
        (case switch 0 (snd (stage (boot_new (other (bs_active st))))) of
           (Inl e, _) \<Rightarrow> Err e
         | (Inr _, c) \<Rightarrow> (case commit_health c of (Inl e, _) \<Rightarrow> Err e | (Inr _, c1) \<Rightarrow> Ok c1))
      else
        (let c = boot_new (bs_active st) in Ok (if bs_staged st \<noteq> None then snd (stage c) else c)))"

subsection \<open>Through the store\<close>

definition load_bootctrl_state ::
  "'d block_device \<Rightarrow> policy \<Rightarrow> u64 \<Rightarrow> u64 \<Rightarrow> 'd journal_engine \<Rightarrow> (statefs_error + boot_ctrl) \<times> 'd journal_engine" where
  "load_bootctrl_state B allows sid n e =
     (case client_get B allows sid n BOOTCTRL_STATE_KEY e of
        (Inl x, e1) \<Rightarrow> (Err x, e1)
      | (Inr bs, e1) \<Rightarrow>
          (case decode_bootctrl_state bs of
             Inl x \<Rightarrow> (Err x, e1)
           | Inr st \<Rightarrow> (map_err (\<lambda>_. SfCorrupted) (bootctrl_from_state st), e1)))"

definition persist_bootctrl_state ::
  "'d block_device \<Rightarrow> policy \<Rightarrow> u64 \<Rightarrow> u64 \<Rightarrow> boot_ctrl \<Rightarrow> 'd journal_engine option \<Rightarrow> (statefs_error + unit) \<times> 'd journal_engine option" where
  "persist_bootctrl_state B allows sid n c store =
     (case store of
        None \<Rightarrow> (Ok (), None)
      | Some e \<Rightarrow>
          (case client_put B allows sid n BOOTCTRL_STATE_KEY (encode_bootctrl_state c) e of
             (Inl x, e1) \<Rightarrow> (Err x, Some e1)
           | (Inr _, e1) \<Rightarrow>
               (case client_sync B allows sid (n + 1) e1 of
                  (Inl x, e2) \<Rightarrow> (Err x, Some e2) | (Inr _, e2) \<Rightarrow> (Ok (), Some e2))))"

subsection \<open>Handlers\<close>

record updated_state =
  us_boot :: boot_ctrl
  us_staged :: "u8 list option"
  us_staged_slot :: "slot option"

definition updated_new :: updated_state where
  "updated_new = \<lparr>us_boot = boot_new SlotA, us_staged = None, us_staged_slot = None\<rparr>"

type_synonym 'd updated_world = "updated_state \<times> 'd journal_engine option"

text \<open>At start the state is loaded; an I/O error is retried until a deadline, here \<open>attempts\<close> times.\<close>

fun load_retry ::
  "nat \<Rightarrow> 'd block_device \<Rightarrow> policy \<Rightarrow> u64 \<Rightarrow> u64 \<Rightarrow> 'd journal_engine \<Rightarrow> (statefs_error + boot_ctrl) \<times> 'd journal_engine" where
  "load_retry attempts B allows sid n e =
     (case load_bootctrl_state B allows sid n e of
        (Inl SfIoError, e1) \<Rightarrow>
          (case attempts of 0 \<Rightarrow> (Err SfIoError, e1) | Suc k \<Rightarrow> load_retry k B allows sid (n + 1) e1)
      | res \<Rightarrow> res)"

definition updated_start ::
  "nat \<Rightarrow> 'd block_device \<Rightarrow> policy \<Rightarrow> u64 \<Rightarrow> u64 \<Rightarrow> 'd journal_engine option \<Rightarrow> 'd updated_world" where
  "updated_start attempts B allows sid n store =
     (case store of
        None \<Rightarrow> (updated_new, None)
      | Some e \<Rightarrow>
          (case load_retry attempts B allows sid n e of
             (Inr boot, e1) \<Rightarrow> (updated_new\<lparr>us_boot := boot\<rparr>, Some e1)
           | (Inl _, e1) \<Rightarrow> (updated_new, Some e1)))"

definition handle_stage ::
  "'d block_device \<Rightarrow> policy \<Rightarrow> u64 \<Rightarrow> (u8 list \<Rightarrow> bool) \<Rightarrow> u64 \<Rightarrow> u8 list \<Rightarrow> 'd updated_world \<Rightarrow> u8 list \<times> 'd updated_world" where
  "handle_stage B allows sid verify n frame w =
     (case decode_stage_req frame of
        None \<Rightarrow> (upd_rsp UPD_OP_STAGE UPD_MALFORMED [], w)
      | Some payload \<Rightarrow>
          if MAX_STAGE_FRAME < saturating_add (length payload) 8 then (upd_rsp UPD_OP_STAGE UPD_MALFORMED [], w)
          else if \<not> verify payload then (upd_rsp UPD_OP_STAGE UPD_FAILED [], w)
          else
            (let (s, c) = stage (us_boot (fst w));
                 st = (fst w)\<lparr>us_staged := Some payload, us_boot := c, us_staged_slot := Some s\<rparr>
             in case persist_bootctrl_state B allows sid n c (snd w) of
                  (Inl _, store) \<Rightarrow> (upd_rsp UPD_OP_STAGE UPD_FAILED [], st, store)
                | (Inr _, store) \<Rightarrow> (upd_rsp UPD_OP_STAGE UPD_OK [], st, store)))"

definition handle_switch ::
  "'d block_device \<Rightarrow> policy \<Rightarrow> u64 \<Rightarrow> (slot \<Rightarrow> 'b \<Rightarrow> bool \<times> 'b) \<Rightarrow> u64 \<Rightarrow> u8 list \<Rightarrow> 'd updated_world \<Rightarrow> 'b \<Rightarrow> u8 list \<times> 'd updated_world \<times> 'b" where
  "handle_switch B allows sid bnd n frame w b =
     (case decode_switch_req frame of
        None \<Rightarrow> (upd_rsp UPD_OP_SWITCH UPD_MALFORMED [], w, b)
      | Some tries \<Rightarrow>
          (case switch tries (us_boot (fst w)) of
             (Inl _, c) \<Rightarrow> (upd_rsp UPD_OP_SWITCH UPD_FAILED [], ((fst w)\<lparr>us_boot := c\<rparr>, snd w), b)
           | (Inr s, c) \<Rightarrow>
               (case bnd s b of
                  (False, b1) \<Rightarrow>
                    (upd_rsp UPD_OP_SWITCH UPD_FAILED [], ((fst w)\<lparr>us_boot := snd (rollback c)\<rparr>, snd w), b1)
                | (True, b1) \<Rightarrow>
                    (let st = (fst w)\<lparr>us_boot := c, us_staged := None, us_staged_slot := None\<rparr> in
                     case persist_bootctrl_state B allows sid n c (snd w) of
                       (Inl _, store) \<Rightarrow>
                         (let c1 = snd (rollback c) in
                          (upd_rsp UPD_OP_SWITCH UPD_FAILED [], (st\<lparr>us_boot := c1\<rparr>, store), snd (bnd (active_slot c1) b1)))
                     | (Inr _, store) \<Rightarrow> (upd_rsp UPD_OP_SWITCH UPD_OK [], (st, store), b1)))))"

definition handle_health_ok ::
  "'d block_device \<Rightarrow> policy \<Rightarrow> u64 \<Rightarrow> u64 \<Rightarrow> u8 list \<Rightarrow> 'd updated_world \<Rightarrow> u8 list \<times> 'd updated_world" where
  "handle_health_ok B allows sid n frame w =
     (if \<not> decode_health_ok_req frame then (upd_rsp UPD_OP_HEALTH_OK UPD_MALFORMED [], w)
      else case commit_health (us_boot (fst w)) of
        (Inl _, c) \<Rightarrow> (upd_rsp UPD_OP_HEALTH_OK UPD_FAILED [], (fst w)\<lparr>us_boot := c\<rparr>, snd w)
      | (Inr _, c) \<Rightarrow>
          (case persist_bootctrl_state B allows sid n c (snd w) of
             (Inl _, store) \<Rightarrow> (upd_rsp UPD_OP_HEALTH_OK UPD_FAILED [], (fst w)\<lparr>us_boot := c\<rparr>, store)
           | (Inr _, store) \<Rightarrow> (upd_rsp UPD_OP_HEALTH_OK UPD_OK [], (fst w)\<lparr>us_boot := c\<rparr>, store)))"

definition handle_get_status :: "updated_state \<Rightarrow> u8 list" where
  "handle_get_status st =
     (let c = us_boot st in
      upd_rsp UPD_OP_GET_STATUS UPD_OK
        [encode_slot (active_slot c), (case pending_slot c of Some s \<Rightarrow> encode_slot s | None \<Rightarrow> 0), tries_left c,
         if health_ok c then 1 else 0])"

definition handle_boot_attempt ::
  "'d block_device \<Rightarrow> policy \<Rightarrow> u64 \<Rightarrow> u64 \<Rightarrow> u8 list \<Rightarrow> 'd updated_world \<Rightarrow> u8 list \<times> 'd updated_world" where
  "handle_boot_attempt B allows sid n frame w =
     (if \<not> decode_boot_attempt_req frame then (upd_rsp UPD_OP_BOOT_ATTEMPT UPD_MALFORMED [], w)
      else case tick_boot_attempt (us_boot (fst w)) of
        (Inl _, c) \<Rightarrow> (upd_rsp UPD_OP_BOOT_ATTEMPT UPD_FAILED [], (fst w)\<lparr>us_boot := c\<rparr>, snd w)
      | (Inr res, c) \<Rightarrow>
          (case persist_bootctrl_state B allows sid n c (snd w) of
             (Inl _, store) \<Rightarrow> (upd_rsp UPD_OP_BOOT_ATTEMPT UPD_FAILED [], (fst w)\<lparr>us_boot := c\<rparr>, store)
           | (Inr _, store) \<Rightarrow>
               (upd_rsp UPD_OP_BOOT_ATTEMPT UPD_OK [case res of Some s \<Rightarrow> encode_slot s | None \<Rightarrow> 0],
                (fst w)\<lparr>us_boot := c\<rparr>, store)))"

definition handle_updated ::
  "'d block_device \<Rightarrow> policy \<Rightarrow> u64 \<Rightarrow> (u8 list \<Rightarrow> bool) \<Rightarrow> (slot \<Rightarrow> 'b \<Rightarrow> bool \<times> 'b) \<Rightarrow> u64 \<Rightarrow> u8 list \<Rightarrow>
     'd updated_world \<Rightarrow> 'b \<Rightarrow> u8 list \<times> 'd updated_world \<times> 'b" where
  "handle_updated B allows sid verify bnd n frame w b =
     (let local = (\<lambda>(reply, w1). (reply, w1, b)) in
      case upd_request_op frame of
        None \<Rightarrow> (upd_rsp UPD_OP_STAGE UPD_MALFORMED [], w, b)
      | Some op \<Rightarrow>
          if op = UPD_OP_STAGE then local (handle_stage B allows sid verify n frame w)
          else if op = UPD_OP_SWITCH then handle_switch B allows sid bnd n frame w b
          else if op = UPD_OP_HEALTH_OK then local (handle_health_ok B allows sid n frame w)
          else if op = UPD_OP_GET_STATUS then (handle_get_status (fst w), w, b)
          else if op = UPD_OP_BOOT_ATTEMPT then local (handle_boot_attempt B allows sid n frame w)
          else if op = UPD_OP_LOG_PROBE then (upd_rsp UPD_OP_LOG_PROBE UPD_OK [], w, b)
          else (upd_rsp op UPD_UNSUPPORTED [], w, b))"

text \<open>How the init process interprets a reply it received to its boot attempt: \<open>None\<close>, not a reply to
  it; an error; or the slot to tell the bundle manager, if any.\<close>

definition init_read_reply :: "u8 list \<Rightarrow> (unit + u8 option) option" where
  "init_read_reply frame =
     (case decode_boot_attempt_rsp frame of
        None \<Rightarrow> None
      | Some (status, s) \<Rightarrow> Some (if status \<noteq> UPD_OK then Err () else if s = 0 then Ok None else Ok (Some s)))"

subsection \<open>Persistence\<close>

lemma decode_encode_slot [simp]: "decode_slot (encode_slot s) = Ok (Some s)" "decode_slot SLOT_NONE = Ok None"
  by (simp_all add: decode_slot_def encode_slot_def SLOT_NONE_def split: slot.split)

lemma decode_encode_state: "decode_bootctrl_state (encode_bootctrl_state c) = Ok (from_bootctrl c)"
  by (simp add: decode_bootctrl_state_def encode_bootctrl_state_def from_bootctrl_def Let_def split: option.split)

text \<open>What the encoding keeps of a boot control: all of it, but a slot staged while a switch is pending
  or after one was confirmed.\<close>

definition kept_state :: "boot_ctrl \<Rightarrow> boot_ctrl" where
  "kept_state c = (if pending_slot c \<noteq> None \<or> health_ok c then c\<lparr>staged_slot := None\<rparr> else c)"

lemma from_state_kept:
  assumes "boot_inv c"
  shows "bootctrl_from_state (from_bootctrl c) = Ok (kept_state c)"
proof -
  have staged: "staged_slot c = None \<or> staged_slot c = Some (other (active_slot c))"
    using assms by (cases "staged_slot c") (simp_all add: boot_inv_def)
  note defs = bootctrl_from_state_def from_bootctrl_def kept_state_def stage_def switch_def commit_health_def boot_new_def Let_def
  consider (pending) s where "pending_slot c = Some s" | (healthy) "pending_slot c = None" "health_ok c"
    | (idle) "pending_slot c = None" "\<not> health_ok c" by auto
  then show ?thesis
  proof cases
    case pending
    then have "s = active_slot c" "rollback_slot c = Some (other s)" "\<not> health_ok c" using assms by (simp_all add: boot_inv_def)
    then show ?thesis using pending by (cases c) (simp add: defs)
  next
    case healthy
    then have "rollback_slot c = None" "tries_left c = 0" using assms by (simp_all add: boot_inv_def)
    then show ?thesis using healthy by (cases c) (simp add: defs)
  next
    case idle
    then have "rollback_slot c = None" "tries_left c = 0" using assms by (simp_all add: boot_inv_def)
    then show ?thesis using idle staged by (cases c) (auto simp: defs)
  qed
qed

lemma boot_key:
  "BOOTCTRL_STATE_KEY \<noteq> []" "length BOOTCTRL_STATE_KEY \<le> MAX_KEY_LEN" "utf8_valid BOOTCTRL_STATE_KEY"
  "validate_key BOOTCTRL_STATE_KEY = Ok ()"
  by code_simp+

lemma boot_key_policy: "policy_allows allows s OP_GET BOOTCTRL_STATE_KEY = policy_allows allows s OP_PUT BOOTCTRL_STATE_KEY"
proof -
  have "BOOTCTRL_STATE_KEY \<noteq> TASK0018_CHILD_DUMP_PATH" "starts_with BOOTCTRL_STATE_KEY (ascii ''/state/boot/'')" by code_simp+
  then show ?thesis by (simp add: policy_allows_def canonical_subject_def required_cap_def)
qed

lemma client_sync_eq:
  "client_sync mem_device allows s n e = (if allows s CAP_BOOT \<or> allows s CAP_WRITE then Ok () else Err SfAccessDenied, e)"
proof -
  have enc: "encode_request ReqSync = Ok encode_sync_request" by (simp add: encode_request_def)
  have ok: "request_ok ReqSync" by (simp add: request_ok_def)
  let ?st = "if allows s CAP_BOOT \<or> allows s CAP_WRITE then STATUS_OK else STATUS_ACCESS_DENIED"
  have "handle_request mem_device allows s (request_norm ReqSync) (Some n) e = (encode_status_response_with_nonce OP_SYNC ?st (Some n), e)"
    by (simp add: handle_request_def request_norm_def sf_sync_def status_of_def)
  from send_encoded[OF ok enc this] show ?thesis by (simp add: client_sync_def statuses)
qed

lemma persist_put:
  assumes "persist_bootctrl_state mem_device allows s m c (Some e) = (Ok (), Some e1)"
  shows "policy_allows allows s OP_PUT BOOTCTRL_STATE_KEY" "sf_put mem_device BOOTCTRL_STATE_KEY (encode_bootctrl_state c) e = (Ok (), e1)"
  using assms
  by (auto simp: persist_bootctrl_state_def client_put_eq[OF boot_key(1-3)]
      client_sync_eq split: prod.splits sum.splits if_splits)

lemma load_stored:
  assumes "policy_allows allows s OP_PUT BOOTCTRL_STATE_KEY" "bt_get (je_kv e) BOOTCTRL_STATE_KEY = Some (encode_bootctrl_state c)" "boot_inv c"
  shows "load_bootctrl_state B allows s n e = (Ok (kept_state c), e)"
proof -
  have "length (encode_bootctrl_state c) = 6" by (simp add: encode_bootctrl_state_def Let_def)
  then have "client_get B allows s n BOOTCTRL_STATE_KEY e = (Ok (encode_bootctrl_state c), e)"
    using assms boot_key(4)
    by (simp add: client_get_eq[OF boot_key(1-3)] boot_key_policy sf_get_def MAX_INLINE_VALUE_BYTES_def IPC_MAX_FRAME_BYTES_def CLIENT_BUF_def)
  then show ?thesis by (simp add: load_bootctrl_state_def decode_encode_state from_state_kept[OF assms(3)])
qed

lemma sf_run_append1: "sf_run B ops e = (xs, e1) \<Longrightarrow> sf_step B p e1 = (r, e2) \<Longrightarrow> sf_run B (ops @ [p]) e = (xs @ [r], e2)"
  by (induction ops arbitrary: e xs) (auto split: prod.splits)

lemma sf_run_length: "sf_run B ops e = (xs, e1) \<Longrightarrow> length xs = length ops"
  by (induction ops arbitrary: e xs) (auto split: prod.splits)

text \<open>C15: The boot control survives a restart.  On a store with any history from a new device on, when
  persisting a reachable boot control state reports success, then opening the device again and
  starting the service restores it: active and pending slot, rollback target, tries left and health.
  Only a slot staged while a switch is pending or after one was confirmed is forgotten.\<close>

theorem boot_state_persist:
  assumes "0 < bs" "n * bs \<le> usize_max" "open_engine mem_device (mem_device_new bs n) = Ok e0"
    and "sf_run mem_device ops e0 = (xs, e)" "list_all op_str ops" "Suc (length ops) < MAX_REPLAY_RECORDS"
    and "boot_reach c" "persist_bootctrl_state mem_device allows sid m c (Some e) = (Ok (), Some e1)"
  shows "\<exists>e2. open_engine mem_device (je_device e1) = Ok e2 \<and>
    updated_start k mem_device allows sid m' (Some e2) = (updated_new\<lparr>us_boot := kept_state c\<rparr>, Some e2)"
proof -
  note put = persist_put[OF assms(8)]
  let ?p = "SfPut BOOTCTRL_STATE_KEY (encode_bootctrl_state c)"
  have run: "sf_run mem_device (ops @ [?p]) e0 = (xs @ [Ok ()], e1)"
    using put(2) by (intro sf_run_append1[OF assms(4)]) (simp add: sf_step_def)
  have ops: "list_all op_str (ops @ [?p])" "length (ops @ [?p]) < MAX_REPLAY_RECORDS"
    using assms(5,6) boot_key(3) by (simp_all add: op_str_def)
  note d = mb.run_durable[OF mem_device_new_ok[OF assms(1)] mem_device_new_zero assms(2,3) run ops]
  have "bt_get (je_kv e1) BOOTCTRL_STATE_KEY = Some (encode_bootctrl_state c)"
    using d(2) sf_run_length[OF assms(4)] by (simp add: op_spec_def)
  from load_stored[OF put(1) this boot_reach_inv[OF assms(7)]] show ?thesis
    using d(1) by (auto simp: updated_start_def)
qed

theorem boot_state_persist_witness:
  "\<exists>e e1 e2. let c = snd (stage (boot_new SlotB)) in
     open_engine mem_device (mem_device_new 8 8) = Ok e \<and>
     persist_bootctrl_state mem_device (\<lambda>_ _. True) 5 1 c (Some e) = (Ok (), Some e1) \<and>
     open_engine mem_device (je_device e1) = Ok e2 \<and>
     us_boot (fst (updated_start 0 mem_device (\<lambda>_ _. True) 5 9 (Some e2))) = c"
proof -
  let ?e = "\<lparr>je_device = mem_device_new 8 8, je_kv = [], je_write_pos = 0, je_record_count = 0\<rparr>"
  let ?c = "snd (stage (boot_new SlotB))"
  let ?all = "\<lambda>_ _. True"
  have reach: "boot_reach ?c" by (intro reach_step[OF reach_new step_stage])
  have op: "open_engine mem_device (mem_device_new 8 8) = Ok ?e"
    by (rule mb.fresh_journal(1)[OF _ mem_device_new_zero]) (simp_all add: mem_device_new_ok usize_max_def)
  obtain r e1 where put: "sf_put mem_device BOOTCTRL_STATE_KEY (encode_bootctrl_state ?c) ?e = (r, e1)" by force
  have len: "length (image_of mb_blocks ?e) = 64" "length BOOTCTRL_STATE_KEY = 22" "length (encode_bootctrl_state ?c) = 6"
    by (simp_all add: image_of_def mem_device_new_zero BOOTCTRL_STATE_KEY_def ascii_def encode_bootctrl_state_def Let_def)
  have "mem_ok (je_device ?e)" by (simp add: mem_device_new_ok)
  from mb.put_outcome(1)[OF this put] have "r = Ok ()" using boot_key(4) len by (simp add: MAX_VALUE_SIZE_def)
  then have "client_put mem_device ?all 5 1 BOOTCTRL_STATE_KEY (encode_bootctrl_state ?c) ?e = (Ok (), e1)"
    using put len(3) by (simp add: client_put_eq[OF boot_key(1-3)] policy_allows_def MAX_INLINE_VALUE_BYTES_def IPC_MAX_FRAME_BYTES_def)
  then have per: "persist_bootctrl_state mem_device ?all 5 1 ?c (Some ?e) = (Ok (), Some e1)"
    by (simp add: persist_bootctrl_state_def client_sync_eq)
  have "\<exists>e2. open_engine mem_device (je_device e1) = Ok e2 \<and>
      updated_start 0 mem_device ?all 5 9 (Some e2) = (updated_new\<lparr>us_boot := kept_state ?c\<rparr>, Some e2)"
    by (rule boot_state_persist[OF _ _ op _ _ _ reach per, where ops = "[]"]) (simp_all add: usize_max_def MAX_REPLAY_RECORDS_def)
  then obtain e2 where e2: "open_engine mem_device (je_device e1) = Ok e2"
    "updated_start 0 mem_device ?all 5 9 (Some e2) = (updated_new\<lparr>us_boot := kept_state ?c\<rparr>, Some e2)" by blast
  have "kept_state ?c = ?c" by (simp add: kept_state_def stage_def boot_new_def)
  then have "us_boot (fst (updated_start 0 mem_device ?all 5 9 (Some e2))) = ?c" using e2(2) by simp
  then show ?thesis using op per e2(1) unfolding Let_def by blast
qed

subsection \<open>The reply to a boot attempt\<close>

lemma read_reply:
  "init_read_reply (upd_rsp UPD_OP_BOOT_ATTEMPT UPD_OK [x]) = Some (Ok (Some 1))"
  "init_read_reply (upd_rsp UPD_OP_BOOT_ATTEMPT st []) = None"
proof -
  have len: "to_le 2 (1 :: u16) = [1, 0]" "to_le 2 (0 :: u16) = [0, 0]" by code_simp+
  note defs = init_read_reply_def decode_boot_attempt_rsp_def decode_frame_def check_hdr_def take_field_def upd_rsp_def Let_def len
    reader_new_def expect_u8_def take_u8_def REPLY_BIT_def skip_def take_bytes_def checked_add_def usize_max_def finish_exact_def UPD_OK_def
  show "init_read_reply (upd_rsp UPD_OP_BOOT_ATTEMPT UPD_OK [x]) = Some (Ok (Some 1))"
    "init_read_reply (upd_rsp UPD_OP_BOOT_ATTEMPT st []) = None"
    by (simp_all add: defs)
qed

text \<open>C40: The init process misreads the reply to a boot attempt.  The service answers with a length
  before its payload, the decoder of the reply expects the slot there.  So whatever slot a successful
  reply reports (none, A or B), init reads slot A, which it passes to the bundle manager; and a
  reply that reports a failure is not recognised as a reply.  The attempt is counted in both cases.\<close>

theorem boot_attempt_reply_misread:
  "case handle_boot_attempt B allows sid n [UPD_MAGIC0, UPD_MAGIC1, UPD_VERSION, UPD_OP_BOOT_ATTEMPT] w of
     (reply, w1) \<Rightarrow>
       us_boot (fst w1) = snd (tick_boot_attempt (us_boot (fst w))) \<and>
       init_read_reply reply = (if reply ! 4 = UPD_OK then Some (Ok (Some (encode_slot SlotA))) else None)"
proof -
  have dec: "decode_boot_attempt_req [UPD_MAGIC0, UPD_MAGIC1, UPD_VERSION, UPD_OP_BOOT_ATTEMPT]"
    by code_simp
  have st: "upd_rsp op st xs ! 4 = st" for op st xs by (simp add: upd_rsp_def Let_def)
  have "UPD_FAILED \<noteq> UPD_OK" by (simp add: UPD_FAILED_def UPD_OK_def)
  then show ?thesis
    using dec by (auto simp: handle_boot_attempt_def st read_reply encode_slot_def split: prod.split sum.split)
qed

end
