(* ===== verification/Spec2Isabelle.thy ===== *)
theory Spec2Isabelle
  imports Ipc_Header Ipc_Correct Waitset Fence Ktimer Sched_Correct Vmo_Pool_Correct As_Manager_Correct Tlb Kernel_Correct Gpt_Correct Wire_Correct Updated
begin

text \<open>
  A verification development for Open Nexus OS: the Neuron microkernel
  (\<open>source/kernel/neuron/src\<close>), and above it the persistent store and the update path
  (\<open>userspace/storage\<close>, \<open>userspace/statefs\<close>, \<open>userspace/updates\<close>, \<open>source/libs/nexus-wire\<close>,
  \<open>source/services/statefsd\<close>, \<open>source/services/updated\<close>).  The properties are numbered in the
  texts before them.

  \<^bold>\<open>The program and its parts.\<close>  A trap enters the kernel under one lock.  It is an interrupt, a fault or a
  system call; a system call is looked up in the dispatch table and its handler works on the task
  table, the scheduler, the IPC router, the address spaces and the object tables, and may block the
  caller and switch.  Between traps each CPU runs its idle loop.  User services talk through
  endpoints.  The store service keeps a journal on a block device or a partition of one; the update
  service keeps the A/B boot state in the store; the init process asks it at every boot.

  \<^bold>\<open>Conventions.\<close>  A struct is a record, an enum a datatype, an operation a function that takes and
  returns the state.  \<open>Result\<close> is a sum with \<open>Ok\<close> and \<open>Err\<close>, \<open>Option\<close> is \<open>option\<close>, a panic or an abort is
  \<open>None\<close>.  Machine integers are words where they can wrap; \<open>usize\<close> is \<open>nat\<close> where the code checks or
  saturates, with the checked and saturating operations of \<open>Prelude\<close>.  Arithmetic wraps as in a release
  build.  A \<open>BTreeMap\<close> is an ordered association list (\<open>Handles\<close>).  Code outside the repository or behind
  hardware is a parameter: the executing CPU, the time, the answer of the firmware to an
  inter-processor interrupt, the claims of the interrupt controller, linker addresses, the decision of
  the policy service, the bundle manager, the verification of a system set.

  \<^bold>\<open>Kernel components.\<close>
  \<^item> \<open>Cap\<close>: capability tables (\<open>cap/mod.rs\<close>).  The contract \<open>slot_table\<close> extends \<open>handle_store\<close>; allocation
    hands out an empty slot, in the order its discipline says.
  \<^item> \<open>Ipc_Header\<close>, \<open>Ipc\<close>, \<open>Ipc_Correct\<close>: messages, endpoints and the router (\<open>ipc\<close>): queue bounds, byte
    budgets per endpoint, owner and system, waiters, closing.  \<open>router_wf\<close> is kept by every operation;
    each endpoint is a \<open>bounded_fifo\<close>; sends have exactly the outcomes the code documents.
  \<^item> \<open>Waitset\<close>, \<open>Fence\<close>, \<open>Ktimer\<close>: the object tables (\<open>waitset.rs\<close>, \<open>fence.rs\<close>, \<open>timer.rs\<close>), each a \<open>handle_store\<close>.
    A fence signal wakes exactly the satisfied waiters; the timer queue indexes exactly the armed
    timers and periodic timers do not drift.
  \<^item> \<open>Sched\<close>, \<open>Sched_Correct\<close>: the per-CPU run queues (\<open>sched/mod.rs\<close>): class priority, order inside a class,
    round robin, capacity, and where tasks are conserved and where not.
  \<^item> \<open>Smp\<close>, \<open>Tlb\<close>: CPU coordination (\<open>core/smp\<close>).  The shootdown protocol is a step relation in which
    a responder's load, flush and store interleave; nothing stale is left and the initiator returns.
  \<^item> \<open>Vmo_Pool\<close>, \<open>Vmo_Pool_Correct\<close>: the arena of memory objects (\<open>syscall/api/vmo.rs\<close>): every range handed
    out is fresh, disjoint from live ones and zero; live memory is not touched.
  \<^item> \<open>Page_Table\<close>, \<open>Page_Table_Correct\<close>: the Sv39 table (\<open>mm/page_table.rs\<close>).  The tables form a tree, mapping
    changes exactly one translation, and no page is writable and executable.
  \<^item> \<open>Addr_Space\<close>, \<open>Addr_Space_Correct\<close>, \<open>As_Manager_Correct\<close>: address spaces and ASIDs
    (\<open>mm/address_space.rs\<close>): spaces share no table page, identifiers in use are distinct.
  \<^item> \<open>Task\<close>: the task table and the kernel state (\<open>task\<close>, \<open>core/kmain.rs\<close>).
  \<^item> \<open>Kmonad\<close>, \<open>Sys_Ipc\<close>, \<open>Sys_Objects\<close>, \<open>Sys_Task\<close>, \<open>Sys_Mem\<close>, \<open>Sys_Exec\<close>: the system calls (\<open>syscall/api\<close>),
    one definition per handler, with user memory reached through the caller's page table.
  \<^item> \<open>Trap\<close>: dispatch, traps, timer and interrupt delivery and the per-CPU loop (\<open>core/trap\<close>, \<open>core/irq.rs\<close>,
    \<open>core/cpu_main.rs\<close>); \<open>kernel_run\<close> executes a history of entries.
  \<^item> \<open>Kernel_Inv\<close>, \<open>Run_Sound\<close>, \<open>Kernel_Correct\<close>: the composition.  A property that every primitive operation
    keeps is kept by every history (\<open>kernel_inv\<close>); its interpretations give the invariants of the
    components, the agreement of scheduler and task table, and the ownership of address spaces.

  \<^bold>\<open>Store and update path.\<close>
  \<^item> \<open>Bytes\<close>: slices, \<open>str\<close> predicates, UTF-8 validation and the CRC loop.
  \<^item> \<open>Block_Device\<close>: the trait as a record of methods, the in-memory device, the partition view; the
    contract \<open>block_store\<close> holds of the device and of views of it.
  \<^item> \<open>Gpt\<close>, \<open>Gpt_Correct\<close>: the partition table: round trip, and bounds of every parse.
  \<^item> \<open>Statefs\<close>, \<open>Statefs_Correct\<close>: the journal engine.  The streaming replay equals the parse of the image;
    the engine refines a map and survives reopening; a put is atomic across a power loss, given that
    the CRC tells the torn record from a whole one; a store in a partition stays in it.
  \<^item> \<open>Statefs_Proto\<close>, \<open>Statefsd\<close>: the protocol, the service and the client: calls do end to end what the
    engine does, and keystore values neither change nor show without their capability.
  \<^item> \<open>Boot_Ctrl\<close>, \<open>Wire\<close>, \<open>Wire_Correct\<close>, \<open>Updated\<close>: the boot control as a step relation, the frame language with
    its round trip for every declaration, and the update service: an unconfirmed switch falls back, a
    confirmed one stays, the state survives a restart through the store; and init misreads the
    reply to a boot attempt.

  \<^bold>\<open>Bounds and fuel.\<close>  Loops are structural recursions or have termination proofs.  The identifier search
  \<open>probe_loop\<close> is a partial function, and shown to return while the table is not full.  The walk of
  \<open>pt_verify\<close> has fuel; three levels are enough, since a table is a tree of depth three.  \<open>load_retry\<close> has the
  number of attempts that fit before the deadline.  The durability results assume fewer records
  than the replay limit of 100000, without which the store cannot be opened, and a device that
  \<open>usize\<close> can address.

  \<^bold>\<open>Not modelled.\<close>  Logging, tracing, audit lines, self tests and the panic path: output only.  The lock
  itself: a kernel entry is one atomic step.  Register access, assembly and hart start-up, and the
  device drivers: hardware.  Of the store and update services, the receive loops, the retries and
  clocks of the transport and the choice of the backing device: a call is a request and its reply,
  and a reply that does not match is the timeout.  The fixed-size encoder form of the frame
  language, system-set parsing and signatures.  The other services, libraries, applications and host
  tools: graphics, networking, packaging and user interface above the kernel interface; their
  correctness rests on device protocols, floating point or external crates that are not part of the
  repository.
\<close>

end
